(* ===== verification/Go_Prelude.thy ===== *)
theory Go_Prelude
  imports Main "HOL-Library.Signed_Division" "HOL-Library.Code_Target_Nat"
begin

text \<open>
  The parts of the Go language and its standard library the driver relies on, shared by
  every component theory: 64-bit signed integers with wrap-around, the byte strings of Go
  (an Isabelle \<^typ>\<open>string\<close> is a list of 8-bit characters, as a Go string is a sequence of
  bytes), the UTF-8 decoding that \<^verbatim>\<open>for _, r := range s\<close> performs, and the functions of
  \<^verbatim>\<open>strings\<close> and \<^verbatim>\<open>strconv\<close> that the sources call. Every definition computes.
\<close>

named_theorems go_int_simps \<open>range and wrap-around facts of 64-bit integers\<close>
named_theorems go_string_simps \<open>rewriting for the functions of package strings\<close>

section \<open>64-bit signed integers\<close>

text \<open>An \<^verbatim>\<open>int64\<close> (and an \<^verbatim>\<open>int\<close> on the 64-bit targets of the driver) is an \<^typ>\<open>int\<close>
  kept in range by \<open>wrap64\<close>, which is what two's-complement arithmetic does.\<close>

definition MinInt64 :: int where "MinInt64 = - 9223372036854775808"

definition MaxInt64 :: int where "MaxInt64 = 9223372036854775807"

definition in64 :: "int \<Rightarrow> bool" where
  "in64 x \<longleftrightarrow> MinInt64 \<le> x \<and> x \<le> MaxInt64"

definition wrap64 :: "int \<Rightarrow> int" where
  "wrap64 x = (x + 9223372036854775808) mod 18446744073709551616 - 9223372036854775808"

definition add64 :: "int \<Rightarrow> int \<Rightarrow> int" where "add64 a b = wrap64 (a + b)"

definition sub64 :: "int \<Rightarrow> int \<Rightarrow> int" where "sub64 a b = wrap64 (a - b)"

definition mul64 :: "int \<Rightarrow> int \<Rightarrow> int" where "mul64 a b = wrap64 (a * b)"

text \<open>Go's \<^verbatim>\<open>/\<close> truncates towards zero; a zero divisor panics, which the callers model.\<close>

definition div64 :: "int \<Rightarrow> int \<Rightarrow> int" where "div64 a b = wrap64 (a sdiv b)"

lemma in64_wrap64 [simp]: "in64 (wrap64 x)"
proof -
  have "0 \<le> (x + 9223372036854775808) mod 18446744073709551616"
    and "(x + 9223372036854775808) mod 18446744073709551616 < 18446744073709551616"
    by simp_all
  then show ?thesis unfolding in64_def wrap64_def MinInt64_def MaxInt64_def by linarith
qed

lemma wrap64_id [go_int_simps]: "in64 x \<Longrightarrow> wrap64 x = x"
  by (simp add: in64_def wrap64_def MinInt64_def MaxInt64_def)

lemma in64_between: "in64 a \<Longrightarrow> in64 b \<Longrightarrow> a \<le> x \<Longrightarrow> x \<le> b \<Longrightarrow> in64 x"
  by (simp add: in64_def)

lemma in64_nonneg_le: "0 \<le> x \<Longrightarrow> x \<le> b \<Longrightarrow> in64 b \<Longrightarrow> in64 x"
  by (simp add: in64_def MinInt64_def)

lemma sdiv_pos: "0 \<le> a \<Longrightarrow> 0 < b \<Longrightarrow> a sdiv b = (a div b :: int)"
  by (simp add: signed_divide_int_def sgn_if)

lemma div64_pos: "0 \<le> a \<Longrightarrow> 0 < b \<Longrightarrow> in64 a \<Longrightarrow> div64 a b = a div b"
proof -
  assume a: "0 \<le> a" and b: "0 < b" and r: "in64 a"
  from a b have "0 \<le> a div b" by (simp add: pos_imp_zdiv_nonneg_iff)
  moreover have "a div b \<le> a div 1" using a b by (intro zdiv_mono2) auto
  then have "a div b \<le> a" by simp
  ultimately have "in64 (a div b)" using r by (rule in64_nonneg_le)
  then show ?thesis by (simp add: div64_def sdiv_pos a b wrap64_id)
qed

lemmas arith64_defs = add64_def sub64_def mul64_def div64_def

section \<open>Decimal numbers: strconv\<close>

fun digit_char :: "nat \<Rightarrow> char" where
  "digit_char d = char_of (48 + d)"

definition is_digit :: "char \<Rightarrow> bool" where
  "is_digit c \<longleftrightarrow> 48 \<le> (of_char c :: nat) \<and> (of_char c :: nat) \<le> 57"

definition digit_val :: "char \<Rightarrow> nat" where
  "digit_val c = of_char c - 48"

fun show_nat :: "nat \<Rightarrow> string" where
  "show_nat n = (if n < 10 then [digit_char n] else show_nat (n div 10) @ [digit_char (n mod 10)])"

declare show_nat.simps [simp del]

text \<open>\<^verbatim>\<open>strconv.FormatInt(n, 10)\<close> and \<^verbatim>\<open>strconv.Itoa\<close>.\<close>

definition FormatInt :: "int \<Rightarrow> string" where
  "FormatInt n = (if n < 0 then CHR ''-'' # show_nat (nat (- n)) else show_nat (nat n))"

fun digits_val :: "nat \<Rightarrow> string \<Rightarrow> nat" where
  "digits_val acc [] = acc"
| "digits_val acc (c # cs) = digits_val (10 * acc + digit_val c) cs"

text \<open>\<^verbatim>\<open>strconv.ParseInt(s, 10, 64)\<close> returns a value and an error. On a syntax error the
  value is 0, on a range error it is the nearest bound: callers that drop the error see it,
  so the model returns both (\<open>True\<close>: no error).\<close>

definition parse_magnitude :: "bool \<Rightarrow> string \<Rightarrow> int \<times> bool" where
  "parse_magnitude neg ds =
     (if ds = [] \<or> \<not> list_all is_digit ds then (0, False)
      else let v = int (digits_val 0 ds); x = (if neg then - v else v) in
        if x < MinInt64 then (MinInt64, False)
        else if MaxInt64 < x then (MaxInt64, False)
        else (x, True))"

definition ParseInt :: "string \<Rightarrow> int \<times> bool" where
  "ParseInt s =
     (case s of [] \<Rightarrow> (0, False)
      | c # cs \<Rightarrow> if c = CHR ''-'' then parse_magnitude True cs
                  else if c = CHR ''+'' then parse_magnitude False cs
                  else parse_magnitude False s)"

lemma of_char_digit_char [simp]: "d < 10 \<Longrightarrow> of_char (digit_char d) = (48 + d :: nat)"
  by (simp add: of_char_of)

lemma is_digit_digit_char [simp]: "d < 10 \<Longrightarrow> is_digit (digit_char d)"
  by (simp add: is_digit_def del: digit_char.simps)

lemma digit_val_digit_char [simp]: "d < 10 \<Longrightarrow> digit_val (digit_char d) = d"
  by (simp add: digit_val_def del: digit_char.simps)

lemma show_nat_digits: "list_all is_digit (show_nat n)"
proof (induction n rule: show_nat.induct)
  case (1 n)
  then show ?case by (cases "n < 10") (auto simp: show_nat.simps [of n] simp del: digit_char.simps)
qed

lemma show_nat_nonempty [simp]: "show_nat n \<noteq> []"
  by (subst show_nat.simps) simp

lemma digits_val_append: "digits_val a (xs @ ys) = digits_val (digits_val a xs) ys"
  by (induction xs arbitrary: a) auto

lemma digits_val_show_nat: "digits_val 0 (show_nat n) = n"
proof (induction n rule: show_nat.induct)
  case (1 n)
  show ?case
  proof (cases "n < 10")
    case True
    then show ?thesis by (simp add: show_nat.simps [of n] del: digit_char.simps)
  next
    case False
    with 1 show ?thesis
      by (simp add: show_nat.simps [of n] digits_val_append del: digit_char.simps)
  qed
qed

lemma is_digit_not_sign: "is_digit c \<Longrightarrow> c \<noteq> CHR ''-'' \<and> c \<noteq> CHR ''+'' \<and> c \<noteq> CHR ''/''"
  by (auto simp: is_digit_def)

lemma show_nat_head: "show_nat n = c # cs \<Longrightarrow> is_digit c"
  using show_nat_digits [of n] by simp

text \<open>Printing and parsing are inverse on the whole 64-bit range.\<close>

lemma ParseInt_FormatInt: "in64 n \<Longrightarrow> ParseInt (FormatInt n) = (n, True)"
proof -
  assume r: "in64 n"
  obtain c cs where s: "show_nat (nat n) = c # cs" by (cases "show_nat (nat n)") auto
  then have d: "c \<noteq> CHR ''-''" "c \<noteq> CHR ''+''"
    using show_nat_head is_digit_not_sign by blast+
  have v: "digits_val 0 (c # cs) = nat n"
    by (metis digits_val_show_nat s)
  have l: "list_all is_digit (c # cs)"
    by (metis show_nat_digits s)
  show ?thesis
  proof (cases "n < 0")
    case True
    then show ?thesis using r show_nat_digits [of "nat (- n)"]
      by (simp add: ParseInt_def FormatInt_def parse_magnitude_def digits_val_show_nat
          in64_def MinInt64_def MaxInt64_def Let_def)
  next
    case False
    then have "FormatInt n = c # cs" by (simp add: FormatInt_def s)
    then show ?thesis using r False d v l
      by (simp add: ParseInt_def parse_magnitude_def in64_def MinInt64_def MaxInt64_def Let_def
          del: digits_val.simps)
  qed
qed

lemma FormatInt_nonempty [simp]: "FormatInt n \<noteq> []"
  by (simp add: FormatInt_def)

lemma ParseInt_in64: "ParseInt s = (n, ok) \<Longrightarrow> in64 n"
  by (auto simp: ParseInt_def parse_magnitude_def in64_def MinInt64_def MaxInt64_def Let_def
      split: list.splits if_splits)

definition number_char :: "char \<Rightarrow> bool" where
  "number_char c \<longleftrightarrow> is_digit c \<or> c = CHR ''-''"

lemma FormatInt_chars: "c \<in> set (FormatInt n) \<Longrightarrow> number_char c"
  using show_nat_digits by (auto simp: FormatInt_def number_char_def list_all_iff split: if_splits)

section \<open>UTF-8 decoding: the runes of a string\<close>

text \<open>\<^verbatim>\<open>utf8.DecodeRune\<close>: the width in bytes of the first rune of a non-empty string. An
  invalid or truncated encoding is one byte wide (and decodes to \<^verbatim>\<open>RuneError\<close>).\<close>

definition byte_in :: "nat \<Rightarrow> nat \<Rightarrow> char \<Rightarrow> bool" where
  "byte_in lo hi c \<longleftrightarrow> lo \<le> (of_char c :: nat) \<and> (of_char c :: nat) \<le> hi"

definition cont_ok :: "nat \<Rightarrow> nat \<Rightarrow> nat \<Rightarrow> string \<Rightarrow> bool" where
  "cont_ok k lo hi cs \<longleftrightarrow> (case cs of [] \<Rightarrow> False
     | c # r \<Rightarrow> byte_in lo hi c \<and> length (takeWhile (byte_in 128 191) (take (k - 1) r)) = k - 1)"

definition rune_width :: "char \<Rightarrow> string \<Rightarrow> nat" where
  "rune_width c cs =
     (if byte_in 194 223 c \<and> cont_ok 1 128 191 cs then 2
      else if byte_in 224 224 c \<and> cont_ok 2 160 191 cs then 3
      else if (byte_in 225 236 c \<or> byte_in 238 239 c) \<and> cont_ok 2 128 191 cs then 3
      else if byte_in 237 237 c \<and> cont_ok 2 128 159 cs then 3
      else if byte_in 240 240 c \<and> cont_ok 3 144 191 cs then 4
      else if byte_in 241 243 c \<and> cont_ok 3 128 191 cs then 4
      else if byte_in 244 244 c \<and> cont_ok 3 128 143 cs then 4
      else 1)"

text \<open>The code point of the bytes of one rune; \<^verbatim>\<open>RuneError\<close> (U+FFFD) for an invalid byte.\<close>

definition rune_value :: "string \<Rightarrow> nat" where
  "rune_value bs = (case map (of_char :: char \<Rightarrow> nat) bs of
     [a] \<Rightarrow> (if a < 128 then a else 65533)
   | [a, b] \<Rightarrow> (a mod 32) * 64 + b mod 64
   | [a, b, c] \<Rightarrow> (a mod 16) * 4096 + (b mod 64) * 64 + c mod 64
   | [a, b, c, d] \<Rightarrow> (a mod 8) * 262144 + (b mod 64) * 4096 + (c mod 64) * 64 + d mod 64
   | _ \<Rightarrow> 65533)"

text \<open>The runes of a string in order, each with its code point and its bytes: what
  \<^verbatim>\<open>range\<close> over a string visits.\<close>

function runes :: "string \<Rightarrow> (nat \<times> string) list" where
  "runes [] = []"
| "runes (c # cs) = (let k = rune_width c cs; bs = take k (c # cs)
     in (rune_value bs, bs) # runes (drop (k - 1) cs))"
  by pat_completeness auto
termination
  by (relation "measure length") auto

definition ascii :: "char \<Rightarrow> bool" where
  "ascii c \<longleftrightarrow> (of_char c :: nat) < 128"

lemma rune_width_ascii: "ascii c \<Longrightarrow> rune_width c cs = 1"
  by (simp add: rune_width_def byte_in_def ascii_def)

lemma runes_ascii: "list_all ascii s \<Longrightarrow> runes s = map (\<lambda>c. (of_char c, [c])) s"
  by (induction s) (auto simp: rune_width_ascii rune_value_def ascii_def Let_def)

lemma rune_width_pos: "0 < rune_width c cs"
  by (simp add: rune_width_def)

lemma concat_runes: "concat (map snd (runes s)) = s"
proof (induction s rule: runes.induct)
  case (2 c cs)
  obtain k where k: "rune_width c cs = Suc k"
    using rune_width_pos [of c cs] by (cases "rune_width c cs") auto
  with 2 [OF refl refl] show ?case by (simp add: Let_def)
qed simp

section \<open>Package strings\<close>

text \<open>\<^verbatim>\<open>unicode.IsSpace\<close> on a code point.\<close>

definition is_space_rune :: "nat \<Rightarrow> bool" where
  "is_space_rune r \<longleftrightarrow> r \<in> {9, 10, 11, 12, 13, 32, 133, 160, 5760, 8232, 8233, 8239, 8287, 12288}
     \<or> (8192 \<le> r \<and> r \<le> 8202)"

definition TrimSpace :: "string \<Rightarrow> string" where
  "TrimSpace s = concat (map snd (rev (dropWhile (\<lambda>p. is_space_rune (fst p))
     (rev (dropWhile (\<lambda>p. is_space_rune (fst p)) (runes s))))))"

text \<open>\<^verbatim>\<open>strings.Fields\<close>: the maximal runs of non-space runes.\<close>

fun fields_acc :: "string \<Rightarrow> (nat \<times> string) list \<Rightarrow> string list" where
  "fields_acc cur [] = (if cur = [] then [] else [cur])"
| "fields_acc cur ((r, bs) # rs) =
     (if is_space_rune r then (if cur = [] then fields_acc [] rs else cur # fields_acc [] rs)
      else fields_acc (cur @ bs) rs)"

definition Fields :: "string \<Rightarrow> string list" where
  "Fields s = fields_acc [] (runes s)"

definition HasPrefix :: "string \<Rightarrow> string \<Rightarrow> bool" where
  "HasPrefix s p \<longleftrightarrow> take (length p) s = p"

definition HasSuffix :: "string \<Rightarrow> string \<Rightarrow> bool" where
  "HasSuffix s p \<longleftrightarrow> HasPrefix (rev s) (rev p)"

definition TrimPrefix :: "string \<Rightarrow> string \<Rightarrow> string" where
  "TrimPrefix s p = (if HasPrefix s p then drop (length p) s else s)"

fun Contains :: "string \<Rightarrow> string \<Rightarrow> bool" where
  "Contains [] p \<longleftrightarrow> p = []"
| "Contains (c # cs) p \<longleftrightarrow> HasPrefix (c # cs) p \<or> Contains cs p"

text \<open>\<^verbatim>\<open>strings.SplitN(s, sep, n)\<close> and \<^verbatim>\<open>strings.Split(s, sep)\<close> for a one-byte separator.\<close>

fun SplitN :: "char \<Rightarrow> nat \<Rightarrow> string \<Rightarrow> string list" where
  "SplitN sep 0 s = []"
| "SplitN sep (Suc 0) s = [s]"
| "SplitN sep (Suc (Suc n)) s =
     (if sep \<in> set s
      then takeWhile (\<lambda>c. c \<noteq> sep) s # SplitN sep (Suc n) (tl (dropWhile (\<lambda>c. c \<noteq> sep) s))
      else [s])"

fun Split_acc :: "char \<Rightarrow> string \<Rightarrow> string \<Rightarrow> string list" where
  "Split_acc sep cur [] = [cur]"
| "Split_acc sep cur (c # cs) =
     (if c = sep then cur # Split_acc sep [] cs else Split_acc sep (cur @ [c]) cs)"

definition Split :: "char \<Rightarrow> string \<Rightarrow> string list" where
  "Split sep s = Split_acc sep [] s"

text \<open>\<^verbatim>\<open>strings.Join\<close> for a one-byte separator.\<close>

fun Join :: "char \<Rightarrow> string list \<Rightarrow> string" where
  "Join sep [] = []"
| "Join sep [x] = x"
| "Join sep (x # y # xs) = x @ sep # Join sep (y # xs)"

text \<open>\<^verbatim>\<open>strings.Cut(s, sep)\<close> for a one-byte separator.\<close>

definition Cut :: "char \<Rightarrow> string \<Rightarrow> string \<times> string \<times> bool" where
  "Cut sep s = (if sep \<in> set s
     then (takeWhile (\<lambda>c. c \<noteq> sep) s, tl (dropWhile (\<lambda>c. c \<noteq> sep) s), True)
     else (s, [], False))"

text \<open>\<^verbatim>\<open>strings.IndexByte\<close> and \<^verbatim>\<open>strings.LastIndexByte\<close>: -1 when the byte is absent.\<close>

definition IndexByte :: "string \<Rightarrow> char \<Rightarrow> int" where
  "IndexByte s c = (if c \<in> set s then int (length (takeWhile (\<lambda>d. d \<noteq> c) s)) else - 1)"

definition LastIndexByte :: "string \<Rightarrow> char \<Rightarrow> int" where
  "LastIndexByte s c =
     (if c \<in> set s then int (length s) - 1 - int (length (takeWhile (\<lambda>d. d \<noteq> c) (rev s))) else - 1)"

text \<open>Go's \<^verbatim>\<open><\<close> on strings: byte-wise lexicographic order.\<close>

fun str_less :: "string \<Rightarrow> string \<Rightarrow> bool" where
  "str_less _ [] \<longleftrightarrow> False"
| "str_less [] (_ # _) \<longleftrightarrow> True"
| "str_less (a # as) (b # bs) \<longleftrightarrow>
     (of_char a :: nat) < of_char b \<or> (a = b \<and> str_less as bs)"

subsection \<open>Lemmas on the string functions\<close>

lemma HasPrefix_iff: "HasPrefix s p \<longleftrightarrow> (\<exists>r. s = p @ r)"
  by (auto simp: HasPrefix_def) (metis append_take_drop_id)

lemma HasPrefix_append [simp]: "HasPrefix (p @ r) p"
  by (simp add: HasPrefix_def)

lemma HasPrefix_Nil [simp]: "HasPrefix s []"
  by (simp add: HasPrefix_def)

lemma HasSuffix_iff: "HasSuffix s p \<longleftrightarrow> (\<exists>r. s = r @ p)"
  unfolding HasSuffix_def HasPrefix_iff by (metis rev_append rev_rev_ident)

lemma TrimPrefix_append [simp]: "TrimPrefix (p @ r) p = r"
  by (simp add: TrimPrefix_def)

lemma Contains_iff: "Contains s p \<longleftrightarrow> (\<exists>a b. s = a @ p @ b)"
proof (induction s)
  case (Cons c cs)
  have "(\<exists>a b. c # cs = a @ p @ b) \<longleftrightarrow> HasPrefix (c # cs) p \<or> (\<exists>a b. cs = a @ p @ b)"
    unfolding HasPrefix_iff by (metis append_Cons append_Nil neq_Nil_conv list.inject)
  with Cons show ?case by simp
qed auto

lemma Contains_char: "Contains s [c] \<longleftrightarrow> c \<in> set s"
  unfolding Contains_iff by (metis append_Cons append_Nil in_set_conv_decomp)

lemma takeWhile_sep [simp]: "sep \<notin> set x \<Longrightarrow> takeWhile (\<lambda>c. c \<noteq> sep) (x @ sep # y) = x"
  by (induction x) auto

lemma dropWhile_sep [simp]: "sep \<notin> set x \<Longrightarrow> dropWhile (\<lambda>c. c \<noteq> sep) (x @ sep # y) = sep # y"
  by (induction x) auto

lemma SplitN_sep [go_string_simps]:
  "sep \<notin> set x \<Longrightarrow> SplitN sep (Suc (Suc n)) (x @ sep # y) = x # SplitN sep (Suc n) y"
  by simp

lemma split_at_first: "sep \<in> set s \<Longrightarrow>
  s = takeWhile (\<lambda>c. c \<noteq> sep) s @ sep # tl (dropWhile (\<lambda>c. c \<noteq> sep) s)"
proof -
  assume "sep \<in> set s"
  then obtain x y where "s = x @ sep # y" "sep \<notin> set x" by (meson split_list_first)
  then show ?thesis by simp
qed

lemma SplitN_length: "length (SplitN sep n s) \<le> n"
  by (induction sep n s rule: SplitN.induct) auto

lemma Join_SplitN: "0 < n \<Longrightarrow> Join sep (SplitN sep n s) = s"
proof (induction sep n s rule: SplitN.induct)
  case (3 sep n s)
  show ?case
  proof (cases "sep \<in> set s")
    case True
    let ?t = "tl (dropWhile (\<lambda>c. c \<noteq> sep) s)"
    obtain y ys where ys: "SplitN sep (Suc n) ?t = y # ys"
      by (cases "SplitN sep (Suc n) ?t") (cases n; auto split: if_splits)+
    with 3 True have "Join sep (y # ys) = ?t" by simp
    with True ys show ?thesis using split_at_first [OF True] by simp
  next
    case False
    then show ?thesis by simp
  qed
qed auto

lemma SplitN_parts: "p \<in> set (butlast (SplitN sep n s)) \<Longrightarrow> sep \<notin> set p"
  by (induction sep n s rule: SplitN.induct) (auto split: if_splits dest: set_takeWhileD)

lemma Split_acc_no_sep: "sep \<notin> set x \<Longrightarrow> Split_acc sep cur x = [cur @ x]"
  by (induction x arbitrary: cur) auto

lemma Split_acc_sep: "sep \<notin> set x \<Longrightarrow>
  Split_acc sep cur (x @ sep # y) = (cur @ x) # Split_acc sep [] y"
  by (induction x arbitrary: cur) auto

lemma Split_no_sep [go_string_simps]: "sep \<notin> set x \<Longrightarrow> Split sep x = [x]"
  by (simp add: Split_def Split_acc_no_sep)

lemma Split_sep [go_string_simps]: "sep \<notin> set x \<Longrightarrow> Split sep (x @ sep # y) = x # Split sep y"
  by (simp add: Split_def Split_acc_sep)

lemma Split_acc_nonempty: "Split_acc sep cur s \<noteq> []"
  by (induction s arbitrary: cur) auto

lemma Join_Split_acc: "Join sep (Split_acc sep cur s) = cur @ s"
proof (induction s arbitrary: cur)
  case (Cons c s)
  show ?case
  proof (cases "c = sep")
    case True
    obtain y ys where "Split_acc sep [] s = y # ys"
      using Split_acc_nonempty by (metis neq_Nil_conv)
    with Cons [of "[]"] True show ?thesis by simp
  qed (use Cons in simp)
qed simp

lemma Join_Split: "Join sep (Split sep s) = s"
  by (simp add: Split_def Join_Split_acc)

lemma Split_acc_parts: "sep \<notin> set cur \<Longrightarrow> p \<in> set (Split_acc sep cur s) \<Longrightarrow> sep \<notin> set p"
proof (induction s arbitrary: cur)
  case (Cons c s)
  then show ?case using Cons.IH [of "[]"] Cons.IH [of "cur @ [c]"] by (auto split: if_splits)
qed simp

lemma Split_parts: "p \<in> set (Split sep s) \<Longrightarrow> sep \<notin> set p"
  by (auto simp: Split_def dest: Split_acc_parts [rotated])

lemma Cut_sep [go_string_simps]: "sep \<notin> set x \<Longrightarrow> Cut sep (x @ sep # y) = (x, y, True)"
  by (simp add: Cut_def)

lemma LastIndexByte_last [go_string_simps]:
  "c \<notin> set y \<Longrightarrow> LastIndexByte (x @ c # y) c = int (length x)"
  by (simp add: LastIndexByte_def)

lemma IndexByte_first [go_string_simps]:
  "c \<notin> set x \<Longrightarrow> IndexByte (x @ c # y) c = int (length x)"
  by (simp add: IndexByte_def)

lemma LastIndexByte_absent [go_string_simps]: "c \<notin> set s \<Longrightarrow> LastIndexByte s c = - 1"
  by (simp add: LastIndexByte_def)

lemma str_less_irrefl [simp]: "\<not> str_less a a"
  by (induction a) auto

lemma str_less_trans: "str_less a b \<Longrightarrow> str_less b c \<Longrightarrow> str_less a c"
proof (induction a b arbitrary: c rule: str_less.induct)
  case (2 b bs)
  then show ?case by (cases c) auto
next
  case (3 a as b bs)
  then show ?case by (cases c) auto
qed simp

lemma str_less_linear: "str_less a b \<or> a = b \<or> str_less b a"
proof (induction a b rule: str_less.induct)
  case (1 a)
  then show ?case by (cases a) auto
next
  case (3 a as b bs)
  have "(of_char a :: nat) < of_char b \<or> a = b \<or> (of_char b :: nat) < of_char a"
    by (metis linorder_neqE_nat of_char_eq_iff)
  with 3 show ?case by auto
qed simp

text \<open>On ASCII text the white-space functions work character by character.\<close>

definition is_space :: "char \<Rightarrow> bool" where
  "is_space c \<longleftrightarrow> is_space_rune (of_char c)"

lemma dropWhile_map_pair:
  "dropWhile (\<lambda>p. P (fst p)) (map (\<lambda>c. (f c, [c])) s) = map (\<lambda>c. (f c, [c])) (dropWhile (\<lambda>c. P (f c)) s)"
  by (induction s) auto

lemma concat_map_single: "concat (map (\<lambda>c. [c]) s) = s"
  by (induction s) auto

lemma TrimSpace_ascii: "list_all ascii s \<Longrightarrow>
  TrimSpace s = rev (dropWhile is_space (rev (dropWhile is_space s)))"
proof -
  assume a: "list_all ascii s"
  have p: "rev (map (\<lambda>c. (of_char c :: nat, [c])) t) = map (\<lambda>c. (of_char c, [c])) (rev t)" for t
    by (simp add: rev_map)
  show ?thesis
    by (simp only: TrimSpace_def runes_ascii [OF a] dropWhile_map_pair p map_map o_def snd_conv
        concat_map_single) (simp add: is_space_def [abs_def])
qed

lemma TrimSpace_plain: "list_all (\<lambda>c. ascii c \<and> \<not> is_space c) s \<Longrightarrow> TrimSpace s = s"
proof -
  assume a: "list_all (\<lambda>c. ascii c \<and> \<not> is_space c) s"
  then have "dropWhile is_space s = s" "dropWhile is_space (rev s) = rev s"
    by (auto simp: dropWhile_eq_self_iff list_all_iff hd_in_set hd_rev last_in_set)
  then show ?thesis using a by (simp add: TrimSpace_ascii list_all_iff)
qed

lemma TrimSpace_trailing: "list_all (\<lambda>c. ascii c \<and> \<not> is_space c) s \<Longrightarrow> ascii w \<Longrightarrow> is_space w \<Longrightarrow>
  TrimSpace (s @ [w]) = s"
proof -
  assume a: "list_all (\<lambda>c. ascii c \<and> \<not> is_space c) s" and w: "ascii w" "is_space w"
  have d: "dropWhile is_space (rev s) = rev s" "s \<noteq> [] \<Longrightarrow> \<not> is_space (hd s)"
    using a by (auto simp: dropWhile_eq_self_iff list_all_iff hd_rev)
  then have "dropWhile is_space (s @ [w]) = (if s = [] then [] else s @ [w])"
    using w by (cases s) auto
  with a w d show ?thesis by (auto simp: TrimSpace_ascii list_all_iff)
qed

lemma number_char_plain: "number_char c \<Longrightarrow> ascii c \<and> \<not> is_space c"
  by (auto simp: number_char_def is_digit_def ascii_def is_space_def is_space_rune_def)

lemma FormatInt_plain: "list_all (\<lambda>c. ascii c \<and> \<not> is_space c) (FormatInt n)"
  using FormatInt_chars number_char_plain by (auto simp: list_all_iff)

section \<open>Words: printed fields without white space\<close>

definition NL :: char where "NL = CHR 0x0A"

definition TAB :: char where "TAB = CHR 0x09"

text \<open>A word: what a command prints as one field.\<close>

definition word_char :: "char \<Rightarrow> bool" where
  "word_char c \<longleftrightarrow> ascii c \<and> \<not> is_space c"

definition word :: "string \<Rightarrow> bool" where
  "word s \<longleftrightarrow> s \<noteq> [] \<and> list_all word_char s"

lemma word_FormatInt [simp]: "word (FormatInt n)"
  using FormatInt_plain [of n] by (simp add: word_def word_char_def [abs_def])

lemma NL_space: "is_space NL" "ascii NL" and TAB_space: "is_space TAB" "ascii TAB"
  by (simp_all add: is_space_def is_space_rune_def ascii_def NL_def TAB_def)

lemma word_TrimSpace: "word s \<Longrightarrow> TrimSpace s = s"
  by (simp add: TrimSpace_plain word_def word_char_def [abs_def])

lemma word_TrimSpace_NL: "word s \<Longrightarrow> TrimSpace (s @ [NL]) = s"
  by (simp add: TrimSpace_trailing NL_space word_def word_char_def [abs_def])

lemma TrimSpace_line: "list_all ascii t \<Longrightarrow> t \<noteq> [] \<Longrightarrow> \<not> is_space (hd t) \<Longrightarrow> \<not> is_space (last t) \<Longrightarrow>
  TrimSpace (t @ [NL]) = t"
proof -
  assume a: "list_all ascii t" "t \<noteq> []" "\<not> is_space (hd t)" "\<not> is_space (last t)"
  have "dropWhile is_space (t @ [NL]) = t @ [NL]" using a(2,3) by (cases t) auto
  moreover have "dropWhile is_space (rev t) = rev t"
    using a(2,4) by (cases t rule: rev_cases) auto
  ultimately show ?thesis using a(1) NL_space by (simp add: TrimSpace_ascii)
qed

lemma TrimSpace_indent:
  assumes "list_all is_space ws" "list_all ascii (ws @ t)" "t \<noteq> []" "\<not> is_space (hd t)" "\<not> is_space (last t)"
  shows "TrimSpace (ws @ t) = t"
proof -
  have "dropWhile is_space (ws @ t) = t" using assms(1,3,4)
    by (cases t) (auto simp: dropWhile_append list_all_iff)
  moreover have "dropWhile is_space (rev t) = rev t"
    using assms(3,5) by (cases t rule: rev_cases) auto
  ultimately show ?thesis using TrimSpace_ascii [OF assms(2)] by simp
qed

text \<open>Fields of ASCII text, word by word.\<close>

lemma Fields_ascii: "list_all ascii s \<Longrightarrow> Fields s = fields_acc [] (map (\<lambda>c. (of_char c, [c])) s)"
  by (simp add: Fields_def runes_ascii)

lemma Fields_space: "ascii c \<Longrightarrow> is_space c \<Longrightarrow> list_all ascii r \<Longrightarrow> Fields (c # r) = Fields r"
  by (simp add: Fields_ascii is_space_def)

lemma fields_acc_run: "list_all word_char w \<Longrightarrow>
  fields_acc cur (map (\<lambda>c. (of_char c, [c])) w @ rs) = fields_acc (cur @ w) rs"
  by (induction w arbitrary: cur) (auto simp: word_char_def is_space_def)

lemma word_ascii: "word w \<Longrightarrow> list_all ascii w"
  by (auto simp: word_def word_char_def list_all_iff)

lemma Fields_word_space: "word w \<Longrightarrow> ascii c \<Longrightarrow> is_space c \<Longrightarrow> list_all ascii r \<Longrightarrow> Fields (w @ c # r) = w # Fields r"
  using word_ascii [of w] by (simp add: Fields_ascii fields_acc_run word_def is_space_def)

lemma Fields_word: "word w \<Longrightarrow> Fields w = [w]"
  using fields_acc_run [of w "[]" "[]"] word_ascii [of w] by (simp add: Fields_ascii word_def)

lemma word_chars: "word w \<Longrightarrow> c \<in> set w \<Longrightarrow> \<not> is_space c \<and> ascii c"
  by (auto simp: word_def word_char_def list_all_iff)

lemma word_last: "word w \<Longrightarrow> \<not> is_space (last w)"
  by (simp add: word_chars word_def)

end
