(* ===== verification/Go_Effects.thy ===== *)
theory Go_Effects
  imports Go_Prelude
begin

text \<open>
  How the development renders Go's effects. \<open>err\<close> is the type of error values: one
  constructor per concrete error type the sources build or inspect, with the \<^verbatim>\<open>Unwrap\<close> chain
  kept. \<open>res\<close> is the outcome of a call (a value, an error, or a panic), and \<open>io\<close> a call that
  reads and changes a world \<open>'w\<close>. \<open>host\<close> collects what the operating system provides
  (\<^verbatim>\<open>exec.Runner\<close> of \<^verbatim>\<open>internal/exec/runner.go\<close> and the calls of package os); it is a
  parameter of every component above it. \<open>traced\<close> records every command a call issues, so
  that a safety property can be stated for all hosts.

  An error text is its format string: operands are not rendered, since no code branches on
  the text of an error. A format that embeds an error by \<^verbatim>\<open>%v\<close> loses it, one that uses \<^verbatim>\<open>%w\<close>
  keeps it as the cause (\<open>WrapErr\<close>).
\<close>

named_theorems io_simps \<open>evaluation of calls\<close>
named_theorems emits_intros \<open>rules for the commands a call issues\<close>

section \<open>Error values\<close>

text \<open>\<^verbatim>\<open>driver.Code\<close> (internal/driver/errors.go). It is an integer type, so a number that
  names no constant is a code too: a peer may send one.\<close>

datatype Code = CodeUnknown | CodeInvalidArgument | CodeNotFound | CodeAlreadyExists
  | CodeFailedPrecondition | CodeOutOfRange | CodeResourceExhausted | CodeAborted
  | CodeUnimplemented | CodeInternal | CodeUnavailable | CodeOther int

text \<open>The gRPC status codes of google.golang.org/grpc/codes.\<close>

datatype grpc_code = GrpcOK | GrpcCanceled | GrpcUnknown | GrpcInvalidArgument
  | GrpcDeadlineExceeded | GrpcNotFound | GrpcAlreadyExists | GrpcPermissionDenied
  | GrpcResourceExhausted | GrpcFailedPrecondition | GrpcAborted | GrpcOutOfRange
  | GrpcUnimplemented | GrpcInternal | GrpcUnavailable | GrpcDataLoss | GrpcUnauthenticated

datatype err =
    DriverErr Code string "err option"               \<comment> \<open>\<^verbatim>\<open>*driver.Error\<close>\<close>
  | ExecErr string "string list" int string "err option" \<comment> \<open>\<^verbatim>\<open>*exec.Error\<close>: name, args, exit code, stderr, cause\<close>
  | CodedErr int string                              \<comment> \<open>\<^verbatim>\<open>*cluster.CodedError\<close>\<close>
  | RemoteErr int string                             \<comment> \<open>\<^verbatim>\<open>*cluster.RemoteError\<close>\<close>
  | StatusErr grpc_code string                       \<comment> \<open>a gRPC status error\<close>
  | WrapErr string err                               \<comment> \<open>\<^verbatim>\<open>fmt.Errorf\<close> with \<^verbatim>\<open>%w\<close>\<close>
  | PlainErr string                                  \<comment> \<open>any other error value\<close>
  | NetErr string                                    \<comment> \<open>a \<^verbatim>\<open>net.Error\<close> (transport failure)\<close>
  | ExitErr int                                      \<comment> \<open>\<^verbatim>\<open>*os/exec.ExitError\<close> with its exit code\<close>
  | NotExistErr string                               \<comment> \<open>an error for which \<^verbatim>\<open>os.IsNotExist\<close> holds\<close>
  | CtxCanceled                                      \<comment> \<open>\<^verbatim>\<open>context.Canceled\<close>\<close>
  | CtxDeadlineExceeded                              \<comment> \<open>\<^verbatim>\<open>context.DeadlineExceeded\<close>\<close>
  | ApiErr int int string                            \<comment> \<open>\<^verbatim>\<open>*goqnap.APIError\<close>: HTTP status, API code, text\<close>
  | SessionInvalid                                   \<comment> \<open>\<^verbatim>\<open>goqnap.ErrSessionInvalid\<close>\<close>

text \<open>One step of \<^verbatim>\<open>errors.Unwrap\<close>, and the chain that \<^verbatim>\<open>errors.Is\<close> and \<^verbatim>\<open>errors.As\<close> walk.\<close>

fun Unwrap :: "err \<Rightarrow> err option" where
  "Unwrap (DriverErr _ _ e) = e"
| "Unwrap (ExecErr _ _ _ _ e) = e"
| "Unwrap (WrapErr _ e) = Some e"
| "Unwrap _ = None"

fun err_chain :: "err \<Rightarrow> err list" where
  "err_chain (DriverErr c m (Some e)) = DriverErr c m (Some e) # err_chain e"
| "err_chain (ExecErr n a x s (Some e)) = ExecErr n a x s (Some e) # err_chain e"
| "err_chain (WrapErr m e) = WrapErr m e # err_chain e"
| "err_chain e = [e]"

text \<open>\<^verbatim>\<open>errors.As\<close> and \<^verbatim>\<open>errors.Is\<close>: the first member of the chain that matches.\<close>

definition errors_As :: "(err \<Rightarrow> bool) \<Rightarrow> err \<Rightarrow> err option" where
  "errors_As p e = List.find p (err_chain e)"

fun is_DriverErr :: "err \<Rightarrow> bool" where
  "is_DriverErr (DriverErr _ _ _) = True"
| "is_DriverErr _ = False"

fun is_ExecErr :: "err \<Rightarrow> bool" where
  "is_ExecErr (ExecErr _ _ _ _ _) = True"
| "is_ExecErr _ = False"

fun is_CodedErr :: "err \<Rightarrow> bool" where
  "is_CodedErr (CodedErr _ _) = True"
| "is_CodedErr _ = False"

fun is_RemoteErr :: "err \<Rightarrow> bool" where
  "is_RemoteErr (RemoteErr _ _) = True"
| "is_RemoteErr _ = False"

fun is_StatusErr :: "err \<Rightarrow> bool" where
  "is_StatusErr (StatusErr _ _) = True"
| "is_StatusErr _ = False"

fun is_NetErr :: "err \<Rightarrow> bool" where
  "is_NetErr (NetErr _) = True"
| "is_NetErr _ = False"

fun is_ApiErr :: "err \<Rightarrow> bool" where
  "is_ApiErr (ApiErr _ _ _) = True"
| "is_ApiErr _ = False"

fun is_ExitErr :: "err \<Rightarrow> bool" where
  "is_ExitErr (ExitErr _) = True"
| "is_ExitErr _ = False"

lemma err_chain_nonempty [simp]: "err_chain e \<noteq> []"
  by (cases e rule: err_chain.cases) auto

lemma hd_err_chain [simp]: "hd (err_chain e) = e"
  by (cases e rule: err_chain.cases) auto

lemma err_chain_Unwrap:
  "err_chain e = e # (case Unwrap e of None \<Rightarrow> [] | Some e' \<Rightarrow> err_chain e')"
  by (cases e rule: err_chain.cases) auto

lemma errors_As_self: "p e \<Longrightarrow> errors_As p e = Some e"
  by (subst errors_As_def, subst err_chain_Unwrap) simp

lemma errors_As_step: "\<not> p e \<Longrightarrow> errors_As p e = (case Unwrap e of None \<Rightarrow> None | Some e' \<Rightarrow> errors_As p e')"
  unfolding errors_As_def by (subst err_chain_Unwrap) (simp split: option.splits)

lemma errors_As_Some: "errors_As p e = Some e' \<Longrightarrow> p e' \<and> e' \<in> set (err_chain e)"
  by (auto simp: errors_As_def find_Some_iff)

lemma errors_As_None: "errors_As p e = None \<longleftrightarrow> (\<forall>x \<in> set (err_chain e). \<not> p x)"
  by (auto simp: errors_As_def find_None_iff)

text \<open>The text of an error, \<^verbatim>\<open>err.Error()\<close>; first that of \<^verbatim>\<open>*exec.Error\<close>, whose quoting (\<^verbatim>\<open>%q\<close>)
  is the plain pair of quotes.\<close>

definition exec_Error_text :: "string \<Rightarrow> string list \<Rightarrow> int \<Rightarrow> string \<Rightarrow> string" where
  "exec_Error_text name args exit stderr =
     (let cmd = name @ (if args \<noteq> [] then CHR '' '' # Join (CHR '' '') args else []);
          msg = ''command '' @ CHR 0x22 # cmd @ CHR 0x22 # '' failed'';
          msg = msg @ (if exit \<noteq> 0 then '' (exit '' @ FormatInt exit @ '')'' else []);
          s = TrimSpace stderr
      in msg @ (if s \<noteq> [] then '': '' @ s else []))"

fun err_text :: "err \<Rightarrow> string" where
  "err_text (DriverErr _ m (Some e)) = m @ '': '' @ err_text e"
| "err_text (DriverErr _ m None) = m"
| "err_text (ExecErr n a x s _) = exec_Error_text n a x s"
| "err_text (CodedErr _ m) = m"
| "err_text (RemoteErr _ m) = ''remote forward error: '' @ m"
| "err_text (StatusErr _ m) = ''rpc error: '' @ m"
| "err_text (WrapErr m e) = m @ '': '' @ err_text e"
| "err_text (PlainErr m) = m"
| "err_text (NetErr m) = m"
| "err_text (ExitErr x) = ''exit status '' @ FormatInt x"
| "err_text (NotExistErr m) = m"
| "err_text CtxCanceled = ''context canceled''"
| "err_text CtxDeadlineExceeded = ''context deadline exceeded''"
| "err_text (ApiErr _ _ m) = m"
| "err_text SessionInvalid = ''session invalid''"

section \<open>Outcomes and calls\<close>

datatype 'a res = Ok 'a | Fail err | Panic string

type_synonym ('w, 'a) io = "'w \<Rightarrow> 'a res \<times> 'w"

definition ret :: "'a \<Rightarrow> ('w, 'a) io" where
  "ret a = (\<lambda>w. (Ok a, w))"

definition fail :: "err \<Rightarrow> ('w, 'a) io" where
  "fail e = (\<lambda>w. (Fail e, w))"

definition panic :: "string \<Rightarrow> ('w, 'a) io" where
  "panic m = (\<lambda>w. (Panic m, w))"

text \<open>\<^verbatim>\<open>x, err := m(); if err != nil { return err }; f(x)\<close>\<close>

definition bindIO :: "('w, 'a) io \<Rightarrow> ('a \<Rightarrow> ('w, 'b) io) \<Rightarrow> ('w, 'b) io" where
  "bindIO m f = (\<lambda>w. case m w of
     (Ok a, w') \<Rightarrow> f a w'
   | (Fail e, w') \<Rightarrow> (Fail e, w')
   | (Panic p, w') \<Rightarrow> (Panic p, w'))"

text \<open>\<^verbatim>\<open>x, err := m()\<close> followed by code that looks at both: a panic still unwinds.\<close>

definition tryIO :: "('w, 'a) io \<Rightarrow> (err + 'a \<Rightarrow> ('w, 'b) io) \<Rightarrow> ('w, 'b) io" where
  "tryIO m f = (\<lambda>w. case m w of
     (Ok a, w') \<Rightarrow> f (Inr a) w'
   | (Fail e, w') \<Rightarrow> f (Inl e) w'
   | (Panic p, w') \<Rightarrow> (Panic p, w'))"

text \<open>\<^verbatim>\<open>if err := m(); err != nil { return g(err) }\<close>\<close>

definition wrapIO :: "(err \<Rightarrow> err) \<Rightarrow> ('w, 'a) io \<Rightarrow> ('w, 'a) io" where
  "wrapIO g m = (\<lambda>w. case m w of
     (Ok a, w') \<Rightarrow> (Ok a, w')
   | (Fail e, w') \<Rightarrow> (Fail (g e), w')
   | (Panic p, w') \<Rightarrow> (Panic p, w'))"

text \<open>A pure computation that may fail, and one that may also panic.\<close>

definition liftE :: "err + 'a \<Rightarrow> ('w, 'a) io" where
  "liftE r = (case r of Inl e \<Rightarrow> fail e | Inr a \<Rightarrow> ret a)"

definition liftR :: "'a res \<Rightarrow> ('w, 'a) io" where
  "liftR r = (\<lambda>w. (r, w))"

text \<open>A loop over a slice whose body may fail and which collects a result per element.\<close>

fun mapIO :: "('a \<Rightarrow> ('w, 'b) io) \<Rightarrow> 'a list \<Rightarrow> ('w, 'b list) io" where
  "mapIO f [] = ret []"
| "mapIO f (x # xs) = bindIO (f x) (\<lambda>y. bindIO (mapIO f xs) (\<lambda>ys. ret (y # ys)))"

text \<open>A loop that threads an accumulator.\<close>

fun foldIO :: "('s \<Rightarrow> 'a \<Rightarrow> ('w, 's) io) \<Rightarrow> 's \<Rightarrow> 'a list \<Rightarrow> ('w, 's) io" where
  "foldIO f s [] = ret s"
| "foldIO f s (x # xs) = bindIO (f s x) (\<lambda>s'. foldIO f s' xs)"

lemma ret_app [simp, io_simps]: "ret a w = (Ok a, w)"
  by (simp add: ret_def)

lemma fail_app [simp, io_simps]: "fail e w = (Fail e, w)"
  by (simp add: fail_def)

lemma panic_app [simp, io_simps]: "panic p w = (Panic p, w)"
  by (simp add: panic_def)

lemma liftR_app [simp, io_simps]: "liftR r w = (r, w)"
  by (simp add: liftR_def)

lemma liftE_app [simp, io_simps]: "liftE r w = (case r of Inl e \<Rightarrow> (Fail e, w) | Inr a \<Rightarrow> (Ok a, w))"
  by (simp add: liftE_def split: sum.splits)

lemma bindIO_Ok [io_simps]: "m w = (Ok a, w') \<Longrightarrow> bindIO m f w = f a w'"
  by (simp add: bindIO_def)

lemma bindIO_Fail [io_simps]: "m w = (Fail e, w') \<Longrightarrow> bindIO m f w = (Fail e, w')"
  by (simp add: bindIO_def)

lemma bindIO_Panic [io_simps]: "m w = (Panic p, w') \<Longrightarrow> bindIO m f w = (Panic p, w')"
  by (simp add: bindIO_def)

lemma bindIO_ret [simp]: "bindIO (ret a) f = f a"
  by (simp add: bindIO_def ret_def)

lemma bindIO_fail [simp]: "bindIO (fail e) f = fail e"
  by (simp add: bindIO_def fail_def)

lemma tryIO_Ok [io_simps]: "m w = (Ok a, w') \<Longrightarrow> tryIO m f w = f (Inr a) w'"
  by (simp add: tryIO_def)

lemma tryIO_Fail [io_simps]: "m w = (Fail e, w') \<Longrightarrow> tryIO m f w = f (Inl e) w'"
  by (simp add: tryIO_def)

lemma tryIO_Panic [io_simps]: "m w = (Panic p, w') \<Longrightarrow> tryIO m f w = (Panic p, w')"
  by (simp add: tryIO_def)

lemma wrapIO_Ok [io_simps]: "m w = (Ok a, w') \<Longrightarrow> wrapIO g m w = (Ok a, w')"
  by (simp add: wrapIO_def)

lemma wrapIO_Fail [io_simps]: "m w = (Fail e, w') \<Longrightarrow> wrapIO g m w = (Fail (g e), w')"
  by (simp add: wrapIO_def)

text \<open>Inversion: what a successful call says about its parts.\<close>

lemma bindIO_eq_Ok: "bindIO m f w = (Ok b, w'') \<longleftrightarrow> (\<exists>a w'. m w = (Ok a, w') \<and> f a w' = (Ok b, w''))"
  by (auto simp: bindIO_def split: prod.splits res.splits)

lemma wrapIO_eq_Ok [simp]: "wrapIO g m w = (Ok a, w') \<longleftrightarrow> m w = (Ok a, w')"
  by (auto simp: wrapIO_def split: prod.splits res.splits)

lemma tryIO_eq_Ok: "tryIO m f w = (Ok b, w'') \<longleftrightarrow>
  (\<exists>a w'. m w = (Ok a, w') \<and> f (Inr a) w' = (Ok b, w'')) \<or>
  (\<exists>e w'. m w = (Fail e, w') \<and> f (Inl e) w' = (Ok b, w''))"
  by (auto simp: tryIO_def split: prod.splits res.splits)

lemmas io_Ok_iffs = bindIO_eq_Ok tryIO_eq_Ok

text \<open>\<open>keeps R m\<close>: whatever happens, the call relates the world before to the world after
  by \<open>R\<close>. For a reflexive and transitive \<open>R\<close> it composes.\<close>

definition keeps :: "('w \<Rightarrow> 'w \<Rightarrow> bool) \<Rightarrow> ('w, 'a) io \<Rightarrow> bool" where
  "keeps R m \<longleftrightarrow> (\<forall>w. R w (snd (m w)))"

lemma keeps_bindIO: "transp R \<Longrightarrow> keeps R m \<Longrightarrow> (\<And>a. keeps R (f a)) \<Longrightarrow> keeps R (bindIO m f)"
  unfolding keeps_def bindIO_def transp_def
  by (auto split: prod.splits res.splits) (metis snd_conv)+

lemma keeps_tryIO: "transp R \<Longrightarrow> keeps R m \<Longrightarrow> (\<And>a. keeps R (f a)) \<Longrightarrow> keeps R (tryIO m f)"
  unfolding keeps_def tryIO_def transp_def
  by (auto split: prod.splits res.splits) (metis snd_conv)+

lemma keeps_wrapIO: "keeps R m \<Longrightarrow> keeps R (wrapIO g m)"
  unfolding keeps_def wrapIO_def by (auto split: prod.splits res.splits) (metis snd_conv)+

lemma keeps_ret: "reflp R \<Longrightarrow> keeps R (ret a)" and keeps_fail: "reflp R \<Longrightarrow> keeps R (fail e)"
  and keeps_liftE: "reflp R \<Longrightarrow> keeps R (liftE r)" and keeps_liftR: "reflp R \<Longrightarrow> keeps R (liftR x)"
  by (auto simp: keeps_def reflp_def split: sum.splits)

section \<open>Weakest preconditions\<close>

text \<open>\<open>wp m Q w\<close>: the call \<open>m\<close> from the world \<open>w\<close> ends with an outcome and a world that satisfy \<open>Q\<close>.
  The rules below take a whole operation apart; each component adds a rule per primitive.\<close>

named_theorems wp_simps \<open>weakest preconditions of the combinators\<close>

definition wp :: "('w, 'a) io \<Rightarrow> ('a res \<Rightarrow> 'w \<Rightarrow> bool) \<Rightarrow> 'w \<Rightarrow> bool" where
  "wp m Q w = (case m w of (r, w') \<Rightarrow> Q r w')"

text \<open>The outcome after a successful step and after a failed or panicking one.\<close>

definition after :: "('a \<Rightarrow> 'w \<Rightarrow> bool) \<Rightarrow> ('b res \<Rightarrow> 'w \<Rightarrow> bool) \<Rightarrow> 'a res \<Rightarrow> 'w \<Rightarrow> bool" where
  "after K Q r w = (case r of Ok a \<Rightarrow> K a w | Fail e \<Rightarrow> Q (Fail e) w | Panic p \<Rightarrow> Q (Panic p) w)"

lemma after_simps [simp]: "after K Q (Ok a) w = K a w" "after K Q (Fail e) w = Q (Fail e) w"
  "after K Q (Panic p) w = Q (Panic p) w"
  by (simp_all add: after_def)

lemma wp_ret [wp_simps]: "wp (ret a) Q w = Q (Ok a) w"
  and wp_fail [wp_simps]: "wp (fail e) Q w = Q (Fail e) w"
  and wp_panic [wp_simps]: "wp (panic p) Q w = Q (Panic p) w"
  and wp_liftR [wp_simps]: "wp (liftR r) Q w = Q r w"
  by (simp_all add: wp_def)

lemma wp_liftE [wp_simps]: "wp (liftE x) Q w = (case x of Inl e \<Rightarrow> Q (Fail e) w | Inr a \<Rightarrow> Q (Ok a) w)"
  by (simp add: wp_def split: sum.splits)

lemma wp_bindIO [wp_simps]: "wp (bindIO m f) Q w = wp m (after (\<lambda>a. wp (f a) Q) Q) w"
  by (auto simp: wp_def bindIO_def after_def split: prod.splits res.splits)

lemma wp_tryIO [wp_simps]: "wp (tryIO m f) Q w =
  wp m (\<lambda>r w'. case r of Ok a \<Rightarrow> wp (f (Inr a)) Q w' | Fail e \<Rightarrow> wp (f (Inl e)) Q w' | Panic p \<Rightarrow> Q (Panic p) w') w"
  by (auto simp: wp_def tryIO_def split: prod.splits res.splits)

lemma wp_wrapIO [wp_simps]: "wp (wrapIO g m) Q w =
  wp m (\<lambda>r w'. case r of Ok a \<Rightarrow> Q (Ok a) w' | Fail e \<Rightarrow> Q (Fail (g e)) w' | Panic p \<Rightarrow> Q (Panic p) w') w"
  by (auto simp: wp_def wrapIO_def split: prod.splits res.splits)

lemma wp_if [wp_simps]: "wp (if b then m else n) Q w = (if b then wp m Q w else wp n Q w)"
  by simp

lemma wp_mono: "wp m P w \<Longrightarrow> (\<And>r w'. P r w' \<Longrightarrow> Q r w') \<Longrightarrow> wp m Q w"
  by (auto simp: wp_def split: prod.splits)

lemma wp_conj: "wp m P w \<Longrightarrow> wp m Q w \<Longrightarrow> wp m (\<lambda>r w'. P r w' \<and> Q r w') w"
  by (auto simp: wp_def split: prod.splits)

lemma wpI: "(\<And>r w'. m w = (r, w') \<Longrightarrow> Q r w') \<Longrightarrow> wp m Q w"
  by (auto simp: wp_def split: prod.splits)

lemma wpD: "wp m Q w \<Longrightarrow> m w = (r, w') \<Longrightarrow> Q r w'"
  by (simp add: wp_def)

end
