(* ===== verification/Exec_Runner.thy ===== *)
theory Exec_Runner
  imports Go_Effects
begin

text \<open>
  \<^verbatim>\<open>internal/exec/runner.go\<close>: the command-runner seam. The interface \<^verbatim>\<open>Runner\<close> is the part
  \<open>Run\<close>, \<open>RunPipe\<close> of the record \<open>host\<close>, beside the calls of package os the driver makes
  directly. \<open>OSRunner_Run\<close> and \<open>OSRunner_RunPipe\<close> model the production implementation over the
  process primitives of os/exec (\<open>procs\<close>). The second half is the library for reasoning about
  which commands a call issues: \<open>traced h\<close> is the host \<open>h\<close> with a log, and \<open>emits P m\<close> says that
  every entry a call adds to the log satisfies \<open>P\<close>.
\<close>

section \<open>Commands and their errors\<close>

text \<open>No caller sets \<^verbatim>\<open>Stdin\<close> or \<^verbatim>\<open>Env\<close>; they are not modelled.\<close>

record command =
  Name :: string
  Args :: "string list"

record cmd_output =
  Stdout :: string
  Stderr :: string

definition cmd :: "string \<Rightarrow> string list \<Rightarrow> command" where
  "cmd n a = \<lparr>Name = n, Args = a\<rparr>"

definition stdout_only :: "string \<Rightarrow> cmd_output" where
  "stdout_only s = \<lparr>Stdout = s, Stderr = []\<rparr>"

definition IsExit :: "err \<Rightarrow> int \<Rightarrow> bool" where
  "IsExit e code = (case errors_As is_ExecErr e of
     Some (ExecErr _ _ x _ _) \<Rightarrow> x = code | _ \<Rightarrow> False)"

text \<open>\<^verbatim>\<open>cmdError\<close>: the exit code is 0 unless the cause is an exit status.\<close>

definition cmdError :: "command \<Rightarrow> string \<Rightarrow> err \<Rightarrow> err" where
  "cmdError c stderr e =
     ExecErr (Name c) (Args c)
       (case errors_As is_ExitErr e of Some (ExitErr x) \<Rightarrow> x | _ \<Rightarrow> 0) stderr (Some e)"

lemma IsExit_ExecErr [simp]: "IsExit (ExecErr n a x s c) code \<longleftrightarrow> x = code"
  by (simp add: IsExit_def errors_As_self)

lemma IsExit_WrapErr [simp]: "IsExit (WrapErr m e) code \<longleftrightarrow> IsExit e code"
  by (simp add: IsExit_def errors_As_step [of _ "WrapErr m e"])

lemma IsExit_cmdError: "IsExit (cmdError c s e) code \<longleftrightarrow>
  code = (case errors_As is_ExitErr e of Some (ExitErr x) \<Rightarrow> x | _ \<Rightarrow> 0)"
  by (auto simp: cmdError_def)

section \<open>The host\<close>

text \<open>What the operating system provides. \<open>StatPath\<close> is \<^verbatim>\<open>os.Stat\<close> (its error tells a missing
  path by \<open>NotExistErr\<close>), \<open>CreateFile\<close> the \<^verbatim>\<open>os.OpenFile(\<dots>, O_CREATE)\<close> and close of
  mountutil, \<open>ReadDir\<close> the entry names of a directory, \<open>Statfs\<close> the counters of statfs(2) in the
  order Bsize, Blocks, Bfree, Bavail, Files, Ffree.\<close>

record 'w host =
  Run :: "command \<Rightarrow> ('w, cmd_output) io"
  RunPipe :: "command \<Rightarrow> command \<Rightarrow> ('w, unit) io"
  MkdirAll :: "string \<Rightarrow> ('w, unit) io"
  StatPath :: "string \<Rightarrow> ('w, unit) io"
  CreateFile :: "string \<Rightarrow> ('w, unit) io"
  EvalSymlinks :: "string \<Rightarrow> ('w, string) io"
  ReadDir :: "string \<Rightarrow> ('w, string list) io"
  Statfs :: "string \<Rightarrow> ('w, int list) io"

section \<open>The production runner\<close>

text \<open>The primitives of os and os/exec that \<^verbatim>\<open>OSRunner\<close> uses: running a command to its end with
  the captured output, making a pipe, starting a command, waiting for it (its captured standard
  error and the wait error) and killing it.\<close>

record 'w procs =
  RunProc :: "command \<Rightarrow> 'w \<Rightarrow> (cmd_output \<times> err option) \<times> 'w"
  MakePipe :: "('w, unit) io"
  StartProc :: "command \<Rightarrow> ('w, nat) io"
  WaitProc :: "nat \<Rightarrow> 'w \<Rightarrow> (string \<times> err option) \<times> 'w"
  KillProc :: "nat \<Rightarrow> 'w \<Rightarrow> 'w"

definition OSRunner_Run :: "'w procs \<Rightarrow> command \<Rightarrow> ('w, cmd_output) io" where
  "OSRunner_Run p c = (\<lambda>w. case RunProc p c w of
     ((out, None), w') \<Rightarrow> (Ok out, w')
   | ((out, Some e), w') \<Rightarrow> (Fail (cmdError c (Stderr out) e), w'))"

text \<open>Both legs are waited for; the producer's failure wins over the consumer's.\<close>

definition pipe_wait :: "'w procs \<Rightarrow> command \<Rightarrow> command \<Rightarrow> nat \<Rightarrow> nat \<Rightarrow> ('w, unit) io" where
  "pipe_wait p producer consumer ppid cpid = (\<lambda>w.
     let ((pStderr, pErr), w1) = WaitProc p ppid w;
         ((cStderr, cErr), w2) = WaitProc p cpid w1
     in case pErr of
          Some e \<Rightarrow> (Fail (cmdError producer pStderr e), w2)
        | None \<Rightarrow> (case cErr of
            Some e \<Rightarrow> (Fail (cmdError consumer cStderr e), w2)
          | None \<Rightarrow> (Ok (), w2)))"

definition OSRunner_RunPipe :: "'w procs \<Rightarrow> command \<Rightarrow> command \<Rightarrow> ('w, unit) io" where
  "OSRunner_RunPipe p producer consumer =
     bindIO (wrapIO (WrapErr ''creating pipe'') (MakePipe p)) (\<lambda>_.
     bindIO (wrapIO (cmdError producer []) (StartProc p producer)) (\<lambda>ppid.
     tryIO (StartProc p consumer) (\<lambda>r. case r of
       Inl e \<Rightarrow> (\<lambda>w. (Fail (cmdError consumer [] e), snd (WaitProc p ppid (KillProc p ppid w))))
     | Inr cpid \<Rightarrow> pipe_wait p producer consumer ppid cpid)))"

lemma pipe_wait_Ok: "pipe_wait p a b i j w = (Ok (), w') \<longleftrightarrow>
  (\<exists>s w1 t. WaitProc p i w = ((s, None), w1) \<and> WaitProc p j w1 = ((t, None), w'))"
  by (auto simp: pipe_wait_def Let_def split: prod.splits option.splits)

section \<open>Tracing the commands a call issues\<close>

text \<open>A log entry: a command with its outcome, a pipeline, or the creation of a directory or
  file. The other calls of \<open>host\<close> only read.\<close>

datatype event = Ran command "cmd_output res" | Piped command command "unit res"
  | MadeDir string | MadeFile string

definition log_of :: "(event list) \<times> 'w \<Rightarrow> event list" where
  "log_of = fst"

definition quietly :: "('w, 'a) io \<Rightarrow> (event list \<times> 'w, 'a) io" where
  "quietly m = (\<lambda>(l, w). let (r, w') = m w in (r, (l, w')))"

definition logging :: "('a res \<Rightarrow> event) \<Rightarrow> ('w, 'a) io \<Rightarrow> (event list \<times> 'w, 'a) io" where
  "logging f m = (\<lambda>(l, w). let (r, w') = m w in (r, (l @ [f r], w')))"

definition traced :: "'w host \<Rightarrow> (event list \<times> 'w) host" where
  "traced h = \<lparr>
     Run = (\<lambda>c. logging (Ran c) (Run h c)),
     RunPipe = (\<lambda>a b. logging (Piped a b) (RunPipe h a b)),
     MkdirAll = (\<lambda>p. logging (\<lambda>_. MadeDir p) (MkdirAll h p)),
     StatPath = (\<lambda>p. quietly (StatPath h p)),
     CreateFile = (\<lambda>p. logging (\<lambda>_. MadeFile p) (CreateFile h p)),
     EvalSymlinks = (\<lambda>p. quietly (EvalSymlinks h p)),
     ReadDir = (\<lambda>p. quietly (ReadDir h p)),
     Statfs = (\<lambda>p. quietly (Statfs h p))\<rparr>"

text \<open>\<open>emits P m\<close>: the call only appends to the log, and every entry it appends satisfies \<open>P\<close>.\<close>

definition emits :: "(event \<Rightarrow> bool) \<Rightarrow> (event list \<times> 'w, 'a) io \<Rightarrow> bool" where
  "emits P m \<longleftrightarrow> (\<forall>l w. \<exists>l'. log_of (snd (m (l, w))) = l @ l' \<and> list_all P l')"

lemma emitsD: "emits P m \<Longrightarrow> m (l, w) = (r, (l2, w')) \<Longrightarrow> \<exists>l'. l2 = l @ l' \<and> list_all P l'"
  unfolding emits_def log_of_def by (metis fst_conv snd_conv)

lemma emitsI: "(\<And>l w r l2 w'. m (l, w) = (r, (l2, w')) \<Longrightarrow> \<exists>l'. l2 = l @ l' \<and> list_all P l') \<Longrightarrow> emits P m"
  unfolding emits_def log_of_def by (metis prod.collapse)

lemma emits_ret [emits_intros]: "emits P (ret a)" and emits_fail [emits_intros]: "emits P (fail e)"
  and emits_panic [emits_intros]: "emits P (panic p)" and emits_liftR [emits_intros]: "emits P (liftR r)"
  and emits_liftE [emits_intros]: "emits P (liftE x)"
  by (auto simp: emits_def log_of_def split: sum.splits)

lemma emits_seq:
  assumes "emits P m" "\<And>a. emits P (f a)" "m (l, w) = (r0, (l1, w1))" "f a (l1, w1) = (r, (l2, w2))"
  shows "\<exists>l'. l2 = l @ l' \<and> list_all P l'"
proof -
  obtain x where "l1 = l @ x" "list_all P x" using emitsD [OF assms(1,3)] by blast
  moreover obtain y where "l2 = l1 @ y" "list_all P y" using emitsD [OF assms(2,4)] by blast
  ultimately show ?thesis by auto
qed

lemma emits_bindIO [emits_intros]: "emits P m \<Longrightarrow> (\<And>a. emits P (f a)) \<Longrightarrow> emits P (bindIO m f)"
  by (rule emitsI) (auto simp: bindIO_def split: prod.splits res.splits dest: emitsD emits_seq)

lemma emits_tryIO [emits_intros]: "emits P m \<Longrightarrow> (\<And>a. emits P (f a)) \<Longrightarrow> emits P (tryIO m f)"
  by (rule emitsI) (auto simp: tryIO_def split: prod.splits res.splits dest: emitsD emits_seq)

lemma emits_wrapIO [emits_intros]: "emits P m \<Longrightarrow> emits P (wrapIO g m)"
  by (rule emitsI) (auto simp: wrapIO_def split: prod.splits res.splits dest: emitsD)

lemma emits_if [emits_intros]: "(b \<Longrightarrow> emits P m) \<Longrightarrow> (\<not> b \<Longrightarrow> emits P n) \<Longrightarrow> emits P (if b then m else n)"
  by simp

lemma emits_case_sum [emits_intros]:
  "(\<And>e. x = Inl e \<Longrightarrow> emits P (f e)) \<Longrightarrow> (\<And>a. x = Inr a \<Longrightarrow> emits P (g a)) \<Longrightarrow> emits P (case_sum f g x)"
  by (cases x) auto

lemma emits_case_prod [emits_intros]: "(\<And>a b. x = (a, b) \<Longrightarrow> emits P (f a b)) \<Longrightarrow> emits P (case_prod f x)"
  by (cases x) auto

lemma emits_Let [emits_intros]: "emits P (f x) \<Longrightarrow> emits P (Let x f)"
  by simp

lemma emits_mapIO [emits_intros]: "(\<And>x. x \<in> set xs \<Longrightarrow> emits P (f x)) \<Longrightarrow> emits P (mapIO f xs)"
  by (induction xs) (auto intro!: emits_intros)

lemma emits_foldIO [emits_intros]: "(\<And>s x. x \<in> set xs \<Longrightarrow> emits P (f s x)) \<Longrightarrow> emits P (foldIO f s xs)"
  by (induction xs arbitrary: s) (auto intro!: emits_intros)

lemma emits_quietly [emits_intros]: "emits P (quietly m)"
  by (auto simp: emits_def quietly_def log_of_def Let_def split: prod.splits)

lemma emits_logging: "(\<And>r. P (f r)) \<Longrightarrow> emits P (logging f m)"
  by (auto simp: emits_def logging_def log_of_def Let_def split: prod.splits)

lemma emits_Run [emits_intros]: "(\<And>r. P (Ran c r)) \<Longrightarrow> emits P (Run (traced h) c)"
  by (simp add: traced_def emits_logging)

lemma emits_RunPipe [emits_intros]: "(\<And>r. P (Piped a b r)) \<Longrightarrow> emits P (RunPipe (traced h) a b)"
  by (simp add: traced_def emits_logging)

lemma emits_MkdirAll [emits_intros]: "P (MadeDir p) \<Longrightarrow> emits P (MkdirAll (traced h) p)"
  by (simp add: traced_def emits_logging)

lemma emits_CreateFile [emits_intros]: "P (MadeFile p) \<Longrightarrow> emits P (CreateFile (traced h) p)"
  by (simp add: traced_def emits_logging)

lemma emits_reads [emits_intros]:
  "emits P (StatPath (traced h) p)" "emits P (EvalSymlinks (traced h) p)"
  "emits P (ReadDir (traced h) p)" "emits P (Statfs (traced h) p)"
  by (simp_all add: traced_def emits_intros)

lemma emits_bindE [emits_intros]: "(\<And>a. x = Inr a \<Longrightarrow> emits P (f a)) \<Longrightarrow> emits P (bindIO (liftE x) f)"
  by (cases x) (auto simp: liftE_def intro!: emits_ret emits_fail)

lemma emits_mono: "emits P m \<Longrightarrow> (\<And>e. P e \<Longrightarrow> Q e) \<Longrightarrow> emits Q m"
  unfolding emits_def by (metis list.pred_mono_strong)

text \<open>\<open>logs P m\<close>: the call only appends to the log, and what it appends, as a whole, satisfies \<open>P\<close>.\<close>

definition logs :: "(event list \<Rightarrow> bool) \<Rightarrow> (event list \<times> 'w, 'a) io \<Rightarrow> bool" where
  "logs P m \<longleftrightarrow> (\<forall>l w. \<exists>l'. log_of (snd (m (l, w))) = l @ l' \<and> P l')"

lemma logsD: "logs P m \<Longrightarrow> m (l, w) = (r, (l2, w')) \<Longrightarrow> \<exists>l'. l2 = l @ l' \<and> P l'"
  unfolding logs_def log_of_def by (metis fst_conv snd_conv)

lemma logsI: "(\<And>l w r l2 w'. m (l, w) = (r, (l2, w')) \<Longrightarrow> \<exists>l'. l2 = l @ l' \<and> P l') \<Longrightarrow> logs P m"
  unfolding logs_def log_of_def by (metis prod.collapse)

lemma emits_logs: "emits P m \<longleftrightarrow> logs (list_all P) m"
  by (simp add: emits_def logs_def)

lemma logs_mono: "logs P m \<Longrightarrow> (\<And>l. P l \<Longrightarrow> Q l) \<Longrightarrow> logs Q m"
  unfolding logs_def by metis

lemma Run_traced: "Run (traced h) c (l, w) = (let (r, w') = Run h c w in (r, (l @ [Ran c r], w')))"
  by (simp add: traced_def logging_def)

text \<open>A property of logs that holds of the empty log and of the concatenation of two logs it holds
  of: calls composed of calls that satisfy it satisfy it.\<close>

locale log_closed =
  fixes P :: "event list \<Rightarrow> bool"
  assumes empty: "P []"
    and append: "P a \<Longrightarrow> P b \<Longrightarrow> P (a @ b)"
begin

lemma logs_ret: "logs P (ret a)" and logs_fail: "logs P (fail e)" and logs_panic: "logs P (panic p)"
  and logs_liftE: "logs P (liftE x)" and logs_liftR: "logs P (liftR r)"
  by (auto simp: logs_def log_of_def empty split: sum.splits)

lemma logs_seq:
  assumes "logs P m" "\<And>a. logs P (f a)" "m (l, w) = (r0, (l1, w1))" "f a (l1, w1) = (r, (l2, w2))"
  shows "\<exists>l'. l2 = l @ l' \<and> P l'"
proof -
  obtain x where "l1 = l @ x" "P x" using logsD [OF assms(1,3)] by blast
  moreover obtain y where "l2 = l1 @ y" "P y" using logsD [OF assms(2,4)] by blast
  ultimately show ?thesis using append by auto
qed

lemma logs_bindIO: "logs P m \<Longrightarrow> (\<And>a. logs P (f a)) \<Longrightarrow> logs P (bindIO m f)"
  by (rule logsI) (auto simp: bindIO_def split: prod.splits res.splits dest: logsD logs_seq)

lemma logs_tryIO: "logs P m \<Longrightarrow> (\<And>a. logs P (f a)) \<Longrightarrow> logs P (tryIO m f)"
  by (rule logsI) (auto simp: tryIO_def split: prod.splits res.splits dest: logsD logs_seq)

lemma logs_wrapIO: "logs P m \<Longrightarrow> logs P (wrapIO g m)"
  by (rule logsI) (auto simp: wrapIO_def split: prod.splits res.splits dest: logsD)

lemma logs_if: "(b \<Longrightarrow> logs P m) \<Longrightarrow> (\<not> b \<Longrightarrow> logs P n) \<Longrightarrow> logs P (if b then m else n)"
  by simp

lemma logs_case_sum: "(\<And>e. x = Inl e \<Longrightarrow> logs P (f e)) \<Longrightarrow> (\<And>a. x = Inr a \<Longrightarrow> logs P (g a)) \<Longrightarrow> logs P (case_sum f g x)"
  by (cases x) auto

lemma logs_case_prod: "(\<And>a b. x = (a, b) \<Longrightarrow> logs P (f a b)) \<Longrightarrow> logs P (case_prod f x)"
  by (cases x) auto

lemma logs_Let: "logs P (f x) \<Longrightarrow> logs P (Let x f)"
  by simp

lemma logs_emits: "emits Q m \<Longrightarrow> (\<And>l. list_all Q l \<Longrightarrow> P l) \<Longrightarrow> logs P m"
  by (auto simp: emits_logs elim: logs_mono)

lemmas logs_intros = logs_ret logs_fail logs_panic logs_liftE logs_liftR logs_bindIO logs_tryIO logs_wrapIO
  logs_if logs_case_sum logs_case_prod logs_Let

end

end
