(* ===== verification/Driver_Types.thy ===== *)
theory Driver_Types
  imports Go_Effects
begin

text \<open>
  \<^verbatim>\<open>internal/driver\<close>: the neutral error vocabulary (errors.go), the request and response types
  (types.go), the capabilities (capabilities.go), the two backend interfaces (driver.go) as
  records of operations, and the registry with the mode rules (registry.go). Maps of strings are
  Isabelle maps; a nil pointer is \<^term>\<open>None\<close>; a \<^verbatim>\<open>time.Time\<close> is the number of its Unix second, and
  \<^term>\<open>None\<close> the zero time.
\<close>

type_synonym smap = "string \<rightharpoonup> string"

text \<open>Reading a missing key of a Go map gives the empty string.\<close>

definition sget :: "smap \<Rightarrow> string \<Rightarrow> string" where
  "sget m k = (case m k of None \<Rightarrow> [] | Some v \<Rightarrow> v)"

lemma sget_simps [simp]: "sget (m(k \<mapsto> v)) k = v" "k' \<noteq> k \<Longrightarrow> sget (m(k \<mapsto> v)) k' = sget m k'"
  "sget Map.empty k = []"
  by (simp_all add: sget_def)

section \<open>errors.go\<close>

text \<open>The integer of a code (the constants are an \<^verbatim>\<open>iota\<close> block) and the conversion back.\<close>

fun int_of_Code :: "Code \<Rightarrow> int" where
  "int_of_Code CodeUnknown = 0"
| "int_of_Code CodeInvalidArgument = 1"
| "int_of_Code CodeNotFound = 2"
| "int_of_Code CodeAlreadyExists = 3"
| "int_of_Code CodeFailedPrecondition = 4"
| "int_of_Code CodeOutOfRange = 5"
| "int_of_Code CodeResourceExhausted = 6"
| "int_of_Code CodeAborted = 7"
| "int_of_Code CodeUnimplemented = 8"
| "int_of_Code CodeInternal = 9"
| "int_of_Code CodeUnavailable = 10"
| "int_of_Code (CodeOther n) = n"

definition Code_of_int :: "int \<Rightarrow> Code" where
  "Code_of_int n =
     (if n = 0 then CodeUnknown else if n = 1 then CodeInvalidArgument
      else if n = 2 then CodeNotFound else if n = 3 then CodeAlreadyExists
      else if n = 4 then CodeFailedPrecondition else if n = 5 then CodeOutOfRange
      else if n = 6 then CodeResourceExhausted else if n = 7 then CodeAborted
      else if n = 8 then CodeUnimplemented else if n = 9 then CodeInternal
      else if n = 10 then CodeUnavailable else CodeOther n)"

text \<open>The canonical codes: \<open>CodeOther\<close> is only for numbers outside the constants.\<close>

fun code_wf :: "Code \<Rightarrow> bool" where
  "code_wf (CodeOther n) = (n < 0 \<or> 10 < n)"
| "code_wf _ = True"

lemma Code_of_int_of_Code: "code_wf c \<Longrightarrow> Code_of_int (int_of_Code c) = c"
  by (cases c) (auto simp: Code_of_int_def)

lemma int_of_Code_of_int [simp]: "int_of_Code (Code_of_int n) = n"
  by (simp add: Code_of_int_def)

lemma code_wf_Code_of_int [simp]: "code_wf (Code_of_int n)"
  by (auto simp: Code_of_int_def, presburger)

definition newf :: "Code \<Rightarrow> string \<Rightarrow> err" where
  "newf code format = DriverErr code format None"

definition InvalidArgument :: "string \<Rightarrow> err" where
  "InvalidArgument m = newf CodeInvalidArgument m"

definition NotFound :: "string \<Rightarrow> err" where
  "NotFound m = newf CodeNotFound m"

definition AlreadyExists :: "string \<Rightarrow> err" where
  "AlreadyExists m = newf CodeAlreadyExists m"

definition FailedPrecondition :: "string \<Rightarrow> err" where
  "FailedPrecondition m = newf CodeFailedPrecondition m"

definition OutOfRange :: "string \<Rightarrow> err" where
  "OutOfRange m = newf CodeOutOfRange m"

definition ResourceExhausted :: "string \<Rightarrow> err" where
  "ResourceExhausted m = newf CodeResourceExhausted m"

definition Aborted :: "string \<Rightarrow> err" where
  "Aborted m = newf CodeAborted m"

definition Unimplemented :: "string \<Rightarrow> err" where
  "Unimplemented m = newf CodeUnimplemented m"

definition Internal :: "string \<Rightarrow> err" where
  "Internal m = newf CodeInternal m"

definition Unavailable :: "string \<Rightarrow> err" where
  "Unavailable m = newf CodeUnavailable m"

lemmas driver_err_defs = newf_def InvalidArgument_def NotFound_def AlreadyExists_def
  FailedPrecondition_def OutOfRange_def ResourceExhausted_def Aborted_def Unimplemented_def
  Internal_def Unavailable_def

text \<open>The code of the first driver error in a chain, as the callers read it.\<close>

definition err_code :: "err \<Rightarrow> Code option" where
  "err_code e = (case errors_As is_DriverErr e of Some (DriverErr c _ _) \<Rightarrow> Some c | _ \<Rightarrow> None)"

lemma err_code_DriverErr [simp]: "err_code (DriverErr c m x) = Some c"
  by (simp add: err_code_def errors_As_self)

lemma err_code_constructors [simp]:
  "err_code (InvalidArgument m) = Some CodeInvalidArgument"
  "err_code (NotFound m) = Some CodeNotFound"
  "err_code (AlreadyExists m) = Some CodeAlreadyExists"
  "err_code (FailedPrecondition m) = Some CodeFailedPrecondition"
  "err_code (OutOfRange m) = Some CodeOutOfRange"
  "err_code (Aborted m) = Some CodeAborted"
  "err_code (Unimplemented m) = Some CodeUnimplemented"
  "err_code (Internal m) = Some CodeInternal"
  "err_code (Unavailable m) = Some CodeUnavailable"
  by (simp_all add: driver_err_defs)

text \<open>\<open>fails_as P m\<close>: every error the call returns satisfies \<open>P\<close>; \<open>coded\<close>: it carries a driver code.\<close>

named_theorems fails_intros \<open>rules for the errors of a call\<close>

definition fails_as :: "(err \<Rightarrow> bool) \<Rightarrow> ('w, 'a) io \<Rightarrow> bool" where
  "fails_as P m \<longleftrightarrow> (\<forall>w e w'. m w = (Fail e, w') \<longrightarrow> P e)"

abbreviation coded :: "('w, 'a) io \<Rightarrow> bool" where
  "coded \<equiv> fails_as (\<lambda>e. err_code e \<noteq> None)"

lemma fails_asD: "fails_as P m \<Longrightarrow> m w = (Fail e, w') \<Longrightarrow> P e"
  unfolding fails_as_def by blast

lemma fails_ret [fails_intros]: "fails_as P (ret a)" and fails_fail [fails_intros]: "P e \<Longrightarrow> fails_as P (fail e)"
  and fails_panic [fails_intros]: "fails_as P (panic p)"
  by (auto simp: fails_as_def)

lemma fails_liftE [fails_intros]: "(\<And>e. x = Inl e \<Longrightarrow> P e) \<Longrightarrow> fails_as P (liftE x)"
  by (cases x) (auto simp: fails_as_def)

lemma fails_bindIO [fails_intros]: "fails_as P m \<Longrightarrow> (\<And>a. fails_as P (f a)) \<Longrightarrow> fails_as P (bindIO m f)"
  unfolding fails_as_def bindIO_def by (auto split: prod.splits res.splits)

lemma fails_tryIO [fails_intros]: "(\<And>a. fails_as P (f a)) \<Longrightarrow> fails_as P (tryIO m f)"
  unfolding fails_as_def tryIO_def by (auto split: prod.splits res.splits)

lemma fails_wrapIO [fails_intros]: "(\<And>e. P (g e)) \<Longrightarrow> fails_as P (wrapIO g m)"
  unfolding fails_as_def wrapIO_def by (auto split: prod.splits res.splits)

lemma fails_if [fails_intros]: "(b \<Longrightarrow> fails_as P m) \<Longrightarrow> (\<not> b \<Longrightarrow> fails_as P n) \<Longrightarrow> fails_as P (if b then m else n)"
  by simp

lemma fails_case_prod [fails_intros]: "(\<And>a b. x = (a, b) \<Longrightarrow> fails_as P (f a b)) \<Longrightarrow> fails_as P (case_prod f x)"
  by (cases x) auto

lemma fails_case_sum [fails_intros]:
  "(\<And>e. x = Inl e \<Longrightarrow> fails_as P (f e)) \<Longrightarrow> (\<And>a. x = Inr a \<Longrightarrow> fails_as P (g a)) \<Longrightarrow> fails_as P (case_sum f g x)"
  by (cases x) auto

lemma fails_Let [fails_intros]: "fails_as P (f x) \<Longrightarrow> fails_as P (Let x f)"
  by simp

lemma fails_foldIO [fails_intros]: "(\<And>s x. fails_as P (f s x)) \<Longrightarrow> fails_as P (foldIO f s xs)"
  by (induction xs arbitrary: s) (auto intro!: fails_intros)

text \<open>\<open>yields P m\<close>: every result the call returns satisfies \<open>P\<close>.\<close>

named_theorems yields_intros \<open>rules for the results of a call\<close>

definition yields :: "('a \<Rightarrow> bool) \<Rightarrow> ('w, 'a) io \<Rightarrow> bool" where
  "yields P m \<longleftrightarrow> (\<forall>w a w'. m w = (Ok a, w') \<longrightarrow> P a)"

lemma yieldsD: "yields P m \<Longrightarrow> m w = (Ok a, w') \<Longrightarrow> P a"
  unfolding yields_def by blast

lemma yields_ret [yields_intros]: "P a \<Longrightarrow> yields P (ret a)" and yields_fail [yields_intros]: "yields P (fail e)"
  by (auto simp: yields_def)

lemma yields_liftE [yields_intros]: "(\<And>a. x = Inr a \<Longrightarrow> P a) \<Longrightarrow> yields P (liftE x)"
  by (cases x) (auto simp: yields_def)

lemma yields_bindIO [yields_intros]: "(\<And>a. yields P (f a)) \<Longrightarrow> yields P (bindIO m f)"
  unfolding yields_def bindIO_def by (auto split: prod.splits res.splits)

lemma yields_bind: "yields Q m \<Longrightarrow> (\<And>a. Q a \<Longrightarrow> yields P (f a)) \<Longrightarrow> yields P (bindIO m f)"
  unfolding yields_def bindIO_def by (fastforce split: prod.splits res.splits)

lemma yields_wrapIO [yields_intros]: "yields P m \<Longrightarrow> yields P (wrapIO g m)"
  unfolding yields_def wrapIO_def by (auto split: prod.splits res.splits)

lemma yields_if [yields_intros]: "(b \<Longrightarrow> yields P m) \<Longrightarrow> (\<not> b \<Longrightarrow> yields P n) \<Longrightarrow> yields P (if b then m else n)"
  by simp

lemma yields_case_prod [yields_intros]: "(\<And>a b. x = (a, b) \<Longrightarrow> yields P (f a b)) \<Longrightarrow> yields P (case_prod f x)"
  by (cases x) auto

section \<open>types.go\<close>

datatype AccessType = AccessTypeMount | AccessTypeBlock

datatype AccessMode = AccessModeUnknown | AccessModeSingleNodeWriter | AccessModeSingleNodeReaderOnly

record VolumeCapability =
  accessType :: AccessType
  accessMode :: AccessMode
  capFsType :: string
  mountFlags :: "string list"

text \<open>The zero value of the struct.\<close>

definition zeroCapability :: VolumeCapability where
  "zeroCapability = \<lparr>accessType = AccessTypeMount, accessMode = AccessModeUnknown,
     capFsType = [], mountFlags = []\<rparr>"

record CapacityRange =
  requiredBytes :: int
  limitBytes :: int

type_synonym Topology = smap

record ContentSource =
  srcSnapshotID :: string
  srcVolumeID :: string

record CreateVolumeRequest =
  crName :: string
  crCapacityRange :: CapacityRange
  crCapabilities :: "VolumeCapability list"
  crParameters :: smap
  crSecrets :: smap
  crContentSource :: "ContentSource option"
  crTopologyRequirement :: "Topology list"

record Volume =
  volumeID :: string
  capacityBytes :: int
  volumeContext :: smap
  accessibleTopology :: "Topology list"
  contentSource :: "ContentSource option"

record CreateSnapshotRequest =
  csSourceVolumeID :: string
  csName :: string
  csParameters :: smap
  csSecrets :: smap

record Snapshot =
  snSnapshotID :: string
  snSourceVolumeID :: string
  snSizeBytes :: int
  snCreationTime :: "int option"
  snReadyToUse :: bool

record StageRequest =
  stVolumeID :: string
  stStagingTargetPath :: string
  stVolumeCapability :: VolumeCapability
  stVolumeContext :: smap
  stPublishContext :: smap
  stSecrets :: smap

record UnstageRequest =
  usVolumeID :: string
  usStagingTargetPath :: string

record PublishRequest =
  puVolumeID :: string
  puStagingTargetPath :: string
  puTargetPath :: string
  puVolumeCapability :: VolumeCapability
  puVolumeContext :: smap
  puPublishContext :: smap
  puReadonly :: bool

record UnpublishRequest =
  upVolumeID :: string
  upTargetPath :: string

record NodeExpandRequest =
  neVolumeID :: string
  neVolumePath :: string
  neStagingTargetPath :: string
  neCapacityRange :: CapacityRange
  neVolumeCapability :: VolumeCapability

record NodeInfo =
  niNodeID :: string
  niMaxVolumesPerNode :: int
  niAccessibleTopology :: "Topology option"

record VolumeInfo =
  viVolumeID :: string
  viCapacityBytes :: int
  viAccessibleTopology :: "Topology list"

type_synonym SnapshotInfo = Snapshot

record VolumeStats =
  vsTotalBytes :: int
  vsUsedBytes :: int
  vsAvailableBytes :: int
  vsTotalInodes :: int
  vsUsedInodes :: int
  vsFreeInodes :: int

section \<open>capabilities.go and the interfaces of driver.go\<close>

record Capabilities =
  CreateDelete :: bool
  PublishUnpublish :: bool
  Expand :: bool
  SnapshotCap :: bool
  Clone :: bool
  GetCapacityCap :: bool
  ListVolumesCap :: bool
  ListSnapshotsCap :: bool
  NodeStage :: bool
  NodeExpand :: bool
  NodeVolumeStats :: bool
  ExpandOnline :: bool
  TopologyCap :: bool

text \<open>\<^verbatim>\<open>ControllerBackend\<close>: the operations, over a world \<open>'w\<close>.\<close>

record 'w ControllerBackend =
  beCreateVolume :: "CreateVolumeRequest \<Rightarrow> ('w, Volume) io"
  beDeleteVolume :: "string \<Rightarrow> smap \<Rightarrow> ('w, unit) io"
  beVolumeExists :: "string \<Rightarrow> ('w, bool) io"
  beExpandVolume :: "string \<Rightarrow> CapacityRange \<Rightarrow> smap \<Rightarrow> ('w, int \<times> bool) io"
  beControllerPublishVolume ::
    "string \<Rightarrow> string \<Rightarrow> VolumeCapability \<Rightarrow> bool \<Rightarrow> smap \<Rightarrow> smap \<Rightarrow> ('w, smap) io"
  beControllerUnpublishVolume :: "string \<Rightarrow> string \<Rightarrow> smap \<Rightarrow> ('w, unit) io"
  beCreateSnapshot :: "CreateSnapshotRequest \<Rightarrow> ('w, Snapshot) io"
  beDeleteSnapshot :: "string \<Rightarrow> smap \<Rightarrow> ('w, unit) io"
  beGetCapacity :: "Topology list \<Rightarrow> smap \<Rightarrow> ('w, int) io"
  beListVolumes :: "('w, VolumeInfo list) io"
  beListSnapshots :: "string \<Rightarrow> ('w, SnapshotInfo list) io"

text \<open>\<^verbatim>\<open>NodeBackend\<close>.\<close>

record 'w NodeBackend =
  beStageVolume :: "StageRequest \<Rightarrow> ('w, unit) io"
  beUnstageVolume :: "UnstageRequest \<Rightarrow> ('w, unit) io"
  bePublishVolume :: "PublishRequest \<Rightarrow> ('w, unit) io"
  beUnpublishVolume :: "UnpublishRequest \<Rightarrow> ('w, unit) io"
  beNodeExpandVolume :: "NodeExpandRequest \<Rightarrow> ('w, int) io"
  beGetInfo :: "('w, NodeInfo) io"
  beGetVolumeStats :: "string \<Rightarrow> string \<Rightarrow> ('w, VolumeStats) io"

section \<open>registry.go\<close>

text \<open>A \<^verbatim>\<open>Mode\<close> is a string of the command line.\<close>

definition ModeController :: string where "ModeController = ''controller''"

definition ModeNode :: string where "ModeNode = ''node''"

definition ModeMonolith :: string where "ModeMonolith = ''monolith''"

lemmas mode_defs = ModeController_def ModeNode_def ModeMonolith_def

definition HasController :: "string \<Rightarrow> bool" where
  "HasController m \<longleftrightarrow> m = ModeController \<or> m = ModeMonolith"

definition HasNode :: "string \<Rightarrow> bool" where
  "HasNode m \<longleftrightarrow> m = ModeNode \<or> m = ModeMonolith"

definition ValidateModeForDriver :: "string \<Rightarrow> string \<Rightarrow> err + unit" where
  "ValidateModeForDriver driverName mode =
     (if mode \<noteq> ModeController \<and> mode \<noteq> ModeNode \<and> mode \<noteq> ModeMonolith
      then Inl (PlainErr ''invalid --mode %q (want controller|node|monolith)'')
      else if driverName = ''qnap'' \<and> mode = ModeMonolith
      then Inl (PlainErr ''driver=qnap does not support --mode=monolith; use controller or node'')
      else if driverName = ''local'' \<and> mode \<noteq> ModeMonolith
      then Inl (PlainErr ''driver=local requires --mode=monolith (single plugin_id + controller-to-controller forwarding)'')
      else Inr ())"

text \<open>The constructor registry: a map from driver names. \<^verbatim>\<open>Register\<close> panics on a duplicate.\<close>

definition Register :: "string \<Rightarrow> 'c \<Rightarrow> (string \<rightharpoonup> 'c) \<Rightarrow> (string \<rightharpoonup> 'c) res" where
  "Register name c registry =
     (if registry name \<noteq> None then Panic (''driver: duplicate registration for '' @ name)
      else Ok (registry(name \<mapsto> c)))"

definition New :: "string \<Rightarrow> 'd \<Rightarrow> (string \<rightharpoonup> 'd \<Rightarrow> ('w, 'b) io) \<Rightarrow> ('w, 'b) io" where
  "New name d registry = (case registry name of
     None \<Rightarrow> fail (PlainErr ''driver: unknown driver %q (available: %v)'')
   | Some c \<Rightarrow> c d)"

text \<open>Each accepted combination runs exactly the halves its deployment needs.\<close>

lemma ValidateModeForDriver_ok: "ValidateModeForDriver d m = Inr () \<longleftrightarrow>
  (HasController m \<or> HasNode m) \<and>
  (d = ''qnap'' \<longrightarrow> \<not> (HasController m \<and> HasNode m)) \<and>
  (d = ''local'' \<longrightarrow> HasController m \<and> HasNode m)"
  by (auto simp: ValidateModeForDriver_def HasController_def HasNode_def mode_defs)

lemma Register_keeps: "Register n c r = Ok r' \<Longrightarrow> r' n = Some c \<and> (\<forall>k. k \<noteq> n \<longrightarrow> r' k = r k) \<and> r n = None"
  by (auto simp: Register_def split: if_splits)

end
