(* ===== verification/Csi_Locks.thy ===== *)
theory Csi_Locks
  imports Driver_Types
begin

text \<open>
  \<^verbatim>\<open>internal/csi/locks.go\<close>: the keyed locker that serialises RPCs on the same volume. The
  locale \<open>key_lock\<close> is its interface with the laws a client relies on; \<open>keyedLocker\<close> provides it.
  \<open>rpc_step\<close> is the concurrent system of one CSI server: any number of RPC threads that take the
  lock of their key or are turned away, work in the backend, and release on every way out (the
  \<^verbatim>\<open>defer release()\<close> of the handlers). The mutex \<^verbatim>\<open>mu\<close> makes \<^verbatim>\<open>tryAcquire\<close> and the release
  function atomic, so each is one step.
\<close>

section \<open>The interface\<close>

locale key_lock =
  fixes try_lock :: "'k \<Rightarrow> 's \<Rightarrow> bool \<times> 's"
    and unlock :: "'k \<Rightarrow> 's \<Rightarrow> 's"
    and busy :: "'s \<Rightarrow> 'k \<Rightarrow> bool"
  assumes try_granted: "fst (try_lock k s) \<longleftrightarrow> \<not> busy s k"
    and try_takes: "\<not> busy s k \<Longrightarrow> busy (snd (try_lock k s)) k' \<longleftrightarrow> busy s k' \<or> k' = k"
    and try_refused: "busy s k \<Longrightarrow> snd (try_lock k s) = s"
    and unlock_frees: "busy (unlock k s) k' \<longleftrightarrow> busy s k' \<and> k' \<noteq> k"
begin

text \<open>\<open>owns run s\<close>: the busy keys are exactly those of the running threads, one thread each.\<close>

definition owns :: "('t \<rightharpoonup> 'k) \<Rightarrow> 's \<Rightarrow> bool" where
  "owns run s \<longleftrightarrow> (\<forall>k. busy s k \<longleftrightarrow> k \<in> ran run) \<and> inj_on run (dom run)"

lemma owns_idle: "(\<And>k. \<not> busy s k) \<Longrightarrow> owns Map.empty s"
  by (simp add: owns_def)

lemma owns_try:
  assumes "owns run s" "run t = None" "fst (try_lock k s)"
  shows "owns (run(t \<mapsto> k)) (snd (try_lock k s))"
proof -
  have b: "\<not> busy s k" using assms(3) by (simp add: try_granted)
  with assms(1) have k: "k \<notin> ran run" by (simp add: owns_def)
  have "inj_on (run(t \<mapsto> k)) (dom (run(t \<mapsto> k)))"
    using assms(1) k by (auto simp: owns_def inj_on_def ran_def dom_def)
  moreover have "ran (run(t \<mapsto> k)) = insert k (ran run)" using assms(2) by simp
  ultimately show ?thesis using assms(1) try_takes [OF b] by (auto simp: owns_def)
qed

lemma owns_unlock:
  assumes "owns run s" "run t = Some k"
  shows "owns (run(t := None)) (unlock k s)"
proof -
  have i: "inj_on run (dom run)" using assms(1) by (simp add: owns_def)
  have "ran (run(t := None)) = ran run - {k}"
  proof (intro set_eqI iffI)
    fix x assume "x \<in> ran (run(t := None))"
    then obtain u where u: "u \<noteq> t" "run u = Some x" by (auto simp: ran_def split: if_splits)
    then have "x \<noteq> k" using i assms(2) by (auto simp: inj_on_def dom_def)
    with u show "x \<in> ran run - {k}" by (auto simp: ran_def)
  next
    fix x assume "x \<in> ran run - {k}"
    then obtain u where "run u = Some x" "x \<noteq> k" by (auto simp: ran_def)
    then show "x \<in> ran (run(t := None))" using assms(2) by (auto intro!: ranI [of _ u])
  qed
  moreover have "inj_on (run(t := None)) (dom (run(t := None)))"
    using i by (auto simp: inj_on_def)
  ultimately show ?thesis using assms(1) unlock_frees by (auto simp: owns_def)
qed

lemma owns_exclusive: "owns run s \<Longrightarrow> run t = Some k \<Longrightarrow> run u = Some k \<Longrightarrow> t = u"
  by (auto simp: owns_def inj_on_def dom_def)

lemma try_unlock: "\<not> busy s k \<Longrightarrow> busy (unlock k (snd (try_lock k s))) = busy s"
  by (rule ext) (auto simp: unlock_frees try_takes)

end

section \<open>keyedLocker\<close>

record keyedLocker =
  held :: "string set"

definition newKeyedLocker :: keyedLocker where
  "newKeyedLocker = \<lparr>held = {}\<rparr>"

definition tryAcquire :: "string \<Rightarrow> keyedLocker \<Rightarrow> bool \<times> keyedLocker" where
  "tryAcquire key k = (if key \<in> held k then (False, k) else (True, k\<lparr>held := insert key (held k)\<rparr>))"

text \<open>The release function that \<^verbatim>\<open>tryAcquire\<close> returns.\<close>

definition release :: "string \<Rightarrow> keyedLocker \<Rightarrow> keyedLocker" where
  "release key k = k\<lparr>held := held k - {key}\<rparr>"

definition acquire :: "string \<Rightarrow> string \<Rightarrow> (keyedLocker, unit) io" where
  "acquire kind key = (\<lambda>k. let (ok, k') = tryAcquire key k in
     (if ok then Ok () else Fail (Aborted ''an operation is already in progress for %s %q''), k'))"

definition lock_busy :: "keyedLocker \<Rightarrow> string \<Rightarrow> bool" where
  "lock_busy k key \<longleftrightarrow> key \<in> held k"

interpretation kl: key_lock tryAcquire release lock_busy
  by unfold_locales (auto simp: tryAcquire_def release_def lock_busy_def)

lemma acquire_free: "key \<notin> held k \<Longrightarrow> acquire kind key k = (Ok (), k\<lparr>held := insert key (held k)\<rparr>)"
  by (simp add: acquire_def tryAcquire_def)

lemma acquire_busy: "key \<in> held k \<Longrightarrow>
  acquire kind key k = (Fail (Aborted ''an operation is already in progress for %s %q''), k)"
  by (simp add: acquire_def tryAcquire_def)

lemma release_acquired [simp]: "key \<notin> held k \<Longrightarrow> release key (k\<lparr>held := insert key (held k)\<rparr>) = k"
  by (simp add: release_def)

section \<open>Concurrent RPCs\<close>

text \<open>What a thread does, in the order it happens: it takes the lock of its key (\<open>EvBegin\<close>), is
  turned away (\<open>EvAbort\<close>), performs an action in the backend (\<open>EvWork\<close>), returns (\<open>EvEnd\<close>).\<close>

datatype rpc_event = EvBegin nat string | EvAbort nat string | EvWork nat string | EvEnd nat string

record rpc_state =
  locks :: keyedLocker
  running :: "nat \<rightharpoonup> string"
  history :: "rpc_event list"

definition rpc_init :: rpc_state where
  "rpc_init = \<lparr>locks = newKeyedLocker, running = Map.empty, history = []\<rparr>"

inductive rpc_step :: "rpc_state \<Rightarrow> rpc_state \<Rightarrow> bool" where
  Begin: "running s t = None \<Longrightarrow> acquire kind key (locks s) = (Ok (), l) \<Longrightarrow>
    rpc_step s (s\<lparr>locks := l, running := (running s)(t \<mapsto> key), history := history s @ [EvBegin t key]\<rparr>)"
| Abort: "running s t = None \<Longrightarrow> acquire kind key (locks s) = (Fail e, l) \<Longrightarrow>
    rpc_step s (s\<lparr>locks := l, history := history s @ [EvAbort t key]\<rparr>)"
| Work: "running s t = Some key \<Longrightarrow>
    rpc_step s (s\<lparr>history := history s @ [EvWork t key]\<rparr>)"
| End: "running s t = Some key \<Longrightarrow>
    rpc_step s (s\<lparr>locks := release key (locks s), running := (running s)(t := None),
      history := history s @ [EvEnd t key]\<rparr>)"

inductive_cases rpc_stepE [consumes 1, case_names Begin Abort Work End]: "rpc_step s s'"

inductive rpc_reachable :: "rpc_state \<Rightarrow> bool" where
  Init: "rpc_reachable rpc_init"
| Step: "rpc_reachable s \<Longrightarrow> rpc_step s s' \<Longrightarrow> rpc_reachable s'"

text \<open>The specification of serialised access to one key: replaying a history, the key has at
  most one owner at a time; only the owner works and ends; nobody begins while it is owned and
  nobody is turned away while it is free. The result is the owner at the end.\<close>

fun replay :: "string \<Rightarrow> nat option \<Rightarrow> rpc_event list \<Rightarrow> (nat option) option" where
  "replay k ow [] = Some ow"
| "replay k ow (EvBegin t key # h) =
     (if key \<noteq> k then replay k ow h else if ow = None then replay k (Some t) h else None)"
| "replay k ow (EvAbort t key # h) =
     (if key \<noteq> k then replay k ow h else if ow \<noteq> None \<and> ow \<noteq> Some t then replay k ow h else None)"
| "replay k ow (EvWork t key # h) =
     (if key \<noteq> k then replay k ow h else if ow = Some t then replay k ow h else None)"
| "replay k ow (EvEnd t key # h) =
     (if key \<noteq> k then replay k ow h else if ow = Some t then replay k None h else None)"

lemma replay_append: "replay k ow (a @ b) = (case replay k ow a of None \<Rightarrow> None | Some ow' \<Rightarrow> replay k ow' b)"
  by (induction k ow a rule: replay.induct) auto

lemma acquire_Ok: "acquire kind key k = (Ok (), l) \<longleftrightarrow> fst (tryAcquire key k) \<and> l = snd (tryAcquire key k)"
  by (auto simp: acquire_def split: prod.splits)

lemma acquire_Fail: "acquire kind key k = (Fail e, l) \<Longrightarrow> lock_busy k key \<and> l = k"
  by (auto simp: acquire_def tryAcquire_def lock_busy_def split: if_splits)

lemma rpc_owns: "rpc_reachable s \<Longrightarrow> kl.owns (running s) (locks s)"
proof (induction rule: rpc_reachable.induct)
  case Init
  have "kl.owns Map.empty newKeyedLocker"
    by (rule kl.owns_idle) (simp add: lock_busy_def newKeyedLocker_def)
  then show ?case by (simp add: rpc_init_def)
next
  case (Step s s')
  from Step.hyps(2) show ?case
  proof (cases rule: rpc_stepE)
    case (Begin t kind key l)
    then show ?thesis using kl.owns_try [OF Step.IH]
      by (simp add: acquire_Ok del: fun_upd_apply)
  next
    case (Abort t kind key e l)
    then show ?thesis using Step.IH by (auto dest: acquire_Fail)
  next
    case (Work t key)
    then show ?thesis using Step.IH by simp
  next
    case (End t key)
    then show ?thesis using kl.owns_unlock [OF Step.IH] by (simp del: fun_upd_apply)
  qed
qed

lemma owns_owner: "kl.owns (running s) (locks s) \<Longrightarrow>
  lock_busy (locks s) k \<longleftrightarrow> (\<exists>t. running s t = Some k)"
  by (auto simp: kl.owns_def ran_def)

text \<open>The replayed owner of a key is the thread that runs with it.\<close>

definition owner_of :: "rpc_state \<Rightarrow> string \<Rightarrow> nat option \<Rightarrow> bool" where
  "owner_of s k ow \<longleftrightarrow> (\<forall>t. running s t = Some k \<longleftrightarrow> ow = Some t)"

lemma replay_step:
  assumes "kl.owns (running s) (locks s)" "rpc_step s s'"
    and "replay k None (history s) = Some ow" "owner_of s k ow"
  shows "\<exists>ow'. replay k None (history s') = Some ow' \<and> owner_of s' k ow'"
  using assms(2)
proof (cases rule: rpc_stepE)
  case (Begin t kind key l)
  then have "\<not> lock_busy (locks s) key" by (simp add: acquire_Ok kl.try_granted)
  then have "key = k \<Longrightarrow> ow = None"
    using owns_owner [OF assms(1)] assms(4) by (cases ow) (auto simp: owner_of_def)
  moreover have "ow \<noteq> Some t" using Begin(2) assms(4) by (metis owner_of_def option.distinct(1))
  ultimately show ?thesis using Begin assms(3,4) by (auto simp: replay_append owner_of_def)
next
  case (Abort t kind key e l)
  then have "lock_busy (locks s) key" by (blast dest: acquire_Fail)
  then obtain u where u: "running s u = Some key" using owns_owner [OF assms(1)] by blast
  then have "u \<noteq> t" using Abort by auto
  then show ?thesis using Abort u assms(3,4) by (auto simp: replay_append owner_of_def)
next
  case (Work t key)
  then show ?thesis using assms(3,4) by (auto simp: replay_append owner_of_def)
next
  case (End t key)
  have o: "ow = Some t \<longleftrightarrow> key = k" using End(2) assms(4) by (metis owner_of_def option.inject)
  have r: "running s' u = (if u = t then None else running s u)" for u using End(1) by simp
  have h: "history s' = history s @ [EvEnd t key]" using End(1) by simp
  show ?thesis
  proof (cases "key = k")
    case True
    with o assms(4) have "owner_of s' k None" by (auto simp: owner_of_def r)
    then show ?thesis using True o assms(3) by (simp add: h replay_append)
  next
    case False
    with o assms(4) have "owner_of s' k ow" by (auto simp: owner_of_def r)
    then show ?thesis using False assms(3) by (simp add: h replay_append)
  qed
qed

lemma replay_reachable: "rpc_reachable s \<Longrightarrow>
  \<exists>ow. replay k None (history s) = Some ow \<and> owner_of s k ow"
proof (induction rule: rpc_reachable.induct)
  case Init
  show ?case by (auto simp: rpc_init_def owner_of_def)
next
  case (Step s s')
  then show ?case using replay_step rpc_owns by blast
qed

section \<open>The property\<close>

text \<open>C9. RPCs on the same key are serialised. In every reachable state of the server, two RPC
  threads never run with the same key, the lock table holds exactly the keys of the running
  threads (so an idle server holds no lock), and the whole history, replayed for any key, obeys
  single ownership: only the owner works, nobody starts while a key is owned, and an RPC is
  turned away only while another one owns its key.\<close>

theorem rpcs_serialised:
  assumes "rpc_reachable s"
  shows "(running s t = Some k \<and> running s u = Some k \<longrightarrow> t = u) \<and>
    held (locks s) = ran (running s) \<and>
    (\<exists>ow. replay k None (history s) = Some ow \<and> owner_of s k ow)"
  using rpc_owns [OF assms] kl.owns_exclusive [OF rpc_owns [OF assms]] replay_reachable [OF assms]
  by (auto simp: kl.owns_def lock_busy_def)

text \<open>A run with a refused second create of the same volume and a concurrent one of another.\<close>

definition rpc_demo :: rpc_state where
  "rpc_demo = \<lparr>locks = \<lparr>held = {''v'', ''w''}\<rparr>, running = [1 \<mapsto> ''v'', 3 \<mapsto> ''w''],
     history = [EvBegin 1 ''v'', EvAbort 2 ''v'', EvBegin 3 ''w'', EvWork 1 ''v'']\<rparr>"

lemma rpc_demo_reachable: "rpc_reachable rpc_demo"
proof -
  let ?s1 = "\<lparr>locks = \<lparr>held = {''v''}\<rparr>, running = [1 \<mapsto> ''v''], history = [EvBegin 1 ''v'']\<rparr>"
  let ?s2 = "?s1\<lparr>history := history ?s1 @ [EvAbort 2 ''v'']\<rparr>"
  let ?s3 = "?s2\<lparr>locks := \<lparr>held = {''v'', ''w''}\<rparr>, running := [1 \<mapsto> ''v'', 3 \<mapsto> ''w''],
    history := history ?s2 @ [EvBegin 3 ''w'']\<rparr>"
  have "rpc_step rpc_init ?s1"
    using rpc_step.Begin [of rpc_init 1 "''volume''" "''v''" "\<lparr>held = {''v''}\<rparr>"]
    by (simp add: rpc_init_def newKeyedLocker_def acquire_free)
  moreover have "rpc_step ?s1 ?s2"
    using rpc_step.Abort [of ?s1 2 "''volume''" "''v''"
      "Aborted ''an operation is already in progress for %s %q''" "\<lparr>held = {''v''}\<rparr>"]
    by (simp add: acquire_busy)
  moreover have "rpc_step ?s2 ?s3"
    using rpc_step.Begin [of ?s2 3 "''volume''" "''w''" "\<lparr>held = {''v'', ''w''}\<rparr>"]
    by (simp add: acquire_free insert_commute)
  moreover have "rpc_step ?s3 rpc_demo"
    using rpc_step.Work [of ?s3 1 "''v''"] by (simp add: rpc_demo_def)
  ultimately show ?thesis using rpc_reachable.intros by blast
qed

theorem rpcs_serialised_witness:
  "held (locks rpc_demo) = ran (running rpc_demo) \<and> running rpc_demo 1 = Some ''v'' \<and>
    (\<exists>ow. replay ''v'' None (history rpc_demo) = Some ow \<and> owner_of rpc_demo ''v'' ow)"
proof -
  have "running rpc_demo 1 = Some ''v''" by (simp add: rpc_demo_def)
  then show ?thesis using rpcs_serialised [OF rpc_demo_reachable] by blast
qed

end
