(* ===== verification/Csi_Conv.thy ===== *)
theory Csi_Conv
  imports Driver_Types
begin

text \<open>
  \<^verbatim>\<open>internal/csi/conv.go\<close> and \<^verbatim>\<open>internal/csi/errors.go\<close>: the conversions between the CSI
  messages and the driver's types, and the mapping of errors to gRPC status codes. The messages
  carry the fields the sources read; a nil message is \<^term>\<open>None\<close>, and a getter on it gives the zero
  value, as the generated code does.
\<close>

section \<open>The CSI messages\<close>

datatype pb_mode = UNKNOWN | SINGLE_NODE_WRITER | SINGLE_NODE_READER_ONLY
  | MULTI_NODE_READER_ONLY | MULTI_NODE_SINGLE_WRITER | MULTI_NODE_MULTI_WRITER
  | SINGLE_NODE_SINGLE_WRITER | SINGLE_NODE_MULTI_WRITER | MODE_OTHER int

datatype pb_access = PbBlock | PbMount string "string list" | PbNoAccess

record pb_capability =
  pbAccess :: pb_access
  pbMode :: "pb_mode option"

datatype pb_source = PbSnapshot string | PbVolume string | PbNoSource

record pb_capacity =
  pbRequired :: int
  pbLimit :: int

record pb_topology_req =
  pbRequisite :: "smap list"
  pbPreferred :: "smap list"

section \<open>conv.go\<close>

definition GetMode :: "pb_mode option \<Rightarrow> pb_mode" where
  "GetMode m = (case m of None \<Rightarrow> UNKNOWN | Some x \<Rightarrow> x)"

definition toAccessMode :: "pb_mode \<Rightarrow> err + AccessMode" where
  "toAccessMode m = (case m of
     SINGLE_NODE_WRITER \<Rightarrow> Inr AccessModeSingleNodeWriter
   | SINGLE_NODE_SINGLE_WRITER \<Rightarrow> Inr AccessModeSingleNodeWriter
   | SINGLE_NODE_MULTI_WRITER \<Rightarrow> Inr AccessModeSingleNodeWriter
   | SINGLE_NODE_READER_ONLY \<Rightarrow> Inr AccessModeSingleNodeReaderOnly
   | MULTI_NODE_READER_ONLY \<Rightarrow>
       Inl (InvalidArgument ''multi-node access modes are not supported (single-node only)'')
   | MULTI_NODE_SINGLE_WRITER \<Rightarrow>
       Inl (InvalidArgument ''multi-node access modes are not supported (single-node only)'')
   | MULTI_NODE_MULTI_WRITER \<Rightarrow>
       Inl (InvalidArgument ''multi-node access modes are not supported (single-node only)'')
   | UNKNOWN \<Rightarrow> Inl (InvalidArgument ''unknown access mode %v'')
   | MODE_OTHER _ \<Rightarrow> Inl (InvalidArgument ''unknown access mode %v''))"

definition toVolumeCapability :: "pb_capability option \<Rightarrow> err + VolumeCapability" where
  "toVolumeCapability pc = (case pc of
     None \<Rightarrow> Inl (InvalidArgument ''volume capability is nil'')
   | Some c \<Rightarrow> (case toAccessMode (GetMode (pbMode c)) of
       Inl e \<Rightarrow> Inl e
     | Inr mode \<Rightarrow> (let dc = zeroCapability\<lparr>accessMode := mode\<rparr> in
         case pbAccess c of
           PbBlock \<Rightarrow> Inr (dc\<lparr>accessType := AccessTypeBlock\<rparr>)
         | PbMount fs flags \<Rightarrow>
             Inr (dc\<lparr>accessType := AccessTypeMount, capFsType := fs, mountFlags := flags\<rparr>)
         | PbNoAccess \<Rightarrow>
             Inl (InvalidArgument ''volume capability must specify mount or block access type''))))"

text \<open>The loop of \<^verbatim>\<open>toVolumeCapabilities\<close>: the first element that does not convert ends it.\<close>

fun convert_all :: "pb_capability option list \<Rightarrow> err + VolumeCapability list" where
  "convert_all [] = Inr []"
| "convert_all (c # cs) = (case toVolumeCapability c of
     Inl e \<Rightarrow> Inl e
   | Inr dc \<Rightarrow> (case convert_all cs of Inl e \<Rightarrow> Inl e | Inr dcs \<Rightarrow> Inr (dc # dcs)))"

definition toVolumeCapabilities :: "pb_capability option list \<Rightarrow> err + VolumeCapability list" where
  "toVolumeCapabilities cs = (if cs = [] then Inl (InvalidArgument ''volume capabilities are required'')
     else convert_all cs)"

definition toCapacityRange :: "pb_capacity option \<Rightarrow> CapacityRange" where
  "toCapacityRange r = (case r of
     None \<Rightarrow> \<lparr>requiredBytes = 0, limitBytes = 0\<rparr>
   | Some c \<Rightarrow> \<lparr>requiredBytes = pbRequired c, limitBytes = pbLimit c\<rparr>)"

definition toContentSource :: "pb_source option \<Rightarrow> ContentSource option" where
  "toContentSource s = (case s of
     None \<Rightarrow> None
   | Some (PbSnapshot i) \<Rightarrow> Some \<lparr>srcSnapshotID = i, srcVolumeID = []\<rparr>
   | Some (PbVolume i) \<Rightarrow> Some \<lparr>srcSnapshotID = [], srcVolumeID = i\<rparr>
   | Some PbNoSource \<Rightarrow> None)"

definition fromContentSource :: "ContentSource option \<Rightarrow> pb_source option" where
  "fromContentSource s = (case s of
     None \<Rightarrow> None
   | Some c \<Rightarrow> (if srcSnapshotID c \<noteq> [] then Some (PbSnapshot (srcSnapshotID c))
               else if srcVolumeID c \<noteq> [] then Some (PbVolume (srcVolumeID c))
               else None))"

definition toDriverTopologies :: "smap list \<Rightarrow> Topology list" where
  "toDriverTopologies ts = ts"

definition fromDriverTopologies :: "Topology list \<Rightarrow> smap list" where
  "fromDriverTopologies ts = ts"

definition topologyRequirement :: "pb_topology_req option \<Rightarrow> Topology list" where
  "topologyRequirement r = (case r of
     None \<Rightarrow> []
   | Some q \<Rightarrow> (let t = toDriverTopologies (pbPreferred q) in
       if 0 < length t then t else toDriverTopologies (pbRequisite q)))"

definition topologyList :: "smap option \<Rightarrow> smap list" where
  "topologyList t = (case t of None \<Rightarrow> [] | Some x \<Rightarrow> [x])"

text \<open>The modes a backend may see.\<close>

definition single_node :: "VolumeCapability \<Rightarrow> bool" where
  "single_node c \<longleftrightarrow> accessMode c \<noteq> AccessModeUnknown"

fun multi_node :: "pb_mode \<Rightarrow> bool" where
  "multi_node MULTI_NODE_READER_ONLY = True"
| "multi_node MULTI_NODE_SINGLE_WRITER = True"
| "multi_node MULTI_NODE_MULTI_WRITER = True"
| "multi_node _ = False"

lemma toAccessMode_single: "toAccessMode m = Inr x \<Longrightarrow> x \<noteq> AccessModeUnknown \<and> \<not> multi_node m"
  by (cases m) (auto simp: toAccessMode_def)

lemma toAccessMode_code: "toAccessMode m = Inl e \<Longrightarrow> err_code e = Some CodeInvalidArgument"
  by (cases m) (auto simp: toAccessMode_def)

lemma toVolumeCapability_single: "toVolumeCapability c = Inr dc \<Longrightarrow>
  single_node dc \<and> (\<exists>pc. c = Some pc \<and> \<not> multi_node (GetMode (pbMode pc)) \<and> pbAccess pc \<noteq> PbNoAccess)"
  by (auto simp: toVolumeCapability_def single_node_def Let_def
      split: option.splits sum.splits pb_access.splits dest: toAccessMode_single)

lemma toVolumeCapability_code: "toVolumeCapability c = Inl e \<Longrightarrow> err_code e = Some CodeInvalidArgument"
  by (auto simp: toVolumeCapability_def Let_def
      split: option.splits sum.splits pb_access.splits dest: toAccessMode_code)

lemma convert_all_length: "convert_all cs = Inr dcs \<Longrightarrow> length dcs = length cs"
  by (induction cs arbitrary: dcs) (auto split: sum.splits)

lemma convert_all_single: "convert_all cs = Inr dcs \<Longrightarrow> list_all single_node dcs"
  by (induction cs arbitrary: dcs) (auto split: sum.splits dest: toVolumeCapability_single)

lemma convert_all_Inl: "convert_all cs = Inl e \<Longrightarrow> \<exists>c \<in> set cs. toVolumeCapability c = Inl e"
  by (induction cs) (auto split: sum.splits)

lemma toVolumeCapabilities_single:
  "toVolumeCapabilities cs = Inr dcs \<Longrightarrow> dcs \<noteq> [] \<and> list_all single_node dcs \<and> length dcs = length cs"
  by (auto simp: toVolumeCapabilities_def split: if_splits
      dest: convert_all_single convert_all_length)

lemma toVolumeCapabilities_code:
  "toVolumeCapabilities cs = Inl e \<Longrightarrow> err_code e = Some CodeInvalidArgument"
  by (auto simp: toVolumeCapabilities_def split: if_splits
      dest!: convert_all_Inl dest: toVolumeCapability_code)

text \<open>A content source with an id survives the round trip through the driver's type.\<close>

lemma fromContentSource_toContentSource:
  "fromContentSource (toContentSource (Some (PbSnapshot i))) = (if i = [] then None else Some (PbSnapshot i))"
  "fromContentSource (toContentSource (Some (PbVolume i))) = (if i = [] then None else Some (PbVolume i))"
  by (simp_all add: toContentSource_def fromContentSource_def)

section \<open>errors.go\<close>

definition codeFor :: "Code \<Rightarrow> grpc_code" where
  "codeFor c = (case c of
     CodeInvalidArgument \<Rightarrow> GrpcInvalidArgument
   | CodeNotFound \<Rightarrow> GrpcNotFound
   | CodeAlreadyExists \<Rightarrow> GrpcAlreadyExists
   | CodeFailedPrecondition \<Rightarrow> GrpcFailedPrecondition
   | CodeOutOfRange \<Rightarrow> GrpcOutOfRange
   | CodeResourceExhausted \<Rightarrow> GrpcResourceExhausted
   | CodeAborted \<Rightarrow> GrpcAborted
   | CodeUnimplemented \<Rightarrow> GrpcUnimplemented
   | CodeUnavailable \<Rightarrow> GrpcUnavailable
   | CodeInternal \<Rightarrow> GrpcInternal
   | CodeUnknown \<Rightarrow> GrpcUnknown
   | CodeOther _ \<Rightarrow> GrpcUnknown)"

definition isStatusError :: "err \<Rightarrow> bool" where
  "isStatusError e \<longleftrightarrow> errors_As is_StatusErr e \<noteq> None"

text \<open>\<^verbatim>\<open>status.FromError\<close> reports success exactly for an error whose chain has a gRPC status.\<close>

definition status_FromError_ok :: "err \<Rightarrow> bool" where
  "status_FromError_ok e \<longleftrightarrow> errors_As is_StatusErr e \<noteq> None"

definition toGRPC :: "err \<Rightarrow> err" where
  "toGRPC e =
     (if status_FromError_ok e \<and> isStatusError e then e
      else case errors_As is_DriverErr e of
        Some (DriverErr c m x) \<Rightarrow> StatusErr (codeFor c) (err_text (DriverErr c m x))
      | _ \<Rightarrow> (if CtxCanceled \<in> set (err_chain e) then StatusErr GrpcCanceled (err_text e)
              else if CtxDeadlineExceeded \<in> set (err_chain e)
              then StatusErr GrpcDeadlineExceeded (err_text e)
              else StatusErr GrpcInternal (err_text e)))"

text \<open>\<^verbatim>\<open>status.Code\<close> of a mapped error.\<close>

definition grpc_of :: "err \<Rightarrow> grpc_code" where
  "grpc_of e = (case errors_As is_StatusErr e of Some (StatusErr c _) \<Rightarrow> c | _ \<Rightarrow> GrpcUnknown)"

text \<open>The specification of the mapping, in the words of its comment.\<close>

definition grpc_spec :: "err \<Rightarrow> grpc_code" where
  "grpc_spec e =
     (if \<exists>x \<in> set (err_chain e). is_StatusErr x then grpc_of e
      else case err_code e of
        Some c \<Rightarrow> codeFor c
      | None \<Rightarrow> (if CtxCanceled \<in> set (err_chain e) then GrpcCanceled
                 else if CtxDeadlineExceeded \<in> set (err_chain e) then GrpcDeadlineExceeded
                 else GrpcInternal))"

lemma grpc_of_StatusErr [simp]: "grpc_of (StatusErr c m) = c"
  by (simp add: grpc_of_def errors_As_self)

lemma isStatusError_iff: "isStatusError e \<longleftrightarrow> (\<exists>x \<in> set (err_chain e). is_StatusErr x)"
  unfolding isStatusError_def errors_As_None by blast

lemma errors_As_DriverErr_cases:
  obtains "errors_As is_DriverErr e = None"
  | c m x where "errors_As is_DriverErr e = Some (DriverErr c m x)"
  by (metis errors_As_Some is_DriverErr.elims(2) not_None_eq)

lemma grpc_of_toGRPC: "grpc_of (toGRPC e) = grpc_spec e"
proof (cases "isStatusError e")
  case True
  then show ?thesis
    by (simp add: toGRPC_def grpc_spec_def isStatusError_iff [symmetric])
      (simp add: status_FromError_ok_def isStatusError_def)
next
  case False
  show ?thesis using False
    by (cases e rule: errors_As_DriverErr_cases)
      (simp_all add: toGRPC_def grpc_spec_def isStatusError_iff [symmetric] err_code_def)
qed

lemma toGRPC_isStatusError: "isStatusError (toGRPC e)"
proof (cases "isStatusError e")
  case False
  then show ?thesis
    by (cases e rule: errors_As_DriverErr_cases)
      (simp_all add: toGRPC_def isStatusError_iff)
qed (simp add: toGRPC_def isStatusError_def status_FromError_ok_def)

lemma toGRPC_idem: "toGRPC (toGRPC e) = toGRPC e"
  using toGRPC_isStatusError [of e]
  by (simp add: toGRPC_def [of "toGRPC e"] isStatusError_def status_FromError_ok_def)

lemma codeFor_inj: "codeFor c = codeFor d \<Longrightarrow> codeFor c \<noteq> GrpcUnknown \<Longrightarrow> c = d"
  by (cases c; cases d) (simp_all add: codeFor_def)

end
