(* ===== verification/Csi_Server.thy ===== *)
theory Csi_Server
  imports Csi_Locks Csi_Conv
begin

text \<open>
  \<^verbatim>\<open>internal/csi/controller.go\<close>, \<^verbatim>\<open>node.go\<close>, \<^verbatim>\<open>identity.go\<close> and \<^verbatim>\<open>interceptors.go\<close>: the CSI
  services over a backend. A server's state is its keyed locker beside the world the backend
  works on. \<open>locked\<close> is the pattern of every handler that takes a lock: acquire or return
  Aborted, then run the rest with the release deferred, so that it happens on every way out,
  errors and panics included. \<open>controller_serve\<close> and \<open>node_serve\<close> dispatch a request to its
  handler through the interceptor, as the gRPC server does.
\<close>

section \<open>Server state and the locking pattern\<close>

record 'w server =
  lockTable :: keyedLocker
  env :: 'w

text \<open>A call of the backend: it cannot see the lock table.\<close>

definition onEnv :: "('w, 'a) io \<Rightarrow> ('w server, 'a) io" where
  "onEnv m = (\<lambda>s. let (r, w') = m (env s) in (r, s\<lparr>env := w'\<rparr>))"

definition locked :: "string \<Rightarrow> string \<Rightarrow> ('w server, 'a) io \<Rightarrow> ('w server, 'a) io" where
  "locked kind key body = (\<lambda>s. case acquire kind key (lockTable s) of
     (Ok _, l) \<Rightarrow> (let (r, s') = body (s\<lparr>lockTable := l\<rparr>)
                  in (r, s'\<lparr>lockTable := release key (lockTable s')\<rparr>))
   | (Fail e, l) \<Rightarrow> (Fail e, s\<lparr>lockTable := l\<rparr>)
   | (Panic p, l) \<Rightarrow> (Panic p, s\<lparr>lockTable := l\<rparr>))"

definition unsupported :: "string \<Rightarrow> err" where
  "unsupported rpc = Unimplemented (rpc @ '' is not supported by the %s backend'')"

section \<open>The controller service\<close>

record 'w controllerServer =
  srvCaps :: Capabilities
  ctrl :: "'w ControllerBackend"

record pb_create_req =
  pcName :: string
  pcCapacity :: "pb_capacity option"
  pcCaps :: "pb_capability option list"
  pcParams :: smap
  pcSecrets :: smap
  pcSource :: "pb_source option"
  pcAccess :: "pb_topology_req option"

record pb_volume =
  pvVolumeId :: string
  pvCapacityBytes :: int
  pvVolumeContext :: smap
  pvTopology :: "smap list"
  pvSource :: "pb_source option"

definition CreateVolume :: "'w controllerServer \<Rightarrow> pb_create_req \<Rightarrow> ('w server, pb_volume) io" where
  "CreateVolume s req =
     (if \<not> CreateDelete (srvCaps s) then fail (unsupported ''CreateVolume'')
      else if pcName req = [] then fail (InvalidArgument ''CreateVolume: name is required'')
      else locked ''volume'' (pcName req)
        (bindIO (liftE (toVolumeCapabilities (pcCaps req))) (\<lambda>caps.
         bindIO (onEnv (beCreateVolume (ctrl s)
           \<lparr>crName = pcName req, crCapacityRange = toCapacityRange (pcCapacity req),
            crCapabilities = caps, crParameters = pcParams req, crSecrets = pcSecrets req,
            crContentSource = toContentSource (pcSource req),
            crTopologyRequirement = topologyRequirement (pcAccess req)\<rparr>)) (\<lambda>vol.
         ret \<lparr>pvVolumeId = volumeID vol, pvCapacityBytes = capacityBytes vol,
              pvVolumeContext = volumeContext vol,
              pvTopology = fromDriverTopologies (accessibleTopology vol),
              pvSource = fromContentSource (contentSource vol)\<rparr>))))"

definition DeleteVolume :: "'w controllerServer \<Rightarrow> string \<Rightarrow> smap \<Rightarrow> ('w server, unit) io" where
  "DeleteVolume s volume_id secrets =
     (if \<not> CreateDelete (srvCaps s) then fail (unsupported ''DeleteVolume'')
      else if volume_id = [] then fail (InvalidArgument ''DeleteVolume: volume_id is required'')
      else locked ''volume'' volume_id (onEnv (beDeleteVolume (ctrl s) volume_id secrets)))"

record pb_publish_req =
  ppVolumeId :: string
  ppNodeId :: string
  ppCap :: "pb_capability option"
  ppReadonly :: bool
  ppContext :: smap
  ppSecrets :: smap

definition ControllerPublishVolume ::
  "'w controllerServer \<Rightarrow> pb_publish_req \<Rightarrow> ('w server, smap) io" where
  "ControllerPublishVolume s req =
     (if \<not> PublishUnpublish (srvCaps s) then fail (unsupported ''ControllerPublishVolume'')
      else if ppVolumeId req = [] \<or> ppNodeId req = []
      then fail (InvalidArgument ''ControllerPublishVolume: volume_id and node_id are required'')
      else locked ''volume'' (ppVolumeId req)
        (bindIO (liftE (toVolumeCapability (ppCap req))) (\<lambda>cap.
         onEnv (beControllerPublishVolume (ctrl s) (ppVolumeId req) (ppNodeId req) cap
           (ppReadonly req) (ppContext req) (ppSecrets req)))))"

definition ControllerUnpublishVolume ::
  "'w controllerServer \<Rightarrow> string \<Rightarrow> string \<Rightarrow> smap \<Rightarrow> ('w server, unit) io" where
  "ControllerUnpublishVolume s volume_id node_id secrets =
     (if \<not> PublishUnpublish (srvCaps s) then fail (unsupported ''ControllerUnpublishVolume'')
      else if volume_id = []
      then fail (InvalidArgument ''ControllerUnpublishVolume: volume_id is required'')
      else locked ''volume'' volume_id
        (onEnv (beControllerUnpublishVolume (ctrl s) volume_id node_id secrets)))"

text \<open>The answer of \<^verbatim>\<open>ValidateVolumeCapabilities\<close>: the confirmed capabilities, or a message.\<close>

datatype pb_validate = Confirmed "pb_capability option list" | NotConfirmed string

definition ValidateVolumeCapabilities ::
  "'w controllerServer \<Rightarrow> string \<Rightarrow> pb_capability option list \<Rightarrow> ('w server, pb_validate) io" where
  "ValidateVolumeCapabilities s volume_id caps =
     (if volume_id = []
      then fail (InvalidArgument ''ValidateVolumeCapabilities: volume_id is required'')
      else bindIO (onEnv (beVolumeExists (ctrl s) volume_id)) (\<lambda>exists.
        if \<not> exists then fail (NotFound ''volume %q does not exist'')
        else case toVolumeCapabilities caps of
          Inl e \<Rightarrow> ret (NotConfirmed (err_text e))
        | Inr _ \<Rightarrow> ret (Confirmed caps)))"

definition GetCapacity :: "'w controllerServer \<Rightarrow> smap option \<Rightarrow> smap \<Rightarrow> ('w server, int) io" where
  "GetCapacity s topology parameters =
     (if \<not> GetCapacityCap (srvCaps s) then fail (unsupported ''GetCapacity'')
      else onEnv (beGetCapacity (ctrl s) (toDriverTopologies (topologyList topology)) parameters))"

record pb_snapshot =
  psSnapshotId :: string
  psSourceVolumeId :: string
  psSizeBytes :: int
  psReadyToUse :: bool
  psCreationTime :: "int option"

definition fromSnapshot :: "Snapshot \<Rightarrow> pb_snapshot" where
  "fromSnapshot s = \<lparr>psSnapshotId = snSnapshotID s, psSourceVolumeId = snSourceVolumeID s,
     psSizeBytes = snSizeBytes s, psReadyToUse = snReadyToUse s, psCreationTime = snCreationTime s\<rparr>"

definition CreateSnapshot ::
  "'w controllerServer \<Rightarrow> CreateSnapshotRequest \<Rightarrow> ('w server, pb_snapshot) io" where
  "CreateSnapshot s req =
     (if \<not> SnapshotCap (srvCaps s) then fail (unsupported ''CreateSnapshot'')
      else if csSourceVolumeID req = [] \<or> csName req = []
      then fail (InvalidArgument ''CreateSnapshot: source_volume_id and name are required'')
      else locked ''snapshot'' (csName req)
        (bindIO (onEnv (beCreateSnapshot (ctrl s) req)) (\<lambda>snap. ret (fromSnapshot snap))))"

definition DeleteSnapshot :: "'w controllerServer \<Rightarrow> string \<Rightarrow> smap \<Rightarrow> ('w server, unit) io" where
  "DeleteSnapshot s snapshot_id secrets =
     (if \<not> SnapshotCap (srvCaps s) then fail (unsupported ''DeleteSnapshot'')
      else if snapshot_id = [] then fail (InvalidArgument ''DeleteSnapshot: snapshot_id is required'')
      else locked ''snapshot'' snapshot_id (onEnv (beDeleteSnapshot (ctrl s) snapshot_id secrets)))"

definition ControllerExpandVolume ::
  "'w controllerServer \<Rightarrow> string \<Rightarrow> pb_capacity option \<Rightarrow> smap \<Rightarrow> ('w server, int \<times> bool) io" where
  "ControllerExpandVolume s volume_id cap secrets =
     (if \<not> Expand (srvCaps s) then fail (unsupported ''ControllerExpandVolume'')
      else if volume_id = []
      then fail (InvalidArgument ''ControllerExpandVolume: volume_id is required'')
      else locked ''volume'' volume_id
        (onEnv (beExpandVolume (ctrl s) volume_id (toCapacityRange cap) secrets)))"

definition ListVolumes :: "'w controllerServer \<Rightarrow> ('w server, pb_volume list) io" where
  "ListVolumes s =
     (if \<not> ListVolumesCap (srvCaps s) then fail (unsupported ''ListVolumes'')
      else bindIO (onEnv (beListVolumes (ctrl s))) (\<lambda>vols.
        ret (map (\<lambda>v. \<lparr>pvVolumeId = viVolumeID v, pvCapacityBytes = viCapacityBytes v,
          pvVolumeContext = Map.empty, pvTopology = fromDriverTopologies (viAccessibleTopology v),
          pvSource = None\<rparr>) vols)))"

definition ListSnapshots ::
  "'w controllerServer \<Rightarrow> string \<Rightarrow> string \<Rightarrow> ('w server, pb_snapshot list) io" where
  "ListSnapshots s source_volume_id wantSnap =
     (if \<not> ListSnapshotsCap (srvCaps s) then fail (unsupported ''ListSnapshots'')
      else bindIO (onEnv (beListSnapshots (ctrl s) source_volume_id)) (\<lambda>snaps.
        ret (map fromSnapshot
          (filter (\<lambda>sn. \<not> (wantSnap \<noteq> [] \<and> snSnapshotID sn \<noteq> wantSnap)) snaps))))"

datatype ctrl_rpc_type = CREATE_DELETE_VOLUME | PUBLISH_UNPUBLISH_VOLUME | EXPAND_VOLUME
  | CREATE_DELETE_SNAPSHOT | CLONE_VOLUME | GET_CAPACITY | LIST_VOLUMES | LIST_SNAPSHOTS

definition controllerCapabilities :: "Capabilities \<Rightarrow> ctrl_rpc_type list" where
  "controllerCapabilities c =
     (if CreateDelete c then [CREATE_DELETE_VOLUME] else [])
     @ (if PublishUnpublish c then [PUBLISH_UNPUBLISH_VOLUME] else [])
     @ (if Expand c then [EXPAND_VOLUME] else [])
     @ (if SnapshotCap c then [CREATE_DELETE_SNAPSHOT] else [])
     @ (if Clone c then [CLONE_VOLUME] else [])
     @ (if GetCapacityCap c then [GET_CAPACITY] else [])
     @ (if ListVolumesCap c then [LIST_VOLUMES] else [])
     @ (if ListSnapshotsCap c then [LIST_SNAPSHOTS] else [])"

definition ControllerGetCapabilities :: "'w controllerServer \<Rightarrow> ('w server, ctrl_rpc_type list) io" where
  "ControllerGetCapabilities s = ret (controllerCapabilities (srvCaps s))"

section \<open>The node service\<close>

record 'w nodeServer =
  nodeCaps :: Capabilities
  node :: "'w NodeBackend"

record pb_stage_req =
  sgVolumeId :: string
  sgStagingPath :: string
  sgCap :: "pb_capability option"
  sgContext :: smap
  sgPublishContext :: smap
  sgSecrets :: smap

definition NodeStageVolume :: "'w nodeServer \<Rightarrow> pb_stage_req \<Rightarrow> ('w server, unit) io" where
  "NodeStageVolume s req =
     (if \<not> NodeStage (nodeCaps s) then fail (unsupported ''NodeStageVolume'')
      else if sgVolumeId req = [] \<or> sgStagingPath req = []
      then fail (InvalidArgument ''NodeStageVolume: volume_id and staging_target_path are required'')
      else locked ''volume'' (sgVolumeId req)
        (bindIO (liftE (toVolumeCapability (sgCap req))) (\<lambda>cap.
         onEnv (beStageVolume (node s)
           \<lparr>stVolumeID = sgVolumeId req, stStagingTargetPath = sgStagingPath req,
            stVolumeCapability = cap, stVolumeContext = sgContext req,
            stPublishContext = sgPublishContext req, stSecrets = sgSecrets req\<rparr>))))"

definition NodeUnstageVolume :: "'w nodeServer \<Rightarrow> string \<Rightarrow> string \<Rightarrow> ('w server, unit) io" where
  "NodeUnstageVolume s volume_id path =
     (if \<not> NodeStage (nodeCaps s) then fail (unsupported ''NodeUnstageVolume'')
      else if volume_id = [] \<or> path = []
      then fail (InvalidArgument ''NodeUnstageVolume: volume_id and staging_target_path are required'')
      else locked ''volume'' volume_id
        (onEnv (beUnstageVolume (node s) \<lparr>usVolumeID = volume_id, usStagingTargetPath = path\<rparr>)))"

record pb_node_publish_req =
  npVolumeId :: string
  npStagingPath :: string
  npTargetPath :: string
  npCap :: "pb_capability option"
  npContext :: smap
  npPublishContext :: smap
  npReadonly :: bool

definition NodePublishVolume :: "'w nodeServer \<Rightarrow> pb_node_publish_req \<Rightarrow> ('w server, unit) io" where
  "NodePublishVolume s req =
     (if npVolumeId req = [] \<or> npTargetPath req = []
      then fail (InvalidArgument ''NodePublishVolume: volume_id and target_path are required'')
      else locked ''volume'' (npVolumeId req)
        (bindIO (liftE (toVolumeCapability (npCap req))) (\<lambda>cap.
         onEnv (bePublishVolume (node s)
           \<lparr>puVolumeID = npVolumeId req, puStagingTargetPath = npStagingPath req,
            puTargetPath = npTargetPath req, puVolumeCapability = cap,
            puVolumeContext = npContext req, puPublishContext = npPublishContext req,
            puReadonly = npReadonly req\<rparr>))))"

definition NodeUnpublishVolume :: "'w nodeServer \<Rightarrow> string \<Rightarrow> string \<Rightarrow> ('w server, unit) io" where
  "NodeUnpublishVolume s volume_id path =
     (if volume_id = [] \<or> path = []
      then fail (InvalidArgument ''NodeUnpublishVolume: volume_id and target_path are required'')
      else locked ''volume'' volume_id
        (onEnv (beUnpublishVolume (node s) \<lparr>upVolumeID = volume_id, upTargetPath = path\<rparr>)))"

record pb_node_expand_req =
  nxVolumeId :: string
  nxVolumePath :: string
  nxStagingPath :: string
  nxCapacity :: "pb_capacity option"
  nxCap :: "pb_capability option"

definition NodeExpandVolume :: "'w nodeServer \<Rightarrow> pb_node_expand_req \<Rightarrow> ('w server, int) io" where
  "NodeExpandVolume s req =
     (if \<not> NodeExpand (nodeCaps s) then fail (unsupported ''NodeExpandVolume'')
      else if nxVolumeId req = [] \<or> nxVolumePath req = []
      then fail (InvalidArgument ''NodeExpandVolume: volume_id and volume_path are required'')
      else locked ''volume'' (nxVolumeId req)
        (bindIO (case nxCap req of
            None \<Rightarrow> ret zeroCapability
          | Some vc \<Rightarrow> liftE (toVolumeCapability (Some vc))) (\<lambda>cap.
         onEnv (beNodeExpandVolume (node s)
           \<lparr>neVolumeID = nxVolumeId req, neVolumePath = nxVolumePath req,
            neStagingTargetPath = nxStagingPath req,
            neCapacityRange = toCapacityRange (nxCapacity req), neVolumeCapability = cap\<rparr>))))"

datatype usage_unit = USAGE_BYTES | USAGE_INODES

record pb_usage =
  puUnit :: usage_unit
  puTotal :: int
  puUsed :: int
  puAvailable :: int

definition NodeGetVolumeStats :: "'w nodeServer \<Rightarrow> string \<Rightarrow> string \<Rightarrow> ('w server, pb_usage list) io" where
  "NodeGetVolumeStats s volume_id path =
     (if \<not> NodeVolumeStats (nodeCaps s) then fail (unsupported ''NodeGetVolumeStats'')
      else if volume_id = [] \<or> path = []
      then fail (InvalidArgument ''NodeGetVolumeStats: volume_id and volume_path are required'')
      else bindIO (onEnv (beGetVolumeStats (node s) volume_id path)) (\<lambda>st.
        ret [\<lparr>puUnit = USAGE_BYTES, puTotal = vsTotalBytes st, puUsed = vsUsedBytes st,
              puAvailable = vsAvailableBytes st\<rparr>,
             \<lparr>puUnit = USAGE_INODES, puTotal = vsTotalInodes st, puUsed = vsUsedInodes st,
              puAvailable = vsFreeInodes st\<rparr>]))"

datatype node_rpc_type = NODE_STAGE_UNSTAGE_VOLUME | NODE_EXPAND_VOLUME | NODE_GET_VOLUME_STATS

definition nodeCapabilities :: "Capabilities \<Rightarrow> node_rpc_type list" where
  "nodeCapabilities c =
     (if NodeStage c then [NODE_STAGE_UNSTAGE_VOLUME] else [])
     @ (if NodeExpand c then [NODE_EXPAND_VOLUME] else [])
     @ (if NodeVolumeStats c then [NODE_GET_VOLUME_STATS] else [])"

definition NodeGetCapabilities :: "'w nodeServer \<Rightarrow> ('w server, node_rpc_type list) io" where
  "NodeGetCapabilities s = ret (nodeCapabilities (nodeCaps s))"

definition NodeGetInfo :: "'w nodeServer \<Rightarrow> ('w server, NodeInfo) io" where
  "NodeGetInfo s = bindIO (onEnv (beGetInfo (node s))) (\<lambda>info.
     ret \<lparr>niNodeID = niNodeID info, niMaxVolumesPerNode = niMaxVolumesPerNode info,
          niAccessibleTopology = niAccessibleTopology info\<rparr>)"

section \<open>The identity service\<close>

datatype expansion_type = EXPANSION_ONLINE | EXPANSION_OFFLINE

datatype plugin_capability = CONTROLLER_SERVICE | VOLUME_ACCESSIBILITY_CONSTRAINTS
  | VOLUME_EXPANSION expansion_type

definition expansionType :: "bool \<Rightarrow> expansion_type" where
  "expansionType online = (if online then EXPANSION_ONLINE else EXPANSION_OFFLINE)"

definition GetPluginCapabilities :: "Capabilities \<Rightarrow> plugin_capability list" where
  "GetPluginCapabilities caps =
     (if CreateDelete caps \<or> PublishUnpublish caps \<or> Expand caps \<or> SnapshotCap caps
      then [CONTROLLER_SERVICE] else [])
     @ (if TopologyCap caps then [VOLUME_ACCESSIBILITY_CONSTRAINTS] else [])
     @ (if Expand caps then [VOLUME_EXPANSION (expansionType (ExpandOnline caps))] else [])"

definition Probe :: "('w, unit) io \<Rightarrow> ('w, bool) io" where
  "Probe backend_probe = bindIO backend_probe (\<lambda>_. ret True)"

section \<open>The interceptor and the dispatch\<close>

definition shortMethod :: "string \<Rightarrow> string" where
  "shortMethod full = (let i = LastIndexByte full (CHR ''/'') in
     if 0 \<le> i then drop (nat (i + 1)) full else full)"

text \<open>Panics become Internal, errors their gRPC status; metrics and logging have no result.\<close>

definition unaryInterceptor :: "('w, 'a) io \<Rightarrow> ('w, 'a) io" where
  "unaryInterceptor handler = (\<lambda>w. case handler w of
     (Ok a, w') \<Rightarrow> (Ok a, w')
   | (Fail e, w') \<Rightarrow> (Fail (toGRPC e), w')
   | (Panic p, w') \<Rightarrow> (Fail (StatusErr GrpcInternal (''panic recovered in %s: '' @ p)), w'))"

end
