(* ===== verification/Zfs.thy ===== *)
theory Zfs
  imports Exec_Runner Driver_Types
begin

text \<open>
  \<^verbatim>\<open>internal/zfs/zfs.go\<close>: the wrapper of the zfs and zpool commands. Each operation builds the
  argument vector the source builds, hands it to the runner of the host, and parses what comes
  back; \<open>ZFS_<m>\<close> is the method \<open>m\<close> of the struct. A \<^verbatim>\<open>time.Time\<close> is its Unix second.
\<close>

record Zvol =
  zvName :: string
  zvSizeByte :: int

record SnapshotEntry =
  seName :: string
  seVolsizeBytes :: int
  seCreationUnix :: int

definition zfs :: "string list \<Rightarrow> command" where
  "zfs args = cmd ''zfs'' args"

definition zpool :: "string list \<Rightarrow> command" where
  "zpool args = cmd ''zpool'' args"

section \<open>Parsing\<close>

definition zfs_parseInt :: "string \<Rightarrow> string \<Rightarrow> err + int" where
  "zfs_parseInt b what = (let (n, ok) = ParseInt (TrimSpace b) in
     if ok then Inr n else Inl (WrapErr (''parsing '' @ what) (PlainErr ''strconv.ParseInt'')))"

text \<open>One line of a listing; \<^term>\<open>None\<close> for a line that is skipped.\<close>

definition zvol_line :: "string \<Rightarrow> Zvol option" where
  "zvol_line line = (if line = [] then None else
     let fields = Fields line in
     if length fields < 2 then None
     else Some \<lparr>zvName = fields ! 0, zvSizeByte = fst (ParseInt (fields ! 1))\<rparr>)"

definition snapshot_line :: "string \<Rightarrow> SnapshotEntry option" where
  "snapshot_line line = (if line = [] then None else
     let fields = Fields line in
     if length fields < 3 then None
     else Some \<lparr>seName = fields ! 0, seVolsizeBytes = fst (ParseInt (fields ! 1)),
                seCreationUnix = fst (ParseInt (fields ! 2))\<rparr>)"

definition listing :: "(string \<Rightarrow> 'a option) \<Rightarrow> string \<Rightarrow> 'a list" where
  "listing f out = List.map_filter f (Split NL (TrimSpace out))"

section \<open>Operations\<close>

definition ZFS_CreateZvol :: "'w host \<Rightarrow> string \<Rightarrow> int \<Rightarrow> string \<Rightarrow> ('w, unit) io" where
  "ZFS_CreateZvol h dataset sizeBytes volblocksize =
     (let args = [''create'', ''-p'', ''-V'', FormatInt sizeBytes]
                 @ (if volblocksize \<noteq> [] then [''-b'', volblocksize] else []) @ [dataset]
      in bindIO (wrapIO (WrapErr ''zfs create %s'') (Run h (zfs args))) (\<lambda>_. ret ()))"

definition ZFS_DestroyZvol :: "'w host \<Rightarrow> string \<Rightarrow> ('w, unit) io" where
  "ZFS_DestroyZvol h dataset =
     bindIO (wrapIO (WrapErr ''zfs destroy %s'') (Run h (zfs [''destroy'', dataset]))) (\<lambda>_. ret ())"

definition ZFS_Exists :: "'w host \<Rightarrow> string \<Rightarrow> ('w, bool) io" where
  "ZFS_Exists h dataset =
     tryIO (Run h (zfs [''list'', ''-H'', ''-o'', ''name'', dataset])) (\<lambda>r. case r of
       Inl e \<Rightarrow> (if IsExit e 1 then ret False else fail (WrapErr ''zfs list %s'' e))
     | Inr _ \<Rightarrow> ret True)"

text \<open>\<^verbatim>\<open>zfs get -Hp -o value <prop> <dataset>\<close>, the shape of three operations.\<close>

definition zfs_get_int :: "'w host \<Rightarrow> string \<Rightarrow> string \<Rightarrow> ('w, int) io" where
  "zfs_get_int h prop dataset =
     bindIO (wrapIO (WrapErr (''zfs get '' @ prop @ '' %s''))
       (Run h (zfs [''get'', ''-Hp'', ''-o'', ''value'', prop, dataset]))) (\<lambda>out.
     liftE (zfs_parseInt (Stdout out) prop))"

definition ZFS_GetVolsize :: "'w host \<Rightarrow> string \<Rightarrow> ('w, int) io" where
  "ZFS_GetVolsize h dataset = zfs_get_int h ''volsize'' dataset"

definition ZFS_GetVolblocksize :: "'w host \<Rightarrow> string \<Rightarrow> ('w, int) io" where
  "ZFS_GetVolblocksize h dataset = zfs_get_int h ''volblocksize'' dataset"

definition ZFS_GetCreation :: "'w host \<Rightarrow> string \<Rightarrow> ('w, int) io" where
  "ZFS_GetCreation h dataset = zfs_get_int h ''creation'' dataset"

definition ZFS_SetVolsize :: "'w host \<Rightarrow> string \<Rightarrow> int \<Rightarrow> ('w, unit) io" where
  "ZFS_SetVolsize h dataset sizeBytes =
     (let arg = ''volsize='' @ FormatInt sizeBytes
      in bindIO (wrapIO (WrapErr ''zfs set %s %s'') (Run h (zfs [''set'', arg, dataset]))) (\<lambda>_. ret ()))"

definition ZFS_SetUserProp :: "'w host \<Rightarrow> string \<Rightarrow> string \<Rightarrow> string \<Rightarrow> ('w, unit) io" where
  "ZFS_SetUserProp h dataset prop value =
     (let arg = prop @ ''='' @ value
      in bindIO (wrapIO (WrapErr ''zfs set %s %s'') (Run h (zfs [''set'', arg, dataset]))) (\<lambda>_. ret ()))"

definition ZFS_GetUserProp :: "'w host \<Rightarrow> string \<Rightarrow> string \<Rightarrow> ('w, string) io" where
  "ZFS_GetUserProp h dataset prop =
     bindIO (wrapIO (WrapErr ''zfs get %s %s'')
       (Run h (zfs [''get'', ''-H'', ''-o'', ''value'', prop, dataset]))) (\<lambda>out.
     let v = TrimSpace (Stdout out) in if v = ''-'' then ret [] else ret v)"

definition ZFS_Snapshot :: "'w host \<Rightarrow> string \<Rightarrow> string \<Rightarrow> ('w, unit) io" where
  "ZFS_Snapshot h dataset name =
     (let snap = dataset @ ''@'' @ name
      in bindIO (wrapIO (WrapErr ''zfs snapshot %s'') (Run h (zfs [''snapshot'', snap]))) (\<lambda>_. ret ()))"

definition ZFS_DestroySnapshot :: "'w host \<Rightarrow> string \<Rightarrow> string \<Rightarrow> ('w, unit) io" where
  "ZFS_DestroySnapshot h dataset name =
     (let snap = dataset @ ''@'' @ name
      in bindIO (wrapIO (WrapErr ''zfs destroy %s'') (Run h (zfs [''destroy'', snap]))) (\<lambda>_. ret ()))"

definition ZFS_CloneIndependent :: "'w host \<Rightarrow> string \<Rightarrow> string \<Rightarrow> string \<Rightarrow> ('w, unit) io" where
  "ZFS_CloneIndependent h srcDataset srcSnapshot destDataset =
     (let src = srcDataset @ ''@'' @ srcSnapshot
      in bindIO (wrapIO (WrapErr ''zfs send|recv %s -> %s'')
           (RunPipe h (zfs [''send'', src]) (zfs [''recv'', destDataset]))) (\<lambda>_.
         wrapIO (WrapErr ''dropping received snapshot on clone'')
           (ZFS_DestroySnapshot h destDataset srcSnapshot)))"

definition ZFS_ListZvols :: "'w host \<Rightarrow> string \<Rightarrow> ('w, Zvol list) io" where
  "ZFS_ListZvols h parent =
     tryIO (Run h (zfs [''list'', ''-Hp'', ''-t'', ''volume'', ''-r'', ''-o'', ''name,volsize'', parent])) (\<lambda>r.
       case r of
         Inl e \<Rightarrow> (if IsExit e 1 then ret [] else fail (WrapErr ''zfs list -t volume %s'' e))
       | Inr out \<Rightarrow> ret (listing zvol_line (Stdout out)))"

definition ZFS_ListSnapshots :: "'w host \<Rightarrow> string \<Rightarrow> ('w, SnapshotEntry list) io" where
  "ZFS_ListSnapshots h target =
     tryIO (Run h (zfs [''list'', ''-Hp'', ''-t'', ''snapshot'', ''-r'', ''-o'', ''name,volsize,creation'', target]))
       (\<lambda>r. case r of
         Inl e \<Rightarrow> (if IsExit e 1 then ret [] else fail (WrapErr ''zfs list -t snapshot %s'' e))
       | Inr out \<Rightarrow> ret (listing snapshot_line (Stdout out)))"

definition zpool_get_int :: "'w host \<Rightarrow> string \<Rightarrow> string \<Rightarrow> ('w, int) io" where
  "zpool_get_int h prop pool =
     bindIO (wrapIO (WrapErr (''zpool get '' @ prop @ '' %s''))
       (Run h (zpool [''get'', ''-Hp'', ''-o'', ''value'', prop, pool]))) (\<lambda>out.
     liftE (zfs_parseInt (Stdout out) prop))"

definition ZFS_PoolFree :: "'w host \<Rightarrow> string \<Rightarrow> ('w, int) io" where
  "ZFS_PoolFree h pool = zpool_get_int h ''free'' pool"

definition ZFS_PoolAvailable :: "'w host \<Rightarrow> string \<Rightarrow> ('w, int) io" where
  "ZFS_PoolAvailable h pool = zfs_get_int h ''available'' pool"

definition ZFS_PoolSize :: "'w host \<Rightarrow> string \<Rightarrow> ('w, int) io" where
  "ZFS_PoolSize h pool = zpool_get_int h ''size'' pool"

definition ZFS_PoolHealthy :: "'w host \<Rightarrow> string \<Rightarrow> ('w, bool) io" where
  "ZFS_PoolHealthy h pool =
     bindIO (wrapIO (WrapErr ''zpool list health %s'')
       (Run h (zpool [''list'', ''-H'', ''-o'', ''health'', pool]))) (\<lambda>out.
     ret (TrimSpace (Stdout out) = ''ONLINE''))"

text \<open>The pair of \<open>present\<close> and \<open>online\<close>.\<close>

definition ZFS_PoolStatus :: "'w host \<Rightarrow> string \<Rightarrow> ('w, bool \<times> bool) io" where
  "ZFS_PoolStatus h pool =
     tryIO (Run h (zpool [''list'', ''-H'', ''-o'', ''health'', pool])) (\<lambda>r. case r of
       Inl e \<Rightarrow> (if IsExit e 1 then ret (False, False) else fail (WrapErr ''zpool list health %s'' e))
     | Inr out \<Rightarrow> ret (True, TrimSpace (Stdout out) = ''ONLINE''))"

definition DevicePath :: "string \<Rightarrow> string" where
  "DevicePath dataset = ''/dev/zvol/'' @ dataset"

lemmas zfs_get_ops = ZFS_GetVolsize_def ZFS_GetVolblocksize_def ZFS_GetCreation_def
  ZFS_PoolFree_def ZFS_PoolAvailable_def ZFS_PoolSize_def

section \<open>Printing and parsing agree\<close>

lemma zfs_parseInt_FormatInt: "in64 n \<Longrightarrow> zfs_parseInt (FormatInt n @ [NL]) what = Inr n"
  by (simp add: zfs_parseInt_def word_TrimSpace_NL ParseInt_FormatInt)

text \<open>Fields separated by tabs, lines ended by newlines: what \<^verbatim>\<open>-H\<close> prints.\<close>

definition row :: "string list \<Rightarrow> string" where
  "row fs = Join TAB fs"

definition rows :: "string list list \<Rightarrow> string" where
  "rows fs = concat (map (\<lambda>r. row r @ [NL]) fs)"

definition row_ok :: "string list \<Rightarrow> bool" where
  "row_ok r \<longleftrightarrow> r \<noteq> [] \<and> list_all word r"

lemma fields_acc_row: "list_all word ws \<Longrightarrow> ws \<noteq> [] \<Longrightarrow>
  fields_acc [] (map (\<lambda>c. (of_char c, [c])) (Join TAB ws)) = ws"
proof (induction ws rule: induct_list012 [case_names Nil One Many])
  case (One x)
  then show ?case using fields_acc_run [of x "[]" "[]"] by (simp add: word_def)
next
  case (Many x y xs)
  have "is_space_rune (of_char TAB)" using TAB_space by (simp add: is_space_def)
  then show ?case using Many fields_acc_run [of x "[]"]
    by (simp add: word_def)
qed auto

lemma row_chars: "list_all word ws \<Longrightarrow> c \<in> set (row ws) \<Longrightarrow> word_char c \<or> c = TAB"
  by (induction ws rule: induct_list012 [case_names Nil One Many])
    (auto simp: row_def word_def list_all_iff)

lemma row_ascii: "list_all word ws \<Longrightarrow> list_all ascii (row ws)"
  using row_chars TAB_space(2) by (auto simp: list_all_iff word_char_def)

lemma row_no_NL: "list_all word ws \<Longrightarrow> NL \<notin> set (row ws)"
  using row_chars [of ws NL] NL_space by (auto simp: word_char_def NL_def TAB_def)

lemma Fields_row: "row_ok ws \<Longrightarrow> Fields (row ws) = ws"
  using fields_acc_row [of ws] row_ascii [of ws] by (simp add: Fields_def row_ok_def row_def runes_ascii)

lemma row_ends: "row_ok ws \<Longrightarrow> row ws \<noteq> [] \<and> \<not> is_space (hd (row ws)) \<and> \<not> is_space (last (row ws))"
proof (induction ws rule: induct_list012 [case_names Nil One Many])
  case (Many x y xs)
  then have "row (y # xs) \<noteq> []" "\<not> is_space (last (row (y # xs)))" by (auto simp: row_ok_def)
  moreover have "x \<noteq> []" "\<not> is_space (hd x)"
    using Many.prems by (auto simp: row_ok_def word_def word_char_def list_all_iff)
  ultimately show ?case by (simp add: row_def hd_append)
qed (auto simp: row_def row_ok_def word_def word_char_def list_all_iff)

lemma rows_Join: "fs \<noteq> [] \<Longrightarrow> rows fs = Join NL (map row fs) @ [NL]"
  by (induction fs rule: induct_list012 [case_names Nil One Many]) (auto simp: rows_def)

lemma lines_ends: "list_all row_ok fs \<Longrightarrow> fs \<noteq> [] \<Longrightarrow>
  list_all ascii (Join NL (map row fs)) \<and> Join NL (map row fs) \<noteq> [] \<and>
  \<not> is_space (hd (Join NL (map row fs))) \<and> \<not> is_space (last (Join NL (map row fs)))"
proof (induction fs rule: induct_list012 [case_names Nil One Many])
  case (One x)
  then show ?case using row_ends [of x] row_ascii [of x] by (simp add: row_ok_def)
next
  case (Many x y xs)
  then show ?case using row_ends [of x] row_ascii [of x] NL_space by (simp add: row_ok_def hd_append)
qed simp

lemma Split_lines: "list_all row_ok fs \<Longrightarrow> fs \<noteq> [] \<Longrightarrow> Split NL (Join NL (map row fs)) = map row fs"
  by (induction fs rule: induct_list012 [case_names Nil One Many])
    (auto simp: row_ok_def row_no_NL Split_no_sep Split_sep)

text \<open>A listing is read back row by row.\<close>

lemma TrimSpace_Nil [simp]: "TrimSpace [] = []"
  by (simp add: TrimSpace_def)

lemma listing_rows: "list_all row_ok fs \<Longrightarrow> f [] = None \<Longrightarrow>
  listing f (rows fs) = List.map_filter (\<lambda>r. f (row r)) fs"
proof (cases "fs = []")
  case True
  assume "f [] = None"
  then show ?thesis using True
    by (simp add: listing_def rows_def Split_def map_filter_simps)
next
  case False
  assume ok: "list_all row_ok fs"
  have "TrimSpace (rows fs) = Join NL (map row fs)"
    using lines_ends [OF ok False] by (simp add: rows_Join [OF False] TrimSpace_line)
  then show ?thesis using Split_lines [OF ok False]
    by (simp add: listing_def map_filter_def filter_map o_def)
qed

lemma listing_snapshots:
  assumes "list_all (\<lambda>(n, v, c). word n \<and> in64 v \<and> in64 c) es"
  shows "listing snapshot_line (rows (map (\<lambda>(n, v, c). [n, FormatInt v, FormatInt c]) es)) =
    map (\<lambda>(n, v, c). \<lparr>seName = n, seVolsizeBytes = v, seCreationUnix = c\<rparr>) es"
proof -
  have l: "snapshot_line (row [n, FormatInt v, FormatInt c]) =
      Some \<lparr>seName = n, seVolsizeBytes = v, seCreationUnix = c\<rparr>" if "word n \<and> in64 v \<and> in64 c" for n v c
  proof -
    have ok: "row_ok [n, FormatInt v, FormatInt c]" using that by (simp add: row_ok_def)
    then show ?thesis using that row_ends [OF ok]
      by (simp add: snapshot_line_def Fields_row ParseInt_FormatInt)
  qed
  have "list_all row_ok (map (\<lambda>(n, v, c). [n, FormatInt v, FormatInt c]) es)"
    using assms by (auto simp: list_all_iff row_ok_def)
  moreover have "snapshot_line [] = None" by (simp add: snapshot_line_def)
  moreover have "List.map_filter (\<lambda>r. snapshot_line (row r)) (map (\<lambda>(n, v, c). [n, FormatInt v, FormatInt c]) es)
      = map (\<lambda>(n, v, c). \<lparr>seName = n, seVolsizeBytes = v, seCreationUnix = c\<rparr>) es"
    using assms by (induction es) (auto simp: map_filter_simps l)
  ultimately show ?thesis by (simp add: listing_rows)
qed

lemma listing_zvols:
  assumes "list_all (\<lambda>(n, v). word n \<and> in64 v) es"
  shows "listing zvol_line (rows (map (\<lambda>(n, v). [n, FormatInt v]) es)) =
    map (\<lambda>(n, v). \<lparr>zvName = n, zvSizeByte = v\<rparr>) es"
proof -
  have l: "zvol_line (row [n, FormatInt v]) = Some \<lparr>zvName = n, zvSizeByte = v\<rparr>"
    if "word n \<and> in64 v" for n v
  proof -
    have ok: "row_ok [n, FormatInt v]" using that by (simp add: row_ok_def)
    then show ?thesis using that row_ends [OF ok]
      by (simp add: zvol_line_def Fields_row ParseInt_FormatInt)
  qed
  have "list_all row_ok (map (\<lambda>(n, v). [n, FormatInt v]) es)"
    using assms by (auto simp: list_all_iff row_ok_def)
  moreover have "zvol_line [] = None" by (simp add: zvol_line_def)
  moreover have "List.map_filter (\<lambda>r. zvol_line (row r)) (map (\<lambda>(n, v). [n, FormatInt v]) es)
      = map (\<lambda>(n, v). \<lparr>zvName = n, zvSizeByte = v\<rparr>) es"
    using assms by (induction es) (auto simp: map_filter_simps l)
  ultimately show ?thesis by (simp add: listing_rows)
qed

end
