(* ===== verification/Local_Params.thy ===== *)
theory Local_Params
  imports Driver_Types
begin

text \<open>
  The configuration of the local backend (\<^verbatim>\<open>LocalConfig\<close> and \<^verbatim>\<open>PoolConfig\<close> of
  internal/config/config.go with their accessors), its start-up validation (\<^verbatim>\<open>validatePools\<close> of
  local/backend.go), the per-volume parameters and the size arithmetic of local/params.go, and
  the reserve arithmetic of local/controller.go. Sizes are 64-bit integers that wrap.
\<close>

section \<open>Configuration\<close>

record PoolConfig =
  poolName :: string
  poolParentDataset :: string
  poolReservePercent :: "int option"

record LocalConfig =
  pools :: "PoolConfig list"
  defaultPool :: string
  defaultVolblocksize :: string
  reservePercent :: int
  forwardAddr :: string
  forwardSecret :: string

fun pool_lookup :: "string \<Rightarrow> PoolConfig list \<Rightarrow> PoolConfig option" where
  "pool_lookup name [] = None"
| "pool_lookup name (p # ps) = (if poolName p = name then Some p else pool_lookup name ps)"

definition PoolByName :: "LocalConfig \<Rightarrow> string \<Rightarrow> PoolConfig option" where
  "PoolByName c name = pool_lookup name (pools c)"

definition PoolNames :: "LocalConfig \<Rightarrow> string list" where
  "PoolNames c = map poolName (pools c)"

definition ReserveFor :: "LocalConfig \<Rightarrow> string \<Rightarrow> int" where
  "ReserveFor c name = (case PoolByName c name of
     Some p \<Rightarrow> (case poolReservePercent p of Some r \<Rightarrow> r | None \<Rightarrow> reservePercent c)
   | None \<Rightarrow> reservePercent c)"

definition parentDatasetForPool :: "LocalConfig \<Rightarrow> string \<Rightarrow> string \<Rightarrow> string" where
  "parentDatasetForPool cfg pool defaultParent =
     (let parent = (case PoolByName cfg pool of
        Some pc \<Rightarrow> (if poolParentDataset pc \<noteq> [] then poolParentDataset pc else defaultParent)
      | None \<Rightarrow> defaultParent)
      in pool @ ''/'' @ parent)"

text \<open>The loop of \<^verbatim>\<open>validatePools\<close> with the names seen so far.\<close>

fun validate_names :: "string set \<Rightarrow> PoolConfig list \<Rightarrow> err + string set" where
  "validate_names seen [] = Inr seen"
| "validate_names seen (p # ps) =
     (if poolName p = [] \<or> CHR ''/'' \<in> set (poolName p)
      then Inl (InvalidArgument ''local pool name %q must be a bare zpool name (no '/')'')
      else if poolName p \<in> seen then Inl (InvalidArgument ''duplicate local pool %q'')
      else validate_names (insert (poolName p) seen) ps)"

definition validatePools :: "LocalConfig \<Rightarrow> err + unit" where
  "validatePools cfg =
     (if pools cfg = [] then Inl (InvalidArgument ''local requires at least one 'pool' block'')
      else case validate_names {} (pools cfg) of
        Inl e \<Rightarrow> Inl e
      | Inr seen \<Rightarrow>
          (if defaultPool cfg = [] then Inl (InvalidArgument ''local.default_pool is required'')
           else if defaultPool cfg \<notin> seen
           then Inl (InvalidArgument ''local.default_pool %q is not one of the configured pools %v'')
           else Inr ()))"

section \<open>Sizes\<close>

definition errInvalidSize :: err where
  "errInvalidSize = PlainErr ''invalid size''"

definition size_mult :: "char \<Rightarrow> int" where
  "size_mult c = (if c = CHR ''K'' \<or> c = CHR ''k'' then 1024
     else if c = CHR ''M'' \<or> c = CHR ''m'' then 1048576
     else if c = CHR ''G'' \<or> c = CHR ''g'' then 1073741824
     else if c = CHR ''T'' \<or> c = CHR ''t'' then 1099511627776
     else 1)"

definition parseSizeBytes :: "string \<Rightarrow> err + int" where
  "parseSizeBytes s0 = (let s = TrimSpace s0 in
     if s = [] then Inl errInvalidSize
     else let mult = size_mult (last s);
              num = (if mult \<noteq> 1 then butlast s else s);
              (n, ok) = ParseInt (TrimSpace num)
          in if \<not> ok \<or> n \<le> 0 then Inl errInvalidSize else Inr (mul64 n mult))"

text \<open>\<^verbatim>\<open>((req + block - 1) / block) * block\<close> for a block other than 0.\<close>

definition roundUp :: "int \<Rightarrow> int \<Rightarrow> int" where
  "roundUp req block = mul64 (div64 (sub64 (add64 req block) 1) block) block"

definition roundUpToBlock :: "CapacityRange \<Rightarrow> string \<Rightarrow> int res" where
  "roundUpToBlock cr volblocksize = (let req = requiredBytes cr in
     if req \<le> 0 then Fail (InvalidArgument ''capacity required_bytes must be > 0'')
     else case parseSizeBytes volblocksize of
       Inl _ \<Rightarrow> Fail (InvalidArgument ''invalid volblocksize %q: %v'')
     | Inr block \<Rightarrow>
         (if block = 0 then Panic ''runtime error: integer divide by zero''
          else let rounded = roundUp req block in
            if 0 < limitBytes cr \<and> limitBytes cr < rounded
            then Fail (OutOfRange ''required %d rounds up to %d which exceeds limit %d'')
            else Ok rounded))"

section \<open>Volume parameters\<close>

definition hostAuto :: string where "hostAuto = ''auto''"

record volumeParams =
  vpFsType :: string
  vpBlock :: bool
  vpVolblocksize :: string
  vpHost :: string
  vpPool :: string

definition nonempty_or :: "string \<Rightarrow> string \<Rightarrow> string" where
  "nonempty_or v d = (if v \<noteq> [] then v else d)"

definition resolveParams :: "LocalConfig \<Rightarrow> smap \<Rightarrow> VolumeCapability list \<Rightarrow> err + volumeParams" where
  "resolveParams cfg p caps =
     (let vbs = nonempty_or (defaultVolblocksize cfg) ''16K'';
          block = (caps \<noteq> [] \<and> accessType (hd caps) = AccessTypeBlock);
          fs = (if block then []
                else let f = (if caps \<noteq> [] then nonempty_or (capFsType (hd caps)) ''ext4'' else ''ext4'')
                     in nonempty_or (sget p ''fsType'') f)
      in if \<not> block \<and> fs \<noteq> ''ext4'' \<and> fs \<noteq> ''xfs''
         then Inl (InvalidArgument ''unsupported fsType %q (want ext4|xfs)'')
         else let vbs = nonempty_or (sget p ''volblocksize'') vbs in
           case parseSizeBytes vbs of
             Inl _ \<Rightarrow> Inl (InvalidArgument ''invalid volblocksize %q: %v'')
           | Inr _ \<Rightarrow>
               (let host = nonempty_or (sget p ''host'') hostAuto;
                    pool = nonempty_or (sget p ''pool'') (defaultPool cfg)
                in if CHR ''/'' \<in> set pool
                   then Inl (InvalidArgument ''parameters.pool %q must be a bare zpool name (no '/')'')
                   else if PoolByName cfg pool = None
                   then Inl (InvalidArgument ''parameters.pool %q is not an allowed pool (configured: %v)'')
                   else Inr \<lparr>vpFsType = fs, vpBlock = block, vpVolblocksize = vbs,
                             vpHost = host, vpPool = pool\<rparr>))"

section \<open>The reserve of a pool\<close>

definition reserveBytes :: "int \<Rightarrow> int \<Rightarrow> int" where
  "reserveBytes tot pct =
     (if pct \<le> 0 then 0 else if 100 \<le> pct then tot else mul64 (div64 tot 100) pct)"

definition max64 :: "int \<Rightarrow> int \<Rightarrow> int" where
  "max64 a b = (if a > b then a else b)"

section \<open>Lemmas\<close>

lemma pool_lookup_iff: "pool_lookup n ps = None \<longleftrightarrow> n \<notin> set (map poolName ps)"
  by (induction ps) auto

lemma pool_lookup_name: "pool_lookup n ps = Some p \<Longrightarrow> poolName p = n \<and> p \<in> set ps"
  by (induction ps) (auto split: if_splits)

lemma validate_names_Inr: "validate_names seen ps = Inr out \<longleftrightarrow>
  out = seen \<union> set (map poolName ps) \<and> distinct (map poolName ps) \<and> seen \<inter> set (map poolName ps) = {}
  \<and> (\<forall>p \<in> set ps. poolName p \<noteq> [] \<and> CHR ''/'' \<notin> set (poolName p))"
  by (induction ps arbitrary: seen) auto

text \<open>What a validated configuration guarantees.\<close>

definition config_wf :: "LocalConfig \<Rightarrow> bool" where
  "config_wf cfg \<longleftrightarrow> pools cfg \<noteq> [] \<and> distinct (PoolNames cfg) \<and> defaultPool cfg \<in> set (PoolNames cfg)
     \<and> (\<forall>n \<in> set (PoolNames cfg). n \<noteq> [] \<and> CHR ''/'' \<notin> set n)"

lemma validatePools_iff: "validatePools cfg = Inr () \<longleftrightarrow> config_wf cfg"
proof (cases "validate_names {} (pools cfg)")
  case (Inl e)
  then show ?thesis
    using validate_names_Inr [of "{}" "pools cfg" "set (map poolName (pools cfg))"]
    by (auto simp: validatePools_def config_wf_def PoolNames_def)
next
  case (Inr out)
  then show ?thesis using validate_names_Inr [of "{}" "pools cfg" out]
    by (auto simp: validatePools_def config_wf_def PoolNames_def)
qed

lemma wrap64_diff: "wrap64 (wrap64 x - y) = wrap64 (x - y)"
proof -
  have "((x + 9223372036854775808) mod 18446744073709551616 - y) mod 18446744073709551616
      = (x + 9223372036854775808 - y) mod 18446744073709551616" by (rule mod_diff_left_eq)
  then show ?thesis by (simp add: wrap64_def algebra_simps)
qed

lemma in64_roundUp: "in64 (roundUp a b)"
  by (simp add: roundUp_def mul64_def)

lemma roundUp_exact:
  assumes "0 < req" "0 < block" "in64 (req + block - 1)"
  shows "roundUp req block = (req + block - 1) div block * block"
    and "block dvd roundUp req block" and "req \<le> roundUp req block" and "roundUp req block < req + block"
proof -
  let ?n = "req + block - 1"
  have n: "0 \<le> ?n" "in64 ?n" using assms by auto
  have le: "?n div block * block \<le> ?n" using pos_mod_sign [OF assms(2), of ?n] div_mult_mod_eq [of ?n block] by linarith
  have ge: "?n < ?n div block * block + block"
    using pos_mod_bound [OF assms(2), of ?n] div_mult_mod_eq [of ?n block] by linarith
  have "0 \<le> ?n div block" using n assms(2) by (simp add: pos_imp_zdiv_nonneg_iff)
  then have "0 \<le> ?n div block * block" using assms(2) by simp
  then have r: "in64 (?n div block * block)" using le n(2) by (rule in64_nonneg_le)
  show e: "roundUp req block = ?n div block * block"
    by (simp add: roundUp_def mul64_def sub64_def add64_def wrap64_diff wrap64_id n(2) div64_pos [OF n(1) assms(2) n(2)] r)
  show "block dvd roundUp req block" by (simp add: e)
  show "req \<le> roundUp req block" using ge by (simp add: e)
  show "roundUp req block < req + block" using le by (simp add: e)
qed

lemma roundUp_id:
  assumes "0 < req" "0 < block" "in64 (req + block - 1)" "block dvd req"
  shows "roundUp req block = req"
proof -
  obtain k where k: "req = block * k" using assms(4) by blast
  obtain j where j: "roundUp req block = block * j" using roundUp_exact(2) [OF assms(1-3)] by blast
  have "block * k \<le> block * j" "block * j < block * (k + 1)"
    using roundUp_exact(3,4) [OF assms(1-3)] k j by (simp_all add: algebra_simps)
  then have "k \<le> j" "j < k + 1" using assms(2) by simp_all
  then show ?thesis using k j by simp
qed

lemma parseSizeBytes_Inr: "parseSizeBytes s = Inr b \<Longrightarrow>
  \<exists>n. 0 < n \<and> in64 n \<and> b = mul64 n (size_mult (last (TrimSpace s)))"
  by (auto simp: parseSizeBytes_def Let_def not_le dest: ParseInt_in64
      split: if_split_asm prod.split_asm)

lemma size_mult_ge: "1 \<le> size_mult c"
  by (simp add: size_mult_def)

lemma reserveBytes_bounds:
  assumes "0 \<le> tot" "in64 tot"
  shows "0 \<le> reserveBytes tot pct" and "reserveBytes tot pct \<le> tot"
proof -
  have d: "div64 tot 100 = tot div 100" using assms by (simp add: div64_pos)
  have q: "0 \<le> tot div 100" using assms(1) by simp
  have "0 < pct \<and> pct < 100 \<Longrightarrow> tot div 100 * pct \<le> tot div 100 * 100"
    using q by (simp add: mult_left_mono)
  then have m: "0 < pct \<and> pct < 100 \<Longrightarrow> tot div 100 * pct \<le> tot" by linarith
  have "0 < pct \<and> pct < 100 \<Longrightarrow> in64 (tot div 100 * pct)"
    using m q assms(2) by (auto intro: in64_nonneg_le)
  then show "0 \<le> reserveBytes tot pct" "reserveBytes tot pct \<le> tot"
    using m q assms(1) by (auto simp: reserveBytes_def mul64_def d wrap64_id)
qed

lemma nonempty_or_nonempty: "d \<noteq> [] \<Longrightarrow> nonempty_or v d \<noteq> []"
  by (simp add: nonempty_or_def)

lemma resolveParams_Inr:
  assumes "resolveParams cfg p caps = Inr vp"
  shows "vpPool vp \<in> set (PoolNames cfg)" "CHR ''/'' \<notin> set (vpPool vp)"
    "vpBlock vp \<or> vpFsType vp = ''ext4'' \<or> vpFsType vp = ''xfs''"
    "\<exists>b. parseSizeBytes (vpVolblocksize vp) = Inr b" "vpHost vp \<noteq> []"
    "vpBlock vp \<longleftrightarrow> caps \<noteq> [] \<and> accessType (hd caps) = AccessTypeBlock"
  using assms nonempty_or_nonempty [of hostAuto "sget p ''host''"]
  by (auto simp: resolveParams_def Let_def PoolByName_def pool_lookup_iff PoolNames_def hostAuto_def
      split: if_split_asm sum.split_asm)

end
