(* ===== verification/Local_Ids.thy ===== *)
theory Local_Ids
  imports Driver_Types
begin

text \<open>
  \<^verbatim>\<open>internal/driver/local/externalid.go\<close>: the volume and snapshot ids of the local backend. An
  id carries the owning node and the full dataset, so every later operation is routed and
  performed from the id alone; the round-trip lemmas are what that routing rests on. The methods
  \<^verbatim>\<open>String\<close> of the two structs are \<open>externalID_String\<close> and \<open>snapshotID_String\<close>.
\<close>

section \<open>Volume ids\<close>

record externalID =
  eNode :: string
  eDataset :: string

definition externalIDPrefix :: string where "externalIDPrefix = ''local/v1''"

definition externalID_String :: "externalID \<Rightarrow> string" where
  "externalID_String e = externalIDPrefix @ ''/'' @ eNode e @ ''/'' @ eDataset e"

definition validDataset :: "string \<Rightarrow> bool" where
  "validDataset ds \<longleftrightarrow>
     (if ds = [] \<or> \<not> Contains ds ''/'' then False
      else if HasPrefix ds ''/'' \<or> HasSuffix ds ''/'' \<or> Contains ds ''//'' \<or> Contains ds ''..'' then False
      else True)"

definition parseExternalID :: "string \<Rightarrow> err + externalID" where
  "parseExternalID vid = (case SplitN (CHR ''/'') 4 vid of
     [p0, p1, p2, ds] \<Rightarrow>
       (if p0 \<noteq> ''local'' \<or> p1 \<noteq> ''v1'' \<or> p2 = []
        then Inl (InvalidArgument ''malformed local volume id %q'')
        else if \<not> validDataset ds then Inl (InvalidArgument ''malformed local volume id %q'')
        else Inr \<lparr>eNode = p2, eDataset = ds\<rparr>)
   | _ \<Rightarrow> Inl (InvalidArgument ''malformed local volume id %q''))"

section \<open>Snapshot ids\<close>

record snapshotID =
  sNode :: string
  sDataset :: string
  sSnapName :: string

definition snapshotIDPrefix :: string where "snapshotIDPrefix = ''locals/v1''"

definition snapshotID_String :: "snapshotID \<Rightarrow> string" where
  "snapshotID_String s = snapshotIDPrefix @ ''/'' @ sNode s @ ''/'' @ sDataset s @ ''/'' @ sSnapName s"

definition parseSnapshotID :: "string \<Rightarrow> err + snapshotID" where
  "parseSnapshotID sid = (case SplitN (CHR ''/'') 4 sid of
     [p0, p1, p2, rest] \<Rightarrow>
       (if p0 \<noteq> ''locals'' \<or> p1 \<noteq> ''v1'' \<or> p2 = [] \<or> rest = []
        then Inl (InvalidArgument ''malformed local snapshot id %q'')
        else let i = LastIndexByte rest (CHR ''/'') in
          if i \<le> 0 \<or> i = int (length rest) - 1
          then Inl (InvalidArgument ''malformed local snapshot id %q'')
          else let ds = take (nat i) rest; snap = drop (nat (i + 1)) rest in
            if \<not> validDataset ds then Inl (InvalidArgument ''malformed local snapshot id %q'')
            else Inr \<lparr>sNode = p2, sDataset = ds, sSnapName = snap\<rparr>)
   | _ \<Rightarrow> Inl (InvalidArgument ''malformed local snapshot id %q''))"

section \<open>Datasets\<close>

definition poolOf :: "string \<Rightarrow> string" where
  "poolOf dataset = (let i = IndexByte dataset (CHR ''/'') in
     if 0 \<le> i then take (nat i) dataset else dataset)"

definition lastSegment :: "string \<Rightarrow> string" where
  "lastSegment dataset = (let i = LastIndexByte dataset (CHR ''/'') in
     if 0 \<le> i then drop (nat (i + 1)) dataset else dataset)"

definition externalID_Pool :: "externalID \<Rightarrow> string" where
  "externalID_Pool e = poolOf (eDataset e)"

definition externalID_VolName :: "externalID \<Rightarrow> string" where
  "externalID_VolName e = lastSegment (eDataset e)"

definition topologyKey :: string where
  "topologyKey = ''io.honesthosting.csi.topology/node''"

definition ctxKeyDataset :: string where "ctxKeyDataset = ''dataset''"

definition ctxKeyFsType :: string where "ctxKeyFsType = ''fsType''"

definition ctxKeyNode :: string where "ctxKeyNode = ''node''"

lemmas ctxKey_defs = ctxKeyDataset_def ctxKeyFsType_def ctxKeyNode_def

section \<open>Names\<close>

text \<open>The runes \<^verbatim>\<open>sanitizeName\<close> keeps.\<close>

definition safe_rune :: "nat \<Rightarrow> bool" where
  "safe_rune r \<longleftrightarrow> (65 \<le> r \<and> r \<le> 90) \<or> (97 \<le> r \<and> r \<le> 122) \<or> (48 \<le> r \<and> r \<le> 57)
     \<or> r = 95 \<or> r = 45 \<or> r = 46 \<or> r = 58"

definition sanitizeName :: "string \<Rightarrow> string" where
  "sanitizeName name =
     (let out = map (\<lambda>p. if safe_rune (fst p) then char_of (fst p) else CHR ''-'') (runes name)
      in if 200 < length out then take 200 out else out)"

definition safe_char :: "char \<Rightarrow> bool" where
  "safe_char c \<longleftrightarrow> safe_rune (of_char c)"

section \<open>Round trips of volume ids\<close>

lemma SplitN_4: "CHR ''/'' \<notin> set a \<Longrightarrow> CHR ''/'' \<notin> set b \<Longrightarrow> CHR ''/'' \<notin> set c \<Longrightarrow>
  SplitN (CHR ''/'') 4 (a @ CHR ''/'' # b @ CHR ''/'' # c @ CHR ''/'' # d) = [a, b, c, d]"
  by (simp add: numeral_eq_Suc)

lemma SplitN_4_inv: "SplitN (CHR ''/'') 4 s = [a, b, c, d] \<Longrightarrow>
  s = a @ CHR ''/'' # b @ CHR ''/'' # c @ CHR ''/'' # d \<and>
  CHR ''/'' \<notin> set a \<and> CHR ''/'' \<notin> set b \<and> CHR ''/'' \<notin> set c"
proof -
  assume e: "SplitN (CHR ''/'') 4 s = [a, b, c, d]"
  have "s = Join (CHR ''/'') [a, b, c, d]" using Join_SplitN [of 4 "CHR ''/''" s] e by simp
  moreover have "p \<in> {a, b, c} \<Longrightarrow> CHR ''/'' \<notin> set p" for p
    using SplitN_parts [of p "CHR ''/''" 4 s] e by auto
  ultimately show ?thesis by simp
qed

text \<open>A well-formed volume identity: what \<^verbatim>\<open>parseExternalID\<close> accepts.\<close>

definition eid_wf :: "externalID \<Rightarrow> bool" where
  "eid_wf e \<longleftrightarrow> eNode e \<noteq> [] \<and> CHR ''/'' \<notin> set (eNode e) \<and> validDataset (eDataset e)"

lemma externalID_String_split: "externalID_String e =
  ''local'' @ CHR ''/'' # ''v1'' @ CHR ''/'' # eNode e @ CHR ''/'' # eDataset e"
  by (simp add: externalID_String_def externalIDPrefix_def)

lemma parseExternalID_String: "CHR ''/'' \<notin> set (eNode e) \<Longrightarrow> eNode e \<noteq> [] \<Longrightarrow>
  parseExternalID (externalID_String e) =
    (if validDataset (eDataset e) then Inr e
     else Inl (InvalidArgument ''malformed local volume id %q''))"
  unfolding parseExternalID_def externalID_String_split by (subst SplitN_4) auto

lemma parseExternalID_wf: "parseExternalID s = Inr e \<Longrightarrow> eid_wf e \<and> externalID_String e = s"
  by (auto simp: parseExternalID_def eid_wf_def externalID_String_split
      split: list.splits if_splits dest!: SplitN_4_inv)

lemma parseExternalID_iff: "parseExternalID s = Inr e \<longleftrightarrow> eid_wf e \<and> s = externalID_String e"
  using parseExternalID_wf parseExternalID_String by (auto simp: eid_wf_def)

lemma validDataset_slash: "validDataset ds \<Longrightarrow> CHR ''/'' \<in> set ds"
  by (auto simp: validDataset_def Contains_char split: if_splits)

lemma parseExternalID_slash: "parseExternalID s = Inr e \<Longrightarrow> CHR ''/'' \<in> set (eDataset e)"
  using parseExternalID_wf validDataset_slash by (auto simp: eid_wf_def)

lemma parseExternalID_code: "parseExternalID s = Inl e \<Longrightarrow> e = InvalidArgument ''malformed local volume id %q''"
  by (auto simp: parseExternalID_def split: list.splits if_splits)

lemma externalID_String_inj: "eid_wf a \<Longrightarrow> eid_wf b \<Longrightarrow> externalID_String a = externalID_String b \<Longrightarrow> a = b"
  by (metis Inr_inject parseExternalID_iff)

section \<open>Round trips of snapshot ids\<close>

definition sid_wf :: "snapshotID \<Rightarrow> bool" where
  "sid_wf s \<longleftrightarrow> sNode s \<noteq> [] \<and> CHR ''/'' \<notin> set (sNode s) \<and> validDataset (sDataset s)
     \<and> sSnapName s \<noteq> [] \<and> CHR ''/'' \<notin> set (sSnapName s)"

lemma snapshotID_String_split: "snapshotID_String s =
  ''locals'' @ CHR ''/'' # ''v1'' @ CHR ''/'' # sNode s @ CHR ''/'' # (sDataset s @ CHR ''/'' # sSnapName s)"
  by (simp add: snapshotID_String_def snapshotIDPrefix_def)

lemma parseSnapshotID_String:
  assumes "sid_wf s"
  shows "parseSnapshotID (snapshotID_String s) = Inr s"
proof -
  have i: "LastIndexByte (sDataset s @ CHR ''/'' # sSnapName s) (CHR ''/'') = int (length (sDataset s))"
    using assms by (simp add: sid_wf_def LastIndexByte_last)
  have "sDataset s \<noteq> []" using assms by (auto simp: sid_wf_def validDataset_def)
  moreover have "nat (1 + int n) = Suc n" for n by simp
  ultimately show ?thesis
    unfolding parseSnapshotID_def snapshotID_String_split using assms i
    by (subst SplitN_4) (auto simp: sid_wf_def Let_def nat_add_distrib)
qed

lemma last_slash: "CHR ''/'' \<in> set r \<Longrightarrow> LastIndexByte r (CHR ''/'') = i \<Longrightarrow>
  r = take (nat i) r @ CHR ''/'' # drop (nat (i + 1)) r \<and> CHR ''/'' \<notin> set (drop (nat (i + 1)) r) \<and> 0 \<le> i"
proof -
  assume "CHR ''/'' \<in> set r" and i: "LastIndexByte r (CHR ''/'') = i"
  then obtain x y where r: "r = x @ CHR ''/'' # y" "CHR ''/'' \<notin> set y"
    using split_list_last by fastforce
  then have "i = int (length x)" using i by (simp add: LastIndexByte_last)
  moreover have "nat (int n + 1) = Suc n" for n by simp
  ultimately show ?thesis using r by simp
qed

lemma parseSnapshotID_wf:
  assumes "parseSnapshotID t = Inr s"
  shows "sid_wf s \<and> snapshotID_String s = t"
proof -
  obtain n r where sp: "SplitN (CHR ''/'') 4 t = [''locals'', ''v1'', n, r]" "n \<noteq> []" "r \<noteq> []"
    using assms by (auto simp: parseSnapshotID_def Let_def split: list.splits if_splits)
  let ?i = "LastIndexByte r (CHR ''/'')"
  have s: "s = \<lparr>sNode = n, sDataset = take (nat ?i) r, sSnapName = drop (nat (?i + 1)) r\<rparr>"
    and b: "0 < ?i" "?i \<noteq> int (length r) - 1" "validDataset (take (nat ?i) r)"
    using assms sp by (auto simp: parseSnapshotID_def Let_def split: if_splits)
  have "CHR ''/'' \<in> set r" using b by (auto simp: LastIndexByte_def split: if_splits)
  from last_slash [OF this refl] have l: "r = take (nat ?i) r @ CHR ''/'' # drop (nat (?i + 1)) r"
    "CHR ''/'' \<notin> set (drop (nat (?i + 1)) r)" by auto
  have "length r = length (take (nat ?i) r) + 1 + length (drop (nat (?i + 1)) r)"
    using arg_cong [OF l(1), of length] by simp
  then have "drop (nat (?i + 1)) r \<noteq> []" using b by auto
  then show ?thesis using s b l sp SplitN_4_inv [OF sp(1)]
    by (auto simp: sid_wf_def snapshotID_String_split)
qed

lemma parseSnapshotID_iff: "parseSnapshotID t = Inr s \<longleftrightarrow> sid_wf s \<and> t = snapshotID_String s"
  using parseSnapshotID_wf parseSnapshotID_String by auto

lemma parseSnapshotID_slash: "parseSnapshotID s = Inr e \<Longrightarrow> CHR ''/'' \<in> set (sDataset e)"
  using parseSnapshotID_wf validDataset_slash by (auto simp: sid_wf_def)

section \<open>Sanitized names\<close>

lemma safe_rune_small: "safe_rune r \<Longrightarrow> r < 128"
  by (auto simp: safe_rune_def)

lemma safe_char_of: "safe_rune r \<Longrightarrow> safe_char (char_of r)"
  using safe_rune_small [of r] by (simp add: safe_char_def of_char_of)

lemma sanitizeName_safe: "list_all safe_char (sanitizeName name)"
proof -
  have "list_all safe_char (map (\<lambda>p. if safe_rune (fst p) then char_of (fst p) else CHR ''-'') (runes name))"
    by (auto simp: list_all_iff safe_char_of) (simp add: safe_char_def safe_rune_def)
  then show ?thesis by (auto simp: sanitizeName_def Let_def list_all_iff dest: in_set_takeD)
qed

lemma sanitizeName_length: "length (sanitizeName name) \<le> 200"
  by (simp add: sanitizeName_def Let_def)

lemma safe_chars_ascii: "list_all safe_char s \<Longrightarrow> list_all ascii s"
  by (auto simp: list_all_iff safe_char_def ascii_def dest: safe_rune_small)

lemma sanitizeName_id: "list_all safe_char s \<Longrightarrow> length s \<le> 200 \<Longrightarrow> sanitizeName s = s"
proof -
  assume s: "list_all safe_char s" and l: "length s \<le> 200"
  have "map (\<lambda>c. if safe_char c then c else CHR ''-'') s = s"
    using s by (induction s) auto
  then show ?thesis using l
    by (simp add: sanitizeName_def runes_ascii [OF safe_chars_ascii [OF s]] o_def
        safe_char_def [symmetric] cong: if_cong)
qed

lemma sanitizeName_idem: "sanitizeName (sanitizeName n) = sanitizeName n"
  by (simp add: sanitizeName_id sanitizeName_safe sanitizeName_length)

lemma safe_char_not_sep: "safe_char c \<Longrightarrow> c \<noteq> CHR ''/'' \<and> c \<noteq> CHR ''@'' \<and> \<not> is_space c \<and> ascii c"
  by (auto simp: safe_char_def safe_rune_def is_space_def is_space_rune_def ascii_def)

lemma runes_nonempty: "s \<noteq> [] \<Longrightarrow> runes s \<noteq> []"
  by (cases s) (auto simp: Let_def)

lemma sanitizeName_nonempty: "n \<noteq> [] \<Longrightarrow> sanitizeName n \<noteq> []"
  by (simp add: sanitizeName_def Let_def runes_nonempty)

section \<open>Datasets below a parent\<close>

lemma Contains_sep: "sep \<notin> set p \<Longrightarrow> p \<noteq> [] \<Longrightarrow> Contains (a @ sep # b) p \<longleftrightarrow> Contains a p \<or> Contains b p"
proof (induction a)
  case Nil
  then show ?case by (cases p) (auto simp: HasPrefix_def)
next
  case (Cons c a)
  have "HasPrefix (c # a @ sep # b) p \<longleftrightarrow> HasPrefix (c # a) p"
  proof
    assume "HasPrefix (c # a @ sep # b) p"
    then have t: "take (length p) ((c # a) @ sep # b) = p" by (simp add: HasPrefix_def)
    have "length p \<le> length (c # a)"
    proof (rule ccontr)
      assume "\<not> length p \<le> length (c # a)"
      then obtain n where "length p = length (c # a) + Suc n"
        by (metis add_Suc_right less_imp_Suc_add not_le)
      then have "sep \<in> set (take (length p) ((c # a) @ sep # b))" by (simp only: take_append) simp
      with t Cons.prems show False by simp
    qed
    with t show "HasPrefix (c # a) p" unfolding HasPrefix_def by (simp only: take_append) simp
  next
    assume "HasPrefix (c # a) p"
    then show "HasPrefix (c # a @ sep # b) p"
      by (metis HasPrefix_iff append_Cons append_assoc)
  qed
  with Cons show ?case by simp
qed

lemma Contains_double: "Contains (a @ sep # b) [sep, sep] \<longleftrightarrow>
  Contains (a @ [sep]) [sep, sep] \<or> Contains (sep # b) [sep, sep]"
proof (induction a)
  case (Cons c a)
  then show ?case by (cases a) (auto simp: HasPrefix_def)
qed (auto simp: HasPrefix_def)

text \<open>The dataset of a volume: a valid parent with one more slash-free segment. It is valid
  exactly when the segment is non-empty and without two dots in a row.\<close>

lemma double_end: "\<not> HasSuffix a [sep] \<Longrightarrow> Contains (a @ [sep]) [sep, sep] \<longleftrightarrow> Contains a [sep, sep]"
proof (induction a)
  case (Cons c a)
  have "\<not> HasSuffix a [sep]" using Cons.prems by (auto simp: HasSuffix_iff)
  moreover have "HasPrefix (c # a @ [sep]) [sep, sep] \<longleftrightarrow> HasPrefix (c # a) [sep, sep]"
    using Cons.prems by (cases a) (auto simp: HasPrefix_def HasSuffix_iff)
  ultimately show ?case using Cons.IH by simp
qed (simp add: HasPrefix_def)

lemma validDataset_child:
  assumes "validDataset parent" "CHR ''/'' \<notin> set name"
  shows "validDataset (parent @ CHR ''/'' # name) \<longleftrightarrow> name \<noteq> [] \<and> \<not> Contains name ''..''"
proof -
  have p: "parent \<noteq> []" "\<not> HasPrefix parent ''/''" "\<not> HasSuffix parent ''/''"
    "\<not> Contains parent ''//''" "\<not> Contains parent ''..''"
    using assms(1) by (auto simp: validDataset_def split: if_splits)
  have "\<not> HasPrefix (parent @ CHR ''/'' # name) ''/''"
    using p(1,2) by (cases parent) (auto simp: HasPrefix_def)
  moreover have "HasSuffix (parent @ CHR ''/'' # name) ''/'' \<longleftrightarrow> name = []"
    using assms(2) by (cases name rule: rev_cases) (auto simp: HasSuffix_def HasPrefix_def)
  moreover have "Contains (CHR ''/'' # name) ''//'' \<longleftrightarrow> False"
    using assms(2) by (cases name) (auto simp: HasPrefix_def Contains_iff append_eq_Cons_conv Cons_eq_append_conv)
  then have "\<not> Contains (parent @ CHR ''/'' # name) ''//''"
    using p(3,4) double_end [of parent "CHR ''/''"] Contains_double [of parent "CHR ''/''" name] by blast
  moreover have "Contains (parent @ CHR ''/'' # name) ''..'' \<longleftrightarrow> Contains name ''..''"
    using p(5) by (simp add: Contains_sep)
  moreover have "Contains (parent @ CHR ''/'' # name) ''/''" by (simp add: Contains_char)
  ultimately show ?thesis by (auto simp: validDataset_def)
qed

end
