(* ===== verification/Zfs_Spec.thy ===== *)
theory Zfs_Spec
  imports Zfs Local_Params Local_Ids
begin

text \<open>
  What the driver relies on of the zfs and zpool commands, as the locale \<open>zfs_host\<close>: an
  abstract state of the pools (\<open>zstate\<close>) behind the world of a host, and for each argument vector
  that \<^verbatim>\<open>zfs.go\<close> issues the documented effect of the command on it. A command may always fail; a
  failed command leaves the state as it was, and exit status 1 of a listing means that the thing
  asked for does not exist. Nothing is assumed of a \<^verbatim>\<open>create\<close> over an existing dataset, of a
  \<^verbatim>\<open>destroy\<close> of a volume that still has snapshots, of a \<^verbatim>\<open>snapshot\<close> that exists already: these are
  the cases the callers must avoid. The lemmas of the locale are the contract of each operation
  of \<^verbatim>\<open>zfs.go\<close>, as a rule for its weakest precondition.
\<close>

section \<open>The abstract state\<close>

record zstate =
  vols :: "string \<rightharpoonup> int"              \<comment> \<open>zvol dataset to its volsize\<close>
  snaps :: "string set"                   \<comment> \<open>snapshots, as \<^verbatim>\<open>dataset@name\<close>\<close>
  uprops :: "string \<times> string \<rightharpoonup> string" \<comment> \<open>user properties\<close>
  health :: "string \<rightharpoonup> bool"            \<comment> \<open>imported pools, and whether they are ONLINE\<close>

definition present :: "zstate \<Rightarrow> string \<Rightarrow> bool" where
  "present s x \<longleftrightarrow> vols s x \<noteq> None \<or> x \<in> snaps s"

definition ds_of :: "string \<Rightarrow> string" where
  "ds_of snap = takeWhile (\<lambda>c. c \<noteq> CHR ''@'') snap"

definition within :: "string \<Rightarrow> string \<Rightarrow> bool" where
  "within target ds \<longleftrightarrow> ds = target \<or> HasPrefix ds (target @ ''/'')"

text \<open>A dataset name: components of the characters zfs allows, separated by slashes.\<close>

definition ds_name :: "string \<Rightarrow> bool" where
  "ds_name s \<longleftrightarrow> s \<noteq> [] \<and> list_all (\<lambda>c. safe_char c \<or> c = CHR ''/'') s"

definition snapshots_of :: "zstate \<Rightarrow> string \<Rightarrow> string set" where
  "snapshots_of s ds = {x \<in> snaps s. within ds (ds_of x)}"

lemma ds_of_snap [simp]: "CHR ''@'' \<notin> set ds \<Longrightarrow> ds_of (ds @ CHR ''@'' # n) = ds"
  by (simp add: ds_of_def)

lemma safe_word_char: "safe_char c \<Longrightarrow> word_char c"
  using safe_char_not_sep by (simp add: word_char_def)

lemma slash_word_char: "word_char (CHR ''/'')"
  by (simp add: word_char_def ascii_def is_space_def is_space_rune_def)

lemma ds_name_set: "ds_name s \<Longrightarrow> c \<in> set s \<Longrightarrow> safe_char c \<or> c = CHR ''/''"
  unfolding ds_name_def list_all_iff by blast

lemma ds_name_word:
  assumes "ds_name s"
  shows "word s"
proof -
  have "word_char c" if "c \<in> set s" for c
    using ds_name_set [OF assms that]
  proof
    assume "safe_char c" then show ?thesis by (rule safe_word_char)
  next
    assume "c = CHR ''/''" then show ?thesis by (simp only: slash_word_char)
  qed
  then show ?thesis using assms unfolding ds_name_def word_def list_all_iff by blast
qed

lemma ds_name_chars:
  assumes "ds_name s"
  shows "CHR ''@'' \<notin> set s \<and> CHR ''='' \<notin> set s \<and> CHR ''|'' \<notin> set s"
proof -
  have n: "\<not> (safe_char c \<or> c = CHR ''/'')" if "c \<in> {CHR ''@'', CHR ''='', CHR ''|''}" for c
    using that by (auto simp: safe_char_def safe_rune_def)
  show ?thesis
    using ds_name_set [OF assms] n by blast
qed

lemma within_refl [simp]: "within t t"
  by (simp add: within_def)

text \<open>A command that only reads: the state, the block sizes and the space figures stay.\<close>

definition same :: "('w \<Rightarrow> zstate) \<Rightarrow> ('w \<Rightarrow> string \<Rightarrow> int) \<Rightarrow> ('w \<Rightarrow> string \<Rightarrow> int) \<Rightarrow>
    ('w \<Rightarrow> string \<Rightarrow> int) \<Rightarrow> 'w \<Rightarrow> 'w \<Rightarrow> bool" where
  "same st blk avail psize w w' \<longleftrightarrow>
     st w' = st w \<and> blk w' = blk w \<and> avail w' = avail w \<and> psize w' = psize w"

section \<open>The commands\<close>

locale zfs_host =
  fixes h :: "'w host"
    and st :: "'w \<Rightarrow> zstate"
    and blk :: "'w \<Rightarrow> string \<Rightarrow> int"
    and avail :: "'w \<Rightarrow> string \<Rightarrow> int"
    and psize :: "'w \<Rightarrow> string \<Rightarrow> int"
    and wf :: "'w \<Rightarrow> bool"
  assumes sizes: "wf w \<Longrightarrow> vols (st w) ds = Some v \<Longrightarrow> 0 \<le> v \<and> in64 v"
    and snap_names: "wf w \<Longrightarrow> sn \<in> snaps (st w) \<Longrightarrow> CHR ''@'' \<in> set sn"
    and health_cmd: "wf w \<Longrightarrow> Run h (zpool [''list'', ''-H'', ''-o'', ''health'', pool]) w = (r, w') \<Longrightarrow>
      wf w' \<and> same st blk avail psize w w' \<and> (case r of
        Ok out \<Rightarrow> health (st w) pool = Some (TrimSpace (Stdout out) = ''ONLINE'')
      | Fail e \<Rightarrow> IsExit e 1 \<longrightarrow> health (st w) pool = None
      | Panic p \<Rightarrow> False)"
    and size_cmd: "wf w \<Longrightarrow> Run h (zpool [''get'', ''-Hp'', ''-o'', ''value'', ''size'', pool]) w = (r, w') \<Longrightarrow>
      wf w' \<and> same st blk avail psize w w' \<and> (case r of
        Ok out \<Rightarrow> Stdout out = FormatInt (psize w pool) @ [NL] \<and> 0 \<le> psize w pool \<and> in64 (psize w pool)
      | Fail e \<Rightarrow> True | Panic p \<Rightarrow> False)"
    and avail_cmd: "wf w \<Longrightarrow> Run h (zfs [''get'', ''-Hp'', ''-o'', ''value'', ''available'', pool]) w = (r, w') \<Longrightarrow>
      wf w' \<and> same st blk avail psize w w' \<and> (case r of
        Ok out \<Rightarrow> Stdout out = FormatInt (avail w pool) @ [NL] \<and> 0 \<le> avail w pool \<and> in64 (avail w pool)
      | Fail e \<Rightarrow> True | Panic p \<Rightarrow> False)"
    and list_cmd: "wf w \<Longrightarrow> CHR ''/'' \<in> set x \<Longrightarrow> Run h (zfs [''list'', ''-H'', ''-o'', ''name'', x]) w = (r, w') \<Longrightarrow>
      wf w' \<and> same st blk avail psize w w' \<and> (case r of
        Ok out \<Rightarrow> present (st w) x | Fail e \<Rightarrow> IsExit e 1 \<longrightarrow> \<not> present (st w) x | Panic p \<Rightarrow> False)"
    and volsize_cmd: "wf w \<Longrightarrow> Run h (zfs [''get'', ''-Hp'', ''-o'', ''value'', ''volsize'', ds]) w = (r, w') \<Longrightarrow>
      wf w' \<and> same st blk avail psize w w' \<and> (case r of
        Ok out \<Rightarrow> (\<exists>v. vols (st w) ds = Some v \<and> Stdout out = FormatInt v @ [NL])
      | Fail e \<Rightarrow> True | Panic p \<Rightarrow> False)"
    and blk_cmd: "wf w \<Longrightarrow> Run h (zfs [''get'', ''-Hp'', ''-o'', ''value'', ''volblocksize'', ds]) w = (r, w') \<Longrightarrow>
      wf w' \<and> same st blk avail psize w w' \<and> (case r of
        Ok out \<Rightarrow> Stdout out = FormatInt (blk w ds) @ [NL] \<and> 0 < blk w ds \<and> in64 (blk w ds)
      | Fail e \<Rightarrow> True | Panic p \<Rightarrow> False)"
    and creation_cmd: "wf w \<Longrightarrow> Run h (zfs [''get'', ''-Hp'', ''-o'', ''value'', ''creation'', x]) w = (r, w') \<Longrightarrow>
      wf w' \<and> same st blk avail psize w w' \<and> (case r of
        Ok out \<Rightarrow> (\<exists>c. Stdout out = FormatInt c @ [NL] \<and> in64 c) | Fail e \<Rightarrow> True | Panic p \<Rightarrow> False)"
    and create_cmd: "wf w \<Longrightarrow> ds_name ds \<Longrightarrow> vols (st w) ds = None \<Longrightarrow> 0 < sz \<Longrightarrow> in64 sz \<Longrightarrow>
      parseSizeBytes b = Inr k \<Longrightarrow> k dvd sz \<Longrightarrow>
      Run h (zfs [''create'', ''-p'', ''-V'', FormatInt sz, ''-b'', b, ds]) w = (r, w') \<Longrightarrow>
      wf w' \<and> (case r of
        Ok out \<Rightarrow> st w' = (st w)\<lparr>vols := (vols (st w))(ds \<mapsto> sz)\<rparr> | Fail e \<Rightarrow> st w' = st w | Panic p \<Rightarrow> False)"
    and setsize_cmd: "wf w \<Longrightarrow> vols (st w) ds = Some v \<Longrightarrow> 0 < sz \<Longrightarrow> in64 sz \<Longrightarrow>
      Run h (zfs [''set'', ''volsize='' @ FormatInt sz, ds]) w = (r, w') \<Longrightarrow>
      wf w' \<and> (case r of
        Ok out \<Rightarrow> (\<exists>u. st w' = (st w)\<lparr>vols := (vols (st w))(ds \<mapsto> u)\<rparr> \<and> sz \<le> u \<and> (blk w ds dvd sz \<longrightarrow> u = sz))
      | Fail e \<Rightarrow> st w' = st w | Panic p \<Rightarrow> False)"
    and snapshot_cmd: "wf w \<Longrightarrow> vols (st w) ds \<noteq> None \<Longrightarrow> word n \<Longrightarrow> CHR ''@'' \<notin> set ds \<Longrightarrow>
      ds @ ''@'' @ n \<notin> snaps (st w) \<Longrightarrow>
      Run h (zfs [''snapshot'', ds @ ''@'' @ n]) w = (r, w') \<Longrightarrow>
      wf w' \<and> (case r of
        Ok out \<Rightarrow> st w' = (st w)\<lparr>snaps := insert (ds @ ''@'' @ n) (snaps (st w))\<rparr>
      | Fail e \<Rightarrow> st w' = st w | Panic p \<Rightarrow> False)"
    and destroy_cmd: "wf w \<Longrightarrow> ds_name ds \<Longrightarrow> snapshots_of (st w) ds = {} \<Longrightarrow>
      Run h (zfs [''destroy'', ds]) w = (r, w') \<Longrightarrow>
      wf w' \<and> (case r of
        Ok out \<Rightarrow> vols (st w') = (vols (st w))(ds := None) \<and> snaps (st w') = snaps (st w)
          \<and> health (st w') = health (st w) \<and> (\<forall>d p. d \<noteq> ds \<longrightarrow> uprops (st w') (d, p) = uprops (st w) (d, p))
      | Fail e \<Rightarrow> st w' = st w | Panic p \<Rightarrow> False)"
    and destroysnap_cmd: "wf w \<Longrightarrow> CHR ''@'' \<in> set x \<Longrightarrow>
      Run h (zfs [''destroy'', x]) w = (r, w') \<Longrightarrow>
      wf w' \<and> (case r of
        Ok out \<Rightarrow> st w' = (st w)\<lparr>snaps := snaps (st w) - {x}\<rparr> | Fail e \<Rightarrow> st w' = st w | Panic p \<Rightarrow> False)"
    and setprop_cmd: "wf w \<Longrightarrow> CHR '':'' \<in> set p \<Longrightarrow> CHR ''='' \<notin> set p \<and> CHR ''|'' \<notin> set p \<Longrightarrow> word val \<Longrightarrow>
      \<not> HasPrefix (p @ ''='' @ val) ''volsize='' \<Longrightarrow> vols (st w) ds \<noteq> None \<Longrightarrow>
      Run h (zfs [''set'', p @ ''='' @ val, ds]) w = (r, w') \<Longrightarrow>
      wf w' \<and> (case r of
        Ok out \<Rightarrow> st w' = (st w)\<lparr>uprops := (uprops (st w))((ds, p) \<mapsto> val)\<rparr> | Fail e \<Rightarrow> st w' = st w
      | Panic q \<Rightarrow> False)"
    and getprop_cmd: "wf w \<Longrightarrow> CHR '':'' \<in> set p \<and> CHR ''|'' \<notin> set p \<Longrightarrow>
      Run h (zfs [''get'', ''-H'', ''-o'', ''value'', p, ds]) w = (r, w') \<Longrightarrow>
      wf w' \<and> same st blk avail psize w w' \<and> (case r of
        Ok out \<Rightarrow> Stdout out = (case uprops (st w) (ds, p) of None \<Rightarrow> ''-'' | Some u \<Rightarrow> u) @ [NL]
      | Fail e \<Rightarrow> True | Panic q \<Rightarrow> False)"
    and props_word: "wf w \<Longrightarrow> uprops (st w) dp = Some val \<Longrightarrow> word val"
    and pipe_cmd: "wf w \<Longrightarrow> ds @ ''@'' @ n \<in> snaps (st w) \<Longrightarrow> CHR ''@'' \<notin> set ds \<Longrightarrow> word n \<Longrightarrow>
      ds_name dest \<Longrightarrow> vols (st w) dest = None \<Longrightarrow>
      RunPipe h (zfs [''send'', ds @ ''@'' @ n]) (zfs [''recv'', dest]) w = (ru, w') \<Longrightarrow>
      wf w' \<and> (case ru of
        Ok u \<Rightarrow> (\<exists>v. st w' = (st w)\<lparr>vols := (vols (st w))(dest \<mapsto> v),
                          snaps := insert (dest @ ''@'' @ n) (snaps (st w))\<rparr>)
      | Fail e \<Rightarrow> st w' = st w | Panic p \<Rightarrow> False)"
    and listsnaps_cmd: "wf w \<Longrightarrow> CHR ''/'' \<in> set t \<Longrightarrow>
      Run h (zfs [''list'', ''-Hp'', ''-t'', ''snapshot'', ''-r'', ''-o'', ''name,volsize,creation'', t]) w = (r, w') \<Longrightarrow>
      wf w' \<and> same st blk avail psize w w' \<and> (case r of
        Ok out \<Rightarrow> (\<exists>es. Stdout out = rows (map (\<lambda>(n, v, c). [n, FormatInt v, FormatInt c]) es)
          \<and> list_all (\<lambda>(n, v, c). word n \<and> in64 v \<and> in64 c) es
          \<and> set (map fst es) = snapshots_of (st w) t)
      | Fail e \<Rightarrow> IsExit e 1 \<longrightarrow> snapshots_of (st w) t = {} | Panic p \<Rightarrow> False)"
    and listvols_cmd: "wf w \<Longrightarrow> CHR ''/'' \<in> set t \<Longrightarrow>
      Run h (zfs [''list'', ''-Hp'', ''-t'', ''volume'', ''-r'', ''-o'', ''name,volsize'', t]) w = (r, w') \<Longrightarrow>
      wf w' \<and> same st blk avail psize w w' \<and> (case r of
        Ok out \<Rightarrow> (\<exists>es. Stdout out = rows (map (\<lambda>(n, v). [n, FormatInt v]) es)
          \<and> list_all (\<lambda>(n, v). word n \<and> in64 v) es
          \<and> set es = {(n, v). vols (st w) n = Some v \<and> within t n})
      | Fail e \<Rightarrow> IsExit e 1 \<longrightarrow> {n \<in> dom (vols (st w)). within t n} = {} | Panic p \<Rightarrow> False)"
begin

text \<open>\<open>same\<close> for this host.\<close>

definition still :: "'w \<Rightarrow> 'w \<Rightarrow> bool" where
  "still w w' \<longleftrightarrow> wf w' \<and> same st blk avail psize w w'"

lemma stillD: "still w w' \<Longrightarrow> wf w' \<and> st w' = st w \<and> blk w' = blk w \<and> avail w' = avail w \<and> psize w' = psize w"
  by (simp add: still_def same_def)

lemmas reads = health_cmd size_cmd avail_cmd list_cmd volsize_cmd blk_cmd creation_cmd getprop_cmd
  listsnaps_cmd listvols_cmd

lemma PoolStatus_wp:
  assumes "wf w"
    and "\<And>w'. still w w' \<Longrightarrow>
      Q (Ok (case health (st w) pool of None \<Rightarrow> (False, False) | Some b \<Rightarrow> (True, b))) w'"
    and "\<And>e w'. still w w' \<Longrightarrow> Q (Fail e) w'"
  shows "wp (ZFS_PoolStatus h pool) Q w"
  unfolding ZFS_PoolStatus_def
proof (rule wpI)
  fix r w' assume "tryIO (Run h (zpool [''list'', ''-H'', ''-o'', ''health'', pool])) (\<lambda>r. case r of
       Inl e \<Rightarrow> (if IsExit e 1 then ret (False, False) else fail (WrapErr ''zpool list health %s'' e))
     | Inr out \<Rightarrow> ret (True, TrimSpace (Stdout out) = ''ONLINE'')) w = (r, w')"
  then show "Q r w'" using assms(2,3) [of w'] assms(3) health_cmd [OF assms(1), of pool]
    by (auto simp: tryIO_def still_def split: prod.splits res.splits if_splits)
qed

lemma Exists_wp:
  assumes "wf w" "CHR ''/'' \<in> set x"
    and "\<And>w'. still w w' \<Longrightarrow> Q (Ok (present (st w) x)) w'"
    and "\<And>e w'. still w w' \<Longrightarrow> Q (Fail e) w'"
  shows "wp (ZFS_Exists h x) Q w"
  unfolding ZFS_Exists_def
  by (rule wpI) (use assms list_cmd [OF assms(1,2)] in
    \<open>force simp: tryIO_def still_def split: prod.splits res.splits if_splits\<close>)

lemma get_int_wp:
  assumes "\<And>r w'. Run h (zfs [''get'', ''-Hp'', ''-o'', ''value'', prop, ds]) w = (r, w') \<Longrightarrow>
      still w w' \<and> (case r of Ok out \<Rightarrow> (\<exists>v. P v \<and> in64 v \<and> Stdout out = FormatInt v @ [NL])
        | Fail e \<Rightarrow> True | Panic p \<Rightarrow> False)"
    and "\<And>v w'. still w w' \<Longrightarrow> P v \<Longrightarrow> Q (Ok v) w'"
    and "\<And>e w'. still w w' \<Longrightarrow> Q (Fail e) w'"
  shows "wp (zfs_get_int h prop ds) Q w"
  unfolding zfs_get_int_def
  by (rule wpI) (use assms in
    \<open>force simp: bindIO_def wrapIO_def zfs_parseInt_FormatInt split: prod.splits res.splits\<close>)

lemma zpool_get_int_wp:
  assumes "\<And>r w'. Run h (zpool [''get'', ''-Hp'', ''-o'', ''value'', prop, ds]) w = (r, w') \<Longrightarrow>
      still w w' \<and> (case r of Ok out \<Rightarrow> (\<exists>v. P v \<and> in64 v \<and> Stdout out = FormatInt v @ [NL])
        | Fail e \<Rightarrow> True | Panic p \<Rightarrow> False)"
    and "\<And>v w'. still w w' \<Longrightarrow> P v \<Longrightarrow> Q (Ok v) w'"
    and "\<And>e w'. still w w' \<Longrightarrow> Q (Fail e) w'"
  shows "wp (zpool_get_int h prop ds) Q w"
  unfolding zpool_get_int_def
  by (rule wpI) (use assms in
    \<open>force simp: bindIO_def wrapIO_def zfs_parseInt_FormatInt split: prod.splits res.splits\<close>)

lemma GetVolsize_wp:
  assumes "wf w"
    and "\<And>v w'. still w w' \<Longrightarrow> vols (st w) ds = Some v \<Longrightarrow> 0 \<le> v \<Longrightarrow> in64 v \<Longrightarrow> Q (Ok v) w'"
    and "\<And>e w'. still w w' \<Longrightarrow> Q (Fail e) w'"
  shows "wp (ZFS_GetVolsize h ds) Q w"
  unfolding ZFS_GetVolsize_def
  by (rule get_int_wp [where P = "\<lambda>v. vols (st w) ds = Some v \<and> 0 \<le> v \<and> in64 v"])
    (use assms sizes [OF assms(1)] in \<open>auto simp: still_def split: res.splits dest!: volsize_cmd [OF assms(1)]\<close>)

lemma GetVolblocksize_wp:
  assumes "wf w"
    and "\<And>w'. still w w' \<Longrightarrow> 0 < blk w ds \<Longrightarrow> in64 (blk w ds) \<Longrightarrow> Q (Ok (blk w ds)) w'"
    and "\<And>e w'. still w w' \<Longrightarrow> Q (Fail e) w'"
  shows "wp (ZFS_GetVolblocksize h ds) Q w"
  unfolding ZFS_GetVolblocksize_def
  by (rule get_int_wp [where P = "\<lambda>v. v = blk w ds \<and> 0 < v \<and> in64 v"])
    (use assms in \<open>auto simp: still_def split: res.splits dest!: blk_cmd [OF assms(1)]\<close>)

lemma GetCreation_wp:
  assumes "wf w"
    and "\<And>c w'. still w w' \<Longrightarrow> Q (Ok c) w'"
    and "\<And>e w'. still w w' \<Longrightarrow> Q (Fail e) w'"
  shows "wp (ZFS_GetCreation h x) Q w"
  unfolding ZFS_GetCreation_def
  by (rule get_int_wp [where P = "\<lambda>v. in64 v"])
    (use assms in \<open>auto simp: still_def split: res.splits dest!: creation_cmd [OF assms(1)]\<close>)

lemma PoolAvailable_wp:
  assumes "wf w"
    and "\<And>w'. still w w' \<Longrightarrow> 0 \<le> avail w pool \<Longrightarrow> in64 (avail w pool) \<Longrightarrow> Q (Ok (avail w pool)) w'"
    and "\<And>e w'. still w w' \<Longrightarrow> Q (Fail e) w'"
  shows "wp (ZFS_PoolAvailable h pool) Q w"
  unfolding ZFS_PoolAvailable_def
  by (rule get_int_wp [where P = "\<lambda>v. v = avail w pool \<and> 0 \<le> v \<and> in64 v"])
    (use assms in \<open>auto simp: still_def split: res.splits dest!: avail_cmd [OF assms(1)]\<close>)

lemma PoolSize_wp:
  assumes "wf w"
    and "\<And>w'. still w w' \<Longrightarrow> 0 \<le> psize w pool \<Longrightarrow> in64 (psize w pool) \<Longrightarrow> Q (Ok (psize w pool)) w'"
    and "\<And>e w'. still w w' \<Longrightarrow> Q (Fail e) w'"
  shows "wp (ZFS_PoolSize h pool) Q w"
  unfolding ZFS_PoolSize_def
  by (rule zpool_get_int_wp [where P = "\<lambda>v. v = psize w pool \<and> 0 \<le> v \<and> in64 v"])
    (use assms in \<open>auto simp: still_def split: res.splits dest!: size_cmd [OF assms(1)]\<close>)

text \<open>The shape of an operation that runs one command for its effect.\<close>

lemma effect_wp:
  assumes "\<And>r w'. Run h c w = (r, w') \<Longrightarrow>
      wf w' \<and> (case r of Ok out \<Rightarrow> P (st w') | Fail e \<Rightarrow> st w' = st w | Panic p \<Rightarrow> False)"
    and "\<And>w'. wf w' \<Longrightarrow> P (st w') \<Longrightarrow> Q (Ok ()) w'"
    and "\<And>e w'. wf w' \<Longrightarrow> st w' = st w \<Longrightarrow> Q (Fail e) w'"
  shows "wp (bindIO (wrapIO g (Run h c)) (\<lambda>_. ret ())) Q w"
  by (rule wpI) (use assms in \<open>force simp: bindIO_def wrapIO_def split: prod.splits res.splits\<close>)

lemma CreateZvol_wp:
  assumes "wf w" "ds_name ds" "vols (st w) ds = None" "0 < sz" "in64 sz" "parseSizeBytes b = Inr k" "k dvd sz"
    and "\<And>w'. wf w' \<Longrightarrow> st w' = (st w)\<lparr>vols := (vols (st w))(ds \<mapsto> sz)\<rparr> \<Longrightarrow> Q (Ok ()) w'"
    and "\<And>e w'. wf w' \<Longrightarrow> st w' = st w \<Longrightarrow> Q (Fail e) w'"
  shows "wp (ZFS_CreateZvol h ds sz b) Q w"
proof -
  have "b \<noteq> []" using assms(6) by (auto simp: parseSizeBytes_def)
  then show ?thesis unfolding ZFS_CreateZvol_def Let_def
    using assms(8,9) create_cmd [OF assms(1-7)]
    by (auto intro!: effect_wp [where P = "\<lambda>s. s = (st w)\<lparr>vols := (vols (st w))(ds \<mapsto> sz)\<rparr>"])
qed

lemma SetVolsize_wp:
  assumes "wf w" "vols (st w) ds = Some v" "0 < sz" "in64 sz"
    and "\<And>u w'. wf w' \<Longrightarrow> st w' = (st w)\<lparr>vols := (vols (st w))(ds \<mapsto> u)\<rparr> \<Longrightarrow> sz \<le> u \<Longrightarrow>
      (blk w ds dvd sz \<Longrightarrow> u = sz) \<Longrightarrow> Q (Ok ()) w'"
    and "\<And>e w'. wf w' \<Longrightarrow> st w' = st w \<Longrightarrow> Q (Fail e) w'"
  shows "wp (ZFS_SetVolsize h ds sz) Q w"
  unfolding ZFS_SetVolsize_def Let_def using assms(5,6) setsize_cmd [OF assms(1-4)]
  by (intro effect_wp [where P = "\<lambda>s. \<exists>u. s = (st w)\<lparr>vols := (vols (st w))(ds \<mapsto> u)\<rparr> \<and> sz \<le> u \<and>
      (blk w ds dvd sz \<longrightarrow> u = sz)"]) auto

lemma Snapshot_wp:
  assumes "wf w" "vols (st w) ds \<noteq> None" "word nm" "CHR ''@'' \<notin> set ds" "ds @ ''@'' @ nm \<notin> snaps (st w)"
    and "\<And>w'. wf w' \<Longrightarrow> st w' = (st w)\<lparr>snaps := insert (ds @ ''@'' @ nm) (snaps (st w))\<rparr> \<Longrightarrow> Q (Ok ()) w'"
    and "\<And>e w'. wf w' \<Longrightarrow> st w' = st w \<Longrightarrow> Q (Fail e) w'"
  shows "wp (ZFS_Snapshot h ds nm) Q w"
  unfolding ZFS_Snapshot_def Let_def using assms(6,7) snapshot_cmd [OF assms(1-5)]
  by (intro effect_wp [where P = "\<lambda>s. s = (st w)\<lparr>snaps := insert (ds @ ''@'' @ nm) (snaps (st w))\<rparr>"])

lemma DestroyZvol_wp:
  assumes "wf w" "ds_name ds" "snapshots_of (st w) ds = {}"
    and "\<And>w'. wf w' \<Longrightarrow> vols (st w') = (vols (st w))(ds := None) \<Longrightarrow> snaps (st w') = snaps (st w) \<Longrightarrow>
      health (st w') = health (st w) \<Longrightarrow>
      (\<And>d p. d \<noteq> ds \<Longrightarrow> uprops (st w') (d, p) = uprops (st w) (d, p)) \<Longrightarrow> Q (Ok ()) w'"
    and "\<And>e w'. wf w' \<Longrightarrow> st w' = st w \<Longrightarrow> Q (Fail e) w'"
  shows "wp (ZFS_DestroyZvol h ds) Q w"
  unfolding ZFS_DestroyZvol_def using assms(4,5) destroy_cmd [OF assms(1-3)]
  by (intro effect_wp [where P = "\<lambda>s. vols s = (vols (st w))(ds := None) \<and> snaps s = snaps (st w)
      \<and> health s = health (st w) \<and> (\<forall>d p. d \<noteq> ds \<longrightarrow> uprops s (d, p) = uprops (st w) (d, p))"]) auto

lemma DestroySnapshot_wp:
  assumes "wf w"
    and "\<And>w'. wf w' \<Longrightarrow> st w' = (st w)\<lparr>snaps := snaps (st w) - {ds @ ''@'' @ nm}\<rparr> \<Longrightarrow> Q (Ok ()) w'"
    and "\<And>e w'. wf w' \<Longrightarrow> st w' = st w \<Longrightarrow> Q (Fail e) w'"
  shows "wp (ZFS_DestroySnapshot h ds nm) Q w"
  unfolding ZFS_DestroySnapshot_def Let_def using assms(2,3) destroysnap_cmd [OF assms(1), of "ds @ ''@'' @ nm"]
  by (intro effect_wp [where P = "\<lambda>s. s = (st w)\<lparr>snaps := snaps (st w) - {ds @ ''@'' @ nm}\<rparr>"]) auto

lemma SetUserProp_wp:
  assumes "wf w" "CHR '':'' \<in> set p" "CHR ''='' \<notin> set p \<and> CHR ''|'' \<notin> set p" "word val" "\<not> HasPrefix (p @ ''='' @ val) ''volsize=''"
    "vols (st w) ds \<noteq> None"
    and "\<And>w'. wf w' \<Longrightarrow> st w' = (st w)\<lparr>uprops := (uprops (st w))((ds, p) \<mapsto> val)\<rparr> \<Longrightarrow> Q (Ok ()) w'"
    and "\<And>e w'. wf w' \<Longrightarrow> st w' = st w \<Longrightarrow> Q (Fail e) w'"
  shows "wp (ZFS_SetUserProp h ds p val) Q w"
  unfolding ZFS_SetUserProp_def Let_def using assms(7,8) setprop_cmd [OF assms(1-6)]
  by (intro effect_wp [where P = "\<lambda>s. s = (st w)\<lparr>uprops := (uprops (st w))((ds, p) \<mapsto> val)\<rparr>"])

lemma GetUserProp_wp:
  assumes "wf w" "CHR '':'' \<in> set p \<and> CHR ''|'' \<notin> set p"
    and "\<And>w'. still w w' \<Longrightarrow>
      Q (Ok (case uprops (st w) (ds, p) of None \<Rightarrow> [] | Some v \<Rightarrow> if v = ''-'' then [] else v)) w'"
    and "\<And>e w'. still w w' \<Longrightarrow> Q (Fail e) w'"
  shows "wp (ZFS_GetUserProp h ds p) Q w"
proof -
  have d: "word ''-''" by (simp add: word_def word_char_def ascii_def is_space_def is_space_rune_def)
  have t: "TrimSpace ((case uprops (st w) (ds, p) of None \<Rightarrow> ''-'' | Some v \<Rightarrow> v) @ [NL])
      = (case uprops (st w) (ds, p) of None \<Rightarrow> ''-'' | Some v \<Rightarrow> v)"
    using props_word [OF assms(1), of "(ds, p)"] d
    by (auto simp: word_TrimSpace_NL split: option.splits)
  show ?thesis unfolding ZFS_GetUserProp_def
  proof (rule wpI, goal_cases)
    case (1 r w')
    then show ?case using assms(3,4) getprop_cmd [OF assms(1,2), of ds] t
      by (fastforce simp: bindIO_def wrapIO_def Let_def still_def
          split: prod.splits res.splits option.splits if_splits)
  qed
qed

lemma ListSnapshots_wp:
  assumes "wf w" "CHR ''/'' \<in> set t"
    and "\<And>es w'. still w w' \<Longrightarrow> set (map seName es) = snapshots_of (st w) t \<Longrightarrow> Q (Ok es) w'"
    and "\<And>e w'. still w w' \<Longrightarrow> Q (Fail e) w'"
  shows "wp (ZFS_ListSnapshots h t) Q w"
  unfolding ZFS_ListSnapshots_def
proof (rule wpI, goal_cases)
  case (1 r w')
  have n: "set (map seName (map (\<lambda>(n, v, c). \<lparr>seName = n, seVolsizeBytes = v, seCreationUnix = c\<rparr>) es))
      = set (map fst es)" for es :: "(string \<times> int \<times> int) list" by force
  obtain r0 w0 where run: "Run h (zfs [''list'', ''-Hp'', ''-t'', ''snapshot'', ''-r'', ''-o'',
      ''name,volsize,creation'', t]) w = (r0, w0)" by fastforce
  note law = listsnaps_cmd [OF assms(1,2) run]
  show ?case
  proof (cases r0)
    case (Ok out)
    with law obtain es where es: "Stdout out = rows (map (\<lambda>(n, v, c). [n, FormatInt v, FormatInt c]) es)"
      "list_all (\<lambda>(n, v, c). word n \<and> in64 v \<and> in64 c) es" "set (map fst es) = snapshots_of (st w) t"
      "still w w0" by (auto simp: still_def)
    let ?es = "map (\<lambda>(n, v, c). \<lparr>seName = n, seVolsizeBytes = v, seCreationUnix = c\<rparr>) es"
    have "Q (Ok ?es) w0" using es(3) n [of es] by (intro assms(3) es(4)) (simp only:)
    then show ?thesis using 1 run Ok es(1,2) by (simp add: tryIO_def listing_snapshots)
  qed (use 1 run law assms(3) [of w' "[]"] assms(4) in \<open>auto simp: tryIO_def still_def split: if_splits\<close>)
qed

lemma ListZvols_wp:
  assumes "wf w" "CHR ''/'' \<in> set t"
    and "\<And>vs w'. still w w' \<Longrightarrow>
      set (map (\<lambda>z. (zvName z, zvSizeByte z)) vs) = {(n, v). vols (st w) n = Some v \<and> within t n} \<Longrightarrow> Q (Ok vs) w'"
    and "\<And>e w'. still w w' \<Longrightarrow> Q (Fail e) w'"
  shows "wp (ZFS_ListZvols h t) Q w"
  unfolding ZFS_ListZvols_def
proof (rule wpI, goal_cases)
  case (1 r w')
  have n: "set (map (\<lambda>z. (zvName z, zvSizeByte z)) (map (\<lambda>(n, v). \<lparr>zvName = n, zvSizeByte = v\<rparr>) es)) = set es"
    for es :: "(string \<times> int) list" by force
  obtain r0 w0 where run: "Run h (zfs [''list'', ''-Hp'', ''-t'', ''volume'', ''-r'', ''-o'',
      ''name,volsize'', t]) w = (r0, w0)" by fastforce
  note law = listvols_cmd [OF assms(1,2) run]
  show ?case
  proof (cases r0)
    case (Ok out)
    with law obtain es where es: "Stdout out = rows (map (\<lambda>(n, v). [n, FormatInt v]) es)"
      "list_all (\<lambda>(n, v). word n \<and> in64 v) es" "set es = {(n, v). vols (st w) n = Some v \<and> within t n}"
      "still w w0" by (auto simp: still_def)
    let ?es = "map (\<lambda>(n, v). \<lparr>zvName = n, zvSizeByte = v\<rparr>) es"
    have "Q (Ok ?es) w0" using es(3) n [of es] by (intro assms(3) es(4)) (simp only:)
    then show ?thesis using 1 run Ok es(1,2) by (simp add: tryIO_def listing_zvols)
  next
    case (Fail e)
    then show ?thesis using 1 run law assms(3) [of w0 "[]"] assms(4) [of w0]
      by (auto simp: tryIO_def still_def split: if_splits)
  qed (use 1 run law in \<open>auto simp: tryIO_def\<close>)
qed

lemma CloneIndependent_wp:
  assumes "wf w" "ds @ ''@'' @ nm \<in> snaps (st w)" "CHR ''@'' \<notin> set ds" "word nm"
    "ds_name dest" "vols (st w) dest = None"
    and "\<And>v w'. wf w' \<Longrightarrow> st w' = (st w)\<lparr>vols := (vols (st w))(dest \<mapsto> v),
        snaps := snaps (st w) - {dest @ ''@'' @ nm}\<rparr> \<Longrightarrow> Q (Ok ()) w'"
    and "\<And>e w'. wf w' \<Longrightarrow> st w' = st w \<Longrightarrow> Q (Fail e) w'"
    and "\<And>e v w'. wf w' \<Longrightarrow> st w' = (st w)\<lparr>vols := (vols (st w))(dest \<mapsto> v),
        snaps := insert (dest @ ''@'' @ nm) (snaps (st w))\<rparr> \<Longrightarrow> Q (Fail e) w'"
  shows "wp (ZFS_CloneIndependent h ds nm dest) Q w"
  unfolding ZFS_CloneIndependent_def Let_def wp_simps
proof (rule wpI, goal_cases)
  case (1 r w')
  note law = pipe_cmd [OF assms(1-6) 1]
  show ?case
  proof (cases r)
    case (Ok u)
    with law obtain v where v: "wf w'" "st w' = (st w)\<lparr>vols := (vols (st w))(dest \<mapsto> v),
        snaps := insert (dest @ ''@'' @ nm) (snaps (st w))\<rparr>" by auto
    show ?thesis unfolding Ok
      by (auto simp: wp_simps intro!: DestroySnapshot_wp v(1) assms(7) [of _ v] assms(9) [of _ v] simp: v(2))
  qed (use law assms(8) in auto)
qed

end

end
