(* ===== verification/Zfs_Sim.thy ===== *)
theory Zfs_Sim
  imports Zfs_Spec "HOL-Library.AList"
begin

text \<open>
  The repository's own in-memory simulator of zfs (\<^verbatim>\<open>memZfs\<close> of
  internal/driver/local/zfssim_test.go), and the interpretation of \<open>zfs_host\<close> on it: the
  assumptions made of the commands hold of the simulator the driver is tested with. The Go maps
  are association lists; the injected failures (\<^verbatim>\<open>failOps\<close>) are a parameter and may name any
  subcommand but \<^verbatim>\<open>list\<close>.
\<close>

record memZfs =
  mVols :: "(string \<times> int) list"
  mSnaps :: "string list"
  mProps :: "(string \<times> string) list"
  mFree :: int
  mSize :: int
  mBlocksize :: int
  mAbsent :: "string list"

definition simCreationUnix :: int where "simCreationUnix = 1700000000"

definition newMemZfs :: memZfs where
  "newMemZfs = \<lparr>mVols = [], mSnaps = [], mProps = [], mFree = 4398046511104, mSize = 8796093022208,
     mBlocksize = 16384, mAbsent = []\<rparr>"

definition exit1 :: err where
  "exit1 = ExecErr [] [] 1 [] None"

definition mem_out :: "string \<Rightarrow> (memZfs, cmd_output) io" where
  "mem_out s = ret (stdout_only s)"

definition vol_size :: "memZfs \<Rightarrow> string \<Rightarrow> int" where
  "vol_size m ds = (case map_of (mVols m) ds of Some v \<Rightarrow> v | None \<Rightarrow> 0)"

definition mem_list :: "string list \<Rightarrow> (memZfs, cmd_output) io" where
  "mem_list args = (\<lambda>m. let target = last args in
     if ''volume'' \<in> set args
     then mem_out (rows (map (\<lambda>(n, v). [n, FormatInt v]) (filter (\<lambda>(n, v). within target n) (mVols m)))) m
     else if ''snapshot'' \<in> set args
     then mem_out (rows (map (\<lambda>(n, v, c). [n, FormatInt v, FormatInt c])
       (map (\<lambda>full. (full, vol_size m (fst (Cut (CHR ''@'') full)), simCreationUnix))
         (filter (\<lambda>full. within target (fst (Cut (CHR ''@'') full))) (mSnaps m))))) m
     else if map_of (mVols m) target \<noteq> None then mem_out target m
     else if target \<in> set (mSnaps m) then mem_out target m
     else fail exit1 m)"

fun v_arg :: "int \<Rightarrow> string list \<Rightarrow> int" where
  "v_arg acc (a # b # r) = v_arg (if a = ''-V'' then fst (ParseInt b) else acc) (b # r)"
| "v_arg acc _ = acc"

definition mem_avail :: "memZfs \<Rightarrow> int" where
  "mem_avail m = (let a = foldl sub64 (mSize m) (map snd (mVols m)) in if a < 0 then 0 else a)"

definition mem_get :: "string list \<Rightarrow> (memZfs, cmd_output) io" where
  "mem_get args = (\<lambda>m. let prop = args ! (length args - 2); ds = last args in
     if prop = ''creation'' then mem_out (FormatInt simCreationUnix @ [NL]) m
     else if prop = ''available'' then mem_out (FormatInt (mem_avail m) @ [NL]) m
     else if prop = ''volblocksize'' then mem_out (FormatInt (mBlocksize m) @ [NL]) m
     else if Contains prop '':'' then
       mem_out ((case map_of (mProps m) (ds @ ''|'' @ prop) of None \<Rightarrow> ''-'' | Some v \<Rightarrow> v) @ [NL]) m
     else case map_of (mVols m) ds of
       None \<Rightarrow> fail exit1 m
     | Some v \<Rightarrow> mem_out (FormatInt v @ [NL]) m)"

text \<open>One argument of \<^verbatim>\<open>zfs set\<close>.\<close>

definition mem_set_arg :: "string \<Rightarrow> memZfs \<Rightarrow> string \<Rightarrow> memZfs" where
  "mem_set_arg ds m a =
     (if HasPrefix a ''volsize='' then
        m\<lparr>mVols := AList.update ds (fst (ParseInt (TrimPrefix a ''volsize=''))) (mVols m)\<rparr>
      else if Contains a '':'' \<and> Contains a ''='' then
        (let kv = SplitN (CHR ''='') 2 a in m\<lparr>mProps := AList.update (ds @ ''|'' @ kv ! 0) (kv ! 1) (mProps m)\<rparr>)
      else m)"

definition mem_zfs :: "string list \<Rightarrow> (memZfs, cmd_output) io" where
  "mem_zfs args = (\<lambda>m. case args of [] \<Rightarrow> panic ''index out of range'' m
   | op # _ \<Rightarrow>
     (if op = ''list'' then mem_list args m
      else if op = ''create'' then
        mem_out [] (m\<lparr>mVols := AList.update (last args) (v_arg 0 args) (mVols m)\<rparr>)
      else if op = ''destroy'' then
        (let ds = last args in
         if Contains ds ''@'' then
           (if ds \<notin> set (mSnaps m) then fail exit1 m
            else mem_out [] (m\<lparr>mSnaps := filter (\<lambda>x. x \<noteq> ds) (mSnaps m)\<rparr>))
         else if map_of (mVols m) ds = None then fail exit1 m
         else mem_out [] (m\<lparr>mVols := AList.delete ds (mVols m)\<rparr>))
      else if op = ''get'' then mem_get args m
      else if op = ''set'' then mem_out [] (foldl (mem_set_arg (last args)) m args)
      else if op = ''snapshot'' then mem_out [] (m\<lparr>mSnaps := List.insert (last args) (mSnaps m)\<rparr>)
      else mem_out [] m))"

definition mem_zpool :: "string list \<Rightarrow> (memZfs, cmd_output) io" where
  "mem_zpool args = (\<lambda>m. case args of [] \<Rightarrow> panic ''index out of range'' m
   | op # _ \<Rightarrow>
     (if op = ''get'' then
        mem_out (FormatInt (if args ! (length args - 2) = ''size'' then mSize m else mFree m) @ [NL]) m
      else if op = ''list'' then
        (if last args \<in> set (mAbsent m) then fail exit1 m else mem_out (''ONLINE'' @ [NL]) m)
      else mem_out [] m))"

definition mem_Run :: "string set \<Rightarrow> command \<Rightarrow> (memZfs, cmd_output) io" where
  "mem_Run failOps c = (\<lambda>m.
     if Name c = ''zfs'' then
       (if Args c \<noteq> [] \<and> hd (Args c) \<in> failOps then fail exit1 m else mem_zfs (Args c) m)
     else if Name c = ''zpool'' then mem_zpool (Args c) m
     else mem_out [] m)"

definition mem_RunPipe :: "string set \<Rightarrow> command \<Rightarrow> command \<Rightarrow> (memZfs, unit) io" where
  "mem_RunPipe failOps producer consumer = (\<lambda>m.
     if Args producer \<noteq> [] \<and> hd (Args producer) \<in> failOps then fail exit1 m
     else if Args consumer \<noteq> [] \<and> hd (Args consumer) \<in> failOps then fail exit1 m
     else let src = last (Args producer); dest = last (Args consumer); parts = SplitN (CHR ''@'') 2 src;
              m1 = m\<lparr>mVols := AList.update dest (vol_size m (parts ! 0)) (mVols m)\<rparr>
          in ret () (if length parts = 2 then m1\<lparr>mSnaps := List.insert (dest @ ''@'' @ parts ! 1) (mSnaps m1)\<rparr> else m1))"

text \<open>The host the simulator stands for; only its commands are simulated.\<close>

definition memHost :: "string set \<Rightarrow> memZfs host" where
  "memHost failOps = \<lparr>Run = mem_Run failOps, RunPipe = mem_RunPipe failOps, MkdirAll = (\<lambda>_. ret ()),
     StatPath = (\<lambda>_. ret ()), CreateFile = (\<lambda>_. ret ()), EvalSymlinks = ret, ReadDir = (\<lambda>_. ret []),
     Statfs = (\<lambda>_. ret [])\<rparr>"

section \<open>The abstraction\<close>

definition mem_st :: "memZfs \<Rightarrow> zstate" where
  "mem_st m = \<lparr>vols = map_of (mVols m), snaps = set (mSnaps m),
     uprops = (\<lambda>dp. if CHR ''|'' \<in> set (snd dp) then None else map_of (mProps m) (fst dp @ ''|'' @ snd dp)),
     health = (\<lambda>p. if p \<in> set (mAbsent m) then None else Some True)\<rparr>"

definition mem_blk :: "memZfs \<Rightarrow> string \<Rightarrow> int" where "mem_blk m ds = mBlocksize m"

definition mem_av :: "memZfs \<Rightarrow> string \<Rightarrow> int" where "mem_av m p = mem_avail m"

definition mem_ps :: "memZfs \<Rightarrow> string \<Rightarrow> int" where "mem_ps m p = mSize m"

definition mem_wf :: "memZfs \<Rightarrow> bool" where
  "mem_wf m \<longleftrightarrow> distinct (map fst (mVols m)) \<and> (\<forall>(n, v) \<in> set (mVols m). ds_name n \<and> 0 \<le> v \<and> in64 v)
     \<and> (\<forall>x \<in> set (mSnaps m). word x \<and> CHR ''@'' \<in> set x) \<and> (\<forall>(k, v) \<in> set (mProps m). word v)
     \<and> 0 \<le> mSize m \<and> in64 (mSize m) \<and> 0 < mBlocksize m \<and> in64 (mBlocksize m)"

lemma newMemZfs_wf: "mem_wf newMemZfs"
  by (simp add: mem_wf_def newMemZfs_def in64_def MinInt64_def MaxInt64_def)

lemma mem_vol: "mem_wf m \<Longrightarrow> map_of (mVols m) ds = Some v \<Longrightarrow> ds_name ds \<and> 0 \<le> v \<and> in64 v"
  unfolding mem_wf_def by (blast dest: map_of_SomeD)

lemma vol_size_in64: "mem_wf m \<Longrightarrow> 0 \<le> vol_size m ds \<and> in64 (vol_size m ds)"
  by (auto simp: vol_size_def in64_def MinInt64_def MaxInt64_def dest: mem_vol split: option.splits)

lemma in_update: "x \<in> set (AList.update k v xs) \<Longrightarrow> x = (k, v) \<or> x \<in> set xs"
  by (induction xs) (auto split: if_splits)

text \<open>Well-formedness through the three kinds of change.\<close>

lemma wf_update_vol:
  "mem_wf m \<Longrightarrow> ds_name ds \<Longrightarrow> 0 \<le> v \<Longrightarrow> in64 v \<Longrightarrow> mem_wf (m\<lparr>mVols := AList.update ds v (mVols m)\<rparr>)"
  unfolding mem_wf_def by (auto dest!: in_update intro: distinct_update)

lemma wf_delete_vol: "mem_wf m \<Longrightarrow> mem_wf (m\<lparr>mVols := AList.delete ds (mVols m)\<rparr>)"
  unfolding mem_wf_def by (auto simp: AList.delete_eq distinct_map_filter case_prod_unfold)

lemma wf_update_prop: "mem_wf m \<Longrightarrow> word v \<Longrightarrow> mem_wf (m\<lparr>mProps := AList.update k v (mProps m)\<rparr>)"
  unfolding mem_wf_def by (auto dest!: in_update)

lemma wf_insert_snap:
  "mem_wf m \<Longrightarrow> word x \<Longrightarrow> CHR ''@'' \<in> set x \<Longrightarrow> mem_wf (m\<lparr>mSnaps := List.insert x (mSnaps m)\<rparr>)"
  unfolding mem_wf_def by auto

lemma wf_filter_snap: "mem_wf m \<Longrightarrow> mem_wf (m\<lparr>mSnaps := filter P (mSnaps m)\<rparr>)"
  unfolding mem_wf_def by auto

lemma mem_avail_bounds: "mem_wf m \<Longrightarrow> 0 \<le> mem_avail m \<and> in64 (mem_avail m)"
proof -
  assume "mem_wf m"
  then have "in64 (mSize m)" by (simp add: mem_wf_def)
  then have "in64 (foldl sub64 (mSize m) vs)" for vs
    by (induction vs rule: rev_induct) (simp_all add: sub64_def)
  from this [of "map snd (mVols m)"] show ?thesis
    by (auto simp: mem_avail_def Let_def in64_def MinInt64_def MaxInt64_def)
qed

lemma word_snap: "ds_name ds \<or> word ds \<Longrightarrow> word n \<Longrightarrow> word (ds @ ''@'' @ n)"
  using ds_name_word [of ds]
  by (auto simp: word_def word_char_def ascii_def is_space_def is_space_rune_def)

section \<open>The commands of the simulator\<close>

lemmas mem_defs = memHost_def mem_Run_def mem_zfs_def mem_zpool_def mem_out_def zfs_def zpool_def
  stdout_only_def ret_def fail_def

lemmas mem_reads = same_def mem_st_def mem_blk_def mem_av_def mem_ps_def

lemma IsExit_exit1: "IsExit exit1 1"
  by (simp add: exit1_def)

lemma mem_Run_zfs: "Run (memHost F) (zfs (opn # args)) m =
    (if opn \<in> F then (Fail exit1, m) else mem_zfs (opn # args) m)"
  by (simp add: memHost_def mem_Run_def zfs_def cmd_def fail_def)

lemma mem_Run_zpool: "Run (memHost F) (zpool args) m = mem_zpool args m"
  by (simp add: memHost_def mem_Run_def zpool_def cmd_def)

lemmas mem_zfs_simps = mem_Run_zfs mem_Run_zpool mem_zfs_def mem_zpool_def mem_out_def stdout_only_def
  ret_def fail_def

lemma mem_get_law:
  assumes "Run (memHost F) (zfs [''get'', fl, ''-o'', ''value'', p, ds]) m = (r, m')"
  shows "m' = m" "r = Fail exit1 \<or> r = fst (mem_get [''get'', fl, ''-o'', ''value'', p, ds] m)"
  using assms by (auto simp: mem_zfs_simps mem_get_def Let_def split: if_splits option.splits)

lemmas mem_gets = mem_get_def mem_out_def stdout_only_def ret_def fail_def Contains_char

lemma mem_st_update:
  "mem_st (m\<lparr>mVols := AList.update k v (mVols m)\<rparr>) = (mem_st m)\<lparr>vols := (vols (mem_st m))(k \<mapsto> v)\<rparr>"
  "mem_st (m\<lparr>mSnaps := List.insert x (mSnaps m)\<rparr>) = (mem_st m)\<lparr>snaps := insert x (snaps (mem_st m))\<rparr>"
  "mem_st (m\<lparr>mSnaps := filter (\<lambda>y. y \<noteq> x) (mSnaps m)\<rparr>) = (mem_st m)\<lparr>snaps := snaps (mem_st m) - {x}\<rparr>"
  "mem_st (m\<lparr>mVols := AList.delete k (mVols m)\<rparr>) = (mem_st m)\<lparr>vols := (vols (mem_st m))(k := None)\<rparr>"
  by (auto simp: mem_st_def update_conv' delete_conv')

lemma mem_same [simp]: "same mem_st mem_blk mem_av mem_ps m m"
  by (simp add: same_def)

lemma mem_list_cmd:
  assumes "''list'' \<notin> F" "CHR ''/'' \<in> set x" "Run (memHost F) (zfs [''list'', ''-H'', ''-o'', ''name'', x]) m = (r, m')"
  shows "m' = m \<and> (case r of Ok out \<Rightarrow> present (mem_st m) x
    | Fail e \<Rightarrow> IsExit e 1 \<longrightarrow> \<not> present (mem_st m) x | Panic p \<Rightarrow> False)"
proof -
  have "x \<noteq> ''volume''" "x \<noteq> ''snapshot''" using assms(2) by auto
  then show ?thesis using assms(1,3)
    by (auto simp: mem_zfs_simps mem_list_def Let_def present_def mem_st_def split: if_splits)
qed

lemma mem_create_cmd:
  assumes "mem_wf m" "ds_name ds" "0 < sz" "in64 sz"
    and "Run (memHost F) (zfs [''create'', ''-p'', ''-V'', FormatInt sz, ''-b'', b, ds]) m = (r, m')"
    and "parseSizeBytes b = Inr k"
  shows "mem_wf m' \<and> (case r of Ok out \<Rightarrow> mem_st m' = (mem_st m)\<lparr>vols := (vols (mem_st m))(ds \<mapsto> sz)\<rparr>
    | Fail e \<Rightarrow> mem_st m' = mem_st m | Panic p \<Rightarrow> False)"
proof -
  have "word ''-V''" by (simp add: word_def word_char_def ascii_def is_space_def is_space_rune_def)
  then have "parseSizeBytes ''-V'' = Inl errInvalidSize"
    by (simp add: parseSizeBytes_def word_TrimSpace size_mult_def ParseInt_def parse_magnitude_def is_digit_def)
  then have b: "b \<noteq> ''-V''" using assms(6) by auto
  have n: "FormatInt sz \<noteq> ''-V''" "FormatInt sz \<noteq> [CHR ''-'', CHR ''b'']"
    using ParseInt_FormatInt [OF assms(4)] assms(3)
    by (auto simp: ParseInt_def parse_magnitude_def is_digit_def)
  have v: "v_arg 0 [''create'', ''-p'', ''-V'', FormatInt sz, ''-b'', b, ds] = sz"
    using b n by (simp add: ParseInt_FormatInt assms(4))
  show ?thesis
    using assms(1-5) wf_update_vol [OF assms(1,2), of sz]
    by (auto simp: mem_zfs_simps v simp del: v_arg.simps simp: mem_st_update split: if_splits)
qed

lemma mem_setsize_cmd:
  assumes "mem_wf m" "vols (mem_st m) ds = Some v" "0 < sz" "in64 sz"
    and "Run (memHost F) (zfs [''set'', ''volsize='' @ FormatInt sz, ds]) m = (r, m')"
  shows "mem_wf m' \<and> (case r of Ok out \<Rightarrow> mem_st m' = (mem_st m)\<lparr>vols := (vols (mem_st m))(ds \<mapsto> sz)\<rparr>
    | Fail e \<Rightarrow> mem_st m' = mem_st m | Panic p \<Rightarrow> False)"
proof -
  have ds: "ds_name ds" using assms(1,2) by (simp add: mem_st_def mem_vol)
  then have no: "\<not> Contains ds ''=''" using ds_name_chars [OF ds] by (simp add: Contains_char)
  then have np: "\<not> HasPrefix ds ''volsize=''" by (auto simp: HasPrefix_iff Contains_char)
  have s: "foldl (mem_set_arg ds) m [''set'', ''volsize='' @ FormatInt sz, ds]
      = m\<lparr>mVols := AList.update ds sz (mVols m)\<rparr>"
    using no np by (simp add: mem_set_arg_def ParseInt_FormatInt assms(4) HasPrefix_def TrimPrefix_def)
  show ?thesis
    using assms(1,3-5) ds wf_update_vol [OF assms(1) ds, of sz]
    by (auto simp: mem_zfs_simps s [simplified] mem_st_update split: if_splits)
qed


lemma mem_snapshot_cmd:
  assumes "mem_wf m" "vols (mem_st m) ds \<noteq> None" "word n"
    and "Run (memHost F) (zfs [''snapshot'', ds @ ''@'' @ n]) m = (r, m')"
  shows "mem_wf m' \<and> (case r of
    Ok out \<Rightarrow> mem_st m' = (mem_st m)\<lparr>snaps := insert (ds @ ''@'' @ n) (snaps (mem_st m))\<rparr>
  | Fail e \<Rightarrow> mem_st m' = mem_st m | Panic p \<Rightarrow> False)"
proof -
  have "word (ds @ ''@'' @ n)"
    using assms(1-3) mem_vol [of m ds] by (intro word_snap) (auto simp: mem_st_def)
  then show ?thesis
    using assms(1,4) wf_insert_snap [OF assms(1), of "ds @ ''@'' @ n"]
      mem_st_update(2) [of "ds @ ''@'' @ n" m]
    by (auto simp: mem_zfs_simps split: if_splits)
qed

lemma mem_destroy_cmd:
  assumes "mem_wf m" "ds_name ds" "Run (memHost F) (zfs [''destroy'', ds]) m = (r, m')"
  shows "mem_wf m' \<and> (case r of Ok out \<Rightarrow> mem_st m' = (mem_st m)\<lparr>vols := (vols (mem_st m))(ds := None)\<rparr>
    | Fail e \<Rightarrow> mem_st m' = mem_st m | Panic p \<Rightarrow> False)"
  using assms ds_name_chars [OF assms(2)]
  by (auto simp: mem_zfs_simps Let_def Contains_char mem_st_update wf_delete_vol split: if_splits)

lemma mem_destroysnap_cmd:
  assumes "mem_wf m" "CHR ''@'' \<in> set x" "Run (memHost F) (zfs [''destroy'', x]) m = (r, m')"
  shows "mem_wf m' \<and> (case r of Ok out \<Rightarrow> mem_st m' = (mem_st m)\<lparr>snaps := snaps (mem_st m) - {x}\<rparr>
    | Fail e \<Rightarrow> mem_st m' = mem_st m | Panic p \<Rightarrow> False)"
  using assms
  by (auto simp: mem_zfs_simps Let_def Contains_char mem_st_update wf_filter_snap split: if_splits)

lemma last_sep: "c \<notin> set p \<Longrightarrow> c \<notin> set q \<Longrightarrow> a @ c # p = b @ c # q \<longleftrightarrow> a = b \<and> p = q"
  by (auto simp: append_eq_append_conv2 append_eq_Cons_conv Cons_eq_append_conv)

lemma mem_setprop_cmd:
  assumes "mem_wf m" "CHR '':'' \<in> set p" "CHR ''='' \<notin> set p \<and> CHR ''|'' \<notin> set p" "word val"
    and "\<not> HasPrefix (p @ ''='' @ val) ''volsize=''" "vols (mem_st m) ds \<noteq> None"
    and "Run (memHost F) (zfs [''set'', p @ ''='' @ val, ds]) m = (r, m')"
  shows "mem_wf m' \<and> (case r of
    Ok out \<Rightarrow> mem_st m' = (mem_st m)\<lparr>uprops := (uprops (mem_st m))((ds, p) \<mapsto> val)\<rparr>
  | Fail e \<Rightarrow> mem_st m' = mem_st m | Panic q \<Rightarrow> False)"
proof -
  have ds: "ds_name ds" using assms(1,6) by (auto simp: mem_st_def mem_vol)
  then have no: "\<not> Contains ds ''=''" using ds_name_chars [OF ds] by (simp add: Contains_char)
  then have np: "\<not> HasPrefix ds ''volsize=''" by (auto simp: HasPrefix_iff Contains_char)
  have sp: "SplitN (CHR ''='') 2 (p @ ''='' @ val) = [p, val]"
    using assms(3) by (simp add: SplitN_sep numeral_2_eq_2)
  have s: "foldl (mem_set_arg ds) m [''set'', p @ ''='' @ val, ds]
      = m\<lparr>mProps := AList.update (ds @ ''|'' @ p) val (mProps m)\<rparr>"
    using no np assms(2,5) sp by (simp add: mem_set_arg_def HasPrefix_def Contains_char)
  have u: "mem_st (m\<lparr>mProps := AList.update (ds @ ''|'' @ p) val (mProps m)\<rparr>)
      = (mem_st m)\<lparr>uprops := (uprops (mem_st m))((ds, p) \<mapsto> val)\<rparr>"
    using assms(3) by (auto simp: mem_st_def update_conv' fun_eq_iff last_sep)
  show ?thesis
    using assms(1,7) wf_update_prop [OF assms(1,4), of "ds @ ''|'' @ p"] u
    by (auto simp: mem_zfs_simps s [simplified] split: if_splits)
qed


lemma mem_pipe_cmd:
  assumes "mem_wf m" "CHR ''@'' \<notin> set ds" "word n" "ds_name dest"
    and "RunPipe (memHost F) (zfs [''send'', ds @ ''@'' @ n]) (zfs [''recv'', dest]) m = (r, m')"
  shows "mem_wf m' \<and> (case r of
    Ok u \<Rightarrow> (\<exists>v. mem_st m' = (mem_st m)\<lparr>vols := (vols (mem_st m))(dest \<mapsto> v),
                       snaps := insert (dest @ ''@'' @ n) (snaps (mem_st m))\<rparr>)
  | Fail e \<Rightarrow> mem_st m' = mem_st m | Panic p \<Rightarrow> False)"
proof -
  let ?m = "m\<lparr>mVols := AList.update dest (vol_size m ds) (mVols m)\<rparr>"
  let ?m' = "?m\<lparr>mSnaps := List.insert (dest @ ''@'' @ n) (mSnaps ?m)\<rparr>"
  have sp: "SplitN (CHR ''@'') 2 (ds @ ''@'' @ n) = [ds, n]"
    using assms(2) by (simp add: SplitN_sep numeral_2_eq_2)
  have "word (dest @ ''@'' @ n)" using assms(3,4) by (intro word_snap) auto
  then have wf: "mem_wf ?m'"
    by (intro wf_insert_snap wf_update_vol assms) (use vol_size_in64 [OF assms(1)] in auto)
  have st: "mem_st ?m' = (mem_st m)\<lparr>vols := (vols (mem_st m))(dest \<mapsto> vol_size m ds),
      snaps := insert (dest @ ''@'' @ n) (snaps (mem_st m))\<rparr>"
    unfolding mem_st_update by simp
  have run: "RunPipe (memHost F) (zfs [''send'', ds @ ''@'' @ n]) (zfs [''recv'', dest]) m =
      (if ''send'' \<in> F \<or> ''recv'' \<in> F then (Fail exit1, m) else (Ok (), ?m'))"
    using sp by (simp add: memHost_def mem_RunPipe_def zfs_def cmd_def fail_def ret_def)
  show ?thesis using assms(1,5) wf st unfolding run by (auto split: if_splits)
qed

lemma ds_of_Cut: "fst (Cut (CHR ''@'') x) = ds_of x"
  by (auto simp: Cut_def ds_of_def intro!: takeWhile_eq_all_conv [THEN iffD2, symmetric])

lemma mem_listsnaps_cmd:
  assumes "mem_wf m" "''list'' \<notin> F" "CHR ''/'' \<in> set t"
    and "Run (memHost F) (zfs [''list'', ''-Hp'', ''-t'', ''snapshot'', ''-r'', ''-o'',
      ''name,volsize,creation'', t]) m = (r, m')"
  shows "m' = m \<and> (\<exists>out es. r = Ok out \<and> Stdout out = rows (map (\<lambda>(n, v, c). [n, FormatInt v, FormatInt c]) es)
    \<and> list_all (\<lambda>(n, v, c). word n \<and> in64 v \<and> in64 c) es \<and> set (map fst es) = snapshots_of (mem_st m) t)"
proof -
  let ?es = "map (\<lambda>x. (x, vol_size m (ds_of x), simCreationUnix)) (filter (\<lambda>x. within t (ds_of x)) (mSnaps m))"
  have "t \<noteq> ''volume''" using assms(3) by auto
  then have run: "m' = m" "r = Ok (stdout_only (rows (map (\<lambda>(n, v, c). [n, FormatInt v, FormatInt c]) ?es)))"
    using assms(2,4) by (auto simp: mem_Run_zfs mem_zfs_def mem_list_def Let_def mem_out_def ret_def ds_of_Cut)
  have "list_all (\<lambda>(n, v, c). word n \<and> in64 v \<and> in64 c) ?es"
    using assms(1) vol_size_in64 [OF assms(1)]
    by (auto simp: list_all_iff mem_wf_def simCreationUnix_def in64_def MinInt64_def MaxInt64_def)
  moreover have "set (map fst ?es) = snapshots_of (mem_st m) t"
    by (auto simp: snapshots_of_def mem_st_def)
  moreover have "Stdout (stdout_only x) = x" for x by (simp add: stdout_only_def)
  ultimately show ?thesis using run by blast
qed

lemma mem_listvols_cmd:
  assumes "mem_wf m" "''list'' \<notin> F"
    and "Run (memHost F) (zfs [''list'', ''-Hp'', ''-t'', ''volume'', ''-r'', ''-o'', ''name,volsize'', t]) m = (r, m')"
  shows "m' = m \<and> (\<exists>out es. r = Ok out \<and> Stdout out = rows (map (\<lambda>(n, v). [n, FormatInt v]) es)
    \<and> list_all (\<lambda>(n, v). word n \<and> in64 v) es \<and> set es = {(n, v). vols (mem_st m) n = Some v \<and> within t n})"
proof -
  let ?es = "filter (\<lambda>(n, v). within t n) (mVols m)"
  have run: "m' = m" "r = Ok (stdout_only (rows (map (\<lambda>(n, v). [n, FormatInt v]) ?es)))"
    using assms(2,3) by (auto simp: mem_Run_zfs mem_zfs_def mem_list_def Let_def mem_out_def ret_def)
  have "list_all (\<lambda>(n, v). word n \<and> in64 v) ?es"
    using assms(1) ds_name_word unfolding mem_wf_def list_all_iff by fastforce
  moreover have "set ?es = {(n, v). vols (mem_st m) n = Some v \<and> within t n}"
    using assms(1) by (auto simp: mem_st_def mem_wf_def)
  ultimately show ?thesis using run by (auto simp: stdout_only_def)
qed


theorem memHost_zfs_host:
  assumes list: "''list'' \<notin> F"
  shows "zfs_host (memHost F) mem_st mem_blk mem_av mem_ps mem_wf"
proof (unfold_locales, goal_cases)
  case (1 m ds v) then show ?case by (auto simp: mem_st_def dest: mem_vol)
next
  case (2 m sn) then show ?case by (auto simp: mem_st_def mem_wf_def)
next
  case (3 m pool r m')
  have "word ''ONLINE''" by (simp add: word_def word_char_def ascii_def is_space_def is_space_rune_def)
  from word_TrimSpace_NL [OF this] 3 show ?case
    by (auto simp: mem_zfs_simps mem_st_def split: if_splits)
next
  case (4 m pool r m')
  then show ?case by (auto simp: mem_zfs_simps mem_ps_def mem_wf_def)
next
  case (5 m pool r m')
  then show ?case using mem_get_law [OF 5(2)] mem_avail_bounds [OF 5(1)] by (auto simp: mem_gets mem_av_def)
next
  case (6 m x r m')
  then show ?case using mem_list_cmd [OF list 6(2,3)] by auto
next
  case (7 m ds r m')
  then show ?case using mem_get_law [OF 7(2)] by (auto simp: mem_gets mem_st_def split: option.splits)
next
  case (8 m ds r m')
  then show ?case using mem_get_law [OF 8(2)] by (auto simp: mem_gets mem_blk_def mem_wf_def)
next
  case (9 m x r m')
  have "in64 simCreationUnix" by (simp add: simCreationUnix_def in64_def MinInt64_def MaxInt64_def)
  with 9(1) show ?case using mem_get_law [OF 9(2)] by (auto simp: mem_gets)
next
  case (10 m ds sz b k r m')
  then show ?case by (intro mem_create_cmd)
next
  case (11 m ds v sz r m')
  from mem_setsize_cmd [OF this] show ?case by (auto split: res.splits)
next
  case (12 m ds n r m')
  then show ?case by (intro mem_snapshot_cmd)
next
  case (13 m ds r m')
  from mem_destroy_cmd [OF 13(1,2,4)] show ?case by (auto split: res.splits)
next
  case (14 m x r m')
  then show ?case by (intro mem_destroysnap_cmd)
next
  case (15 m p val ds r m')
  then show ?case by (intro mem_setprop_cmd)
next
  case (16 m p ds r m')
  then show ?case using mem_get_law [OF 16(3)]
    by (auto simp: mem_gets mem_st_def split: option.splits if_splits)
next
  case (17 m dp val)
  then show ?case by (auto simp: mem_st_def mem_wf_def dest!: map_of_SomeD split: if_splits)
next
  case (18 m ds n dest r m')
  then show ?case by (intro mem_pipe_cmd)
next
  case (19 m t r m')
  from mem_listsnaps_cmd [OF 19(1) list 19(2,3)] 19(1) show ?case by auto
next
  case (20 m t r m')
  from mem_listvols_cmd [OF 20(1) list 20(3)] 20(1) show ?case by auto
qed

interpretation mem: zfs_host "memHost {}" mem_st mem_blk mem_av mem_ps mem_wf
  by (rule memHost_zfs_host) simp

end
