(* ===== verification/Local_Ops.thy ===== *)
theory Local_Ops
  imports Zfs Local_Ids Local_Params
begin

text \<open>
  \<^verbatim>\<open>internal/driver/local/localops.go\<close>: the operations a node performs on its own pools, with the
  wire types of forwardapi.go they take and return. \<open>controller\<close> is the struct of
  local/controller.go: the host its ZFS wrapper runs on, the configuration, the resolver and the
  forwarding client (the last two are used by the next theories). The deferred \<^verbatim>\<open>observeZFS\<close>, the
  reject counter and the logger have no effect on results and are left out.
\<close>

text \<open>Arguments and results of forwarded operations.\<close>

record createArgs =
  caName :: string
  caPool :: string
  caSizeBytes :: int
  caVolblocksize :: string
  caFsType :: string
  caBlock :: bool
  caContentSnapshotID :: string
  caContentVolumeID :: string

record createResult =
  crrVolumeID :: string
  crrDataset :: string
  crrCapacityBytes :: int
  crrFsType :: string

record expandArgs =
  eaVolumeID :: string
  eaRequiredBytes :: int
  eaLimitBytes :: int

record snapshotArgs =
  saSourceVolumeID :: string
  saName :: string

record snapshotResult =
  srSnapshotID :: string
  srSizeBytes :: int
  srCreationUnix :: int
  srReadyToUse :: bool

record statsResult =
  stNode :: string
  stHasPool :: bool
  stVolumeCount :: int
  stFreeBytes :: int
  stAvailBytes :: int

record volWire =
  vwVolumeID :: string
  vwCapacityBytes :: int

record snapWire =
  swSnapshotID :: string
  swSourceVolumeID :: string
  swSizeBytes :: int
  swCreationUnix :: int
  swReadyToUse :: bool

record 'w controller =
  cz :: "'w host"
  cfg :: LocalConfig
  parentDataset :: string
  LocalNode :: string

definition sourceProp :: string where "sourceProp = ''nomad-csi:source''"

definition parentDatasetFor :: "'w controller \<Rightarrow> string \<Rightarrow> string" where
  "parentDatasetFor c pool = parentDatasetForPool (cfg c) pool (parentDataset c)"

definition datasetFor :: "'w controller \<Rightarrow> string \<Rightarrow> string \<Rightarrow> string" where
  "datasetFor c pool volName = parentDatasetFor c pool @ ''/'' @ volName"

definition contentSourceID :: "createArgs \<Rightarrow> string" where
  "contentSourceID a = (if caContentSnapshotID a \<noteq> [] then caContentSnapshotID a else caContentVolumeID a)"

definition recordProvenance :: "'w controller \<Rightarrow> string \<Rightarrow> string \<Rightarrow> ('w, unit) io" where
  "recordProvenance c dataset sourceID =
     wrapIO (\<lambda>_. Internal ''recording provenance: %v'') (ZFS_SetUserProp (cz c) dataset sourceProp sourceID)"

definition create_result :: "'w controller \<Rightarrow> createArgs \<Rightarrow> string \<Rightarrow> createResult" where
  "create_result c a dataset =
     \<lparr>crrVolumeID = externalID_String \<lparr>eNode = LocalNode c, eDataset = dataset\<rparr>,
      crrDataset = dataset, crrCapacityBytes = caSizeBytes a, crrFsType = caFsType a\<rparr>"

definition checkCapacity :: "'w controller \<Rightarrow> string \<Rightarrow> int \<Rightarrow> ('w, unit) io" where
  "checkCapacity c pool need =
     bindIO (wrapIO (\<lambda>_. Internal ''zfs available: %v'') (ZFS_PoolAvailable (cz c) pool)) (\<lambda>avail.
     bindIO (wrapIO (\<lambda>_. Internal ''zpool size: %v'') (ZFS_PoolSize (cz c) pool)) (\<lambda>tot.
     let availAfterReserve = sub64 avail (reserveBytes tot (ReserveFor (cfg c) pool)) in
     if availAfterReserve < need
     then fail (OutOfRange ''pool %q has %d bytes available after reserve, need %d'')
     else ret ()))"

definition growIfNeeded :: "'w controller \<Rightarrow> string \<Rightarrow> int \<Rightarrow> ('w, unit) io" where
  "growIfNeeded c dataset want =
     bindIO (wrapIO (\<lambda>_. Internal ''reading cloned volsize: %v'') (ZFS_GetVolsize (cz c) dataset)) (\<lambda>cur.
     if want \<le> cur then ret ()
     else wrapIO (\<lambda>_. Internal ''growing cloned zvol: %v'') (ZFS_SetVolsize (cz c) dataset want))"

definition restoreFromSnapshot :: "'w controller \<Rightarrow> createArgs \<Rightarrow> string \<Rightarrow> ('w, unit) io" where
  "restoreFromSnapshot c a dataset =
     bindIO (liftE (parseSnapshotID (caContentSnapshotID a))) (\<lambda>sid.
     if sNode sid \<noteq> LocalNode c
     then fail (FailedPrecondition ''snapshot %q is on node %q, not %q (local restore only)'')
     else bindIO (checkCapacity c (caPool a) (caSizeBytes a)) (\<lambda>_.
     bindIO (wrapIO (\<lambda>_. Internal ''clone from snapshot: %v'')
       (ZFS_CloneIndependent (cz c) (sDataset sid) (sSnapName sid) dataset)) (\<lambda>_.
     bindIO (recordProvenance c dataset (caContentSnapshotID a)) (\<lambda>_.
     growIfNeeded c dataset (caSizeBytes a)))))"

text \<open>A failed clone drops the transient snapshot and reports the failure of the clone; when the
  clone worked, failing to drop it is only logged.\<close>

definition clone_stream :: "'w controller \<Rightarrow> string \<Rightarrow> string \<Rightarrow> string \<Rightarrow> ('w, unit) io" where
  "clone_stream c srcDataset snapName dataset =
     tryIO (ZFS_CloneIndependent (cz c) srcDataset snapName dataset) (\<lambda>r. case r of
       Inl e \<Rightarrow> tryIO (ZFS_DestroySnapshot (cz c) srcDataset snapName) (\<lambda>_.
                 fail (Internal ''clone send|recv: %v''))
     | Inr _ \<Rightarrow> tryIO (ZFS_DestroySnapshot (cz c) srcDataset snapName) (\<lambda>_. ret ()))"

definition cloneFromVolume :: "'w controller \<Rightarrow> createArgs \<Rightarrow> string \<Rightarrow> ('w, unit) io" where
  "cloneFromVolume c a dataset =
     bindIO (liftE (parseExternalID (caContentVolumeID a))) (\<lambda>srcEID.
     if eNode srcEID \<noteq> LocalNode c
     then fail (FailedPrecondition ''source volume %q is on node %q, not %q (local clone only)'')
     else bindIO (checkCapacity c (caPool a) (caSizeBytes a)) (\<lambda>_.
     let srcDataset = eDataset srcEID; snapName = ''csiclone-'' @ caName a in
     bindIO (wrapIO (\<lambda>_. Internal ''transient snapshot: %v'') (ZFS_Snapshot (cz c) srcDataset snapName)) (\<lambda>_.
     bindIO (clone_stream c srcDataset snapName dataset) (\<lambda>_.
     bindIO (recordProvenance c dataset (caContentVolumeID a)) (\<lambda>_.
     growIfNeeded c dataset (caSizeBytes a))))))"

text \<open>The branch of \<^verbatim>\<open>localCreate\<close> for a dataset that exists already.\<close>

definition create_existing :: "'w controller \<Rightarrow> createArgs \<Rightarrow> string \<Rightarrow> ('w, createResult) io" where
  "create_existing c a dataset =
     bindIO (wrapIO (\<lambda>_. Internal ''reading volsize: %v'') (ZFS_GetVolsize (cz c) dataset)) (\<lambda>cur.
     if cur \<noteq> caSizeBytes a
     then fail (AlreadyExists ''volume %q exists with size %d, requested %d'')
     else let src = contentSourceID a in
       if src \<noteq> [] then
         bindIO (wrapIO (\<lambda>_. Internal ''reading provenance: %v'')
           (ZFS_GetUserProp (cz c) dataset sourceProp)) (\<lambda>got.
         if got \<noteq> src
         then fail (AlreadyExists ''volume %q already exists from a different source (have %q, requested %q)'')
         else ret (create_result c a dataset))
       else ret (create_result c a dataset))"

definition create_new :: "'w controller \<Rightarrow> createArgs \<Rightarrow> string \<Rightarrow> ('w, unit) io" where
  "create_new c a dataset =
     (if caContentSnapshotID a \<noteq> [] then restoreFromSnapshot c a dataset
      else if caContentVolumeID a \<noteq> [] then cloneFromVolume c a dataset
      else bindIO (checkCapacity c (caPool a) (caSizeBytes a)) (\<lambda>_.
        wrapIO (\<lambda>_. Internal ''zfs create: %v'')
          (ZFS_CreateZvol (cz c) dataset (caSizeBytes a) (caVolblocksize a))))"

definition localCreate :: "'w controller \<Rightarrow> createArgs \<Rightarrow> ('w, createResult) io" where
  "localCreate c a =
     bindIO (wrapIO (\<lambda>_. Internal ''checking pool %q: %v'') (ZFS_PoolStatus (cz c) (caPool a))) (\<lambda>(present, online).
     if \<not> present \<or> \<not> online then fail (FailedPrecondition ''pool %q is not available on node %q'')
     else let dataset = datasetFor c (caPool a) (caName a) in
     bindIO (wrapIO (\<lambda>_. Internal ''checking dataset: %v'') (ZFS_Exists (cz c) dataset)) (\<lambda>exists.
     if exists then create_existing c a dataset
     else bindIO (create_new c a dataset) (\<lambda>_. ret (create_result c a dataset))))"

definition localDelete :: "'w controller \<Rightarrow> string \<Rightarrow> ('w, unit) io" where
  "localDelete c vid =
     bindIO (liftE (parseExternalID vid)) (\<lambda>eid.
     if eNode eid \<noteq> LocalNode c then fail (Internal ''delete for node %q routed to %q'')
     else let dataset = eDataset eid in
     bindIO (wrapIO (\<lambda>_. Internal ''checking dataset: %v'') (ZFS_Exists (cz c) dataset)) (\<lambda>exists.
     if \<not> exists then ret ()
     else bindIO (wrapIO (\<lambda>_. Internal ''checking snapshots: %v'') (ZFS_ListSnapshots (cz c) dataset)) (\<lambda>ss.
     if 0 < length ss then fail (FailedPrecondition ''volume %s still has %d snapshot(s); delete them first'')
     else wrapIO (\<lambda>_. Internal ''zfs destroy: %v'') (ZFS_DestroyZvol (cz c) dataset))))"

definition localExists :: "'w controller \<Rightarrow> string \<Rightarrow> ('w, bool) io" where
  "localExists c vid =
     bindIO (liftE (parseExternalID vid)) (\<lambda>eid.
     wrapIO (\<lambda>_. Internal ''checking dataset: %v'') (ZFS_Exists (cz c) (eDataset eid)))"

definition snap_wire :: "string \<Rightarrow> SnapshotEntry \<Rightarrow> snapWire option" where
  "snap_wire self e = (case Cut (CHR ''@'') (seName e) of (ds, snap, ok) \<Rightarrow>
     if \<not> ok then None
     else Some \<lparr>swSnapshotID = snapshotID_String \<lparr>sNode = self, sDataset = ds, sSnapName = snap\<rparr>,
       swSourceVolumeID = externalID_String \<lparr>eNode = self, eDataset = ds\<rparr>,
       swSizeBytes = seVolsizeBytes e, swCreationUnix = seCreationUnix e, swReadyToUse = True\<rparr>)"

definition localListSnapshots :: "'w controller \<Rightarrow> string \<Rightarrow> ('w, snapWire list) io" where
  "localListSnapshots c datasetFilter =
     (let targets = (if datasetFilter \<noteq> [] then [datasetFilter]
                     else map (\<lambda>p. parentDatasetFor c (poolName p)) (pools (cfg c)))
      in foldIO (\<lambda>acc target.
           bindIO (wrapIO (\<lambda>_. Internal ''listing snapshots in %q: %v'')
             (ZFS_ListSnapshots (cz c) target)) (\<lambda>entries.
           ret (acc @ List.map_filter (snap_wire (LocalNode c)) entries))) [] targets)"

definition localExpand :: "'w controller \<Rightarrow> string \<Rightarrow> int \<Rightarrow> int \<Rightarrow> ('w, int) io" where
  "localExpand c vid required limit =
     bindIO (liftE (parseExternalID vid)) (\<lambda>eid.
     let dataset = eDataset eid in
     bindIO (wrapIO (\<lambda>_. Internal ''reading volblocksize: %v'') (ZFS_GetVolblocksize (cz c) dataset)) (\<lambda>block.
     if block \<le> 0 then fail (Internal ''invalid volblocksize %d for %s'')
     else let size = roundUp required block in
     if 0 < limit \<and> limit < size
     then fail (OutOfRange ''required %d rounds up to %d which exceeds limit %d'')
     else bindIO (wrapIO (\<lambda>_. Internal ''reading volsize: %v'') (ZFS_GetVolsize (cz c) dataset)) (\<lambda>cur.
     if size < cur then fail (OutOfRange ''cannot shrink volume from %d to %d'')
     else if size = cur then ret cur
     else bindIO (wrapIO (\<lambda>_. Internal ''zfs set volsize: %v'') (ZFS_SetVolsize (cz c) dataset size)) (\<lambda>_.
     wrapIO (\<lambda>_. Internal ''reading volsize after grow: %v'') (ZFS_GetVolsize (cz c) dataset)))))"

definition localSnapshot :: "'w controller \<Rightarrow> snapshotArgs \<Rightarrow> ('w, snapshotResult) io" where
  "localSnapshot c a =
     bindIO (liftE (parseExternalID (saSourceVolumeID a))) (\<lambda>srcEID.
     let dataset = eDataset srcEID; snapName = sanitizeName (saName a) in
     bindIO (wrapIO (\<lambda>_. Internal ''zfs snapshot: %v'') (ZFS_Snapshot (cz c) dataset snapName)) (\<lambda>_.
     bindIO (wrapIO (\<lambda>_. Internal ''reading volsize: %v'') (ZFS_GetVolsize (cz c) dataset)) (\<lambda>size.
     bindIO (wrapIO (\<lambda>_. Internal ''reading snapshot creation time: %v'')
       (ZFS_GetCreation (cz c) (dataset @ ''@'' @ snapName))) (\<lambda>created.
     ret \<lparr>srSnapshotID = snapshotID_String \<lparr>sNode = LocalNode c, sDataset = dataset, sSnapName = snapName\<rparr>,
          srSizeBytes = size, srCreationUnix = created, srReadyToUse = True\<rparr>))))"

definition localDeleteSnapshot :: "'w controller \<Rightarrow> string \<Rightarrow> ('w, unit) io" where
  "localDeleteSnapshot c i =
     bindIO (liftE (parseSnapshotID i)) (\<lambda>sid.
     let dataset = sDataset sid; snap = dataset @ ''@'' @ sSnapName sid in
     bindIO (wrapIO (\<lambda>_. Internal ''checking snapshot: %v'') (ZFS_Exists (cz c) snap)) (\<lambda>exists.
     if \<not> exists then ret ()
     else wrapIO (\<lambda>_. Internal ''zfs destroy snapshot: %v'') (ZFS_DestroySnapshot (cz c) dataset (sSnapName sid))))"

definition localStats :: "'w controller \<Rightarrow> string \<Rightarrow> ('w, statsResult) io" where
  "localStats c pool =
     (let st = \<lparr>stNode = LocalNode c, stHasPool = False, stVolumeCount = 0, stFreeBytes = 0, stAvailBytes = 0\<rparr> in
     bindIO (wrapIO (\<lambda>_. Internal ''checking pool %q: %v'') (ZFS_PoolStatus (cz c) pool)) (\<lambda>(present, online).
     if \<not> present \<or> \<not> online then ret st
     else
     bindIO (wrapIO (\<lambda>_. Internal ''listing zvols: %v'') (ZFS_ListZvols (cz c) (parentDatasetFor c pool))) (\<lambda>vs.
     bindIO (wrapIO (\<lambda>_. Internal ''zpool free: %v'') (ZFS_PoolFree (cz c) pool)) (\<lambda>free.
     bindIO (wrapIO (\<lambda>_. Internal ''zfs available: %v'') (ZFS_PoolAvailable (cz c) pool)) (\<lambda>avail.
     bindIO (wrapIO (\<lambda>_. Internal ''zpool size: %v'') (ZFS_PoolSize (cz c) pool)) (\<lambda>tot.
     ret (st\<lparr>stHasPool := True, stVolumeCount := int (length vs), stFreeBytes := free,
       stAvailBytes := max64 (sub64 avail (reserveBytes tot (ReserveFor (cfg c) pool))) 0\<rparr>)))))))"

definition vol_wire :: "string \<Rightarrow> string \<Rightarrow> Zvol \<Rightarrow> volWire option" where
  "vol_wire self prefix v = (if \<not> HasPrefix (zvName v) prefix then None
     else Some \<lparr>vwVolumeID = externalID_String \<lparr>eNode = self, eDataset = zvName v\<rparr>,
                vwCapacityBytes = zvSizeByte v\<rparr>)"

definition localList :: "'w controller \<Rightarrow> ('w, volWire list) io" where
  "localList c = foldIO (\<lambda>acc p.
     let parent = parentDatasetFor c (poolName p) in
     bindIO (wrapIO (\<lambda>_. Internal ''listing zvols in %q: %v'') (ZFS_ListZvols (cz c) parent)) (\<lambda>vs.
     ret (acc @ List.map_filter (vol_wire (LocalNode c) (parent @ ''/'')) vs))) [] (pools (cfg c))"

text \<open>\<^verbatim>\<open>Probe\<close> of local/backend.go: some configured pool must be ONLINE.\<close>

definition local_Probe :: "'w controller \<Rightarrow> ('w, unit) io" where
  "local_Probe c =
     bindIO (foldIO (\<lambda>usable p.
       bindIO (wrapIO (\<lambda>_. Unavailable ''zfs/zpool unavailable: %v'') (ZFS_PoolStatus (cz c) (poolName p)))
         (\<lambda>(present, online). ret (if present \<and> online then usable + 1 else usable))) (0::nat) (pools (cfg c)))
     (\<lambda>usable. if usable = 0
       then fail (FailedPrecondition ''no usable zpool ONLINE on this node (configured: %v)'') else ret ())"

end
