(* ===== verification/Local_Spec.thy ===== *)
theory Local_Spec
  imports Zfs_Spec Local_Ops
begin

text \<open>
  The contracts of the node-local operations over any host that behaves as zfs does
  (\<open>zfs_host\<close>): what a create, delete, expand, snapshot or clone does to the pools on every
  outcome, commands failing at any point included.
\<close>

section \<open>Outcomes\<close>

text \<open>The state of every dataset but one.\<close>

definition others :: "string \<Rightarrow> zstate \<Rightarrow> zstate \<Rightarrow> bool" where
  "others ds s s' \<longleftrightarrow> (\<forall>d. d \<noteq> ds \<longrightarrow> vols s' d = vols s d) \<and> health s' = health s \<and>
     (\<forall>d p. d \<noteq> ds \<longrightarrow> uprops s' (d, p) = uprops s (d, p))"

lemma others_refl [simp]: "others ds s s"
  by (simp add: others_def)

text \<open>The outcome of a delete.\<close>

definition deleted :: "string \<Rightarrow> zstate \<Rightarrow> unit res \<Rightarrow> zstate \<Rightarrow> bool" where
  "deleted ds s r s' \<longleftrightarrow> snaps s' = snaps s \<and> others ds s s' \<and> (case r of
     Ok _ \<Rightarrow> vols s' ds = None \<and> (vols s ds \<noteq> None \<longrightarrow> snapshots_of s ds = {})
   | Fail e \<Rightarrow> s' = s \<and> (err_code e = Some CodeInternal \<or>
       err_code e = Some CodeFailedPrecondition \<and> vols s ds \<noteq> None \<and> snapshots_of s ds \<noteq> {})
   | Panic _ \<Rightarrow> False)"

text \<open>The space left in a pool above its reserve, from its available space and its size.\<close>

definition room :: "'w controller \<Rightarrow> (string \<Rightarrow> int) \<Rightarrow> (string \<Rightarrow> int) \<Rightarrow> string \<Rightarrow> int" where
  "room c av ps pool = av pool - reserveBytes (ps pool) (ReserveFor (cfg c) pool)"

text \<open>The outcome of a create without a content source, with \<open>rm\<close> bytes of room in the pool.\<close>

definition created :: "'w controller \<Rightarrow> createArgs \<Rightarrow> int \<Rightarrow> zstate \<Rightarrow> createResult res \<Rightarrow> zstate \<Rightarrow> bool" where
  "created c a rm s r s' \<longleftrightarrow>
     (let ds = datasetFor c (caPool a) (caName a); sz = caSizeBytes a in case r of
       Ok res \<Rightarrow> res = create_result c a ds \<and> vols s' ds = Some sz \<and> health s (caPool a) = Some True \<and>
         s' = s\<lparr>vols := (vols s)(ds \<mapsto> sz)\<rparr> \<and> (vols s ds = None \<longrightarrow> sz \<le> rm)
     | Fail e \<Rightarrow> s' = s \<and> (err_code e = Some CodeInternal \<or>
         err_code e = Some CodeFailedPrecondition \<and> health s (caPool a) \<noteq> Some True \<or>
         err_code e = Some CodeAlreadyExists \<and> (\<exists>v. vols s ds = Some v \<and> v \<noteq> sz) \<or>
         err_code e = Some CodeOutOfRange \<and> vols s ds = None \<and> rm < sz)
     | Panic _ \<Rightarrow> False)"

text \<open>A dataset of a larger size, or no change.\<close>

definition grows :: "string \<Rightarrow> zstate \<Rightarrow> zstate \<Rightarrow> bool" where
  "grows ds s s' \<longleftrightarrow> s' = s \<or>
     (\<exists>v v'. vols s ds = Some v \<and> v < v' \<and> s' = s\<lparr>vols := (vols s)(ds \<mapsto> v')\<rparr>)"

text \<open>The outcome of an expansion of a volume with block size \<open>b\<close>.\<close>

definition expanded :: "string \<Rightarrow> int \<Rightarrow> int \<Rightarrow> int \<Rightarrow> zstate \<Rightarrow> int res \<Rightarrow> zstate \<Rightarrow> bool" where
  "expanded ds b required limit s r s' \<longleftrightarrow> grows ds s s' \<and> (case r of
     Ok cap \<Rightarrow> vols s' ds = Some cap \<and> (\<exists>v. vols s ds = Some v \<and> v \<le> cap) \<and>
       (0 < required \<and> in64 (required + b - 1) \<longrightarrow>
          required \<le> cap \<and> cap < required + b \<and> b dvd cap \<and> (0 < limit \<longrightarrow> cap \<le> limit))
   | Fail e \<Rightarrow> err_code e = Some CodeInternal \<or> (err_code e = Some CodeOutOfRange \<and> s' = s \<and>
       (0 < limit \<and> limit < roundUp required b \<or>
        (\<exists>v. vols s ds = Some v \<and> roundUp required b < v)))
   | Panic _ \<Rightarrow> False)"

text \<open>The outcome of a snapshot.\<close>

definition snapped :: "'w controller \<Rightarrow> string \<Rightarrow> string \<Rightarrow> zstate \<Rightarrow> snapshotResult res \<Rightarrow> zstate \<Rightarrow> bool" where
  "snapped c ds nm s r s' \<longleftrightarrow> (let full = ds @ ''@'' @ nm in case r of
     Ok res \<Rightarrow> s' = s\<lparr>snaps := insert full (snaps s)\<rparr> \<and> srReadyToUse res \<and> vols s ds = Some (srSizeBytes res) \<and>
       srSnapshotID res = snapshotID_String \<lparr>sNode = LocalNode c, sDataset = ds, sSnapName = nm\<rparr>
   | Fail e \<Rightarrow> err_code e = Some CodeInternal \<and> (s' = s \<or> s' = s\<lparr>snaps := insert full (snaps s)\<rparr>)
   | Panic _ \<Rightarrow> False)"

text \<open>The outcome of removing a snapshot.\<close>

definition unsnapped :: "string \<Rightarrow> zstate \<Rightarrow> unit res \<Rightarrow> zstate \<Rightarrow> bool" where
  "unsnapped full s r s' \<longleftrightarrow> (case r of
     Ok _ \<Rightarrow> s' = s\<lparr>snaps := snaps s - {full}\<rparr>
   | Fail e \<Rightarrow> err_code e = Some CodeInternal \<and> s' = s
   | Panic _ \<Rightarrow> False)"

text \<open>The outcome of a clone or restore into \<open>dest\<close>; a failure on the way can leave the transient snapshots.\<close>

definition copied :: "string \<Rightarrow> string set \<Rightarrow> string \<Rightarrow> int \<Rightarrow> zstate \<Rightarrow> unit res \<Rightarrow> zstate \<Rightarrow> bool" where
  "copied dest transient srcid want s r s' \<longleftrightarrow>
     others dest s s' \<and> snaps s \<subseteq> snaps s' \<and> snaps s' \<subseteq> snaps s \<union> transient \<and> (case r of
       Ok _ \<Rightarrow> (\<exists>v. vols s' dest = Some v \<and> want \<le> v) \<and> uprops s' (dest, sourceProp) = Some srcid
     | Fail e \<Rightarrow> err_code e \<noteq> None
     | Panic _ \<Rightarrow> False)"

text \<open>The snapshots a clone makes on its way.\<close>

definition transients :: "string \<Rightarrow> string \<Rightarrow> string \<Rightarrow> string set" where
  "transients src dest name = {src @ ''@'' @ ''csiclone-'' @ name, dest @ ''@'' @ ''csiclone-'' @ name}"

section \<open>The operations\<close>

context zfs_host
begin

lemma present_ds: "wf w \<Longrightarrow> ds_name ds \<Longrightarrow> present (st w) ds \<longleftrightarrow> vols (st w) ds \<noteq> None"
  using snap_names ds_name_chars by (auto simp: present_def)

subsection \<open>Delete\<close>

lemma localDelete_wp:
  assumes "cz c = h" "wf w" "ds_name ds" "parseExternalID vid = Inr \<lparr>eNode = LocalNode c, eDataset = ds\<rparr>"
  shows "wp (localDelete c vid) (\<lambda>r w'. wf w' \<and> deleted ds (st w) r (st w')) w"
  unfolding localDelete_def assms(1) Let_def
proof (simp add: wp_simps assms(4) after_def,
    rule Exists_wp [OF assms(2) parseExternalID_slash [OF assms(4), simplified]], goal_cases)
  case (1 w1)
  then have w1: "wf w1" "st w1 = st w" by (auto dest: stillD)
  show ?case
  proof (cases "vols (st w) ds = None")
    case True
    then show ?thesis using w1 assms(2,3) by (simp add: present_ds wp_simps deleted_def)
  next
    case False
    then show ?thesis using assms(2,3) w1 parseExternalID_slash [OF assms(4)]
      by (auto simp: present_ds wp_simps after_def deleted_def others_def
          intro!: ListSnapshots_wp DestroyZvol_wp dest!: stillD)
  qed
qed (auto simp: deleted_def dest: stillD)

subsection \<open>Create\<close>

lemma in64_diff: "0 \<le> a \<Longrightarrow> 0 \<le> b \<Longrightarrow> in64 a \<Longrightarrow> in64 b \<Longrightarrow> in64 (a - b)"
  by (simp add: in64_def MinInt64_def MaxInt64_def)

lemma in64_reserve: "0 \<le> a \<Longrightarrow> in64 a \<Longrightarrow> 0 \<le> reserveBytes a p \<and> in64 (reserveBytes a p)"
  using reserveBytes_bounds [of a p] in64_nonneg_le by blast

lemma checkCapacity_wp:
  assumes "cz c = h" "wf w"
    and "\<And>w'. still w w' \<Longrightarrow> need \<le> room c (avail w) (psize w) pool \<Longrightarrow> Q (Ok ()) w'"
    and "\<And>w' m. still w w' \<Longrightarrow> room c (avail w) (psize w) pool < need \<Longrightarrow> Q (Fail (OutOfRange m)) w'"
    and "\<And>w' m. still w w' \<Longrightarrow> Q (Fail (Internal m)) w'"
  shows "wp (checkCapacity c pool need) Q w"
  unfolding checkCapacity_def assms(1)
proof (simp add: wp_simps after_def, rule PoolAvailable_wp [OF assms(2)], goal_cases)
  case (1 w1)
  note w1 = stillD [OF 1(1)]
  show ?case
  proof (simp add: wp_simps after_def, rule PoolSize_wp, goal_cases)
    case (2 w2)
    have "still w w2" using 1(1) 2(1) by (simp add: still_def same_def)
    moreover have "sub64 (avail w pool) (reserveBytes (psize w1 pool) (ReserveFor (cfg c) pool)) = room c (avail w) (psize w) pool"
      using 1 2 w1 in64_diff in64_reserve by (simp add: room_def sub64_def wrap64_id)
    ultimately show ?case using assms(3,4) by (auto simp: wp_simps Let_def)
  qed (use w1 1(1) assms(5) in \<open>auto simp: still_def same_def\<close>)
qed (use assms(5) in auto)

lemma still_room: "still w w' \<Longrightarrow> room c (avail w') (psize w') p = room c (avail w) (psize w) p"
  by (auto simp: room_def dest: stillD)

lemma still_trans: "still w w1 \<Longrightarrow> still w1 w2 \<Longrightarrow> still w w2"
  by (simp add: still_def same_def)

lemma existing_wp:
  assumes "cz c = h" "wf w" "vols (st w) ds \<noteq> None" "contentSourceID a = []"
    and "\<And>w'. still w w' \<Longrightarrow> vols (st w) ds = Some (caSizeBytes a) \<Longrightarrow> Q (Ok (create_result c a ds)) w'"
    and "\<And>v w' m. still w w' \<Longrightarrow> vols (st w) ds = Some v \<Longrightarrow> v \<noteq> caSizeBytes a \<Longrightarrow> Q (Fail (AlreadyExists m)) w'"
    and "\<And>w' m. still w w' \<Longrightarrow> Q (Fail (Internal m)) w'"
  shows "wp (create_existing c a ds) Q w"
  unfolding create_existing_def assms(1)
  by (auto simp: wp_simps after_def assms(4) Let_def intro!: GetVolsize_wp assms(2,5-7))

lemma localCreate_wp:
  assumes "cz c = h" "wf w" "ds_name (datasetFor c (caPool a) (caName a))"
    "0 < caSizeBytes a" "in64 (caSizeBytes a)" "parseSizeBytes (caVolblocksize a) = Inr k" "k dvd caSizeBytes a"
    "caContentSnapshotID a = []" "caContentVolumeID a = []"
  shows "wp (localCreate c a) (\<lambda>r w'. wf w' \<and> created c a (room c (avail w) (psize w) (caPool a)) (st w) r (st w')) w"
  unfolding localCreate_def assms(1) Let_def
proof (simp add: wp_simps after_def, rule PoolStatus_wp [OF assms(2)], goal_cases)
  case (1 w1)
  note w1 = stillD [OF 1]
  let ?ds = "datasetFor c (caPool a) (caName a)"
  show ?case
  proof (cases "health (st w) (caPool a) = Some True")
    case False
    then show ?thesis using w1 by (auto simp: wp_simps created_def Let_def split: option.splits)
  next
    case up: True
    show ?thesis
    proof (simp add: up wp_simps, rule Exists_wp, goal_cases)
      case (3 w2)
      note w2 = stillD [OF 3]
      have pr: "present (st w1) ?ds \<longleftrightarrow> vols (st w) ?ds \<noteq> None" using w1 assms(3) present_ds by metis
      have ne: "contentSourceID a = []" using assms(8,9) by (simp add: contentSourceID_def)
      show ?case
      proof (cases "vols (st w) ?ds = None")
        case False
        then show ?thesis using w1 w2 pr up ne
          by (auto simp: created_def Let_def fun_upd_idem intro!: existing_wp assms(1) dest!: stillD)
      next
        case True
        have rm: "room c (avail w2) (psize w2) p = room c (avail w) (psize w) p" for p using 1 3 still_room by metis
        show ?thesis using True w1 w2 pr up assms(3-9) rm
          by (auto simp: create_new_def wp_simps after_def created_def Let_def assms(1)
              intro!: checkCapacity_wp [OF assms(1)] CreateZvol_wp dest!: stillD)
      qed
    qed (use w1 in \<open>auto simp: created_def datasetFor_def dest: stillD\<close>)
  qed
qed (auto simp: created_def dest: stillD)

text \<open>A repeated create finds the volume as it was made: the same answer, no change, or a failing
  command.\<close>

lemma localCreate_again:
  assumes "cz c = h" "wf w" "ds_name (datasetFor c (caPool a) (caName a))"
    "0 < caSizeBytes a" "in64 (caSizeBytes a)" "parseSizeBytes (caVolblocksize a) = Inr k" "k dvd caSizeBytes a"
    "caContentSnapshotID a = []" "caContentVolumeID a = []"
    and first: "localCreate c a w = (Ok res, w1)" and mid: "wf w2" "st w2 = st w1"
  shows "wp (localCreate c a) (\<lambda>r w'. st w' = st w2 \<and>
    (r = Ok res \<or> (\<exists>e. r = Fail e \<and> err_code e = Some CodeInternal))) w2"
proof -
  let ?ds = "datasetFor c (caPool a) (caName a)"
  from wpD [OF localCreate_wp [OF assms(1-9)] first]
  have a: "res = create_result c a ?ds" "vols (st w2) ?ds = Some (caSizeBytes a)" "health (st w2) (caPool a) = Some True"
    by (auto simp: created_def Let_def mid(2))
  show ?thesis
    by (rule wp_mono [OF localCreate_wp [OF assms(1) mid(1) assms(3-9)]])
      (use a in \<open>auto simp: created_def Let_def fun_upd_idem split: res.splits\<close>)
qed

subsection \<open>Expand\<close>

lemma grow_wp:
  assumes "wf w" "vols (st w) ds = Some v" "0 \<le> v" "v < sz" "in64 sz"
    and "\<And>u w'. wf w' \<Longrightarrow> st w' = (st w)\<lparr>vols := (vols (st w))(ds \<mapsto> u)\<rparr> \<Longrightarrow> sz \<le> u \<Longrightarrow>
      (blk w ds dvd sz \<Longrightarrow> u = sz) \<Longrightarrow> Q (Ok u) w'"
    and "\<And>e w'. wf w' \<Longrightarrow> grows ds (st w) (st w') \<Longrightarrow> Q (Fail (Internal e)) w'"
  shows "wp (bindIO (wrapIO (\<lambda>_. Internal f) (ZFS_SetVolsize h ds sz))
    (\<lambda>_. wrapIO (\<lambda>_. Internal g) (ZFS_GetVolsize h ds))) Q w"
proof (simp add: wp_simps, rule SetVolsize_wp [OF assms(1,2)], goal_cases)
  case (3 u w1)
  have "v < u" using 3(3) assms(4) by linarith
  then have gr: "grows ds (st w) (st w1)" unfolding grows_def using 3(2) assms(2) by blast
  show ?case
  proof (simp add: wp_simps, rule GetVolsize_wp [OF 3(1)], goal_cases)
    case (1 u' w2)
    then have "u' = u" "wf w2" "st w2 = st w1" using 3(2) by (auto dest: stillD)
    then show ?case using assms(6) [of w2 u] 3 by simp
  next
    case (2 e w2)
    then show ?case using assms(7) [of w2] gr by (auto dest: stillD)
  qed
next
  case (4 e w1)
  then show ?case using assms(7) [of w1] by (simp add: grows_def)
qed (use assms(3-5) in auto)

lemma localExpand_wp:
  assumes "cz c = h" "wf w" "parseExternalID vid = Inr eid"
  shows "wp (localExpand c vid required limit)
    (\<lambda>r w'. wf w' \<and> expanded (eDataset eid) (blk w (eDataset eid)) required limit (st w) r (st w')) w"
  unfolding localExpand_def assms(1) Let_def
proof (simp add: wp_simps after_def assms(3), rule GetVolblocksize_wp [OF assms(2)], goal_cases)
  case (1 w1)
  note w1 = stillD [OF 1(1)]
  let ?ds = "eDataset eid" let ?sz = "roundUp required (blk w ?ds)"
  have ex: "0 < required \<Longrightarrow> in64 (required + blk w ?ds - 1) \<Longrightarrow>
      required \<le> ?sz \<and> ?sz < required + blk w ?ds \<and> blk w ?ds dvd ?sz"
    using roundUp_exact [of required "blk w ?ds"] 1(2) by auto
  show ?case
  proof (cases "0 < limit \<and> limit < ?sz")
    case True
    then show ?thesis using w1 1(2) by (auto simp: wp_simps expanded_def grows_def)
  next
    case False
    then have g: "(limit < ?sz \<and> 0 < limit) = False" "(0 < limit \<and> limit < ?sz) = False" by auto
    have nz: "(blk w ?ds \<le> 0) = False" using 1(2) by simp
    show ?thesis
    proof (simp only: nz g if_False res.case wp_simps after_simps, rule GetVolsize_wp, goal_cases)
      case (2 v w2)
      note w2 = stillD [OF 2(1)]
      consider "?sz < v" | "?sz = v" | "v < ?sz" by linarith
      then show ?case
      proof cases
        case 3
        have nl: "(?sz < v) = False" "(?sz = v) = False" using 3 by auto
        have v2: "vols (st w2) ?ds = Some v" using 2 w1 w2 by simp
        have "wp (bindIO (wrapIO (\<lambda>_. Internal ''zfs set volsize: %v'') (ZFS_SetVolsize h ?ds ?sz))
            (\<lambda>_. wrapIO (\<lambda>_. Internal ''reading volsize after grow: %v'') (ZFS_GetVolsize h ?ds)))
          (\<lambda>r w'. wf w' \<and> expanded ?ds (blk w ?ds) required limit (st w) r (st w')) w2"
        proof (rule grow_wp [OF _ v2 2(3) 3 in64_roundUp], goal_cases)
          case (2 u w3)
          then have "grows ?ds (st w) (st w3)" unfolding grows_def using v2 w1 w2 3 by (metis order_less_le_trans)
          then show ?case using 2 w1 w2 v2 3 ex False by (auto simp: expanded_def)
        next
          case (3 e w3)
          then show ?case using w1 w2 by (simp add: expanded_def)
        qed (use w2 in simp)
        then show ?thesis by (simp add: wp_simps nl cong: res.case_cong)
      qed (use 2 w1 w2 ex False in \<open>auto simp: wp_simps expanded_def grows_def\<close>)
    qed (use w1 in \<open>auto simp: expanded_def grows_def dest: stillD\<close>)
  qed
qed (auto simp: expanded_def grows_def dest: stillD)

subsection \<open>Snapshots\<close>

lemma localSnapshot_wp:
  assumes "cz c = h" "wf w" "parseExternalID (saSourceVolumeID a) = Inr eid" "CHR ''@'' \<notin> set (eDataset eid)"
    "vols (st w) (eDataset eid) \<noteq> None" "word (sanitizeName (saName a))"
    "eDataset eid @ ''@'' @ sanitizeName (saName a) \<notin> snaps (st w)"
  shows "wp (localSnapshot c a) (\<lambda>r w'. wf w' \<and> snapped c (eDataset eid) (sanitizeName (saName a)) (st w) r (st w')) w"
  unfolding localSnapshot_def assms(1) Let_def
  by (auto simp: wp_simps after_def assms(3) snapped_def Let_def
      intro!: Snapshot_wp [OF assms(2,5,6,4,7)] GetVolsize_wp GetCreation_wp dest!: stillD)

lemma localDeleteSnapshot_wp:
  assumes "cz c = h" "wf w" "parseSnapshotID i = Inr sid"
  shows "wp (localDeleteSnapshot c i)
    (\<lambda>r w'. wf w' \<and> unsnapped (sDataset sid @ ''@'' @ sSnapName sid) (st w) r (st w')) w"
  unfolding localDeleteSnapshot_def assms(1) Let_def
  by (auto simp: wp_simps after_def assms(3) unsnapped_def present_def
      parseSnapshotID_slash [OF assms(3)]
      intro!: Exists_wp [OF assms(2)] DestroySnapshot_wp dest!: stillD)

subsection \<open>Clone and restore\<close>

text \<open>Whatever happens, no other dataset changes, no snapshot is lost, and the only snapshots that
  may be left behind are the transient one and its received copy.\<close>

lemma growIfNeeded_wp:
  assumes "cz c = h" "wf w" "vols (st w) ds \<noteq> None" "in64 want" "0 < want"
    and "\<And>v w'. wf w' \<Longrightarrow> st w' = (st w)\<lparr>vols := (vols (st w))(ds \<mapsto> v)\<rparr> \<Longrightarrow> want \<le> v \<Longrightarrow> Q (Ok ()) w'"
    and "\<And>m w'. wf w' \<Longrightarrow> st w' = st w \<Longrightarrow> Q (Fail (Internal m)) w'"
  shows "wp (growIfNeeded c ds want) Q w"
  unfolding growIfNeeded_def assms(1)
proof (simp add: wp_simps after_def, rule GetVolsize_wp [OF assms(2)], goal_cases)
  case (1 v w1)
  note w1 = stillD [OF 1(1)]
  have idem: "st w = (st w)\<lparr>vols := (vols (st w))(ds \<mapsto> v)\<rparr>" using 1(2) by (simp add: fun_upd_idem)
  show ?case
  proof (cases "want \<le> v")
    case True
    then show ?thesis using assms(6) [of w1 v] w1 idem by (simp add: wp_simps)
  next
    case False
    have v1: "vols (st w1) ds = Some v" using w1 1(2) by simp
    have "wp (ZFS_SetVolsize h ds want) (\<lambda>r w'. Q (case r of Ok a \<Rightarrow> Ok a
        | Fail e \<Rightarrow> Fail (Internal ''growing cloned zvol: %v'') | Panic p \<Rightarrow> Panic p) w') w1"
      by (rule SetVolsize_wp [OF _ v1 assms(5,4)]) (use w1 assms(6,7) in auto)
    then show ?thesis using False by (auto simp: wp_simps elim!: wp_mono split: res.splits)
  qed
qed (use assms(7) in \<open>auto dest: stillD\<close>)

lemma sourceProp_law: "CHR '':'' \<in> set sourceProp" "CHR ''='' \<notin> set sourceProp \<and> CHR ''|'' \<notin> set sourceProp"
  "\<not> HasPrefix (sourceProp @ ''='' @ v) ''volsize=''"
  by (simp_all add: sourceProp_def HasPrefix_def)

lemma finish_copy_wp:
  assumes "cz c = h" "wf w" "vols (st w) dest \<noteq> None" "in64 want" "0 < want" "word srcid"
    and "others dest s (st w)" "snaps s \<subseteq> snaps (st w)" "snaps (st w) \<subseteq> snaps s \<union> tr"
  shows "wp (bindIO (recordProvenance c dest srcid) (\<lambda>_. growIfNeeded c dest want))
    (\<lambda>r w'. wf w' \<and> copied dest tr srcid want s r (st w')) w"
  unfolding recordProvenance_def assms(1)
proof (simp add: wp_simps after_def, rule SetUserProp_wp [OF assms(2) sourceProp_law(1,2) assms(6) sourceProp_law(3)
      assms(3)], goal_cases)
  case (1 w1)
  have "wp (growIfNeeded c dest want) (\<lambda>r w'. wf w' \<and> copied dest tr srcid want s r (st w')) w1"
    using assms(3,7-9) 1
    by (intro growIfNeeded_wp [OF assms(1) _ _ assms(4,5)]) (auto simp: copied_def others_def)
  then show ?case by simp
next
  case (2 e w1)
  then show ?case using assms(7-9) by (simp add: copied_def)
qed

lemma copied_unchanged: "err_code e \<noteq> None \<Longrightarrow> copied dest tr i n s (Fail e) s"
  by (auto simp: copied_def)

lemma restore_wp:
  assumes "cz c = h" "wf w" "parseSnapshotID (caContentSnapshotID a) = Inr sid"
    "sDataset sid @ ''@'' @ sSnapName sid \<in> snaps (st w)" "CHR ''@'' \<notin> set (sDataset sid)" "word (sSnapName sid)"
    "ds_name dest" "vols (st w) dest = None" "dest @ ''@'' @ sSnapName sid \<notin> snaps (st w)"
    "in64 (caSizeBytes a)" "0 < caSizeBytes a" "word (caContentSnapshotID a)"
  shows "wp (restoreFromSnapshot c a dest) (\<lambda>r w'. wf w' \<and>
    copied dest {dest @ ''@'' @ sSnapName sid} (caContentSnapshotID a) (caSizeBytes a) (st w) r (st w')) w"
  unfolding restoreFromSnapshot_def assms(1)
proof (simp add: wp_simps after_def assms(3), intro conjI impI, goal_cases)
  case 3
  let ?Q = "\<lambda>r w'. wf w' \<and>
    copied dest {dest @ ''@'' @ sSnapName sid} (caContentSnapshotID a) (caSizeBytes a) (st w) r (st w')"
  show ?case
  proof (rule checkCapacity_wp [OF assms(1,2)], goal_cases)
    case (1 w1)
    note w1 = stillD [OF 1(1)]
    have "wp (ZFS_CloneIndependent h (sDataset sid) (sSnapName sid) dest) (\<lambda>r w'. case r of
        Ok _ \<Rightarrow> wp (bindIO (recordProvenance c dest (caContentSnapshotID a)) (\<lambda>_. growIfNeeded c dest (caSizeBytes a))) ?Q w'
      | Fail e \<Rightarrow> ?Q (Fail (Internal ''clone from snapshot: %v'')) w' | Panic p \<Rightarrow> ?Q (Panic p) w') w1"
    proof (intro CloneIndependent_wp, goal_cases)
      case (7 v w2)
      then show ?case using w1 assms(9) by (auto simp: others_def intro!: finish_copy_wp [OF assms(1)] assms(10-12))
    qed (use w1 assms(4-9) in \<open>auto simp: copied_def others_def\<close>)
    then show ?case by (auto simp: wp_simps elim!: wp_mono split: res.splits)
  qed (auto simp: copied_unchanged dest: stillD)
qed (use assms(2) in \<open>auto simp: wp_simps copied_unchanged\<close>)

text \<open>The transient snapshot of a clone, and its received copy.\<close>

lemma clone_stream_wp:
  assumes "cz c = h" "wf w" "src @ ''@'' @ nm \<in> snaps (st w)" "CHR ''@'' \<notin> set src" "word nm" "ds_name dest"
    "vols (st w) dest = None" "dest @ ''@'' @ nm \<notin> snaps (st w)"
    and "\<And>v S w'. wf w' \<Longrightarrow> st w' = (st w)\<lparr>vols := (vols (st w))(dest \<mapsto> v), snaps := S\<rparr> \<Longrightarrow>
      snaps (st w) - {src @ ''@'' @ nm} \<subseteq> S \<Longrightarrow> S \<subseteq> snaps (st w) \<Longrightarrow> Q (Ok ()) w'"
    and "\<And>w' m S V. wf w' \<Longrightarrow> st w' = (st w)\<lparr>vols := V, snaps := S\<rparr> \<Longrightarrow> (\<forall>d. d \<noteq> dest \<longrightarrow> V d = vols (st w) d) \<Longrightarrow>
      snaps (st w) - {src @ ''@'' @ nm} \<subseteq> S \<Longrightarrow> S \<subseteq> insert (dest @ ''@'' @ nm) (snaps (st w)) \<Longrightarrow>
      Q (Fail (Internal m)) w'"
  shows "wp (clone_stream c src nm dest) Q w"
  unfolding clone_stream_def assms(1)
proof (simp add: wp_simps, rule CloneIndependent_wp [OF assms(2-7)], goal_cases)
  case (1 v w1)
  let ?V = "(vols (st w))(dest \<mapsto> v)"
  have "wf w1' \<and> st w1' = (st w)\<lparr>vols := ?V\<rparr> \<Longrightarrow> Q (Ok ()) w1'" for w1'
    by (rule assms(9) [where v = v and S = "snaps (st w)"]) auto
  moreover have "wf w1' \<and> st w1' = (st w)\<lparr>vols := ?V, snaps := snaps (st w) - {src @ ''@'' @ nm}\<rparr> \<Longrightarrow>
      Q (Ok ()) w1'" for w1'
    by (rule assms(9) [where v = v and S = "snaps (st w) - {src @ ''@'' @ nm}"]) auto
  ultimately show ?case using 1 assms(8) by (auto simp: wp_simps intro!: DestroySnapshot_wp)
next
  case (2 e w1)
  have "w1' \<in> {w1'. wf w1' \<and> st w1' = st w} \<Longrightarrow> Q (Fail (Internal ''clone send|recv: %v'')) w1'" for w1'
    by (rule assms(10) [where V = "vols (st w)" and S = "snaps (st w)"]) auto
  moreover have "wf w1' \<and> st w1' = (st w)\<lparr>snaps := snaps (st w) - {src @ ''@'' @ nm}\<rparr> \<Longrightarrow>
      Q (Fail (Internal ''clone send|recv: %v'')) w1'" for w1'
    by (rule assms(10) [where V = "vols (st w)" and S = "snaps (st w) - {src @ ''@'' @ nm}"]) auto
  ultimately show ?case using 2 by (auto simp: wp_simps intro!: DestroySnapshot_wp)
next
  case (3 e v w1)
  let ?V = "(vols (st w))(dest \<mapsto> v)" let ?S = "insert (dest @ ''@'' @ nm) (snaps (st w))"
  have "wf w1' \<and> st w1' = (st w)\<lparr>vols := ?V, snaps := ?S\<rparr> \<Longrightarrow> Q (Fail (Internal ''clone send|recv: %v'')) w1'" for w1'
    by (rule assms(10) [where V = ?V and S = ?S]) auto
  moreover have "wf w1' \<and> st w1' = (st w)\<lparr>vols := ?V, snaps := ?S - {src @ ''@'' @ nm}\<rparr> \<Longrightarrow>
      Q (Fail (Internal ''clone send|recv: %v'')) w1'" for w1'
    by (rule assms(10) [where V = ?V and S = "?S - {src @ ''@'' @ nm}"]) auto
  ultimately show ?case using 3 by (auto simp: wp_simps intro!: DestroySnapshot_wp)
qed

lemma clone_wp:
  assumes "cz c = h" "wf w" "parseExternalID (caContentVolumeID a) = Inr src" "CHR ''@'' \<notin> set (eDataset src)"
    "vols (st w) (eDataset src) \<noteq> None" "word (caName a)"
    "ds_name dest" "vols (st w) dest = None" "transients (eDataset src) dest (caName a) \<inter> snaps (st w) = {}"
    "in64 (caSizeBytes a)" "0 < caSizeBytes a" "word (caContentVolumeID a)"
  shows "wp (cloneFromVolume c a dest) (\<lambda>r w'. wf w' \<and>
    copied dest (transients (eDataset src) dest (caName a)) (caContentVolumeID a) (caSizeBytes a) (st w) r (st w')) w"
  unfolding cloneFromVolume_def assms(1) Let_def
proof (simp add: wp_simps after_def assms(3), intro conjI impI, goal_cases)
  case 3
  let ?s = "eDataset src" let ?n = "''csiclone-'' @ caName a"
  let ?T = "transients ?s dest (caName a)"
  let ?Q = "\<lambda>r w'. wf w' \<and> copied dest ?T (caContentVolumeID a) (caSizeBytes a) (st w) r (st w')"
  have wn: "word ?n"
    using assms(6) by (auto simp: word_def word_char_def ascii_def is_space_def is_space_rune_def)
  have fr: "?s @ ''@'' @ ?n \<notin> snaps (st w)" "dest @ ''@'' @ ?n \<notin> snaps (st w)" "dest \<noteq> ?s"
    using assms(5,8,9) by (auto simp: transients_def)
  show ?case
  proof (rule checkCapacity_wp [OF assms(1,2)], goal_cases)
    case (1 w1)
    note w1 = stillD [OF 1(1)]
    have "wp (ZFS_Snapshot h ?s ?n) (\<lambda>r w'. case r of
        Ok _ \<Rightarrow> wp (bindIO (clone_stream c ?s ?n dest) (\<lambda>_.
          bindIO (recordProvenance c dest (caContentVolumeID a)) (\<lambda>_. growIfNeeded c dest (caSizeBytes a)))) ?Q w'
      | Fail e \<Rightarrow> ?Q (Fail (Internal ''transient snapshot: %v'')) w' | Panic p \<Rightarrow> ?Q (Panic p) w') w1"
    proof (rule Snapshot_wp [of w1 ?s ?n], goal_cases)
      case (6 w2)
      have "wp (clone_stream c ?s ?n dest) (after (\<lambda>_. wp (bindIO (recordProvenance c dest (caContentVolumeID a))
          (\<lambda>_. growIfNeeded c dest (caSizeBytes a))) ?Q) ?Q) w2"
      proof (rule clone_stream_wp [OF assms(1) 6(1) _ assms(4) wn assms(7)], goal_cases)
        case (4 v S w3)
        then show ?case using 6(2) w1 fr assms(8)
          by (auto simp: others_def transients_def intro!: finish_copy_wp [OF assms(1)] assms(10-12))
      next
        case (5 w3 m S V)
        then show ?case using 6(2) w1 fr by (auto simp: copied_def others_def transients_def)
      qed (use 6(2) w1 fr assms(8) in auto)
      then show ?case by (simp add: wp_simps)
    qed (use w1 assms(4,5) wn fr in \<open>auto simp: copied_unchanged\<close>)
    then show ?case by (auto simp: wp_simps elim!: wp_mono split: res.splits)
  qed (auto simp: copied_unchanged dest: stillD)
qed (use assms(2) in \<open>auto simp: wp_simps copied_unchanged\<close>)

end

end
