(* ===== verification/Local_Safety.thy ===== *)
theory Local_Safety
  imports Local_Ops
begin

text \<open>
  Data safety of the node-local operations, for every host: whatever the commands answer, the
  operations of \<^verbatim>\<open>localops.go\<close> issue only the commands below, never a recursive or forced destroy,
  and only a delete ever destroys a dataset: the one its volume id names, and only after listing
  its snapshots and finding none.
\<close>

section \<open>The commands that may be issued\<close>

definition zfs_args_ok :: "string list \<Rightarrow> bool" where
  "zfs_args_ok a \<longleftrightarrow> (a \<noteq> [] \<and> (hd a = ''list'' \<or> hd a = ''get''))
     \<or> (length a = 2 \<and> (hd a = ''destroy'' \<or> hd a = ''snapshot''))
     \<or> (length a = 3 \<and> hd a = ''set'') \<or> take 3 a = [''create'', ''-p'', ''-V'']"

fun zfs_event_ok :: "event \<Rightarrow> bool" where
  "zfs_event_ok (Ran c r) \<longleftrightarrow> (Name c = ''zfs'' \<and> zfs_args_ok (Args c))
     \<or> (Name c = ''zpool'' \<and> Args c \<noteq> [] \<and> (hd (Args c) = ''list'' \<or> hd (Args c) = ''get''))"
| "zfs_event_ok (Piped a b r) \<longleftrightarrow> (\<exists>x y. a = zfs [''send'', x] \<and> b = zfs [''recv'', y])"
| "zfs_event_ok _ \<longleftrightarrow> False"

text \<open>What a log entry destroys.\<close>

fun destroys :: "event \<Rightarrow> string option" where
  "destroys (Ran c r) = (if Name c = ''zfs'' \<and> Args c \<noteq> [] \<and> hd (Args c) = ''destroy''
     then Some (last (Args c)) else None)"
| "destroys _ = None"

definition only_snapshots :: "event \<Rightarrow> bool" where
  "only_snapshots e \<longleftrightarrow> zfs_event_ok e \<and> (\<forall>x. destroys e = Some x \<longrightarrow> CHR ''@'' \<in> set x)"

definition only_dataset :: "string \<Rightarrow> event \<Rightarrow> bool" where
  "only_dataset ds e \<longleftrightarrow> zfs_event_ok e \<and> (\<forall>x. destroys e = Some x \<longrightarrow> x = ds)"

lemma only_snapshots_simps [simp]:
  "only_snapshots (Ran (zfs a) r) \<longleftrightarrow> zfs_args_ok a \<and> (hd a = ''destroy'' \<and> a \<noteq> [] \<longrightarrow> CHR ''@'' \<in> set (last a))"
  "only_snapshots (Ran (zpool a) r) \<longleftrightarrow> a \<noteq> [] \<and> (hd a = ''list'' \<or> hd a = ''get'')"
  "only_snapshots (Piped (zfs [''send'', x]) (zfs [''recv'', y]) u)"
  by (auto simp: only_snapshots_def zfs_def zpool_def cmd_def)

lemma only_dataset_simps [simp]:
  "only_dataset ds (Ran (zfs a) r) \<longleftrightarrow> zfs_args_ok a \<and> (hd a = ''destroy'' \<and> a \<noteq> [] \<longrightarrow> last a = ds)"
  "only_dataset ds (Ran (zpool a) r) \<longleftrightarrow> a \<noteq> [] \<and> (hd a = ''list'' \<or> hd a = ''get'')"
  by (auto simp: only_dataset_def zfs_def zpool_def cmd_def)

lemmas zfs_op_defs = ZFS_CreateZvol_def ZFS_DestroyZvol_def ZFS_Exists_def zfs_get_int_def
  ZFS_SetVolsize_def ZFS_SetUserProp_def ZFS_GetUserProp_def ZFS_Snapshot_def ZFS_DestroySnapshot_def
  ZFS_CloneIndependent_def ZFS_ListZvols_def ZFS_ListSnapshots_def zpool_get_int_def ZFS_PoolStatus_def
  zfs_get_ops

section \<open>The operations of zfs.go\<close>

lemma zfs_reads_emit [emits_intros]:
  "emits only_snapshots (ZFS_Exists (traced h) x)"
  "emits only_snapshots (ZFS_GetVolsize (traced h) x)"
  "emits only_snapshots (ZFS_GetVolblocksize (traced h) x)"
  "emits only_snapshots (ZFS_GetCreation (traced h) x)"
  "emits only_snapshots (ZFS_GetUserProp (traced h) x p)"
  "emits only_snapshots (ZFS_ListZvols (traced h) x)"
  "emits only_snapshots (ZFS_ListSnapshots (traced h) x)"
  "emits only_snapshots (ZFS_PoolFree (traced h) x)"
  "emits only_snapshots (ZFS_PoolAvailable (traced h) x)"
  "emits only_snapshots (ZFS_PoolSize (traced h) x)"
  "emits only_snapshots (ZFS_PoolStatus (traced h) x)"
  unfolding zfs_op_defs by (auto intro!: emits_intros simp: zfs_args_ok_def Let_def)

lemma zfs_writes_emit [emits_intros]:
  "emits only_snapshots (ZFS_CreateZvol (traced h) x n b)"
  "emits only_snapshots (ZFS_SetVolsize (traced h) x n)"
  "emits only_snapshots (ZFS_SetUserProp (traced h) x p v)"
  "emits only_snapshots (ZFS_Snapshot (traced h) x s)"
  "emits only_snapshots (ZFS_DestroySnapshot (traced h) x s)"
  "emits only_snapshots (ZFS_CloneIndependent (traced h) x s y)"
  unfolding zfs_op_defs by (auto intro!: emits_intros simp: zfs_args_ok_def Let_def)

section \<open>The local operations\<close>

lemmas create_defs = localCreate_def create_existing_def create_new_def restoreFromSnapshot_def
  cloneFromVolume_def clone_stream_def checkCapacity_def growIfNeeded_def recordProvenance_def

lemma localCreate_emits: "cz c = traced h \<Longrightarrow> emits only_snapshots (localCreate c a)"
  unfolding create_defs by (auto intro!: emits_intros simp: Let_def)

lemma other_ops_emit:
  assumes "cz c = traced h"
  shows "emits only_snapshots (localExpand c v n l)" "emits only_snapshots (localSnapshot c sa)"
    "emits only_snapshots (localDeleteSnapshot c i)" "emits only_snapshots (localExists c v)"
    "emits only_snapshots (localListSnapshots c d)" "emits only_snapshots (localStats c p)"
    "emits only_snapshots (localList c)" "emits only_snapshots (local_Probe c)"
  unfolding localExpand_def localSnapshot_def localDeleteSnapshot_def localExists_def
    localListSnapshots_def localStats_def localList_def local_Probe_def
  using assms by (auto intro!: emits_intros simp: Let_def)

section \<open>The delete\<close>

definition snapshot_listing :: "string \<Rightarrow> command" where
  "snapshot_listing ds =
     zfs [''list'', ''-Hp'', ''-t'', ''snapshot'', ''-r'', ''-o'', ''name,volsize,creation'', ds]"

text \<open>The listing showed no snapshot.\<close>

definition empty_listing :: "cmd_output res \<Rightarrow> bool" where
  "empty_listing r = (case r of Ok out \<Rightarrow> listing snapshot_line (Stdout out) = []
     | Fail e \<Rightarrow> IsExit e 1 | Panic _ \<Rightarrow> False)"

text \<open>The log of a delete: nothing, an existence check, a listing as well, or after an empty
  listing the destroy.\<close>

definition delete_log :: "string \<Rightarrow> event list \<Rightarrow> bool" where
  "delete_log ds new \<longleftrightarrow> new = [] \<or> (\<exists>r1. new = [Ran (zfs [''list'', ''-H'', ''-o'', ''name'', ds]) r1])
     \<or> (\<exists>r1 r2. new = [Ran (zfs [''list'', ''-H'', ''-o'', ''name'', ds]) r1, Ran (snapshot_listing ds) r2])
     \<or> (\<exists>r1 r2 r3. empty_listing r2 \<and> new = [Ran (zfs [''list'', ''-H'', ''-o'', ''name'', ds]) r1,
          Ran (snapshot_listing ds) r2, Ran (zfs [''destroy'', ds]) r3])"

lemma Exists_log:
  assumes "\<And>o' r w'. Q o' (l @ [Ran (zfs [''list'', ''-H'', ''-o'', ''name'', x]) r], w')"
  shows "wp (ZFS_Exists (traced h) x) Q (l, w)"
  by (rule wpI) (use assms in
    \<open>auto simp: ZFS_Exists_def tryIO_def Run_traced Let_def split: prod.splits res.splits if_splits\<close>)

lemma ListSnapshots_log:
  assumes "\<And>o' r w'. (o' = Ok [] \<Longrightarrow> empty_listing r) \<Longrightarrow> Q o' (l @ [Ran (snapshot_listing x) r], w')"
  shows "wp (ZFS_ListSnapshots (traced h) x) Q (l, w)"
  unfolding ZFS_ListSnapshots_def snapshot_listing_def [symmetric]
  by (rule wpI) (auto simp: tryIO_def Run_traced Let_def empty_listing_def
      split: prod.splits res.splits if_splits intro!: assms)

lemma DestroyZvol_log:
  assumes "\<And>o' r w'. Q o' (l @ [Ran (zfs [''destroy'', x]) r], w')"
  shows "wp (ZFS_DestroyZvol (traced h) x) Q (l, w)"
  by (rule wpI) (use assms in
    \<open>auto simp: ZFS_DestroyZvol_def bindIO_def wrapIO_def Run_traced Let_def split: prod.splits res.splits\<close>)

lemma delete_logs [simp]:
  "delete_log ds [Ran (zfs [''list'', ''-H'', ''-o'', ''name'', ds]) r1]"
  "delete_log ds [Ran (zfs [''list'', ''-H'', ''-o'', ''name'', ds]) r1, Ran (snapshot_listing ds) r2]"
  "empty_listing r2 \<Longrightarrow> delete_log ds [Ran (zfs [''list'', ''-H'', ''-o'', ''name'', ds]) r1,
     Ran (snapshot_listing ds) r2, Ran (zfs [''destroy'', ds]) r3]"
  by (auto simp: delete_log_def)

lemma localDelete_log_wp:
  assumes "cz c = traced h" "parseExternalID vid = Inr eid" "eNode eid = LocalNode c"
  shows "wp (localDelete c vid) (\<lambda>_ s. \<exists>new. fst s = l @ new \<and> delete_log (eDataset eid) new) (l, w)"
  unfolding localDelete_def Let_def assms(1)
  by (auto simp: wp_simps assms(2,3) after_def split: res.splits
      intro!: Exists_log ListSnapshots_log DestroyZvol_log)

lemma localDelete_log:
  assumes "cz c = traced h" "localDelete c vid (l, w) = (r, (l2, w'))"
  shows "l2 = l \<or> (\<exists>ds new. parseExternalID vid = Inr \<lparr>eNode = LocalNode c, eDataset = ds\<rparr> \<and>
    l2 = l @ new \<and> delete_log ds new)"
proof (cases "\<exists>eid. parseExternalID vid = Inr eid \<and> eNode eid = LocalNode c")
  case True
  then obtain eid where e: "parseExternalID vid = Inr eid" "eNode eid = LocalNode c" by blast
  then have "eid = \<lparr>eNode = LocalNode c, eDataset = eDataset eid\<rparr>" by simp
  with e wpD [OF localDelete_log_wp [OF assms(1) e] assms(2)] show ?thesis by force
next
  case False
  then show ?thesis using assms(2)
    by (cases "parseExternalID vid") (auto simp: localDelete_def bindIO_def)
qed

end
