(* ===== verification/Local_Props.thy ===== *)
theory Local_Props
  imports Zfs_Sim Local_Spec Local_Safety
begin

text \<open>
  The properties of the node-local operations, over any host that behaves as zfs does
  (\<open>zfs_host\<close>), each with an instance on the in-memory simulator: the contracts of delete, create,
  expand, snapshot, restore and clone, what they may ask of the host, and the round trips of ids.
\<close>

section \<open>An example node\<close>

definition demo_cfg :: LocalConfig where
  "demo_cfg = \<lparr>pools = [\<lparr>poolName = ''tank'', poolParentDataset = [], poolReservePercent = Some 10\<rparr>],
     defaultPool = ''tank'', defaultVolblocksize = ''16K'', reservePercent = 0, forwardAddr = [], forwardSecret = []\<rparr>"

definition node_on :: "'w host \<Rightarrow> 'w controller" where
  "node_on h = \<lparr>cz = h, cfg = demo_cfg, parentDataset = ''csi'', LocalNode = ''n1''\<rparr>"

definition demo :: "memZfs controller" where
  "demo = node_on (memHost {})"

definition demo_id :: string where "demo_id = ''local/v1/n1/tank/csi/v''"

definition demo_ds :: string where "demo_ds = ''tank/csi/v''"

definition demo_world :: memZfs where
  "demo_world = newMemZfs\<lparr>mVols := [(demo_ds, 32768)], mSnaps := [demo_ds @ ''@'' @ ''s'']\<rparr>"

definition demo_create :: createArgs where
  "demo_create = \<lparr>caName = ''w'', caPool = ''tank'', caSizeBytes = 32768, caVolblocksize = ''16384'', caFsType = ''ext4'',
     caBlock = False, caContentSnapshotID = [], caContentVolumeID = []\<rparr>"

lemma demo_host: "zfs_host (cz demo) mem_st mem_blk mem_av mem_ps mem_wf"
  by (simp add: demo_def node_on_def memHost_zfs_host)

lemma demo_parse: "parseExternalID demo_id = Inr \<lparr>eNode = LocalNode demo, eDataset = demo_ds\<rparr>"
  by (simp add: demo_id_def demo_ds_def demo_def node_on_def parseExternalID_def numeral_eq_Suc validDataset_def
      HasPrefix_def HasSuffix_def)

lemma demo_ds_name: "ds_name demo_ds"
  by (simp add: ds_name_def demo_ds_def safe_char_def safe_rune_def)

lemma demo_wf: "mem_wf demo_world" "mem_wf newMemZfs"
  using demo_ds_name ds_name_word [OF demo_ds_name] newMemZfs_wf
  by (auto simp: demo_world_def mem_wf_def newMemZfs_def in64_def MinInt64_def MaxInt64_def demo_ds_def
      word_def word_char_def ascii_def is_space_def is_space_rune_def)

section \<open>Volumes\<close>

text \<open>C1. Delete removes exactly the dataset the volume id names, and only when it has no
  snapshots. On success the dataset is gone and, if it was there, it had no snapshot at or below
  it; on a failure nothing changed, and the error is FailedPrecondition just for a volume with
  snapshots, Internal when a command failed. No other dataset, snapshot or property changes on any
  outcome, and there is no panic.\<close>

theorem local_delete:
  assumes "zfs_host (cz c) st blk avail psize ok" "ok w" "ds_name ds"
    and "parseExternalID vid = Inr \<lparr>eNode = LocalNode c, eDataset = ds\<rparr>"
    and "localDelete c vid w = (r, w')"
  shows "ok w' \<and> deleted ds (st w) r (st w')"
  using wpD [OF zfs_host.localDelete_wp [OF assms(1) refl assms(2-4)] assms(5)] .

theorem local_delete_witness:
  "mem_wf (snd (localDelete demo demo_id demo_world))
   \<and> deleted demo_ds (mem_st demo_world) (fst (localDelete demo demo_id demo_world))
       (mem_st (snd (localDelete demo demo_id demo_world)))"
  by (rule local_delete [OF demo_host demo_wf(1) demo_ds_name demo_parse]) simp

text \<open>C2. For every host, whatever its commands answer: the node-local operations other than
  delete never destroy a dataset, only snapshots, and a delete runs at most an existence check, a
  recursive snapshot listing and a destroy of the dataset its id names, in this order, the destroy
  only when the listing showed no snapshot, and never with a recursive or force flag.\<close>

theorem local_destroy_guarded:
  assumes "cz c = traced h"
  shows "emits only_snapshots (localCreate c a) \<and> emits only_snapshots (localExpand c v n l)
    \<and> emits only_snapshots (localSnapshot c sa) \<and> emits only_snapshots (localDeleteSnapshot c i)
    \<and> emits only_snapshots (localListSnapshots c d) \<and> emits only_snapshots (localStats c p)
    \<and> emits only_snapshots (localList c) \<and> emits only_snapshots (local_Probe c)
    \<and> (let log = fst (snd (localDelete c vid ([], w))) in log = [] \<or>
         (\<exists>ds. parseExternalID vid = Inr \<lparr>eNode = LocalNode c, eDataset = ds\<rparr> \<and> delete_log ds log))"
proof -
  obtain r lg w' where "localDelete c vid ([], w) = (r, (lg, w'))" by (metis surj_pair)
  with localDelete_log [OF assms this] show ?thesis
    using localCreate_emits [OF assms] other_ops_emit [OF assms] by auto
qed

theorem local_destroy_guarded_witness:
  "emits only_snapshots (localCreate (node_on (traced (memHost {}))) demo_create)"
  using local_destroy_guarded [of "node_on (traced (memHost {}))" "memHost {}" demo_create]
  by (simp add: node_on_def)


lemma demo_create_ok:
  "ds_name (datasetFor demo (caPool demo_create) (caName demo_create))"
  "0 < caSizeBytes demo_create" "in64 (caSizeBytes demo_create)"
  "parseSizeBytes (caVolblocksize demo_create) = Inr 16384" "16384 dvd caSizeBytes demo_create"
  "caContentSnapshotID demo_create = []" "caContentVolumeID demo_create = []"
proof -
  have "word ''16384''" by (simp add: word_def word_char_def ascii_def is_space_def is_space_rune_def)
  then show "parseSizeBytes (caVolblocksize demo_create) = Inr 16384"
    by (simp add: demo_create_def parseSizeBytes_def word_TrimSpace size_mult_def ParseInt_def
        parse_magnitude_def is_digit_def digit_val_def MinInt64_def MaxInt64_def mul64_def wrap64_def)
qed (simp_all add: demo_create_def datasetFor_def parentDatasetFor_def parentDatasetForPool_def PoolByName_def
  demo_def node_on_def demo_cfg_def ds_name_def safe_char_def safe_rune_def in64_def MinInt64_def MaxInt64_def)


text \<open>Create is idempotent by name and size: after a successful create, repeating it on the
  same pools changes nothing and gives the same answer (or the Internal error of a failed
  command).\<close>

theorem local_create_idempotent:
  assumes "zfs_host (cz c) st blk avail psize ok" "ok w" "ds_name (datasetFor c (caPool a) (caName a))"
    and "0 < caSizeBytes a" "in64 (caSizeBytes a)"
    and "parseSizeBytes (caVolblocksize a) = Inr k" "k dvd caSizeBytes a"
    and "caContentSnapshotID a = []" "caContentVolumeID a = []"
    and "localCreate c a w = (Ok res, w1)" "localCreate c a w1 = (r, w2)"
  shows "st w2 = st w1 \<and> (r = Ok res \<or> (\<exists>e. r = Fail e \<and> err_code e = Some CodeInternal))"
proof -
  have "ok w1" using wpD [OF zfs_host.localCreate_wp [OF assms(1) refl assms(2-9)] assms(10)] by simp
  from wpD [OF zfs_host.localCreate_again [OF assms(1) refl assms(2-10) this refl] assms(11)]
  show ?thesis .
qed

definition demo_created :: memZfs where
  "demo_created = newMemZfs\<lparr>mVols := [(''tank/csi/w'', 32768)]\<rparr>"

lemma demo_created: "localCreate demo demo_create newMemZfs =
  (Ok (create_result demo demo_create ''tank/csi/w''), demo_created)"
  "localCreate demo demo_create demo_created =
  (Ok (create_result demo demo_create ''tank/csi/w''), demo_created)"
  by code_simp+

theorem local_create_idempotent_witness:
  "mem_st (snd (localCreate demo demo_create demo_created)) = mem_st demo_created \<and>
   fst (localCreate demo demo_create demo_created) = fst (localCreate demo demo_create newMemZfs)"
  using local_create_idempotent [OF demo_host demo_wf(2) demo_create_ok demo_created] demo_created by simp

text \<open>C18. Expand never shrinks a volume: on every outcome the dataset has its old size or a larger
  one and nothing else changed. On success the reported capacity is the size of the dataset, at least
  the old size, and, when required plus one block is in the 64-bit range, the smallest multiple of the
  block size at or above the required bytes, within the limit if there is one; OutOfRange is
  reported exactly for a limit that the rounding passes or for a shrink, and then nothing
  changed.\<close>

theorem local_expand:
  assumes "zfs_host (cz c) st blk avail psize ok" "ok w" "parseExternalID vid = Inr eid"
    and "localExpand c vid required limit w = (r, w')"
  shows "ok w' \<and> expanded (eDataset eid) (blk w (eDataset eid)) required limit (st w) r (st w')"
  using wpD [OF zfs_host.localExpand_wp [OF assms(1) refl assms(2,3)] assms(4)] .

theorem local_expand_witness:
  "expanded demo_ds 16384 40000 0 (mem_st demo_world) (fst (localExpand demo demo_id 40000 0 demo_world))
     (mem_st (snd (localExpand demo demo_id 40000 0 demo_world)))"
  using local_expand [OF demo_host demo_wf(1) demo_parse, of 40000 0
      "fst (localExpand demo demo_id 40000 0 demo_world)" "snd (localExpand demo demo_id 40000 0 demo_world)"]
  by (simp add: mem_blk_def demo_world_def newMemZfs_def)

section \<open>Snapshots and copies\<close>

text \<open>A snapshot of an existing volume under a name it does not have yet: on success exactly
  that snapshot is added, the answer is ready to use, carries the size of the volume and an id of
  this node, the dataset and the sanitized name; on a failure the state is the old one or has just
  that snapshot more (when reading its size or time failed).\<close>

theorem local_snapshot:
  assumes "zfs_host (cz c) st blk avail psize ok" "ok w"
    and "parseExternalID (saSourceVolumeID a) = Inr eid" "ds_name (eDataset eid)"
    and "vols (st w) (eDataset eid) \<noteq> None" "saName a \<noteq> []"
    and "eDataset eid @ ''@'' @ sanitizeName (saName a) \<notin> snaps (st w)"
    and "localSnapshot c a w = (r, w')"
  shows "ok w' \<and> snapped c (eDataset eid) (sanitizeName (saName a)) (st w) r (st w')"
proof -
  have at: "CHR ''@'' \<notin> set (eDataset eid)" using ds_name_chars [OF assms(4)] by blast
  have "word (sanitizeName (saName a))"
    using sanitizeName_safe [of "saName a"] sanitizeName_nonempty [OF assms(6)] safe_word_char
    unfolding word_def list_all_iff by blast
  from wpD [OF zfs_host.localSnapshot_wp [OF assms(1) refl assms(2,3) at assms(5) this assms(7)] assms(8)]
  show ?thesis .
qed

definition demo_snap :: snapshotArgs where
  "demo_snap = \<lparr>saSourceVolumeID = demo_id, saName = ''t''\<rparr>"

theorem local_snapshot_witness:
  "snapped demo demo_ds ''t'' (mem_st demo_world) (fst (localSnapshot demo demo_snap demo_world))
     (mem_st (snd (localSnapshot demo demo_snap demo_world)))"
proof -
  have t: "sanitizeName (saName demo_snap) = ''t''"
    by (simp add: demo_snap_def sanitizeName_id safe_char_def safe_rune_def)
  have p: "parseExternalID (saSourceVolumeID demo_snap) = Inr \<lparr>eNode = LocalNode demo, eDataset = demo_ds\<rparr>"
    by (simp add: demo_snap_def demo_parse)
  show ?thesis
    using local_snapshot [OF demo_host demo_wf(1) p _ _ _ _ surjective_pairing] demo_ds_name t
    by (simp add: demo_world_def mem_st_def demo_snap_def)
qed

text \<open>Deleting a snapshot removes exactly the snapshot its id names, and succeeds when it is
  absent already; on a failure nothing changed.\<close>

theorem local_delete_snapshot:
  assumes "zfs_host (cz c) st blk avail psize ok" "ok w" "parseSnapshotID i = Inr sid"
    and "localDeleteSnapshot c i w = (r, w')"
  shows "ok w' \<and> unsnapped (sDataset sid @ ''@'' @ sSnapName sid) (st w) r (st w')"
  using wpD [OF zfs_host.localDeleteSnapshot_wp [OF assms(1) refl assms(2,3)] assms(4)] .

definition demo_sid :: snapshotID where
  "demo_sid = \<lparr>sNode = ''n1'', sDataset = demo_ds, sSnapName = ''s''\<rparr>"

lemma demo_sid: "parseSnapshotID (snapshotID_String demo_sid) = Inr demo_sid"
  by (simp add: parseSnapshotID_iff sid_wf_def demo_sid_def demo_ds_def validDataset_def HasPrefix_def HasSuffix_def)

theorem local_delete_snapshot_witness:
  "unsnapped (demo_ds @ ''@s'') (mem_st demo_world)
     (fst (localDeleteSnapshot demo (snapshotID_String demo_sid) demo_world))
     (mem_st (snd (localDeleteSnapshot demo (snapshotID_String demo_sid) demo_world)))"
  using local_delete_snapshot [OF demo_host demo_wf(1) demo_sid surjective_pairing]
  by (simp add: demo_sid_def)


text \<open>Restoring a snapshot into a new dataset: likewise, the only snapshot that can be added
  is the received one, which the operation drops after the copy.\<close>

theorem local_restore:
  assumes "zfs_host (cz c) st blk avail psize ok" "ok w" "parseSnapshotID (caContentSnapshotID a) = Inr sid"
    and "sDataset sid @ ''@'' @ sSnapName sid \<in> snaps (st w)" "CHR ''@'' \<notin> set (sDataset sid)" "word (sSnapName sid)"
    and "ds_name dest" "vols (st w) dest = None" "dest @ ''@'' @ sSnapName sid \<notin> snaps (st w)"
    and "in64 (caSizeBytes a)" "0 < caSizeBytes a" "word (caContentSnapshotID a)"
    and "restoreFromSnapshot c a dest w = (r, w')"
  shows "ok w' \<and> copied dest {dest @ ''@'' @ sSnapName sid} (caContentSnapshotID a) (caSizeBytes a) (st w) r (st w')"
  using wpD [OF zfs_host.restore_wp [OF assms(1) refl assms(2-12)] assms(13)] .


definition demo_restore :: createArgs where
  "demo_restore = demo_create\<lparr>caContentSnapshotID := snapshotID_String demo_sid\<rparr>"

lemmas demo_words = word_def word_char_def ascii_def is_space_def is_space_rune_def


theorem local_restore_witness:
  "copied ''tank/csi/w'' {''tank/csi/w@s''} (snapshotID_String demo_sid) 32768 (mem_st demo_world)
     (fst (restoreFromSnapshot demo demo_restore ''tank/csi/w'' demo_world))
     (mem_st (snd (restoreFromSnapshot demo demo_restore ''tank/csi/w'' demo_world)))"
proof -
  have p: "parseSnapshotID (caContentSnapshotID demo_restore) = Inr demo_sid"
    by (simp add: demo_restore_def demo_sid)
  show ?thesis
    using local_restore [OF demo_host demo_wf(1) p _ _ _ _ _ _ _ _ _ surjective_pairing, of "''tank/csi/w''"]
      demo_create_ok(2,3)
    by (simp add: demo_world_def mem_st_def demo_restore_def demo_create_def demo_ds_def demo_sid_def
        demo_words ds_name_def safe_char_def safe_rune_def snapshotID_String_def snapshotIDPrefix_def)
qed

section \<open>Ids, names and sizes\<close>

text \<open>Parsing and printing of volume and snapshot ids are inverse: an id parses to a record just
  when the record is well-formed (a node name without slash, a valid dataset path, for a snapshot a
  name without slash) and the id is its printed form; a volume id never parses as a snapshot id.\<close>

theorem ids_round_trip:
  "(parseExternalID s = Inr e \<longleftrightarrow> eid_wf e \<and> s = externalID_String e) \<and>
   (parseSnapshotID s = Inr d \<longleftrightarrow> sid_wf d \<and> s = snapshotID_String d) \<and>
   \<not> (parseExternalID s = Inr e \<and> parseSnapshotID s = Inr d)"
  by (auto simp: parseExternalID_iff parseSnapshotID_iff externalID_String_def snapshotID_String_def
      externalIDPrefix_def snapshotIDPrefix_def)

text \<open>The name a volume gets is safe in a dataset path: at most 200 characters, only letters,
  digits and the four marks zfs allows (so no slash, no at sign, no space), never empty for a name
  that is not empty, and stable when sanitized again. Below a valid parent the volume id made from it
  parses back, unless the name has two dots in a row: such a volume can be created but its id is
  refused by every later operation.\<close>

theorem sanitized_name_id:
  assumes "name \<noteq> []" "node \<noteq> []" "CHR ''/'' \<notin> set node" "validDataset parent"
  shows "let n = sanitizeName name; e = \<lparr>eNode = node, eDataset = parent @ ''/'' @ n\<rparr> in
    n \<noteq> [] \<and> length n \<le> 200 \<and> list_all safe_char n \<and> sanitizeName n = n \<and>
    parseExternalID (externalID_String e) =
      (if Contains n ''..'' then Inl (InvalidArgument ''malformed local volume id %q'') else Inr e)"
proof -
  let ?n = "sanitizeName name"
  have "CHR ''/'' \<notin> set ?n" using sanitizeName_safe [of name] safe_char_not_sep unfolding list_all_iff by blast
  from validDataset_child [OF assms(4) this] sanitizeName_nonempty [OF assms(1)]
  have v: "validDataset (parent @ CHR ''/'' # ?n) \<longleftrightarrow> \<not> Contains ?n ''..''" by simp
  have "list_all safe_char ?n" by (rule sanitizeName_safe)
  with v sanitizeName_nonempty [OF assms(1)] assms(2,3) show ?thesis
    by (simp add: Let_def sanitizeName_length sanitizeName_idem parseExternalID_String)
qed

theorem sanitized_name_id_witness:
  "parseExternalID (externalID_String \<lparr>eNode = ''n1'', eDataset = ''tank/csi/a..b''\<rparr>)
     = Inl (InvalidArgument ''malformed local volume id %q'')"
proof -
  have "sanitizeName ''a..b'' = ''a..b''" by (simp add: sanitizeName_id safe_char_def safe_rune_def)
  then show ?thesis
    using sanitized_name_id [of "''a..b''" "''n1''" "''tank/csi''"]
    by (simp add: Let_def validDataset_def HasPrefix_def HasSuffix_def)
qed

text \<open>Rounding a capacity request to the block size, when the request plus one block is in the
  64-bit range: the result is the smallest multiple of the block size that holds the required bytes,
  and the only error is OutOfRange, when no multiple of the block size lies between the required bytes
  and the limit.\<close>

theorem round_up_to_block:
  assumes "parseSizeBytes vbs = Inr b" "0 < b" "0 < requiredBytes cr" "in64 (requiredBytes cr + b - 1)"
  shows "case roundUpToBlock cr vbs of
      Ok n \<Rightarrow> b dvd n \<and> requiredBytes cr \<le> n \<and> n < requiredBytes cr + b \<and> (limitBytes cr \<le> 0 \<or> n \<le> limitBytes cr)
    | Fail e \<Rightarrow> err_code e = Some CodeOutOfRange \<and> 0 < limitBytes cr \<and>
        (\<nexists>n. b dvd n \<and> requiredBytes cr \<le> n \<and> n \<le> limitBytes cr)
    | Panic _ \<Rightarrow> False"
proof -
  let ?r = "roundUp (requiredBytes cr) b"
  note ex = roundUp_exact [OF assms(3,2,4)]
  have "?r \<le> n" if n: "b dvd n" "requiredBytes cr \<le> n" for n
  proof (rule ccontr)
    assume "\<not> ?r \<le> n"
    then have "0 < ?r - n" "?r - n < b" using ex(4) n(2) by linarith+
    moreover have "b dvd ?r - n" using ex(2) n(1) by (rule dvd_diff)
    ultimately show False using zdvd_imp_le by fastforce
  qed
  then have "limitBytes cr < ?r \<Longrightarrow> \<nexists>n. b dvd n \<and> requiredBytes cr \<le> n \<and> n \<le> limitBytes cr"
    by fastforce
  then show ?thesis using ex(2-4) assms(1-3)
    by (simp add: roundUpToBlock_def Let_def not_less)
qed

theorem round_up_to_block_witness:
  "roundUpToBlock \<lparr>requiredBytes = 20000, limitBytes = 0\<rparr> ''16384'' = Ok 32768"
proof -
  let ?cr = "\<lparr>requiredBytes = 20000, limitBytes = 0\<rparr>"
  have p: "parseSizeBytes ''16384'' = Inr 16384" using demo_create_ok(4) by (simp add: demo_create_def)
  have "case roundUpToBlock ?cr ''16384'' of Ok n \<Rightarrow> 16384 dvd n \<and> 20000 \<le> n \<and> n < 36384 | _ \<Rightarrow> False"
    using round_up_to_block [OF p, of ?cr] by (auto simp: in64_def MinInt64_def MaxInt64_def split: res.splits)
  moreover have "n = 32768" if "16384 dvd n" "20000 \<le> n" "n < 36384" for n :: int
    using that by (auto simp: dvd_def)
  ultimately show ?thesis by (auto split: res.splits)
qed

text \<open>The block size of a volume is multiplied out in 64 bits without a check: a volblocksize
  parameter that wraps to 0 passes the validation of the parameters and makes the rounding of the
  requested size divide by zero, so the request panics.\<close>

theorem volblocksize_wraps:
  "(0 < requiredBytes cr \<longrightarrow> roundUpToBlock cr ''18014398509481984K'' = Panic ''runtime error: integer divide by zero'')
   \<and> parseSizeBytes ''18014398509481984K'' = Inr 0"
proof -
  have "parseSizeBytes ''18014398509481984K'' = Inr 0" by code_simp
  then show ?thesis by (simp add: roundUpToBlock_def Let_def)
qed

theorem volblocksize_wraps_witness:
  "roundUpToBlock \<lparr>requiredBytes = 1, limitBytes = 0\<rparr> ''18014398509481984K''
     = Panic ''runtime error: integer divide by zero''"
  using volblocksize_wraps [of "\<lparr>requiredBytes = 1, limitBytes = 0\<rparr>"] by simp

text \<open>The configuration check accepts exactly the configurations the operations rely on (at
  least one pool, distinct bare pool names, a default pool among them), and with one the parameters
  of a request resolve only to a configured pool, an ext4 or xfs file system or a block volume, a
  block size that parses, and some placement.\<close>

theorem pools_and_params:
  "(validatePools lc = Inr () \<longleftrightarrow> config_wf lc) \<and>
   (case resolveParams lc p caps of Inl e \<Rightarrow> err_code e = Some CodeInvalidArgument
    | Inr vp \<Rightarrow> vpPool vp \<in> set (PoolNames lc) \<and> CHR ''/'' \<notin> set (vpPool vp) \<and>
        (vpBlock vp \<or> vpFsType vp = ''ext4'' \<or> vpFsType vp = ''xfs'') \<and>
        (\<exists>b. parseSizeBytes (vpVolblocksize vp) = Inr b) \<and> vpHost vp \<noteq> [])"
proof -
  have "resolveParams lc p caps = Inl e \<Longrightarrow> err_code e = Some CodeInvalidArgument" for e
    by (auto simp: resolveParams_def Let_def split: if_split_asm sum.split_asm)
  then show ?thesis using resolveParams_Inr [of lc p caps] validatePools_iff [of lc]
    by (auto split: sum.splits)
qed

end
