(* ===== verification/Go_Clock.thy ===== *)
theory Go_Clock
  imports Exec_Runner
begin

text \<open>
  Waiting loops. \<open>clock\<close> is what package time and a context give such a loop: the current time and
  a pause that ends early, with the context's error, when the context is done. \<open>poll\<close> is the loop
  the sources write in several places: try, give up after a deadline, pause, try again. It is a
  partial function: not returning is \<^term>\<open>None\<close>. The locale \<open>ticking\<close> states what the loop needs to
  end (pauses take their time), and shows that it ends. Addresses of net and paths of path/filepath are the other
  library code here.
\<close>

section \<open>Polling\<close>

type_synonym time = int

definition Millisecond :: int where "Millisecond = 1000000"

record 'w clock =
  Now :: "'w \<Rightarrow> time \<times> 'w"
  Pause :: "int \<Rightarrow> 'w \<Rightarrow> err option \<times> 'w"

text \<open>\<open>attempt\<close> gives \<^term>\<open>Some\<close> outcome to return it, or \<^term>\<open>None\<close> to go on; \<open>late\<close> is what is returned after the
  deadline.\<close>

partial_function (option) poll ::
  "'w clock \<Rightarrow> ('w \<Rightarrow> 'a res option \<times> 'w) \<Rightarrow> ('a res) \<Rightarrow> int \<Rightarrow> time \<Rightarrow> 'w \<Rightarrow> ('a res \<times> 'w) option" where
  "poll ck attempt late step deadline w = (case attempt w of
     (Some r, w1) \<Rightarrow> Some (r, w1)
   | (None, w1) \<Rightarrow> (case Now ck w1 of (now, w2) \<Rightarrow>
       if deadline < now then Some (late, w2)
       else (case Pause ck step w2 of
           (Some e, w3) \<Rightarrow> Some (Fail e, w3)
         | (None, w3) \<Rightarrow> poll ck attempt late step deadline w3)))"

declare poll.simps [code]

text \<open>What a clock promises: time does not run backwards, and a pause that was not cut short lasts.\<close>

locale ticking =
  fixes ck :: "'w clock" and time :: "'w \<Rightarrow> int"
  assumes now_reads: "Now ck w = (t, w') \<Longrightarrow> time w \<le> t \<and> t \<le> time w'"
    and pause_lasts: "Pause ck d w = (None, w') \<Longrightarrow> time w + d \<le> time w'"
begin

text \<open>The loop ends, after at most the timeout divided by the pause attempts beyond the first two, and
  with the outcome of an attempt, the late outcome or the error of the context.\<close>

lemma poll_ends:
  assumes forward: "\<And>w r w'. attempt w = (r, w') \<Longrightarrow> time w \<le> time w'" and step: "0 < step"
  shows "\<exists>r w'. poll ck attempt late step deadline w = Some (r, w') \<and>
    (r = late \<or> (\<exists>v. fst (attempt v) = Some r) \<or> (\<exists>e v. r = Fail e \<and> fst (Pause ck step v) = Some e))"
proof (induction "nat (deadline + step - time w)" arbitrary: w rule: less_induct)
  case less
  obtain a w1 where a: "attempt w = (a, w1)" by fastforce
  show ?case
  proof (cases a)
    case (Some r)
    then show ?thesis using a by (subst poll.simps) (auto intro!: exI [of _ w])
  next
    case None
    obtain t w2 where n: "Now ck w1 = (t, w2)" by fastforce
    show ?thesis
    proof (cases "deadline < t")
      case True
      then show ?thesis using a None n by (subst poll.simps) simp
    next
      case False
      obtain p w3 where p: "Pause ck step w2 = (p, w3)" by fastforce
      show ?thesis
      proof (cases p)
        case (Some e)
        then show ?thesis using a None n False p by (subst poll.simps) (auto intro!: exI [of _ w2])
      next
        case p0: None
        have "time w \<le> time w1" "time w1 \<le> t" "t \<le> time w2" "time w2 + step \<le> time w3"
          using forward [OF a] now_reads [OF n] pause_lasts [OF p [unfolded p0]] by auto
        then have "nat (deadline + step - time w3) < nat (deadline + step - time w)"
          using step False by linarith
        from less [OF this] show ?thesis using a None n False p p0 by (subst poll.simps) simp
      qed
    qed
  qed
qed

end

text \<open>A clock that counts nanoseconds as the world.\<close>

definition counter_clock :: "int clock" where
  "counter_clock = \<lparr>Now = (\<lambda>t. (t, t)), Pause = (\<lambda>d t. (None, t + d))\<rparr>"

interpretation counter: ticking counter_clock "\<lambda>t. t"
  by unfold_locales (auto simp: counter_clock_def)

section \<open>net\<close>

text \<open>\<^verbatim>\<open>net.SplitHostPort\<close> (\<^term>\<open>None\<close> is an error) and \<^verbatim>\<open>net.JoinHostPort\<close>.\<close>

definition SplitHostPort :: "string \<Rightarrow> (string \<times> string) option" where
  "SplitHostPort hp =
     (let i = LastIndexByte hp (CHR '':'') in
      if i < 0 then None
      else if hd hp = CHR ''['' then
        (let e = IndexByte hp (CHR '']'') in
         if e < 0 \<or> e + 1 \<noteq> i then None
         else if CHR ''['' \<in> set (drop 1 hp) \<or> CHR '']'' \<in> set (drop (nat (e + 1)) hp) then None
         else Some (take (nat (e - 1)) (drop 1 hp), drop (nat (i + 1)) hp))
      else if CHR '':'' \<in> set (take (nat i) hp) \<or> CHR ''['' \<in> set hp \<or> CHR '']'' \<in> set hp then None
      else Some (take (nat i) hp, drop (nat (i + 1)) hp))"

definition JoinHostPort :: "string \<Rightarrow> string \<Rightarrow> string" where
  "JoinHostPort host port = (if CHR '':'' \<in> set host then ''['' @ host @ '']:'' @ port else host @ '':'' @ port)"

section \<open>path/filepath\<close>

text \<open>\<^verbatim>\<open>Clean\<close>: drop empty and dot components, let a double dot remove the component before it.\<close>

definition clean_step :: "bool \<Rightarrow> string list \<Rightarrow> string \<Rightarrow> string list" where
  "clean_step rooted acc c =
     (if c = [] \<or> c = ''.'' then acc
      else if c = ''..'' then
        (if acc \<noteq> [] \<and> hd acc \<noteq> ''..'' then tl acc else if rooted then acc else c # acc)
      else c # acc)"

definition path_Clean :: "string \<Rightarrow> string" where
  "path_Clean p = (if p = [] then ''.''
     else let rooted = (hd p = CHR ''/''); cs = rev (foldl (clean_step rooted) [] (Split (CHR ''/'') p))
          in if rooted then CHR ''/'' # Join (CHR ''/'') cs
             else if cs = [] then ''.'' else Join (CHR ''/'') cs)"

definition path_Join :: "string list \<Rightarrow> string" where
  "path_Join es = (let ne = filter (\<lambda>e. e \<noteq> []) es in if ne = [] then [] else path_Clean (Join (CHR ''/'') ne))"

text \<open>\<^verbatim>\<open>Base\<close>: the last component; a dot for the empty path, a slash for slashes only.\<close>

definition path_Base :: "string \<Rightarrow> string" where
  "path_Base p = (if p = [] then ''.''
     else let q = rev (dropWhile (\<lambda>c. c = CHR ''/'') (rev p))
          in if q = [] then ''/'' else last (Split (CHR ''/'') q))"

text \<open>Components that clean up to themselves.\<close>

definition plain_component :: "string \<Rightarrow> bool" where
  "plain_component c \<longleftrightarrow> c \<noteq> [] \<and> c \<noteq> ''.'' \<and> c \<noteq> ''..'' \<and> CHR ''/'' \<notin> set c"

lemma clean_plain: "list_all plain_component cs \<Longrightarrow> foldl (clean_step r) acc cs = rev cs @ acc"
  by (induction cs arbitrary: acc) (auto simp: clean_step_def plain_component_def)

end
