(* ===== verification/Mountutil.thy ===== *)
theory Mountutil
  imports Exec_Runner
begin

text \<open>
  \<^verbatim>\<open>internal/mountutil\<close>: the shared layer from a block device to a mounted file system
  (mountutil.go) and statfs (statfs.go), over the commands of a \<open>host\<close>. Metrics and log lines
  have no result and are left out. The lemmas show for every host which commands an operation
  may issue (in particular that mkfs runs only right after blkid found the device empty), and that
  parsing the mount table inverts the escaping of findmnt.
\<close>

section \<open>Detecting and formatting\<close>

definition blkid :: "string \<Rightarrow> command" where
  "blkid device = cmd ''blkid'' [''-o'', ''value'', ''-s'', ''TYPE'', device]"

definition DetectFilesystem :: "'w host \<Rightarrow> string \<Rightarrow> ('w, string) io" where
  "DetectFilesystem h device = tryIO (Run h (blkid device)) (\<lambda>r. case r of
     Inl e \<Rightarrow> (if IsExit e 2 then ret [] else fail (WrapErr ''blkid %s'' e))
   | Inr out \<Rightarrow> ret (TrimSpace (Stdout out)))"

definition mkfsCommand :: "string \<Rightarrow> string \<Rightarrow> string list \<Rightarrow> err + string list" where
  "mkfsCommand fsType device extra =
     (if fsType = ''ext4'' then Inr ([''mkfs.ext4'', ''-F'', device] @ extra)
      else if fsType = ''xfs'' then Inr ([''mkfs.xfs'', ''-f'', device] @ extra)
      else Inl (PlainErr ''unsupported filesystem %q (want ext4|xfs)''))"

definition FormatIfEmpty :: "'w host \<Rightarrow> string \<Rightarrow> string \<Rightarrow> string list \<Rightarrow> ('w, bool) io" where
  "FormatIfEmpty h device fsType mkfsArgs =
     bindIO (DetectFilesystem h device) (\<lambda>existing.
     if existing \<noteq> [] then
       (if existing = fsType then ret False
        else fail (PlainErr ''device %s already carries filesystem %q, refusing to format as %q''))
     else bindIO (liftE (mkfsCommand fsType device mkfsArgs)) (\<lambda>args.
     bindIO (wrapIO (WrapErr ''formatting %s as %s'') (Run h (cmd (hd args) (tl args)))) (\<lambda>_.
     ret True)))"

section \<open>Mounting\<close>

definition findmnt_target :: "string \<Rightarrow> command" where
  "findmnt_target target = cmd ''findmnt'' [''-n'', ''-o'', ''TARGET'', ''--target'', target]"

definition IsMounted :: "'w host \<Rightarrow> string \<Rightarrow> ('w, bool) io" where
  "IsMounted h target = tryIO (Run h (findmnt_target target)) (\<lambda>r. case r of
     Inl e \<Rightarrow> (if IsExit e 1 then ret False else fail (WrapErr ''findmnt %s'' e))
   | Inr out \<Rightarrow> ret (TrimSpace (Stdout out) = target))"

definition mount_args :: "string \<Rightarrow> string \<Rightarrow> string \<Rightarrow> string list \<Rightarrow> string list" where
  "mount_args device target fsType flags =
     [''-t'', fsType] @ (if flags \<noteq> [] then [''-o'', Join (CHR '','') flags] else []) @ [device, target]"

definition Mount :: "'w host \<Rightarrow> string \<Rightarrow> string \<Rightarrow> string \<Rightarrow> string list \<Rightarrow> ('w, unit) io" where
  "Mount h device target fsType flags =
     bindIO (wrapIO (WrapErr ''creating mount target %s'') (MkdirAll h target)) (\<lambda>_.
     bindIO (IsMounted h target) (\<lambda>mounted.
     if mounted then ret ()
     else bindIO (wrapIO (WrapErr ''mounting %s at %s'')
       (Run h (cmd ''mount'' (mount_args device target fsType flags)))) (\<lambda>_. ret ())))"

fun IsNotExist :: "err \<Rightarrow> bool" where
  "IsNotExist (NotExistErr _) = True"
| "IsNotExist _ = False"

definition ensureTarget :: "'w host \<Rightarrow> string \<Rightarrow> bool \<Rightarrow> ('w, unit) io" where
  "ensureTarget h target isDir =
     (if isDir then wrapIO (WrapErr ''creating bind target dir %s'') (MkdirAll h target)
      else tryIO (StatPath h target) (\<lambda>r. case r of
        Inr _ \<Rightarrow> ret ()
      | Inl e \<Rightarrow> (if \<not> IsNotExist e then fail (WrapErr ''stat bind target %s'' e)
                  else wrapIO (WrapErr ''creating bind target file %s'') (CreateFile h target))))"

definition BindMount :: "'w host \<Rightarrow> string \<Rightarrow> string \<Rightarrow> bool \<Rightarrow> bool \<Rightarrow> ('w, unit) io" where
  "BindMount h source target isDir readonly =
     bindIO (ensureTarget h target isDir) (\<lambda>_.
     bindIO (IsMounted h target) (\<lambda>mounted.
     bindIO (if \<not> mounted
             then bindIO (wrapIO (WrapErr ''bind-mounting %s at %s'')
               (Run h (cmd ''mount'' [''--bind'', source, target]))) (\<lambda>_. ret ())
             else ret ()) (\<lambda>_.
     if readonly
     then bindIO (wrapIO (WrapErr ''remounting %s read-only'')
       (Run h (cmd ''mount'' [''-o'', ''remount,ro,bind'', target]))) (\<lambda>_. ret ())
     else ret ())))"

definition Unmount :: "'w host \<Rightarrow> string \<Rightarrow> ('w, unit) io" where
  "Unmount h target =
     bindIO (IsMounted h target) (\<lambda>mounted.
     if \<not> mounted then ret ()
     else tryIO (Run h (cmd ''umount'' [target])) (\<lambda>r. case r of
       Inr _ \<Rightarrow> ret ()
     | Inl e \<Rightarrow> tryIO (IsMounted h target) (\<lambda>again. case again of
         Inr False \<Rightarrow> ret ()
       | _ \<Rightarrow> fail (WrapErr ''unmounting %s'' e))))"

section \<open>The mount table\<close>

record MountEntry =
  mtTarget :: string
  mtSource :: string

text \<open>The value of a hexadecimal digit, as \<^verbatim>\<open>strconv.ParseUint(s, 16, 8)\<close> reads it.\<close>

definition hex_val :: "char \<Rightarrow> nat option" where
  "hex_val c = (let n = of_char c :: nat in
     if 48 \<le> n \<and> n \<le> 57 then Some (n - 48)
     else if 97 \<le> n \<and> n \<le> 102 then Some (n - 87)
     else if 65 \<le> n \<and> n \<le> 70 then Some (n - 55) else None)"

fun unescape :: "string \<Rightarrow> string" where
  "unescape (a # b # c # d # r) =
     (if a = CHR 0x5C \<and> b = CHR ''x'' \<and> hex_val c \<noteq> None \<and> hex_val d \<noteq> None
      then char_of (16 * the (hex_val c) + the (hex_val d)) # unescape r
      else a # unescape (b # c # d # r))"
| "unescape s = s"

definition unescapeRaw :: "string \<Rightarrow> string" where
  "unescapeRaw s = (if \<not> Contains s [CHR 0x5C, CHR ''x''] then s else unescape s)"

definition mount_line :: "string \<Rightarrow> MountEntry option" where
  "mount_line l = (let line = TrimSpace l in
     if line = [] then None
     else case SplitN (CHR '' '') 2 line of
       [t, s] \<Rightarrow> Some \<lparr>mtTarget = unescapeRaw t, mtSource = unescapeRaw (TrimSpace s)\<rparr>
     | fs \<Rightarrow> Some \<lparr>mtTarget = unescapeRaw (hd fs), mtSource = []\<rparr>)"

definition parseMounts :: "string \<Rightarrow> MountEntry list" where
  "parseMounts text = List.map_filter mount_line (Split NL text)"

definition ListMounts :: "'w host \<Rightarrow> ('w, MountEntry list) io" where
  "ListMounts h = tryIO (Run h (cmd ''findmnt'' [''-rn'', ''-o'', ''TARGET,SOURCE''])) (\<lambda>r. case r of
     Inl e \<Rightarrow> (if IsExit e 1 then ret [] else fail (WrapErr ''findmnt list'' e))
   | Inr out \<Rightarrow> ret (parseMounts (Stdout out)))"

section \<open>Growing\<close>

definition Resize :: "'w host \<Rightarrow> string \<Rightarrow> string \<Rightarrow> string \<Rightarrow> ('w, unit) io" where
  "Resize h device mountpoint fsType =
     (if fsType = ''ext4''
      then bindIO (wrapIO (WrapErr ''resize2fs %s'') (Run h (cmd ''resize2fs'' [device]))) (\<lambda>_. ret ())
      else if fsType = ''xfs''
      then bindIO (wrapIO (WrapErr ''xfs_growfs %s'') (Run h (cmd ''xfs_growfs'' [mountpoint]))) (\<lambda>_. ret ())
      else fail (PlainErr ''unsupported filesystem %q for resize (want ext4|xfs)''))"

definition SourceDevice :: "'w host \<Rightarrow> string \<Rightarrow> ('w, string) io" where
  "SourceDevice h path =
     bindIO (wrapIO (WrapErr ''findmnt source of %s'')
       (Run h (cmd ''findmnt'' [''-n'', ''-o'', ''SOURCE'', ''--target'', path]))) (\<lambda>out.
     let dev = TrimSpace (Stdout out) in
     if dev = [] then fail (PlainErr ''no source device for %s'') else ret dev)"

section \<open>statfs.go\<close>

record FSStats =
  fsTotalBytes :: int
  fsUsedBytes :: int
  fsAvailableBytes :: int
  fsTotalInodes :: int
  fsUsedInodes :: int
  fsFreeInodes :: int

text \<open>The counters arrive in the order of the host's \<open>Statfs\<close>; the conversions to \<^verbatim>\<open>int64\<close> wrap.\<close>

definition fs_stats :: "int list \<Rightarrow> FSStats" where
  "fs_stats cs = (let bs = wrap64 (cs ! 0); tot = mul64 (wrap64 (cs ! 1)) bs; free = mul64 (wrap64 (cs ! 2)) bs
     in \<lparr>fsTotalBytes = tot, fsUsedBytes = sub64 tot free, fsAvailableBytes = mul64 (wrap64 (cs ! 3)) bs,
         fsTotalInodes = wrap64 (cs ! 4), fsUsedInodes = sub64 (wrap64 (cs ! 4)) (wrap64 (cs ! 5)),
         fsFreeInodes = wrap64 (cs ! 5)\<rparr>)"

definition StatFS :: "'w host \<Rightarrow> string \<Rightarrow> ('w, FSStats) io" where
  "StatFS h path = bindIO (wrapIO (WrapErr ''statfs %s'') (Statfs h path)) (\<lambda>cs. ret (fs_stats cs))"

section \<open>What may be formatted\<close>

text \<open>The device a log entry formats.\<close>

fun formats :: "event \<Rightarrow> string option" where
  "formats (Ran c r) = (if HasPrefix (Name c) ''mkfs'' then Some (Args c ! 1) else None)"
| "formats _ = None"

text \<open>The entry is a probe of the device that found nothing on it.\<close>

fun found_empty :: "string \<Rightarrow> event \<Rightarrow> bool" where
  "found_empty device (Ran c r) \<longleftrightarrow> c = blkid device \<and>
     (case r of Ok out \<Rightarrow> TrimSpace (Stdout out) = [] | Fail e \<Rightarrow> IsExit e 2 | Panic _ \<Rightarrow> False)"
| "found_empty _ _ \<longleftrightarrow> False"

text \<open>Each mkfs comes right after a probe of the same device that found it empty.\<close>

definition mkfs_guarded :: "event list \<Rightarrow> bool" where
  "mkfs_guarded l \<longleftrightarrow> (\<forall>i < length l. \<forall>d. formats (l ! i) = Some d \<longrightarrow> 0 < i \<and> found_empty d (l ! (i - 1)))"

lemma mkfs_guarded_append: "mkfs_guarded a \<Longrightarrow> mkfs_guarded b \<Longrightarrow> mkfs_guarded (a @ b)"
  unfolding mkfs_guarded_def
proof (intro allI impI)
  fix i d assume a: "\<forall>i<length a. \<forall>d. formats (a ! i) = Some d \<longrightarrow> 0 < i \<and> found_empty d (a ! (i - 1))"
    and b: "\<forall>i<length b. \<forall>d. formats (b ! i) = Some d \<longrightarrow> 0 < i \<and> found_empty d (b ! (i - 1))"
    and i: "i < length (a @ b)" "formats ((a @ b) ! i) = Some d"
  show "0 < i \<and> found_empty d ((a @ b) ! (i - 1))"
  proof (cases "i < length a")
    case True
    then have "i - 1 < length a" by simp
    then show ?thesis using True a i by (simp add: nth_append)
  next
    case False
    then have "i - length a < length b" "formats (b ! (i - length a)) = Some d"
      using i by (auto simp: nth_append)
    then have "0 < i - length a \<and> found_empty d (b ! (i - length a - 1))" using b by blast
    moreover have "i - length a - 1 = i - 1 - length a" by simp
    moreover have "\<not> i - 1 < length a" using calculation(1) by linarith
    ultimately show ?thesis by (simp add: nth_append)
  qed
qed

interpretation mk: log_closed mkfs_guarded
  by unfold_locales (simp add: mkfs_guarded_def, rule mkfs_guarded_append)

definition no_mkfs :: "event \<Rightarrow> bool" where
  "no_mkfs e \<longleftrightarrow> formats e = None"

lemma no_mkfs_guarded: "list_all no_mkfs l \<Longrightarrow> mkfs_guarded l"
  by (auto simp: mkfs_guarded_def list_all_iff no_mkfs_def)

lemma no_mkfs_simps [simp]: "no_mkfs (Ran (cmd n a) r) \<longleftrightarrow> \<not> HasPrefix n ''mkfs''" "no_mkfs (MadeDir p)"
  "no_mkfs (MadeFile p)" "no_mkfs (Piped x y u)"
  by (auto simp: no_mkfs_def cmd_def)

lemmas probe_defs = blkid_def findmnt_target_def

lemma mount_emits:
  "emits no_mkfs (DetectFilesystem (traced h) d)" "emits no_mkfs (IsMounted (traced h) t)"
  "emits no_mkfs (Mount (traced h) d t f fl)" "emits no_mkfs (BindMount (traced h) d t b ro)"
  "emits no_mkfs (Unmount (traced h) t)" "emits no_mkfs (ListMounts (traced h))"
  "emits no_mkfs (Resize (traced h) d t f)" "emits no_mkfs (SourceDevice (traced h) t)"
  "emits no_mkfs (StatFS (traced h) t)"
  unfolding DetectFilesystem_def IsMounted_def Mount_def BindMount_def Unmount_def ListMounts_def Resize_def
    SourceDevice_def StatFS_def ensureTarget_def probe_defs
  by (auto intro!: emits_intros simp: HasPrefix_def split: bool.split sum.split)

lemma mkfsCommand_Inr: "mkfsCommand fs d ex = Inr args \<Longrightarrow>
  HasPrefix (hd args) ''mkfs'' \<and> tl args ! 1 = d \<and> (fs = ''ext4'' \<or> fs = ''xfs'')"
  by (auto simp: mkfsCommand_def HasPrefix_def split: if_splits)

text \<open>The log of a format: the probe, and the mkfs only after an empty answer.\<close>

lemma FormatIfEmpty_logs: "logs mkfs_guarded (FormatIfEmpty (traced h) d fs ex)"
proof (rule logsI)
  fix l w r l2 w' assume run: "FormatIfEmpty (traced h) d fs ex (l, w) = (r, (l2, w'))"
  obtain r0 w0 where p: "Run h (blkid d) w = (r0, w0)" by fastforce
  let ?p = "Ran (blkid d) r0"
  have one: "mkfs_guarded [?p]"
    by (rule no_mkfs_guarded) (simp add: blkid_def HasPrefix_def)
  have two: "mkfs_guarded [?p, Ran (cmd n a) r1]" if "found_empty d ?p" "a ! 1 = d" for n a r1
    using that one by (auto simp: mkfs_guarded_def less_Suc_eq cmd_def)
  have "l2 = l @ [?p] \<or> (\<exists>args r1. found_empty d ?p \<and> mkfsCommand fs d ex = Inr args \<and>
      l2 = l @ [?p, Ran (cmd (hd args) (tl args)) r1])"
    using run
    by (auto simp: FormatIfEmpty_def DetectFilesystem_def bindIO_def tryIO_def wrapIO_def Run_traced Let_def p
        split: res.splits prod.splits sum.splits if_splits)
  then show "\<exists>l'. l2 = l @ l' \<and> mkfs_guarded l'" using one two mkfsCommand_Inr by blast
qed

section \<open>Mounting over a mount table\<close>

text \<open>What the layer relies on of findmnt, mount and umount: \<open>mt\<close> is the mount table behind the
  world (target to what is mounted there). Commands may always fail; a failing umount may find the
  target unmounted by someone else. Nothing is assumed of a mount over a mount.\<close>

locale mount_host =
  fixes h :: "'w host" and mt :: "'w \<Rightarrow> string \<rightharpoonup> string" and ok :: "'w \<Rightarrow> bool"
  assumes mkdir_call: "ok w \<Longrightarrow> MkdirAll h p w = (ru, w') \<Longrightarrow> ok w' \<and> mt w' = mt w \<and> (\<forall>q. ru \<noteq> Panic q)"
    and stat_call: "ok w \<Longrightarrow> StatPath h p w = (ru, w') \<Longrightarrow> ok w' \<and> mt w' = mt w \<and> (\<forall>q. ru \<noteq> Panic q)"
    and create_call: "ok w \<Longrightarrow> CreateFile h p w = (ru, w') \<Longrightarrow> ok w' \<and> mt w' = mt w \<and> (\<forall>q. ru \<noteq> Panic q)"
    and findmnt_cmd: "ok w \<Longrightarrow> TrimSpace t = t \<Longrightarrow> t \<noteq> [] \<Longrightarrow> Run h (findmnt_target t) w = (r, w') \<Longrightarrow>
      ok w' \<and> mt w' = mt w \<and> (case r of Ok out \<Rightarrow> TrimSpace (Stdout out) = t \<longleftrightarrow> mt w t \<noteq> None
        | Fail e \<Rightarrow> IsExit e 1 \<longrightarrow> mt w t = None | Panic q \<Rightarrow> False)"
    and mount_cmd: "ok w \<Longrightarrow> mt w t = None \<Longrightarrow> t \<noteq> [] \<Longrightarrow>
      Run h (cmd ''mount'' (mount_args d t f fl)) w = (r, w') \<Longrightarrow>
      ok w' \<and> (case r of Ok out \<Rightarrow> mt w' = (mt w)(t \<mapsto> d) | Fail e \<Rightarrow> mt w' = mt w | Panic q \<Rightarrow> False)"
    and bind_cmd: "ok w \<Longrightarrow> mt w t = None \<Longrightarrow> t \<noteq> [] \<Longrightarrow>
      Run h (cmd ''mount'' [''--bind'', d, t]) w = (r, w') \<Longrightarrow>
      ok w' \<and> (case r of Ok out \<Rightarrow> mt w' = (mt w)(t \<mapsto> d) | Fail e \<Rightarrow> mt w' = mt w | Panic q \<Rightarrow> False)"
    and remount_cmd: "ok w \<Longrightarrow> Run h (cmd ''mount'' [''-o'', ''remount,ro,bind'', t]) w = (r, w') \<Longrightarrow>
      ok w' \<and> mt w' = mt w \<and> (\<forall>q. r \<noteq> Panic q)"
    and umount_cmd: "ok w \<Longrightarrow> Run h (cmd ''umount'' [t]) w = (r, w') \<Longrightarrow>
      ok w' \<and> (case r of Ok out \<Rightarrow> mt w' = (mt w)(t := None)
        | Fail e \<Rightarrow> mt w' = mt w \<or> mt w' = (mt w)(t := None) | Panic q \<Rightarrow> False)"
begin

definition quiet :: "'w \<Rightarrow> 'w \<Rightarrow> bool" where
  "quiet w w' \<longleftrightarrow> ok w' \<and> mt w' = mt w"

lemma IsMounted_wp:
  assumes "ok w" "TrimSpace t = t" "t \<noteq> []"
    and "\<And>w'. quiet w w' \<Longrightarrow> Q (Ok (mt w t \<noteq> None)) w'" and "\<And>e w'. quiet w w' \<Longrightarrow> Q (Fail e) w'"
  shows "wp (IsMounted h t) Q w"
  unfolding IsMounted_def
  by (rule wpI) (use assms findmnt_cmd [OF assms(1-3)] in
    \<open>force simp: tryIO_def quiet_def split: prod.splits res.splits if_splits\<close>)

text \<open>A call that leaves the mount table alone.\<close>

lemma quiet_wp:
  assumes "\<And>r w'. m w = (r, w') \<Longrightarrow> ok w' \<and> mt w' = mt w \<and> (\<forall>q. r \<noteq> Panic q)"
    and "\<And>a w'. quiet w w' \<Longrightarrow> Q (Ok a) w'" and "\<And>e w'. quiet w w' \<Longrightarrow> Q (Fail e) w'"
  shows "wp m Q w"
proof (rule wpI)
  fix r w' assume "m w = (r, w')"
  with assms show "Q r w'" by (cases r) (auto simp: quiet_def)
qed

lemma MkdirAll_wp: "ok w \<Longrightarrow> (\<And>w'. quiet w w' \<Longrightarrow> Q (Ok ()) w') \<Longrightarrow> (\<And>e w'. quiet w w' \<Longrightarrow> Q (Fail e) w') \<Longrightarrow>
    wp (MkdirAll h p) Q w"
  and StatPath_wp: "ok w \<Longrightarrow> (\<And>w'. quiet w w' \<Longrightarrow> Q (Ok ()) w') \<Longrightarrow> (\<And>e w'. quiet w w' \<Longrightarrow> Q (Fail e) w') \<Longrightarrow>
    wp (StatPath h p) Q w"
  and CreateFile_wp: "ok w \<Longrightarrow> (\<And>w'. quiet w w' \<Longrightarrow> Q (Ok ()) w') \<Longrightarrow> (\<And>e w'. quiet w w' \<Longrightarrow> Q (Fail e) w') \<Longrightarrow>
    wp (CreateFile h p) Q w"
  by (rule quiet_wp [OF mkdir_call], assumption+, simp+)
    (rule quiet_wp [OF stat_call], assumption+, simp+, rule quiet_wp [OF create_call], assumption+, simp+)

lemma remount_wp: "ok w \<Longrightarrow> (\<And>a w'. quiet w w' \<Longrightarrow> P (Ok a) w') \<Longrightarrow> (\<And>e w'. quiet w w' \<Longrightarrow> P (Fail e) w') \<Longrightarrow>
    wp (Run h (cmd ''mount'' [''-o'', ''remount,ro,bind'', t])) P w"
  by (rule quiet_wp [OF remount_cmd])

lemma mount_run_wp:
  assumes "ok w" "mt w t = None" "t \<noteq> []"
    and "\<And>a w'. ok w' \<Longrightarrow> mt w' = (mt w)(t \<mapsto> d) \<Longrightarrow> Q (Ok a) w'" and "\<And>e w'. ok w' \<Longrightarrow> mt w' = mt w \<Longrightarrow> Q (Fail e) w'"
  shows "wp (Run h (cmd ''mount'' (mount_args d t f fl))) Q w" "wp (Run h (cmd ''mount'' [''--bind'', d, t])) Q w"
  by (rule wpI, drule mount_cmd [OF assms(1-3)], use assms(4,5) in \<open>auto split: res.splits\<close>)
    (rule wpI, drule bind_cmd [OF assms(1-3)], use assms(4,5) in \<open>auto split: res.splits\<close>)

lemma umount_wp:
  assumes "ok w" and "\<And>a w'. ok w' \<Longrightarrow> mt w' = (mt w)(t := None) \<Longrightarrow> Q (Ok a) w'"
    and "\<And>e w'. ok w' \<Longrightarrow> mt w' \<in> {mt w, (mt w)(t := None)} \<Longrightarrow> Q (Fail e) w'"
  shows "wp (Run h (cmd ''umount'' [t])) Q w"
  by (rule wpI, drule umount_cmd [OF assms(1)], use assms(2,3) in \<open>auto split: res.splits\<close>)

lemma Mount_wp:
  assumes "ok w" "TrimSpace t = t" "t \<noteq> []"
  shows "wp (Mount h d t f fl) (\<lambda>r w'. ok w' \<and> (case r of
      Ok _ \<Rightarrow> mt w' = (if mt w t = None then (mt w)(t \<mapsto> d) else mt w)
    | Fail e \<Rightarrow> mt w' = mt w | Panic q \<Rightarrow> False)) w"
  unfolding Mount_def
  by (auto simp: wp_simps after_def quiet_def intro!: MkdirAll_wp [OF assms(1)]
      IsMounted_wp [OF _ assms(2,3)] mount_run_wp [OF _ _ assms(3)] split: res.splits)

lemma ensureTarget_wp:
  assumes "ok w" and "\<And>w'. quiet w w' \<Longrightarrow> Q (Ok ()) w'" and "\<And>e w'. quiet w w' \<Longrightarrow> Q (Fail e) w'"
  shows "wp (ensureTarget h t isDir) Q w"
  unfolding ensureTarget_def using assms
  by (auto simp: wp_simps after_def quiet_def intro!: MkdirAll_wp StatPath_wp CreateFile_wp)

lemma BindMount_wp:
  assumes "ok w" "TrimSpace t = t" "t \<noteq> []"
  shows "wp (BindMount h s t isDir ro) (\<lambda>r w'. ok w' \<and> (case r of
      Ok _ \<Rightarrow> mt w' = (if mt w t = None then (mt w)(t \<mapsto> s) else mt w)
    | Fail e \<Rightarrow> mt w' = mt w \<or> ro \<and> mt w t = None \<and> mt w' = (mt w)(t \<mapsto> s) | Panic q \<Rightarrow> False)) w"
  unfolding BindMount_def
  by (auto simp: wp_simps after_def quiet_def intro!: ensureTarget_wp [OF assms(1)]
      IsMounted_wp [OF _ assms(2,3)] mount_run_wp [OF _ _ assms(3)] remount_wp split: res.splits) (simp add: wp_def)

lemma Unmount_wp:
  assumes "ok w" "TrimSpace t = t" "t \<noteq> []"
  shows "wp (Unmount h t) (\<lambda>r w'. ok w' \<and> (case r of
      Ok _ \<Rightarrow> mt w' = (mt w)(t := None)
    | Fail e \<Rightarrow> mt w' = mt w \<or> mt w' = (mt w)(t := None) | Panic q \<Rightarrow> False)) w"
  unfolding Unmount_def
proof (simp add: wp_simps after_def, rule IsMounted_wp [OF assms], goal_cases)
  case (1 w1)
  then show ?case
    by (auto simp: wp_simps quiet_def intro!: umount_wp IsMounted_wp [OF _ assms(2,3)] split: bool.split)
qed (auto simp: quiet_def)

end

section \<open>Parsing the mount table\<close>

lemma unescape_step: "\<not> HasPrefix (c # r) [CHR 0x5C, CHR ''x''] \<Longrightarrow> unescape (c # r) = c # unescape r"
  by (cases "c # r" rule: unescape.cases) (auto simp: HasPrefix_def)

lemma unescape_plain: "\<not> Contains s [CHR 0x5C, CHR ''x''] \<Longrightarrow> unescape s = s"
  by (induction s) (auto simp: unescape_step)

lemma unescapeRaw_unescape: "unescapeRaw s = unescape s"
  by (simp add: unescapeRaw_def unescape_plain)

lemma unescape_other: "c \<noteq> CHR 0x5C \<Longrightarrow> unescape (c # r) = c # unescape r"
  by (simp add: unescape_step HasPrefix_def)

text \<open>How findmnt prints a path in raw mode: white space, backslashes and bytes outside ASCII as
  hexadecimal escapes.\<close>

definition hex_digit :: "nat \<Rightarrow> char" where
  "hex_digit n = (if n < 10 then char_of (48 + n) else char_of (87 + n))"

definition escape_char :: "char \<Rightarrow> string" where
  "escape_char c = (if word_char c \<and> c \<noteq> CHR 0x5C then [c]
     else let n = of_char c :: nat in [CHR 0x5C, CHR ''x'', hex_digit (n div 16), hex_digit (n mod 16)])"

definition escapeRaw :: "string \<Rightarrow> string" where
  "escapeRaw s = concat (map escape_char s)"

lemma char_byte: "(of_char c :: nat) < 256"
proof -
  have "(of_char c :: nat) = of_char (char_of (of_char c :: nat))" by simp
  also have "\<dots> < 256" unfolding of_char_of by simp
  finally show ?thesis .
qed

lemma hex_val_digit: "n < 16 \<Longrightarrow> hex_val (hex_digit n) = Some n"
  by (auto simp: hex_val_def hex_digit_def Let_def of_char_of)

lemma unescape_escapeRaw: "unescape (escapeRaw s) = s"
proof (induction s)
  case (Cons c s)
  show ?case
  proof (cases "word_char c \<and> c \<noteq> CHR 0x5C")
    case True
    then show ?thesis using Cons unescape_other by (simp add: escapeRaw_def escape_char_def)
  next
    case False
    let ?n = "of_char c :: nat"
    have "?n < 256" by (rule char_byte)
    then have "?n div 16 < 16" "?n mod 16 < 16" by (simp_all add: less_mult_imp_div_less)
    then show ?thesis using Cons False
      by (auto simp: escapeRaw_def escape_char_def Let_def hex_val_digit)
  qed
qed (simp add: escapeRaw_def)

lemma hex_digit_word: "n < 16 \<Longrightarrow> word_char (hex_digit n)"
  by (auto simp: hex_digit_def word_char_def ascii_def is_space_def is_space_rune_def of_char_of)

lemma escapeRaw_word: "list_all word_char (escapeRaw s)"
proof (induction s)
  case (Cons c s)
  let ?n = "of_char c :: nat"
  have "?n < 256" by (rule char_byte)
  then have "word_char (hex_digit (?n div 16))" "word_char (hex_digit (?n mod 16))" by (simp_all add: hex_digit_word less_mult_imp_div_less)
  moreover have "word_char (CHR 0x5C)" "word_char (CHR ''x'')"
    by (simp_all add: word_char_def ascii_def is_space_def is_space_rune_def)
  ultimately show ?case using Cons by (auto simp: escapeRaw_def escape_char_def Let_def)
qed (simp add: escapeRaw_def)

lemma escapeRaw_empty [simp]: "escapeRaw s = [] \<longleftrightarrow> s = []"
  by (cases s) (auto simp: escapeRaw_def escape_char_def Let_def)

lemma space_not_word: "\<not> word_char (CHR '' '')" "\<not> word_char NL"
  by (simp_all add: word_char_def is_space_def is_space_rune_def NL_def)

definition mount_text :: "MountEntry \<Rightarrow> string" where
  "mount_text m = escapeRaw (mtTarget m) @ CHR '' '' # escapeRaw (mtSource m)"

definition mount_table :: "MountEntry list \<Rightarrow> string" where
  "mount_table ms = concat (map (\<lambda>m. mount_text m @ [NL]) ms)"

lemma TrimSpace_words: "list_all word_char s \<Longrightarrow> TrimSpace s = s"
  using TrimSpace_plain [of s] by (simp add: word_char_def [abs_def])

lemma TrimSpace_pair:
  assumes "list_all word_char a" "a \<noteq> []" "list_all word_char b" "b \<noteq> []"
  shows "TrimSpace (a @ CHR '' '' # b) = a @ CHR '' '' # b"
proof -
  let ?s = "a @ CHR '' '' # b"
  have "list_all ascii ?s" using assms by (auto simp: list_all_iff word_char_def ascii_def)
  moreover have "\<not> is_space (hd a)" "\<not> is_space (last b)" using assms by (auto simp: list_all_iff word_char_def)
  then have "dropWhile is_space ?s = ?s" "dropWhile is_space (rev ?s) = rev ?s"
    using assms by (auto simp: dropWhile_eq_self_iff hd_append hd_rev)
  ultimately show ?thesis by (simp add: TrimSpace_ascii)
qed

lemma mount_line_text:
  assumes "mtTarget m \<noteq> []"
  shows "mount_line (mount_text m) = Some m"
proof -
  let ?t = "escapeRaw (mtTarget m)" let ?s = "escapeRaw (mtSource m)"
  have ns: "CHR '' '' \<notin> set ?t" "CHR '' '' \<notin> set ?s"
    using escapeRaw_word space_not_word unfolding list_all_iff by blast+
  show ?thesis
  proof (cases "mtSource m = []")
    case True
    then have "TrimSpace (mount_text m) = ?t"
      using escapeRaw_word [of "mtTarget m"] TrimSpace_trailing [of ?t "CHR '' ''"]
      by (simp add: mount_text_def escapeRaw_def word_char_def [abs_def] ascii_def is_space_def is_space_rune_def)
    then show ?thesis using assms ns True
      by (simp add: mount_line_def Let_def numeral_2_eq_2 unescapeRaw_unescape unescape_escapeRaw)
  next
    case False
    then have "TrimSpace (mount_text m) = mount_text m"
      unfolding mount_text_def using assms by (intro TrimSpace_pair escapeRaw_word) auto
    then show ?thesis using ns(1)
      by (simp add: mount_line_def Let_def mount_text_def numeral_2_eq_2 SplitN_sep unescapeRaw_unescape
          unescape_escapeRaw TrimSpace_words escapeRaw_word)
  qed
qed

lemma mount_text_NL: "NL \<notin> set (mount_text m)"
  using escapeRaw_word space_not_word unfolding mount_text_def list_all_iff by (auto simp: NL_def)

lemma Split_table: "Split NL (mount_table ms) = map mount_text ms @ [[]]"
proof (induction ms)
  case (Cons m ms)
  then show ?case using mount_text_NL [of m] by (simp add: mount_table_def Split_sep)
qed (simp add: mount_table_def Split_def)

lemma parseMounts_table: "\<forall>m \<in> set ms. mtTarget m \<noteq> [] \<Longrightarrow> parseMounts (mount_table ms) = ms"
proof -
  assume "\<forall>m \<in> set ms. mtTarget m \<noteq> []"
  then have "List.map_filter mount_line (map mount_text ms) = ms"
    by (induction ms) (auto simp: mount_line_text List.map_filter_simps)
  moreover have "mount_line [] = None" by (simp add: mount_line_def TrimSpace_words)
  ultimately show ?thesis
    by (simp add: parseMounts_def Split_table List.map_filter_def)
qed

section \<open>A mount table as a host\<close>

text \<open>The table itself as the world: findmnt looks a target up, mount adds an entry, umount removes
  it.\<close>

definition mtab_Run :: "command \<Rightarrow> ((string \<Rightarrow> string option), cmd_output) io" where
  "mtab_Run c = (\<lambda>m. let a = Args c; t = last a in
     if Name c = ''findmnt'' then
       (if m t = None then fail (ExecErr (Name c) a 1 [] None) m else ret (stdout_only t) m)
     else if Name c = ''mount'' then
       (if hd a = ''-o'' then ret (stdout_only []) m else ret (stdout_only []) (m(t \<mapsto> last (butlast a))))
     else if Name c = ''umount'' then ret (stdout_only []) (m(t := None))
     else ret (stdout_only []) m)"

definition mtab_host :: "(string \<Rightarrow> string option) host" where
  "mtab_host = \<lparr>Run = mtab_Run, RunPipe = (\<lambda>_ _. ret ()), MkdirAll = (\<lambda>_. ret ()),
     StatPath = (\<lambda>_. ret ()), CreateFile = (\<lambda>_. ret ()), EvalSymlinks = ret, ReadDir = (\<lambda>_. ret []),
     Statfs = (\<lambda>_. ret [])\<rparr>"

lemma mount_args_last: "last (mount_args d t f fl) = t" "last (butlast (mount_args d t f fl)) = d"
  "hd (mount_args d t f fl) = ''-t''"
  by (simp_all add: mount_args_def butlast_append)

interpretation mtab: mount_host mtab_host "\<lambda>m. m" "\<lambda>_. True"
proof (unfold_locales, goal_cases)
  case (5 w t d f fl r w')
  then show ?case
    by (auto simp: mtab_host_def mtab_Run_def cmd_def Let_def mount_args_last)
qed (auto simp: mtab_host_def mtab_Run_def findmnt_target_def cmd_def Let_def stdout_only_def split: if_splits)

section \<open>Properties\<close>

text \<open>C7. On every host, whatever the commands answer: a format runs mkfs only directly after a
  probe of that very device by blkid that found nothing on it (exit status 2 or empty output), and no
  other operation of the layer runs mkfs at all.\<close>

theorem format_only_empty:
  "logs mkfs_guarded (FormatIfEmpty (traced h) device fsType mkfsArgs) \<and>
   emits no_mkfs (Mount (traced h) device t f fl) \<and> emits no_mkfs (BindMount (traced h) s t isDir ro) \<and>
   emits no_mkfs (Unmount (traced h) t) \<and> emits no_mkfs (Resize (traced h) device t f) \<and>
   emits no_mkfs (DetectFilesystem (traced h) device) \<and> emits no_mkfs (SourceDevice (traced h) t)"
  by (intro conjI FormatIfEmpty_logs mount_emits)

text \<open>Mounting and unmounting over any host that keeps a mount table: a successful mount leaves the
  target mounted, changing nothing if it was mounted already and adding just that entry otherwise; a
  failed one changes nothing. A successful unmount leaves the target unmounted, also when it was not
  mounted before or someone else unmounted it meanwhile; no other entry ever changes. A failed bind
  mount changes nothing unless its read-only remount failed.\<close>

theorem mounts_idempotent:
  assumes "mount_host h mt ok" "ok w" "TrimSpace t = t" "t \<noteq> []"
  shows "wp (Mount h d t f fl) (\<lambda>r w'. case r of
      Ok _ \<Rightarrow> mt w' = (if mt w t = None then (mt w)(t \<mapsto> d) else mt w)
    | Fail e \<Rightarrow> mt w' = mt w | Panic q \<Rightarrow> False) w \<and>
    wp (BindMount h s t isDir ro) (\<lambda>r w'. case r of
      Ok _ \<Rightarrow> mt w' = (if mt w t = None then (mt w)(t \<mapsto> s) else mt w)
    | Fail e \<Rightarrow> mt w' = mt w \<or> ro \<and> mt w t = None \<and> mt w' = (mt w)(t \<mapsto> s) | Panic q \<Rightarrow> False) w \<and>
    wp (Unmount h t) (\<lambda>r w'. case r of
      Ok _ \<Rightarrow> mt w' = (mt w)(t := None)
    | Fail e \<Rightarrow> mt w' = mt w \<or> mt w' = (mt w)(t := None) | Panic q \<Rightarrow> False) w"
  using mount_host.Mount_wp [OF assms, of d f fl] mount_host.BindMount_wp [OF assms, of s isDir ro]
    mount_host.Unmount_wp [OF assms] by (intro conjI) (erule wp_mono, simp)+

theorem mounts_idempotent_witness:
  "wp (Unmount mtab_host ''/mnt/a'') (\<lambda>r w'. case r of
      Ok _ \<Rightarrow> w' = Map.empty | Fail e \<Rightarrow> w' = [''/mnt/a'' \<mapsto> ''/dev/zd0''] \<or> w' = Map.empty | Panic q \<Rightarrow> False)
    [''/mnt/a'' \<mapsto> ''/dev/zd0'']"
proof -
  have "TrimSpace ''/mnt/a'' = ''/mnt/a''"
    by (rule TrimSpace_words) (simp add: word_char_def ascii_def is_space_def is_space_rune_def)
  note all = mounts_idempotent [OF mtab.mount_host_axioms TrueI this, where w = "[''/mnt/a'' \<mapsto> ''/dev/zd0'']"]
  have e: "[''/mnt/a'' \<mapsto> ''/dev/zd0''](''/mnt/a'' := None) = Map.empty" by auto
  show ?thesis using all [simplified e] by simp
qed

text \<open>C20. Reading the mount table back: for every table whose targets are not empty paths, parsing the
  raw output of findmnt gives exactly its entries in order, whatever bytes the paths contain
  (spaces, newlines, backslashes and bytes outside ASCII travel as hexadecimal escapes).\<close>

theorem mount_table_round_trip:
  assumes "\<forall>m \<in> set ms. mtTarget m \<noteq> []"
  shows "parseMounts (mount_table ms) = ms"
  using parseMounts_table [OF assms] .

theorem mount_table_round_trip_witness:
  "parseMounts (mount_table [\<lparr>mtTarget = ''/mnt/a b'', mtSource = ''/dev/zd0''\<rparr>])
     = [\<lparr>mtTarget = ''/mnt/a b'', mtSource = ''/dev/zd0''\<rparr>]"
  by (rule mount_table_round_trip) simp

end
