(* ===== verification/Stats_Registry.thy ===== *)
theory Stats_Registry
  imports Mountutil "HOL-Library.AList" "HOL-Library.Word"
begin

unbundle bit_operations_syntax

text \<open>
  \<^verbatim>\<open>internal/stats\<close>: the per-volume usage registry of a node. types.go and config.go give the
  records; registry.go the operations, each the body of one critical section or of the code
  between two of them. Go maps are association lists in some order; the objects of type \<^verbatim>\<open>*worker\<close>
  live in an explicit store (\<open>rgHeap\<close>) because a cancelled worker may still deliver a late result
  after its volume was tracked again. A \<^verbatim>\<open>time.Time\<close> is a number of nanoseconds, \<^term>\<open>None\<close> the zero
  time; durations are 64-bit. The registry of the running driver is never nil.
\<close>

section \<open>types.go\<close>

definition AccessMount :: string where "AccessMount = ''mount''"

definition AccessBlock :: string where "AccessBlock = ''block''"

text \<open>The fields that the internal and the public record share.\<close>

record statsBase =
  sbNode :: string
  sbAccessType :: string
  sbTotalBytes :: int
  sbUsedBytes :: int
  sbAvailableBytes :: int
  sbTotalInodes :: int
  sbUsedInodes :: int
  sbFreeInodes :: int
  sbStatfsAt :: "int option"
  sbFileCount :: int
  sbDirCount :: int
  sbOtherCount :: int
  sbWalkAt :: "int option"
  sbWalkDuration :: int
  sbWalkComplete :: bool
  sbLastError :: string

record CSIVolumeStats = statsBase +
  csVolumeID :: string

record PublicVolumeStats = statsBase +
  pvID :: string
  pvNamespace :: string

definition zero_stats :: CSIVolumeStats where
  "zero_stats = \<lparr>sbNode = [], sbAccessType = [], sbTotalBytes = 0, sbUsedBytes = 0, sbAvailableBytes = 0,
     sbTotalInodes = 0, sbUsedInodes = 0, sbFreeInodes = 0, sbStatfsAt = None, sbFileCount = 0, sbDirCount = 0,
     sbOtherCount = 0, sbWalkAt = None, sbWalkDuration = 0, sbWalkComplete = False, sbLastError = [],
     csVolumeID = []\<rparr>"

definition ToPublic :: "CSIVolumeStats \<Rightarrow> string \<Rightarrow> string \<Rightarrow> PublicVolumeStats" where
  "ToPublic cs nomadID namespace =
     \<lparr>sbNode = sbNode cs, sbAccessType = sbAccessType cs, sbTotalBytes = sbTotalBytes cs,
      sbUsedBytes = sbUsedBytes cs, sbAvailableBytes = sbAvailableBytes cs, sbTotalInodes = sbTotalInodes cs,
      sbUsedInodes = sbUsedInodes cs, sbFreeInodes = sbFreeInodes cs, sbStatfsAt = sbStatfsAt cs,
      sbFileCount = sbFileCount cs, sbDirCount = sbDirCount cs, sbOtherCount = sbOtherCount cs,
      sbWalkAt = sbWalkAt cs, sbWalkDuration = sbWalkDuration cs, sbWalkComplete = sbWalkComplete cs,
      sbLastError = sbLastError cs, pvID = nomadID, pvNamespace = namespace\<rparr>"

text \<open>The external-to-Nomad map is a Go map.\<close>

definition Relabel :: "CSIVolumeStats list \<Rightarrow> (string \<rightharpoonup> string) \<Rightarrow> string \<Rightarrow> PublicVolumeStats list" where
  "Relabel xs rev_ids namespace =
     List.map_filter (\<lambda>cs. case rev_ids (csVolumeID cs) of
       None \<Rightarrow> None | Some nomadID \<Rightarrow> Some (ToPublic cs nomadID namespace)) xs"

section \<open>config.go\<close>

record statsConfig =
  scEnabled :: bool
  scInterval :: int
  scStatfsTimeout :: int
  scWalkEnabled :: bool
  scWalkInterval :: int
  scWalkWorkers :: int
  scWalkBuffer :: int
  scWalkTimeout :: int
  scStaleAfter :: int
  scMaxFailureBackoff :: int
  scAggregateInterval :: int
  scMetricsPerVolume :: bool
  scQueryAddr :: string
  scQueryToken :: string
  scQueryTokenHeader :: string
  scNamespace :: string

definition Second :: int where "Second = 1000000000"

definition Minute :: int where "Minute = 60 * Second"

definition DefaultInterval :: int where "DefaultInterval = 60 * Second"

definition pos_or :: "int \<Rightarrow> int \<Rightarrow> int" where
  "pos_or v d = (if v \<le> 0 then d else v)"

definition withDefaults :: "statsConfig \<Rightarrow> statsConfig" where
  "withDefaults c = c\<lparr>
     scInterval := pos_or (scInterval c) DefaultInterval,
     scStatfsTimeout := pos_or (scStatfsTimeout c) (30 * Second),
     scWalkInterval := pos_or (scWalkInterval c) (5 * Minute),
     scWalkWorkers := pos_or (scWalkWorkers c) 4,
     scWalkBuffer := pos_or (scWalkBuffer c) 4096,
     scWalkTimeout := pos_or (scWalkTimeout c) (10 * Minute),
     scStaleAfter := pos_or (scStaleAfter c) (5 * Minute),
     scMaxFailureBackoff := pos_or (scMaxFailureBackoff c) (30 * Minute),
     scAggregateInterval := pos_or (scAggregateInterval c) (60 * Second),
     scQueryTokenHeader := (if scQueryTokenHeader c = [] then ''X-NCD-Query-Token'' else scQueryTokenHeader c),
     scNamespace := (if scNamespace c = [] then ''default'' else scNamespace c)\<rparr>"

section \<open>registry.go: backoff and jitter\<close>

fun backoff_loop :: "int \<Rightarrow> int \<Rightarrow> nat \<Rightarrow> int" where
  "backoff_loop d mx 0 = d"
| "backoff_loop d mx (Suc n) = (if d < mx then backoff_loop (mul64 d 2) mx n else d)"

definition backoff :: "int \<Rightarrow> int \<Rightarrow> int \<Rightarrow> int" where
  "backoff base mx fails = (let d = backoff_loop base mx (nat (fails - 1)) in if d > mx then mx else d)"

text \<open>hash/fnv: the 64-bit FNV-1a hash.\<close>

definition fnv64a :: "string \<Rightarrow> 64 word" where
  "fnv64a s = foldl (\<lambda>h c. (h XOR of_nat (of_char c)) * 1099511628211) 14695981039346656037 s"

definition jitterFor :: "string \<Rightarrow> int \<Rightarrow> int" where
  "jitterFor key d = (if d \<le> 0 then 0 else uint (fnv64a key mod word_of_int d))"

section \<open>registry.go: the registry\<close>

record worker =
  wkID :: string
  wkPath :: string
  wkStatfsFails :: int
  wkWalkFails :: int
  wkNextStatfs :: "int option"
  wkNextWalk :: "int option"
  wkStatfsInFlight :: bool
  wkWalkInFlight :: bool
  wkStatfsOK :: bool
  wkCancelled :: bool

record Registry =
  rgCfg :: statsConfig
  rgNode :: string
  rgPool :: bool
  rgClosed :: bool
  rgVols :: "(string \<times> nat) list"
  rgCache :: "(string \<times> CSIVolumeStats) list"
  rgAbsent :: "(string \<times> int) list"
  rgHeap :: "worker list"

record TrackSpec =
  tsVolumeID :: string
  tsStagingPath :: string
  tsAccessType :: string

definition NewRegistry :: "statsConfig \<Rightarrow> string \<Rightarrow> Registry" where
  "NewRegistry cfg0 node = (let cfg = withDefaults cfg0 in
     \<lparr>rgCfg = cfg, rgNode = node, rgPool = (scEnabled cfg \<and> scWalkEnabled cfg), rgClosed = False,
      rgVols = [], rgCache = [], rgAbsent = [], rgHeap = []\<rparr>)"

definition with_worker :: "nat \<Rightarrow> (worker \<Rightarrow> worker) \<Rightarrow> Registry \<Rightarrow> Registry" where
  "with_worker h f r = r\<lparr>rgHeap := (rgHeap r)[h := f (rgHeap r ! h)]\<rparr>"

definition new_worker :: "string \<Rightarrow> string \<Rightarrow> worker" where
  "new_worker vid path = \<lparr>wkID = vid, wkPath = path, wkStatfsFails = 0, wkWalkFails = 0, wkNextStatfs = None,
     wkNextWalk = None, wkStatfsInFlight = False, wkWalkInFlight = False, wkStatfsOK = False, wkCancelled = False\<rparr>"

definition Track :: "string \<Rightarrow> string \<Rightarrow> string \<Rightarrow> Registry \<Rightarrow> Registry" where
  "Track vid stagingPath acc r =
     (if \<not> scEnabled (rgCfg r) \<or> vid = [] then r
      else case map_of (rgVols r) vid of
        Some h \<Rightarrow> with_worker h (\<lambda>w. w\<lparr>wkPath := stagingPath\<rparr>) r
      | None \<Rightarrow>
          (let cur = (case map_of (rgCache r) vid of Some c \<Rightarrow> c | None \<Rightarrow> zero_stats);
               r1 = r\<lparr>rgCache := AList.update vid
                 (cur\<lparr>csVolumeID := vid, sbNode := rgNode r, sbAccessType := acc\<rparr>) (rgCache r)\<rparr>
           in if acc = AccessBlock then r1
              else r1\<lparr>rgVols := AList.update vid (length (rgHeap r1)) (rgVols r1),
                      rgHeap := rgHeap r1 @ [new_worker vid stagingPath]\<rparr>))"

definition Untrack :: "string \<Rightarrow> Registry \<Rightarrow> Registry" where
  "Untrack vid r =
     (let w = map_of (rgVols r) vid;
          r1 = r\<lparr>rgVols := AList.delete vid (rgVols r), rgCache := AList.delete vid (rgCache r)\<rparr>
      in case w of None \<Rightarrow> r1 | Some h \<Rightarrow> with_worker h (\<lambda>w. w\<lparr>wkCancelled := True\<rparr>) r1)"

definition Get :: "string \<Rightarrow> Registry \<Rightarrow> CSIVolumeStats option" where
  "Get vid r = map_of (rgCache r) vid"

definition Dump :: "Registry \<Rightarrow> CSIVolumeStats list" where
  "Dump r = map snd (rgCache r)"

definition Close :: "Registry \<Rightarrow> Registry" where
  "Close r = r\<lparr>rgClosed := True\<rparr>"

definition update_reading :: "string \<Rightarrow> (CSIVolumeStats \<Rightarrow> CSIVolumeStats) \<Rightarrow> Registry \<Rightarrow> Registry" where
  "update_reading vid fn r = (case map_of (rgCache r) vid of
     None \<Rightarrow> r
   | Some s \<Rightarrow> r\<lparr>rgCache := AList.update vid (fn s) (rgCache r)\<rparr>)"

text \<open>The three parts of \<^verbatim>\<open>Reconcile\<close>: tracking what is desired, the critical section that counts
  absences and selects what to evict, and the eviction of one volume.\<close>

definition recon_track :: "TrackSpec list \<Rightarrow> Registry \<Rightarrow> Registry" where
  "recon_track desired r = fold (\<lambda>d. if tsVolumeID d = [] then id
     else Track (tsVolumeID d) (tsStagingPath d) (tsAccessType d)) desired r"

definition wanted :: "TrackSpec list \<Rightarrow> string list" where
  "wanted desired = filter (\<lambda>i. i \<noteq> []) (map tsVolumeID desired)"

definition absent_count :: "(string \<times> int) list \<Rightarrow> string \<Rightarrow> int" where
  "absent_count ab i = (case map_of ab i of None \<Rightarrow> 0 | Some n \<Rightarrow> n)"

definition mark_one :: "string list \<Rightarrow> int \<Rightarrow> string \<Rightarrow>
    (string \<times> int) list \<times> string list \<Rightarrow> (string \<times> int) list \<times> string list" where
  "mark_one want grace i = (\<lambda>(ab, ev).
     if i \<in> set want then (AList.delete i ab, ev)
     else let n = absent_count ab i + 1; ab' = AList.update i n ab
          in (ab', if grace \<le> n then ev @ [i] else ev))"

definition recon_mark :: "string list \<Rightarrow> int \<Rightarrow> Registry \<Rightarrow> Registry \<times> string list" where
  "recon_mark want grace r =
     (let (ab, ev) = fold (mark_one want grace) (map fst (rgCache r)) (rgAbsent r, []);
          ab' = filter (\<lambda>(i, n). i \<in> set (map fst (rgCache r))) ab
      in (r\<lparr>rgAbsent := ab'\<rparr>, ev))"

definition recon_evict :: "string \<Rightarrow> Registry \<Rightarrow> Registry" where
  "recon_evict i r = (let r1 = Untrack i r in r1\<lparr>rgAbsent := AList.delete i (rgAbsent r1)\<rparr>)"

definition Reconcile :: "TrackSpec list \<Rightarrow> bool \<Rightarrow> int \<Rightarrow> Registry \<Rightarrow> Registry \<times> string list" where
  "Reconcile desired evict graceSweeps r =
     (if \<not> scEnabled (rgCfg r) then (r, [])
      else let r1 = recon_track desired r in
        if \<not> evict then (r1, [])
        else let grace = (if graceSweeps < 1 then 1 else graceSweeps);
                 (r2, toEvict) = recon_mark (wanted desired) grace r1
             in (fold recon_evict toEvict r2, toEvict))"

section \<open>registry.go: the workers\<close>

definition time_reached :: "int \<Rightarrow> int option \<Rightarrow> bool" where
  "time_reached now t = (case t of None \<Rightarrow> True | Some x \<Rightarrow> x \<le> now)"

text \<open>The start of \<^verbatim>\<open>worker.run\<close>, and the period of its ticker.\<close>

definition worker_start :: "nat \<Rightarrow> int \<Rightarrow> Registry \<Rightarrow> Registry" where
  "worker_start h now r = with_worker h (\<lambda>w.
     w\<lparr>wkNextStatfs := Some (now + jitterFor (wkID w @ ''s'') (scInterval (rgCfg r))),
       wkNextWalk := Some (now + jitterFor (wkID w @ ''w'') (scWalkInterval (rgCfg r)))\<rparr>) r"

definition worker_gran :: "statsConfig \<Rightarrow> int" where
  "worker_gran cfg = (let gran = (if scWalkInterval cfg < scInterval cfg then scWalkInterval cfg else scInterval cfg)
     in if gran \<le> 0 then Second else gran)"

definition doStatfs :: "nat \<Rightarrow> int \<Rightarrow> Registry \<Rightarrow> bool" where
  "doStatfs h now r = time_reached now (wkNextStatfs (rgHeap r ! h))"

definition doWalk :: "nat \<Rightarrow> int \<Rightarrow> Registry \<Rightarrow> bool" where
  "doWalk h now r \<longleftrightarrow> scWalkEnabled (rgCfg r) \<and> rgPool r \<and> time_reached now (wkNextWalk (rgHeap r ! h))"

text \<open>The result of a statfs: the counters or the text of the error.\<close>

definition apply_statfs :: "string + FSStats \<Rightarrow> int \<Rightarrow> CSIVolumeStats \<Rightarrow> CSIVolumeStats" where
  "apply_statfs res now s = (case res of
     Inl e \<Rightarrow> s\<lparr>sbLastError := e\<rparr>
   | Inr u \<Rightarrow> s\<lparr>sbTotalBytes := fsTotalBytes u, sbUsedBytes := fsUsedBytes u, sbAvailableBytes := fsAvailableBytes u,
       sbTotalInodes := fsTotalInodes u, sbUsedInodes := fsUsedInodes u, sbFreeInodes := fsFreeInodes u,
       sbStatfsAt := Some now, sbLastError := []\<rparr>)"

definition onStatfs :: "nat \<Rightarrow> string + FSStats \<Rightarrow> int \<Rightarrow> Registry \<Rightarrow> Registry" where
  "onStatfs h res now r =
     (let cfg = rgCfg r;
          r1 = with_worker h (\<lambda>w. (case res of
            Inl _ \<Rightarrow> (let n = wkStatfsFails w + 1 in
              w\<lparr>wkStatfsFails := n, wkNextStatfs := Some (now + backoff (scInterval cfg) (scMaxFailureBackoff cfg) n)\<rparr>)
          | Inr _ \<Rightarrow> w\<lparr>wkStatfsFails := 0, wkNextStatfs := Some (now + scInterval cfg)\<rparr>)
            \<lparr>wkStatfsOK := (case res of Inl _ \<Rightarrow> False | Inr _ \<Rightarrow> True)\<rparr>) r
      in update_reading (wkID (rgHeap r ! h)) (apply_statfs res now) r1)"

text \<open>The result of a walk: files, directories and others, or the text of the error.\<close>

definition apply_walk :: "string + int \<times> int \<times> int \<Rightarrow> int \<Rightarrow> int \<Rightarrow> CSIVolumeStats \<Rightarrow> CSIVolumeStats" where
  "apply_walk res now dur s = (case res of
     Inl e \<Rightarrow> s\<lparr>sbLastError := e\<rparr>
   | Inr (f, d, ot) \<Rightarrow> s\<lparr>sbFileCount := f, sbDirCount := d, sbOtherCount := ot, sbWalkAt := Some now,
       sbWalkDuration := dur, sbWalkComplete := True, sbLastError := []\<rparr>)"

definition onWalk :: "nat \<Rightarrow> string + int \<times> int \<times> int \<Rightarrow> int \<Rightarrow> int \<Rightarrow> Registry \<Rightarrow> Registry" where
  "onWalk h res start now r =
     (let cfg = rgCfg r;
          r1 = with_worker h (\<lambda>w. (case res of
            Inl _ \<Rightarrow> (let n = wkWalkFails w + 1 in
              w\<lparr>wkWalkFails := n, wkNextWalk := Some (now + backoff (scWalkInterval cfg) (scMaxFailureBackoff cfg) n)\<rparr>)
          | Inr _ \<Rightarrow> w\<lparr>wkWalkFails := 0, wkNextWalk := Some (now + scWalkInterval cfg)\<rparr>)) r
      in update_reading (wkID (rgHeap r ! h)) (apply_walk res now (now - start)) r1)"

end
