(* ===== verification/Local_Node.thy ===== *)
theory Local_Node
  imports Go_Clock Local_Ops Stats_Registry
begin

text \<open>
  \<^verbatim>\<open>internal/driver/local/node.go\<close> and \<^verbatim>\<open>reconcile.go\<close>: the node half of the local backend. A call
  that touches the usage registry works on the pair of a host's world and the registry; the other
  calls work on the world alone. \<^verbatim>\<open>waitForPath\<close> and \<^verbatim>\<open>zvolDatasets\<close> are fields of the node, as in
  the code; their production values are \<open>osWaitForPath\<close> and \<open>osZvolDatasets\<close>. Metrics and log lines have
  no result and are left out.
\<close>

record 'w node =
  ndHost :: "'w host"
  ndCfg :: LocalConfig
  ndHasZ :: bool
  ndNodeID :: string
  ndParentDataset :: string
  ndWaitForPath :: "string \<Rightarrow> ('w, string) io"
  ndZvolDatasets :: "('w, smap) io"

section \<open>What is staged\<close>

text \<open>The source of a mount, or the device it resolves to, among the keys of a map.\<close>

definition match_device :: "'w host \<Rightarrow> smap \<Rightarrow> string \<Rightarrow> ('w, string option) io" where
  "match_device h ours src = (case ours src of
     Some ds \<Rightarrow> ret (Some ds)
   | None \<Rightarrow> tryIO (EvalSymlinks h src) (\<lambda>r. case r of
       Inr real \<Rightarrow> ret (ours real) | Inl _ \<Rightarrow> ret None))"

definition StagedCount :: "'w node \<Rightarrow> ('w, int) io" where
  "StagedCount n =
     bindIO (ListMounts (ndHost n)) (\<lambda>mounts.
     bindIO (ndZvolDatasets n) (\<lambda>ourDevs.
     bindIO (foldIO (\<lambda>seen m. bindIO (match_device (ndHost n) ourDevs (mtSource m)) (\<lambda>d.
       ret (if d \<noteq> None then List.insert (mtSource m) seen else seen))) [] mounts) (\<lambda>seen.
     ret (int (length seen)))))"

definition staged_spec :: "'w node \<Rightarrow> MountEntry \<Rightarrow> string \<Rightarrow> TrackSpec" where
  "staged_spec n m ds = \<lparr>tsVolumeID = externalID_String \<lparr>eNode = ndNodeID n, eDataset = ds\<rparr>,
     tsStagingPath = mtTarget m, tsAccessType = AccessMount\<rparr>"

definition stagedVolumes :: "'w node \<Rightarrow> ('w, TrackSpec list) io" where
  "stagedVolumes n =
     bindIO (ListMounts (ndHost n)) (\<lambda>mounts.
     bindIO (ndZvolDatasets n) (\<lambda>devDatasets.
     foldIO (\<lambda>out m. bindIO (match_device (ndHost n) devDatasets (mtSource m)) (\<lambda>d.
       ret (case d of
         None \<Rightarrow> out
       | Some ds \<Rightarrow> (let sp = staged_spec n m ds in
           if tsVolumeID sp \<in> tsVolumeID ` set out then out else out @ [sp])))) [] mounts))"

text \<open>One zvol of a pool's directory.\<close>

definition zvol_entry :: "'w host \<Rightarrow> string \<Rightarrow> smap \<Rightarrow> string \<Rightarrow> ('w, smap) io" where
  "zvol_entry h parent out name =
     (let dataset = parent @ ''/'' @ name; p = path_Join [DevicePath parent, name]; out1 = out(p \<mapsto> dataset)
      in tryIO (EvalSymlinks h p) (\<lambda>r. case r of
           Inr real \<Rightarrow> ret (out1(real \<mapsto> dataset)) | Inl _ \<Rightarrow> ret out1))"

definition osZvolDatasets :: "'w node \<Rightarrow> ('w, smap) io" where
  "osZvolDatasets n = foldIO (\<lambda>out pool.
     (let parent = parentDatasetForPool (ndCfg n) pool (ndParentDataset n)
      in tryIO (ReadDir (ndHost n) (DevicePath parent)) (\<lambda>r. case r of
           Inl _ \<Rightarrow> ret out
         | Inr entries \<Rightarrow> foldIO (zvol_entry (ndHost n) parent) out entries))) Map.empty (PoolNames (ndCfg n))"

section \<open>Identity\<close>

definition resolveVolumeIdentity :: "string \<Rightarrow> smap \<Rightarrow> err + string \<times> string" where
  "resolveVolumeIdentity vid vctx =
     (let dataset = sget vctx ctxKeyDataset; owner = sget vctx ctxKeyNode in
      if dataset \<noteq> [] \<and> owner \<noteq> [] then Inr (dataset, owner)
      else case parseExternalID vid of
        Inl _ \<Rightarrow> Inl (InvalidArgument ''volume context is missing %q and volume id %q cannot be parsed to recover it: %v'')
      | Inr eid \<Rightarrow> Inr (if dataset = [] then eDataset eid else dataset, if owner = [] then eNode eid else owner))"

text \<open>What is left of a context gives the same identity as the whole.\<close>

lemma resolve_submap:
  assumes "eid_wf e" "m ctxKeyDataset \<in> {None, Some (eDataset e)}" "m ctxKeyNode \<in> {None, Some (eNode e)}"
  shows "resolveVolumeIdentity (externalID_String e) m = Inr (eDataset e, eNode e)"
proof -
  have "parseExternalID (externalID_String e) = Inr e" using assms(1) parseExternalID_iff by blast
  moreover have "sget m ctxKeyDataset \<in> {[], eDataset e}" "sget m ctxKeyNode \<in> {[], eNode e}"
    using assms(2,3) by (auto simp: sget_def)
  ultimately show ?thesis by (auto simp: resolveVolumeIdentity_def Let_def)
qed

section \<open>The node operations\<close>

definition internal_as :: "string \<Rightarrow> err \<Rightarrow> err" where
  "internal_as m = (\<lambda>_. Internal m)"

definition check_stage_pool :: "'w node \<Rightarrow> string \<Rightarrow> ('w, unit) io" where
  "check_stage_pool n dataset =
     (if ndHasZ n
      then bindIO (wrapIO (\<lambda>_. Unavailable ''checking pool %q on node %q: %v'') (ZFS_PoolStatus (ndHost n) (poolOf dataset)))
        (\<lambda>(present, online).
        if \<not> present \<or> \<not> online then fail (FailedPrecondition ''pool %q unavailable on node %q'') else ret ())
      else ret ())"

text \<open>The file system to mount: the context's, the capability's, or what the device carries.\<close>

definition stage_fs :: "'w node \<Rightarrow> StageRequest \<Rightarrow> string \<Rightarrow> ('w, string) io" where
  "stage_fs n req dev =
     (let fs0 = sget (stVolumeContext req) ctxKeyFsType;
          fs1 = (if fs0 = [] then capFsType (stVolumeCapability req) else fs0)
      in if fs1 = [] then tryIO (DetectFilesystem (ndHost n) dev) (\<lambda>r. case r of
           Inr detected \<Rightarrow> ret (if detected \<noteq> [] then detected else fs1) | Inl _ \<Rightarrow> ret fs1)
         else ret fs1)"

definition stage_body :: "'w node \<Rightarrow> StageRequest \<Rightarrow> ('w, unit) io" where
  "stage_body n req =
     bindIO (liftE (resolveVolumeIdentity (stVolumeID req) (stVolumeContext req))) (\<lambda>(dataset, owner).
     if owner \<noteq> ndNodeID n then fail (FailedPrecondition ''volume %s is owned by node %q but staged on %q'')
     else bindIO (check_stage_pool n dataset) (\<lambda>_.
     bindIO (wrapIO (internal_as ''zvol device did not appear: %v'') (ndWaitForPath n (DevicePath dataset))) (\<lambda>dev.
     if accessType (stVolumeCapability req) = AccessTypeBlock then ret ()
     else bindIO (stage_fs n req dev) (\<lambda>fsType.
     bindIO (wrapIO (internal_as ''format: %v'') (FormatIfEmpty (ndHost n) dev fsType [])) (\<lambda>_.
     wrapIO (internal_as ''mount: %v'')
       (Mount (ndHost n) dev (stStagingTargetPath req) fsType (mountFlags (stVolumeCapability req))))))))"

definition stageAccessType :: "AccessType \<Rightarrow> string" where
  "stageAccessType at = (if at = AccessTypeBlock then AccessBlock else AccessMount)"

text \<open>The deferred call tracks the volume when the error result is nil, which it also is while a
  panic unwinds.\<close>

definition StageVolume :: "'w node \<Rightarrow> StageRequest \<Rightarrow> ('w \<times> Registry, unit) io" where
  "StageVolume n req = (\<lambda>(w, reg). case stage_body n req w of
     (Fail e, w') \<Rightarrow> (Fail e, (w', reg))
   | (r, w') \<Rightarrow> (r, (w', Track (stVolumeID req) (stStagingTargetPath req)
       (stageAccessType (accessType (stVolumeCapability req))) reg)))"

definition UnstageVolume :: "'w node \<Rightarrow> UnstageRequest \<Rightarrow> ('w \<times> Registry, unit) io" where
  "UnstageVolume n req = (\<lambda>(w, reg).
     case wrapIO (internal_as ''unmount staging: %v'') (Unmount (ndHost n) (usStagingTargetPath req)) w of
       (Ok _, w') \<Rightarrow> (Ok (), (w', Untrack (usVolumeID req) reg))
     | (r, w') \<Rightarrow> (r, (w', reg)))"

definition PublishVolume :: "'w node \<Rightarrow> PublishRequest \<Rightarrow> ('w, unit) io" where
  "PublishVolume n req =
     (if accessType (puVolumeCapability req) = AccessTypeBlock
      then bindIO (liftE (resolveVolumeIdentity (puVolumeID req) (puVolumeContext req))) (\<lambda>(dataset, _).
        bindIO (wrapIO (internal_as ''zvol device did not appear: %v'') (ndWaitForPath n (DevicePath dataset))) (\<lambda>dev.
        wrapIO (internal_as ''bind device: %v'') (BindMount (ndHost n) dev (puTargetPath req) False (puReadonly req))))
      else wrapIO (internal_as ''bind mount: %v'')
        (BindMount (ndHost n) (puStagingTargetPath req) (puTargetPath req) True (puReadonly req)))"

definition UnpublishVolume :: "'w node \<Rightarrow> UnpublishRequest \<Rightarrow> ('w, unit) io" where
  "UnpublishVolume n req = wrapIO (internal_as ''unpublish unmount: %v'') (Unmount (ndHost n) (upTargetPath req))"

definition node_ExpandVolume :: "'w node \<Rightarrow> NodeExpandRequest \<Rightarrow> ('w, int) io" where
  "node_ExpandVolume n req =
     (if accessType (neVolumeCapability req) = AccessTypeBlock then ret (requiredBytes (neCapacityRange req))
      else bindIO (wrapIO (internal_as ''locating device for expand: %v'') (SourceDevice (ndHost n) (neVolumePath req))) (\<lambda>dev.
      bindIO (wrapIO (internal_as ''resize filesystem: %v'')
        (Resize (ndHost n) dev (neVolumePath req) (capFsType (neVolumeCapability req)))) (\<lambda>_.
      ret (requiredBytes (neCapacityRange req)))))"

definition node_GetInfo :: "'w node \<Rightarrow> ('w, NodeInfo) io" where
  "node_GetInfo n = ret \<lparr>niNodeID = ndNodeID n, niMaxVolumesPerNode = 0,
     niAccessibleTopology = Some [topologyKey \<mapsto> ndNodeID n]\<rparr>"

definition GetVolumeStats :: "'w node \<Rightarrow> string \<Rightarrow> ('w, VolumeStats) io" where
  "GetVolumeStats n volumePath =
     bindIO (wrapIO (internal_as ''statfs %s: %v'') (StatFS (ndHost n) volumePath)) (\<lambda>s.
     ret \<lparr>vsTotalBytes = fsTotalBytes s, vsUsedBytes = fsUsedBytes s, vsAvailableBytes = fsAvailableBytes s,
       vsTotalInodes = fsTotalInodes s, vsUsedInodes = fsUsedInodes s, vsFreeInodes = fsFreeInodes s\<rparr>)"

section \<open>Waiting for a device\<close>

definition resolve_attempt :: "'w host \<Rightarrow> string \<Rightarrow> 'w \<Rightarrow> string res option \<times> 'w" where
  "resolve_attempt h path w = (case EvalSymlinks h path w of
     (Fail _, w') \<Rightarrow> (None, w') | (r, w') \<Rightarrow> (Some r, w'))"

definition osWaitForPath :: "'w host \<Rightarrow> 'w clock \<Rightarrow> int \<Rightarrow> string \<Rightarrow> 'w \<Rightarrow> (string res \<times> 'w) option" where
  "osWaitForPath h ck timeout path w = (case Now ck w of (t, w1) \<Rightarrow>
     poll ck (resolve_attempt h path) (Fail CtxDeadlineExceeded) (250 * Millisecond) (t + timeout) w1)"

section \<open>The reconciler\<close>

definition statsEvictGraceSweeps :: int where "statsEvictGraceSweeps = 2"

definition sweep :: "'w node \<Rightarrow> 'w \<times> Registry \<Rightarrow> string list \<times> 'w \<times> Registry" where
  "sweep n = (\<lambda>(w, reg). case stagedVolumes n w of
     (Ok desired, w') \<Rightarrow> (let (reg', evicted) = Reconcile desired True statsEvictGraceSweeps reg in (evicted, w', reg'))
   | (_, w') \<Rightarrow> ([], w', reg))"

text \<open>The backend interface of the node half.\<close>

definition onHost :: "('w, 'a) io \<Rightarrow> ('w \<times> Registry, 'a) io" where
  "onHost m = (\<lambda>(w, reg). case m w of (r, w') \<Rightarrow> (r, (w', reg)))"

definition local_NodeBackend :: "'w node \<Rightarrow> ('w \<times> Registry) NodeBackend" where
  "local_NodeBackend n = \<lparr>beStageVolume = StageVolume n, beUnstageVolume = UnstageVolume n,
     bePublishVolume = (\<lambda>r. onHost (PublishVolume n r)), beUnpublishVolume = (\<lambda>r. onHost (UnpublishVolume n r)),
     beNodeExpandVolume = (\<lambda>r. onHost (node_ExpandVolume n r)), beGetInfo = onHost (node_GetInfo n),
     beGetVolumeStats = (\<lambda>_ p. onHost (GetVolumeStats n p))\<rparr>"

end
