(* ===== verification/Stats_Inv.thy ===== *)
theory Stats_Inv
  imports Stats_Registry
begin

text \<open>
  The registry's invariant and what its operations do to the tracked set: every tracked volume has
  a reading and one live worker, no live worker is left without its volume, readings carry their own
  id and the node's name. \<^verbatim>\<open>Reconcile\<close> is characterised by the set of volumes it evicts, and the
  backoff and jitter functions by their bounds.
\<close>

section \<open>The invariant\<close>

definition reg_inv :: "Registry \<Rightarrow> bool" where
  "reg_inv r \<longleftrightarrow> distinct (map fst (rgVols r)) \<and> distinct (map fst (rgCache r)) \<and> distinct (map fst (rgAbsent r))
     \<and> (\<forall>(i, h) \<in> set (rgVols r). h < length (rgHeap r) \<and> wkID (rgHeap r ! h) = i \<and> \<not> wkCancelled (rgHeap r ! h)
          \<and> (\<exists>cs. map_of (rgCache r) i = Some cs \<and> sbAccessType cs \<noteq> AccessBlock))
     \<and> (\<forall>(i, cs) \<in> set (rgCache r). i \<noteq> [] \<and> csVolumeID cs = i \<and> sbNode cs = rgNode r)
     \<and> (\<forall>h < length (rgHeap r). \<not> wkCancelled (rgHeap r ! h) \<longrightarrow> map_of (rgVols r) (wkID (rgHeap r ! h)) = Some h)
     \<and> (\<not> scEnabled (rgCfg r) \<longrightarrow> rgCache r = [])"

lemma reg_inv_D:
  assumes "reg_inv r"
  shows "distinct (map fst (rgVols r))" "distinct (map fst (rgCache r))" "distinct (map fst (rgAbsent r))"
    "map_of (rgVols r) i = Some h \<Longrightarrow> h < length (rgHeap r) \<and> wkID (rgHeap r ! h) = i \<and> \<not> wkCancelled (rgHeap r ! h)
       \<and> (\<exists>cs. map_of (rgCache r) i = Some cs \<and> sbAccessType cs \<noteq> AccessBlock)"
    "map_of (rgCache r) i = Some cs \<Longrightarrow> i \<noteq> [] \<and> csVolumeID cs = i \<and> sbNode cs = rgNode r"
    "k < length (rgHeap r) \<Longrightarrow> \<not> wkCancelled (rgHeap r ! k) \<Longrightarrow> map_of (rgVols r) (wkID (rgHeap r ! k)) = Some k"
    "\<not> scEnabled (rgCfg r) \<Longrightarrow> rgCache r = []"
  using assms unfolding reg_inv_def by (blast dest: map_of_SomeD)+

text \<open>The invariant as statements about lookups.\<close>

lemma reg_inv_I:
  assumes "distinct (map fst (rgVols r))" "distinct (map fst (rgCache r))" "distinct (map fst (rgAbsent r))"
    and "\<And>i h. map_of (rgVols r) i = Some h \<Longrightarrow> h < length (rgHeap r) \<and> wkID (rgHeap r ! h) = i \<and> \<not> wkCancelled (rgHeap r ! h)
       \<and> (\<exists>cs. map_of (rgCache r) i = Some cs \<and> sbAccessType cs \<noteq> AccessBlock)"
    and "\<And>i cs. map_of (rgCache r) i = Some cs \<Longrightarrow> i \<noteq> [] \<and> csVolumeID cs = i \<and> sbNode cs = rgNode r"
    and "\<And>k. k < length (rgHeap r) \<Longrightarrow> \<not> wkCancelled (rgHeap r ! k) \<Longrightarrow> map_of (rgVols r) (wkID (rgHeap r ! k)) = Some k"
    and "\<not> scEnabled (rgCfg r) \<Longrightarrow> rgCache r = []"
  shows "reg_inv r"
  unfolding reg_inv_def using assms by auto

lemma NewRegistry_inv: "reg_inv (NewRegistry cfg node)"
  by (simp add: reg_inv_def NewRegistry_def Let_def)

lemma with_worker_simps [simp]:
  "rgCfg (with_worker h f r) = rgCfg r" "rgNode (with_worker h f r) = rgNode r" "rgVols (with_worker h f r) = rgVols r"
  "rgCache (with_worker h f r) = rgCache r" "rgAbsent (with_worker h f r) = rgAbsent r"
  "length (rgHeap (with_worker h f r)) = length (rgHeap r)" "rgClosed (with_worker h f r) = rgClosed r"
  "rgPool (with_worker h f r) = rgPool r"
  by (simp_all add: with_worker_def)

lemma with_worker_nth: "k < length (rgHeap r) \<Longrightarrow>
  rgHeap (with_worker h f r) ! k = (if k = h then f (rgHeap r ! k) else rgHeap r ! k)"
  by (auto simp: with_worker_def nth_list_update)

lemma with_worker_inv:
  assumes "reg_inv r" "\<And>w. wkID (f w) = wkID w" "\<And>w. wkCancelled (f w) = wkCancelled w"
  shows "reg_inv (with_worker h f r)"
  by (rule reg_inv_I)
    (use assms reg_inv_D [OF assms(1)] in \<open>auto simp: with_worker_nth simp del: map_of_eq_Some_iff\<close>)

lemma update_reading_inv:
  assumes "reg_inv r" "\<And>c. csVolumeID (f c) = csVolumeID c \<and> sbNode (f c) = sbNode c \<and> sbAccessType (f c) = sbAccessType c"
  shows "reg_inv (update_reading i f r)"
proof (cases "map_of (rgCache r) i")
  case (Some s)
  note D = reg_inv_D [OF assms(1)]
  show ?thesis
  proof (rule reg_inv_I)
    show "distinct (map fst (rgCache (update_reading i f r)))"
      using D(2) by (simp add: update_reading_def Some distinct_update)
    show "h < length (rgHeap (update_reading i f r)) \<and> wkID (rgHeap (update_reading i f r) ! h) = j
        \<and> \<not> wkCancelled (rgHeap (update_reading i f r) ! h)
        \<and> (\<exists>cs. map_of (rgCache (update_reading i f r)) j = Some cs \<and> sbAccessType cs \<noteq> AccessBlock)"
      if "map_of (rgVols (update_reading i f r)) j = Some h" for j h
      using D(4) [of j h] that Some assms(2) by (auto simp: update_reading_def update_conv' simp del: map_of_eq_Some_iff)
    show "j \<noteq> [] \<and> csVolumeID cs = j \<and> sbNode cs = rgNode (update_reading i f r)"
      if "map_of (rgCache (update_reading i f r)) j = Some cs" for j cs
      using D(5) [of j cs] D(5) [OF Some] that Some assms(2)
      by (auto simp: update_reading_def update_conv' simp del: map_of_eq_Some_iff split: if_splits)
  qed (use D Some in \<open>auto simp: update_reading_def simp del: map_of_eq_Some_iff\<close>)
qed (simp add: update_reading_def assms(1))

section \<open>Preservation\<close>

definition fresh_reading :: "string \<Rightarrow> string \<Rightarrow> Registry \<Rightarrow> CSIVolumeStats" where
  "fresh_reading i acc r = (case map_of (rgCache r) i of Some c \<Rightarrow> c | None \<Rightarrow> zero_stats)
     \<lparr>csVolumeID := i, sbNode := rgNode r, sbAccessType := acc\<rparr>"

lemma fresh_reading_simps [simp]: "csVolumeID (fresh_reading i acc r) = i" "sbNode (fresh_reading i acc r) = rgNode r"
  "sbAccessType (fresh_reading i acc r) = acc"
  by (simp_all add: fresh_reading_def)

text \<open>The fields after tracking a volume that has no worker.\<close>

lemma Track_new:
  assumes "scEnabled (rgCfg r)" "i \<noteq> []" "map_of (rgVols r) i = None"
  shows "rgCache (Track i p acc r) = AList.update i (fresh_reading i acc r) (rgCache r)"
    "rgVols (Track i p acc r) = (if acc = AccessBlock then rgVols r else AList.update i (length (rgHeap r)) (rgVols r))"
    "rgHeap (Track i p acc r) = (if acc = AccessBlock then rgHeap r else rgHeap r @ [new_worker i p])"
    "rgCfg (Track i p acc r) = rgCfg r" "rgNode (Track i p acc r) = rgNode r" "rgAbsent (Track i p acc r) = rgAbsent r"
  using assms by (simp_all add: Track_def fresh_reading_def Let_def)

lemma Track_inv:
  assumes "reg_inv r"
  shows "reg_inv (Track i p acc r)"
proof (cases "\<not> scEnabled (rgCfg r) \<or> i = []")
  case False
  note D = reg_inv_D [OF assms]
  show ?thesis
  proof (cases "map_of (rgVols r) i")
    case (Some h)
    then show ?thesis using False assms by (simp add: Track_def with_worker_inv)
  next
    case None
    have new: "scEnabled (rgCfg r)" "i \<noteq> []" using False by auto
    note T = Track_new [OF new None, of p acc]
    have live: "map_of (rgVols r) (wkID (rgHeap r ! k)) = Some k \<and> wkID (rgHeap r ! k) \<noteq> i"
      if "k < length (rgHeap r)" "\<not> wkCancelled (rgHeap r ! k)" for k
      using D(6) [OF that] None by auto
    have tr: "j \<noteq> i" if "map_of (rgVols r) j = Some h" for j h using that None by auto
    show ?thesis
      by (rule reg_inv_I; unfold T)
        (use D(1-5,7) live tr new in \<open>auto simp: update_conv' nth_append new_worker_def less_Suc_eq distinct_update
          simp del: map_of_eq_Some_iff split: if_splits\<close>)
  qed
qed (use assms in \<open>simp add: Track_def\<close>)

lemma delete_keys: "distinct (map fst xs) \<Longrightarrow> distinct (map fst (AList.delete k xs))"
  by (simp add: distinct_delete)

lemma Untrack_fields:
  "rgCache (Untrack i r) = AList.delete i (rgCache r)" "rgVols (Untrack i r) = AList.delete i (rgVols r)"
  "rgCfg (Untrack i r) = rgCfg r" "rgNode (Untrack i r) = rgNode r" "rgAbsent (Untrack i r) = rgAbsent r"
  "length (rgHeap (Untrack i r)) = length (rgHeap r)"
  by (simp_all add: Untrack_def Let_def split: option.splits)

lemma Untrack_heap: "k < length (rgHeap r) \<Longrightarrow> rgHeap (Untrack i r) ! k =
  (if map_of (rgVols r) i = Some k then (rgHeap r ! k)\<lparr>wkCancelled := True\<rparr> else rgHeap r ! k)"
  by (auto simp: Untrack_def Let_def with_worker_nth split: option.splits)

lemma Untrack_inv:
  assumes "reg_inv r"
  shows "reg_inv (Untrack i r)"
proof -
  note D = reg_inv_D [OF assms]
  have other: "map_of (rgVols r) i \<noteq> Some k" if "map_of (rgVols r) j = Some k" "j \<noteq> i" for j k
    using D(4) [OF that(1)] D(4) [of i k] that(2) by auto
  show ?thesis
    by (rule reg_inv_I; unfold Untrack_fields)
      (use D other in \<open>auto simp: Untrack_heap delete_conv' delete_keys simp del: map_of_eq_Some_iff split: if_splits\<close>)
qed

section \<open>The tracked set\<close>

text \<open>What a client sees: the path each measured volume is read at, and the volumes that have a
  reading.\<close>

definition measured :: "Registry \<Rightarrow> string \<rightharpoonup> string" where
  "measured r i = map_option (\<lambda>h. wkPath (rgHeap r ! h)) (map_of (rgVols r) i)"

definition known :: "Registry \<Rightarrow> string set" where
  "known r = set (map fst (rgCache r))"

definition abs_reg :: "Registry \<Rightarrow> (string \<rightharpoonup> string) \<times> string set" where
  "abs_reg r = (measured r, known r)"

text \<open>The operations on that view.\<close>

definition spec_track :: "string \<Rightarrow> string \<Rightarrow> string \<Rightarrow> (string \<rightharpoonup> string) \<times> string set \<Rightarrow> (string \<rightharpoonup> string) \<times> string set" where
  "spec_track i p acc = (\<lambda>(P, S). (if acc = AccessBlock \<and> P i = None then P else P(i \<mapsto> p), insert i S))"

definition spec_untrack :: "string \<Rightarrow> (string \<rightharpoonup> string) \<times> string set \<Rightarrow> (string \<rightharpoonup> string) \<times> string set" where
  "spec_untrack i = (\<lambda>(P, S). (P(i := None), S - {i}))"

lemma known_map_of: "i \<in> known r \<longleftrightarrow> map_of (rgCache r) i \<noteq> None"
  by (auto simp: known_def map_of_eq_None_iff)

lemma measured_known: "reg_inv r \<Longrightarrow> measured r i \<noteq> None \<Longrightarrow> i \<in> known r"
  using reg_inv_D(4) [of r i] by (auto simp: measured_def known_map_of simp del: map_of_eq_Some_iff)

lemma keys_update: "set (map fst (AList.update i v xs)) = insert i (set (map fst xs))"
  by (induction xs) auto

lemma keys_delete: "set (map fst (AList.delete i xs)) = set (map fst xs) - {i}"
  by (auto simp: AList.delete_eq)

lemma abs_Track:
  assumes "reg_inv r" "scEnabled (rgCfg r)" "i \<noteq> []"
  shows "abs_reg (Track i p acc r) = spec_track i p acc (abs_reg r)"
proof (cases "map_of (rgVols r) i")
  case None
  note T = Track_new [OF assms(2,3) None, of p acc]
  have lt: "h < length (rgHeap r)" if "map_of (rgVols r) j = Some h" for j h using reg_inv_D(4) [OF assms(1) that] by simp
  have "measured (Track i p acc r) = (if acc = AccessBlock then measured r else (measured r)(i \<mapsto> p))"
  proof
    fix j show "measured (Track i p acc r) j = (if acc = AccessBlock then measured r else (measured r)(i \<mapsto> p)) j"
      using lt [of j] by (cases "map_of (rgVols r) j")
        (auto simp: measured_def T update_conv' nth_append new_worker_def)
  qed
  moreover have "known (Track i p acc r) = insert i (known r)" unfolding known_def T keys_update ..
  moreover have "measured r i = None" using None by (simp add: measured_def)
  ultimately show ?thesis by (simp add: abs_reg_def spec_track_def)
next
  case (Some h)
  have T: "Track i p acc r = with_worker h (\<lambda>w. w\<lparr>wkPath := p\<rparr>) r" using assms(2,3) Some by (simp add: Track_def)
  note D = reg_inv_D(4) [OF assms(1)]
  have ne: "k \<noteq> h" if "map_of (rgVols r) j = Some k" "j \<noteq> i" for j k using D [OF that(1)] D [OF Some] that(2) by auto
  have "measured (Track i p acc r) = (measured r)(i \<mapsto> p)"
  proof
    fix j show "measured (Track i p acc r) j = ((measured r)(i \<mapsto> p)) j"
    proof (cases "map_of (rgVols r) j")
      case None
      then show ?thesis using Some by (auto simp: measured_def T)
    next
      case (Some k)
      have "k < length (rgHeap r)" using D [OF Some] by simp
      then show ?thesis using Some ne [OF Some] \<open>map_of (rgVols r) i = Some h\<close>
        by (auto simp: measured_def T with_worker_nth)
    qed
  qed
  moreover have "i \<in> known r" using Some assms(1) by (intro measured_known) (auto simp: measured_def)
  moreover have "measured r i \<noteq> None" using Some by (simp add: measured_def)
  moreover have "known (Track i p acc r) = known r" by (simp add: known_def T)
  ultimately show ?thesis by (auto simp: abs_reg_def spec_track_def)
qed

lemma abs_Untrack:
  assumes "reg_inv r"
  shows "abs_reg (Untrack i r) = spec_untrack i (abs_reg r)"
proof -
  note D = reg_inv_D(4) [OF assms]
  have "measured (Untrack i r) = (measured r)(i := None)"
  proof
    fix j show "measured (Untrack i r) j = ((measured r)(i := None)) j"
    proof (cases "map_of (rgVols r) j")
      case (Some k)
      have "k < length (rgHeap r)" using D [OF Some] by simp
      then show ?thesis using Some by (simp add: measured_def Untrack_fields delete_conv' Untrack_heap)
    qed (simp add: measured_def Untrack_fields delete_conv')
  qed
  moreover have "known (Untrack i r) = known r - {i}" unfolding known_def Untrack_fields keys_delete ..
  ultimately show ?thesis by (simp add: abs_reg_def spec_untrack_def)
qed

section \<open>Reconcile\<close>

definition due :: "string list \<Rightarrow> int \<Rightarrow> (string \<times> int) list \<Rightarrow> string \<Rightarrow> bool" where
  "due want grace ab i \<longleftrightarrow> i \<notin> set want \<and> grace \<le> absent_count ab i + 1"

lemma absent_count_cong: "map_of ab i = map_of ab' i \<Longrightarrow> absent_count ab i = absent_count ab' i"
  by (simp add: absent_count_def)

lemma mark_one_other: "j \<noteq> i \<Longrightarrow> map_of (fst (mark_one want g i (ab, ev))) j = map_of ab j"
  by (simp add: mark_one_def Let_def update_conv' delete_conv')

lemma fold_mark_all:
  "distinct ks \<Longrightarrow> snd (fold (mark_one want g) ks (ab, ev)) = ev @ filter (due want g ab) ks \<and>
    (\<forall>j. map_of (fst (fold (mark_one want g) ks (ab, ev))) j =
      (if j \<notin> set ks then map_of ab j else if j \<in> set want then None else Some (absent_count ab j + 1))) \<and>
    (distinct (map fst ab) \<longrightarrow> distinct (map fst (fst (fold (mark_one want g) ks (ab, ev)))))"
proof (induction ks arbitrary: ab ev)
  case (Cons k ks)
  obtain ab1 ev1 where m: "mark_one want g k (ab, ev) = (ab1, ev1)" by fastforce
  have o: "map_of ab1 j = map_of ab j" if "j \<noteq> k" for j using mark_one_other [OF that, of want g ab ev] m by simp
  have e: "ev1 = ev @ (if due want g ab k then [k] else [])"
    and k: "map_of ab1 k = (if k \<in> set want then None else Some (absent_count ab k + 1))"
    using m by (auto simp: mark_one_def Let_def due_def update_conv' delete_conv' split: if_splits)
  have d: "distinct (map fst ab) \<Longrightarrow> distinct (map fst ab1)"
    using m by (auto simp: mark_one_def Let_def distinct_update delete_keys split: if_splits)
  have c: "absent_count ab1 j = absent_count ab j" if "j \<in> set ks" for j
  proof -
    have "j \<noteq> k" using Cons.prems that by auto
    then show ?thesis by (intro absent_count_cong o)
  qed
  then have "filter (due want g ab1) ks = filter (due want g ab) ks"
    by (intro filter_cong refl) (simp add: due_def)
  then show ?case using Cons.IH [of ab1 ev1] Cons.prems m e k o c d by auto
qed auto

lemmas fold_mark = fold_mark_all [THEN conjunct1] fold_mark_all [THEN conjunct2, THEN conjunct1, rule_format]
  fold_mark_all [THEN conjunct2, THEN conjunct2, rule_format]

text \<open>The critical section: only the counters change.\<close>

lemma recon_mark:
  assumes "reg_inv r" "recon_mark want g r = (r', ev)"
  shows "ev = filter (due want g (rgAbsent r)) (map fst (rgCache r))" and "r' = r\<lparr>rgAbsent := rgAbsent r'\<rparr>"
    and "reg_inv r'" and "map_of (rgAbsent r') j =
      (if j \<in> known r \<and> j \<notin> set want then Some (absent_count (rgAbsent r) j + 1) else None)"
proof -
  note D = reg_inv_D [OF assms(1)]
  obtain ab e where f: "fold (mark_one want g) (map fst (rgCache r)) (rgAbsent r, []) = (ab, e)" by fastforce
  note M = fold_mark [OF D(2), where want = want and g = g and ab = "rgAbsent r" and ev = "[]", unfolded f]
  have r': "r' = r\<lparr>rgAbsent := filter (\<lambda>(i, n). i \<in> set (map fst (rgCache r))) ab\<rparr>" "ev = e"
    using assms(2) f by (auto simp: recon_mark_def)
  then show "ev = filter (due want g (rgAbsent r)) (map fst (rgCache r))" "r' = r\<lparr>rgAbsent := rgAbsent r'\<rparr>"
    using M(1) by simp_all
  have fl: "map_of (filter (\<lambda>(i, n). i \<in> K) xs) j = (if j \<in> K then map_of xs j else None)" for K :: "string set" and xs :: "(string \<times> int) list"
    by (induction xs) auto
  show "map_of (rgAbsent r') j =
      (if j \<in> known r \<and> j \<notin> set want then Some (absent_count (rgAbsent r) j + 1) else None)"
    using M(2) [of j] by (simp add: r' fl known_def)
  have "distinct (map fst (filter (\<lambda>(i, n). i \<in> set (map fst (rgCache r))) ab))"
    using M(3) [OF D(3)] by (simp add: distinct_map_filter)
  then show "reg_inv r'" using D unfolding r'
    by (intro reg_inv_I) (auto simp del: map_of_eq_Some_iff)
qed

lemma recon_evict_inv: "reg_inv r \<Longrightarrow> reg_inv (recon_evict i r)"
proof -
  assume "reg_inv r"
  note D = reg_inv_D [OF Untrack_inv [OF this, of i]]
  show ?thesis unfolding recon_evict_def Let_def
    by (rule reg_inv_I) (use D in \<open>auto simp: delete_keys simp del: map_of_eq_Some_iff\<close>)
qed

lemma abs_recon_evict: "reg_inv r \<Longrightarrow> abs_reg (recon_evict i r) = spec_untrack i (abs_reg r)"
  using abs_Untrack [of r i] by (simp add: recon_evict_def Let_def abs_reg_def measured_def [abs_def] known_def)

lemma fold_evict: "reg_inv r \<Longrightarrow> reg_inv (fold recon_evict is r) \<and> abs_reg (fold recon_evict is r) = fold spec_untrack is (abs_reg r)"
  by (induction "is" arbitrary: r) (auto simp: recon_evict_inv abs_recon_evict)

lemma fold_untrack: "fold spec_untrack is (P, S) = (\<lambda>i. if i \<in> set is then None else P i, S - set is)"
  by (induction "is" arbitrary: P S) (auto simp: spec_untrack_def fun_eq_iff)

lemma Track_cfg: "rgCfg (Track i p acc r) = rgCfg r \<and> rgAbsent (Track i p acc r) = rgAbsent r"
  by (simp add: Track_def Let_def split: option.splits)

definition spec_tracks :: "TrackSpec list \<Rightarrow> (string \<rightharpoonup> string) \<times> string set \<Rightarrow> (string \<rightharpoonup> string) \<times> string set" where
  "spec_tracks ds = fold (\<lambda>d. if tsVolumeID d = [] then id
     else spec_track (tsVolumeID d) (tsStagingPath d) (tsAccessType d)) ds"

lemma recon_track:
  assumes "reg_inv r" "scEnabled (rgCfg r)"
  shows "reg_inv (recon_track ds r) \<and> rgCfg (recon_track ds r) = rgCfg r \<and> rgAbsent (recon_track ds r) = rgAbsent r \<and>
    abs_reg (recon_track ds r) = spec_tracks ds (abs_reg r)"
  using assms unfolding recon_track_def spec_tracks_def
proof (induction ds arbitrary: r)
  case (Cons d ds)
  show ?case
  proof (cases "tsVolumeID d = []")
    case True
    then show ?thesis using Cons by simp
  next
    case False
    let ?r = "Track (tsVolumeID d) (tsStagingPath d) (tsAccessType d) r"
    have "reg_inv ?r" "scEnabled (rgCfg ?r)" using Cons.prems Track_inv Track_cfg by simp_all
    from Cons.IH [OF this] show ?thesis using False Cons.prems Track_cfg abs_Track by simp
  qed
qed simp

text \<open>What a pass does, in terms of the client's view.\<close>

lemma Reconcile_abs:
  assumes "reg_inv r" "scEnabled (rgCfg r)" "Reconcile ds evict grace r = (r', ev)"
  defines "g \<equiv> if grace < 1 then 1 else grace"
  shows "reg_inv r'" and "scEnabled (rgCfg r')"
    and "abs_reg r' = fold spec_untrack ev (spec_tracks ds (abs_reg r))"
    and "set ev = (if evict then {i \<in> snd (spec_tracks ds (abs_reg r)). due (wanted ds) g (rgAbsent r) i} else {})"
    and "evict \<Longrightarrow> map_of (rgAbsent r') j = (if j \<in> snd (spec_tracks ds (abs_reg r)) \<and> j \<notin> set (wanted ds) \<and> j \<notin> set ev
       then Some (absent_count (rgAbsent r) j + 1) else None)"
    and "\<not> evict \<Longrightarrow> rgAbsent r' = rgAbsent r"
proof -
  let ?r1 = "recon_track ds r"
  note T = recon_track [OF assms(1,2), of ds]
  have known: "known ?r1 = snd (spec_tracks ds (abs_reg r))"
    using T by (metis abs_reg_def snd_conv)
  obtain r2 e where m: "recon_mark (wanted ds) g ?r1 = (r2, e)" by fastforce
  note M = recon_mark [OF conjunct1 [OF T] m]
  have abs2: "abs_reg r2 = abs_reg ?r1"
    by (subst M(2)) (simp add: abs_reg_def measured_def [abs_def] known_def)
  have cfg2: "rgCfg r2 = rgCfg ?r1" by (subst M(2)) simp
  have R: "evict \<Longrightarrow> r' = fold recon_evict e r2 \<and> ev = e" "\<not> evict \<Longrightarrow> r' = ?r1 \<and> ev = []"
    using assms(2,3) m by (auto simp: Reconcile_def g_def Let_def split: prod.splits)
  have cfg: "rgCfg (fold recon_evict xs r0) = rgCfg r0" for xs r0
    by (induction xs arbitrary: r0) (simp_all add: recon_evict_def Let_def Untrack_fields)
  have ab: "map_of (rgAbsent (fold recon_evict xs r0)) j = (if j \<in> set xs then None else map_of (rgAbsent r0) j)" for xs r0
    by (induction xs arbitrary: r0) (auto simp: recon_evict_def Let_def Untrack_fields delete_conv')
  have evs: "set e = {i \<in> known ?r1. due (wanted ds) g (rgAbsent r) i}"
    using M(1) T by (auto simp: known_def)
  show "reg_inv r'" using R fold_evict [OF M(3)] T by (cases evict) auto
  show "scEnabled (rgCfg r')" using R cfg cfg2 T assms(2) by (cases evict) auto
  show "abs_reg r' = fold spec_untrack ev (spec_tracks ds (abs_reg r))"
    using R fold_evict [OF M(3)] T abs2 by (cases evict) auto
  show "set ev = (if evict then {i \<in> snd (spec_tracks ds (abs_reg r)). due (wanted ds) g (rgAbsent r) i} else {})"
    using R evs known by (cases evict) auto
  show "map_of (rgAbsent r') j = (if j \<in> snd (spec_tracks ds (abs_reg r)) \<and> j \<notin> set (wanted ds) \<and> j \<notin> set ev
       then Some (absent_count (rgAbsent r) j + 1) else None)" if evict
    using R(1) [OF that] M(4) [of j] ab [of e r2] known T by auto
  show "rgAbsent r' = rgAbsent r" if "\<not> evict" using R(2) [OF that] T by simp
qed

lemma spec_tracks_known: "snd (spec_tracks ds a) = snd a \<union> set (wanted ds)"
proof (induction ds arbitrary: a)
  case (Cons d ds)
  then show ?case by (cases a) (auto simp: spec_tracks_def wanted_def spec_track_def)
qed (simp add: spec_tracks_def wanted_def)

section \<open>Backoff and jitter\<close>

lemma backoff_loop_exact:
  assumes "0 < d" "mx \<le> 2 ^ 62"
  shows "min mx (backoff_loop d mx n) = min mx (d * 2 ^ n)"
  using assms
proof (induction n arbitrary: d)
  case (Suc n)
  show ?case
  proof (cases "d < mx")
    case True
    have "in64 (d * 2)" using Suc.prems True by (simp add: in64_def MinInt64_def MaxInt64_def)
    then have "mul64 d 2 = d * 2" by (simp add: mul64_def wrap64_id)
    then show ?thesis using Suc.IH [of "d * 2"] Suc.prems True by (simp add: mult.assoc)
  next
    case False
    have "d * 1 \<le> d * 2 ^ Suc n" using Suc.prems by (intro mult_left_mono one_le_power) auto
    then show ?thesis using False by (simp add: min_def)
  qed
qed simp

lemma backoff_exact:
  assumes "0 < base" "mx \<le> 2 ^ 62"
  shows "backoff base mx fails = min mx (base * 2 ^ nat (fails - 1))"
  using backoff_loop_exact [OF assms, of "nat (fails - 1)"] by (auto simp: backoff_def Let_def min_def split: if_splits)

lemma jitterFor_bounds: "0 < d \<Longrightarrow> in64 d \<Longrightarrow> 0 \<le> jitterFor key d \<and> jitterFor key d < d"
proof -
  assume d: "0 < d" "in64 d"
  have u: "uint (word_of_int d :: 64 word) = d"
    using d by (simp add: uint_word_of_int in64_def MaxInt64_def)
  have "uint (fnv64a key mod word_of_int d) = uint (fnv64a key) mod d" by (simp add: uint_mod u)
  then show ?thesis using d(1) by (simp add: jitterFor_def)
qed

end
