(* ===== verification/Stats_System.thy ===== *)
theory Stats_System
  imports Stats_Inv
begin

text \<open>
  The registry with the goroutines around it, as a step relation: RPC threads that track and untrack,
  the reconciler's critical sections, the supervisors' ticks, and for each statfs the detached call,
  its watchdog and its single-flight flag (\<^verbatim>\<open>fireStatfs\<close>), for each walk its goroutine
  (\<^verbatim>\<open>fireWalk\<close>). Steps interleave freely; a call may never return. The invariant bounds the
  outstanding system calls of a worker by one.
\<close>

section \<open>The system\<close>

text \<open>A detached statfs: in the system call, back from it with the flag cleared, or with the result
  sent. \<open>flWatch\<close>: its watchdog has not finished.\<close>

datatype phase = Calling | Stored "string + FSStats" | Sent "string + FSStats"

record flight =
  flWorker :: nat
  flPath :: string
  flPhase :: phase
  flWatch :: bool

record walk_flight =
  wfWorker :: nat
  wfPath :: string
  wfStart :: int
  wfRunning :: bool

record stats_sys =
  syReg :: Registry
  syFlights :: "flight list"
  syWalks :: "walk_flight list"

abbreviation workers_of :: "stats_sys \<Rightarrow> worker list" where
  "workers_of s \<equiv> rgHeap (syReg s)"

definition fireStatfs :: "nat \<Rightarrow> stats_sys \<Rightarrow> stats_sys" where
  "fireStatfs h s =
     (if wkStatfsInFlight (workers_of s ! h) then s
      else s\<lparr>syReg := with_worker h (\<lambda>w. w\<lparr>wkStatfsInFlight := True\<rparr>) (syReg s),
             syFlights := syFlights s @
               [\<lparr>flWorker = h, flPath = wkPath (workers_of s ! h), flPhase = Calling, flWatch = True\<rparr>]\<rparr>)"

definition fireWalk :: "nat \<Rightarrow> int \<Rightarrow> stats_sys \<Rightarrow> stats_sys" where
  "fireWalk h now s =
     (if \<not> wkStatfsOK (workers_of s ! h) \<or> wkWalkInFlight (workers_of s ! h) then s
      else s\<lparr>syReg := with_worker h (\<lambda>w. w\<lparr>wkWalkInFlight := True\<rparr>) (syReg s),
             syWalks := syWalks s @
               [\<lparr>wfWorker = h, wfPath = wkPath (workers_of s ! h), wfStart = now, wfRunning = True\<rparr>]\<rparr>)"

text \<open>One tick of \<^verbatim>\<open>worker.run\<close>.\<close>

definition worker_tick :: "nat \<Rightarrow> int \<Rightarrow> stats_sys \<Rightarrow> stats_sys" where
  "worker_tick h now s =
     (let st = doStatfs h now (syReg s); wk = doWalk h now (syReg s);
          s1 = (if st then fireStatfs h s else s)
      in if wk then fireWalk h now s1 else s1)"

definition ctx_done :: "nat \<Rightarrow> stats_sys \<Rightarrow> bool" where
  "ctx_done h s \<longleftrightarrow> wkCancelled (workers_of s ! h) \<or> rgClosed (syReg s)"

definition set_flight :: "nat \<Rightarrow> (flight \<Rightarrow> flight) \<Rightarrow> stats_sys \<Rightarrow> stats_sys" where
  "set_flight i f s = s\<lparr>syFlights := (syFlights s)[i := f (syFlights s ! i)]\<rparr>"

text \<open>The goroutine of a statfs after its call returned: the flag is cleared, then the result sent.\<close>

definition statfs_returned :: "nat \<Rightarrow> string + FSStats \<Rightarrow> stats_sys \<Rightarrow> stats_sys" where
  "statfs_returned i res s = (set_flight i (\<lambda>f. f\<lparr>flPhase := Stored res\<rparr>) s)
     \<lparr>syReg := with_worker (flWorker (syFlights s ! i)) (\<lambda>w. w\<lparr>wkStatfsInFlight := False\<rparr>) (syReg s)\<rparr>"

text \<open>The watchdog reports \<open>res\<close>: the result of the call or its timeout.\<close>

definition watchdog_reports :: "nat \<Rightarrow> string + FSStats \<Rightarrow> int \<Rightarrow> stats_sys \<Rightarrow> stats_sys" where
  "watchdog_reports i res now s = (set_flight i (\<lambda>f. f\<lparr>flWatch := False\<rparr>) s)
     \<lparr>syReg := onStatfs (flWorker (syFlights s ! i)) res now (syReg s)\<rparr>"

definition walk_finished :: "nat \<Rightarrow> string + int \<times> int \<times> int \<Rightarrow> int \<Rightarrow> stats_sys \<Rightarrow> stats_sys" where
  "walk_finished k res now s = (let w = syWalks s ! k in
     s\<lparr>syReg := with_worker (wfWorker w) (\<lambda>w. w\<lparr>wkWalkInFlight := False\<rparr>) (onWalk (wfWorker w) res (wfStart w) now (syReg s)),
       syWalks := (syWalks s)[k := w\<lparr>wfRunning := False\<rparr>]\<rparr>)"

definition with_reg :: "(Registry \<Rightarrow> Registry) \<Rightarrow> stats_sys \<Rightarrow> stats_sys" where
  "with_reg f s = s\<lparr>syReg := f (syReg s)\<rparr>"

inductive stats_step :: "stats_sys \<Rightarrow> stats_sys \<Rightarrow> bool" where
  track: "stats_step s (with_reg (Track i p acc) s)"
| untrack: "stats_step s (with_reg (Untrack i) s)"
| mark: "stats_step s (with_reg (\<lambda>r. fst (recon_mark want g r)) s)"
| evict: "stats_step s (with_reg (recon_evict i) s)"
| close: "stats_step s (with_reg Close s)"
| start: "h < length (workers_of s) \<Longrightarrow> stats_step s (with_reg (worker_start h now) s)"
| tick: "h < length (workers_of s) \<Longrightarrow> stats_step s (worker_tick h now s)"
| returns: "i < length (syFlights s) \<Longrightarrow> flPhase (syFlights s ! i) = Calling \<Longrightarrow> stats_step s (statfs_returned i res s)"
| sends: "i < length (syFlights s) \<Longrightarrow> flPhase (syFlights s ! i) = Stored res \<Longrightarrow>
    stats_step s (set_flight i (\<lambda>f. f\<lparr>flPhase := Sent res\<rparr>) s)"
| delivers: "i < length (syFlights s) \<Longrightarrow> flPhase (syFlights s ! i) = Sent res \<Longrightarrow> flWatch (syFlights s ! i) \<Longrightarrow>
    stats_step s (watchdog_reports i res now s)"
| times_out: "i < length (syFlights s) \<Longrightarrow> flWatch (syFlights s ! i) \<Longrightarrow>
    stats_step s (watchdog_reports i (Inl (''statfs timed out after '' @ duration)) now s)"
| abandons: "i < length (syFlights s) \<Longrightarrow> flWatch (syFlights s ! i) \<Longrightarrow> ctx_done (flWorker (syFlights s ! i)) s \<Longrightarrow>
    stats_step s (set_flight i (\<lambda>f. f\<lparr>flWatch := False\<rparr>) s)"
| walked: "k < length (syWalks s) \<Longrightarrow> wfRunning (syWalks s ! k) \<Longrightarrow> stats_step s (walk_finished k res now s)"

definition stats_init :: "statsConfig \<Rightarrow> string \<Rightarrow> stats_sys" where
  "stats_init cfg node = \<lparr>syReg = NewRegistry cfg node, syFlights = [], syWalks = []\<rparr>"

definition stats_reachable :: "statsConfig \<Rightarrow> string \<Rightarrow> stats_sys \<Rightarrow> bool" where
  "stats_reachable cfg node s \<longleftrightarrow> stats_step\<^sup>*\<^sup>* (stats_init cfg node) s"

section \<open>The invariant\<close>

definition calls_of :: "nat \<Rightarrow> stats_sys \<Rightarrow> nat" where
  "calls_of h s = length (filter (\<lambda>f. flWorker f = h \<and> flPhase f = Calling) (syFlights s))"

definition walks_of :: "nat \<Rightarrow> stats_sys \<Rightarrow> nat" where
  "walks_of h s = length (filter (\<lambda>f. wfWorker f = h \<and> wfRunning f) (syWalks s))"

definition statfs_flag :: "Registry \<Rightarrow> nat \<Rightarrow> bool" where
  "statfs_flag r h \<longleftrightarrow> h < length (rgHeap r) \<and> wkStatfsInFlight (rgHeap r ! h)"

definition walk_flag :: "Registry \<Rightarrow> nat \<Rightarrow> bool" where
  "walk_flag r h \<longleftrightarrow> h < length (rgHeap r) \<and> wkWalkInFlight (rgHeap r ! h)"

definition sys_inv :: "stats_sys \<Rightarrow> bool" where
  "sys_inv s \<longleftrightarrow> reg_inv (syReg s) \<and>
     (\<forall>h. calls_of h s = of_bool (statfs_flag (syReg s) h)) \<and> (\<forall>h. walks_of h s = of_bool (walk_flag (syReg s) h))"

text \<open>A change of the registry that keeps the flags of the workers, and may add idle ones.\<close>

definition flags_kept :: "Registry \<Rightarrow> Registry \<Rightarrow> bool" where
  "flags_kept r r' \<longleftrightarrow> statfs_flag r' = statfs_flag r \<and> walk_flag r' = walk_flag r"

lemma flags_kept_heap: "rgHeap r' = rgHeap r \<Longrightarrow> flags_kept r r'"
  by (simp add: flags_kept_def statfs_flag_def walk_flag_def fun_eq_iff)

lemma flags_kept_trans: "flags_kept a b \<Longrightarrow> flags_kept b c \<Longrightarrow> flags_kept a c"
  by (simp add: flags_kept_def)

lemma flags_kept_with_worker:
  assumes a: "\<And>w. wkStatfsInFlight (f w) = wkStatfsInFlight w" and b: "\<And>w. wkWalkInFlight (f w) = wkWalkInFlight w"
  shows "flags_kept r (with_worker h f r)"
  by (simp add: flags_kept_def statfs_flag_def walk_flag_def with_worker_nth a b fun_eq_iff cong: conj_cong)

lemma flags_kept_Track: "flags_kept r (Track i p acc r)"
proof (cases "scEnabled (rgCfg r) \<and> i \<noteq> []")
  case True
  show ?thesis
  proof (cases "map_of (rgVols r) i")
    case None
    then show ?thesis using Track_new(3) [of r i p acc] True
      by (auto simp: flags_kept_def statfs_flag_def walk_flag_def nth_append new_worker_def less_Suc_eq fun_eq_iff)
  next
    case (Some h)
    then show ?thesis using True by (auto simp: Track_def intro!: flags_kept_with_worker)
  qed
qed (auto simp: Track_def intro!: flags_kept_heap)

lemma flags_kept_Untrack: "flags_kept r (Untrack i r)"
  by (simp add: flags_kept_def statfs_flag_def walk_flag_def Untrack_fields Untrack_heap fun_eq_iff
      if_distrib [of wkStatfsInFlight] if_distrib [of wkWalkInFlight] cong: conj_cong)

lemma flags_kept_update: "flags_kept r (update_reading i f r)"
  by (intro flags_kept_heap) (simp add: update_reading_def split: option.splits)

lemma onStatfs_kept: "flags_kept r (onStatfs h res now r)"
  unfolding onStatfs_def Let_def
  by (rule flags_kept_trans [OF flags_kept_with_worker flags_kept_update]) (simp_all split: sum.splits)

lemma onWalk_kept: "flags_kept r (onWalk h resw st now r)"
  unfolding onWalk_def Let_def
  by (rule flags_kept_trans [OF flags_kept_with_worker flags_kept_update]) (simp_all split: sum.splits)

lemma onStatfs_inv: "reg_inv r \<Longrightarrow> reg_inv (onStatfs h res now r)"
  and onWalk_inv: "reg_inv r \<Longrightarrow> reg_inv (onWalk h resw st now r)"
  unfolding onStatfs_def onWalk_def Let_def
  by (intro update_reading_inv with_worker_inv; auto simp: apply_statfs_def apply_walk_def split: sum.splits)+

text \<open>The registry operations among the steps.\<close>

lemma sys_inv_reg: "sys_inv s \<Longrightarrow> reg_inv r' \<Longrightarrow> flags_kept (syReg s) r' \<Longrightarrow> sys_inv (s\<lparr>syReg := r'\<rparr>)"
  by (simp add: sys_inv_def flags_kept_def calls_of_def walks_of_def)

lemma Close_inv: "reg_inv r \<Longrightarrow> reg_inv (Close r)"
  using reg_inv_D [of r] by (intro reg_inv_I) (auto simp: Close_def simp del: map_of_eq_Some_iff)

lemma recon_mark_inv: "reg_inv r \<Longrightarrow> reg_inv (fst (recon_mark want g r))"
  using recon_mark(3) [of r want g] by (metis prod.collapse)

lemma recon_mark_kept: "reg_inv r \<Longrightarrow> flags_kept r (fst (recon_mark want g r))"
  by (intro flags_kept_heap) (simp add: recon_mark_def split: prod.splits)

lemma recon_evict_kept: "flags_kept r (recon_evict i r)"
  by (rule flags_kept_trans [OF flags_kept_Untrack flags_kept_heap]) (simp add: recon_evict_def Let_def)

lemma worker_start_inv: "reg_inv r \<Longrightarrow> reg_inv (worker_start h now r)"
  unfolding worker_start_def by (rule with_worker_inv) auto

lemmas reg_step_facts = Track_inv Untrack_inv recon_mark_inv recon_evict_inv Close_inv worker_start_inv
  flags_kept_Track flags_kept_Untrack recon_mark_kept recon_evict_kept

section \<open>Single flight\<close>

lemma length_filter_update: "i < length xs \<Longrightarrow>
  length (filter P (xs[i := y])) + of_bool (P (xs ! i)) = length (filter P xs) + of_bool (P y)"
proof (induction xs arbitrary: i)
  case (Cons x xs)
  then show ?case by (cases i) (auto simp: algebra_simps)
qed simp

text \<open>Raising or clearing a flag of one worker.\<close>

lemma flag_set:
  assumes "h < length (rgHeap r)" and a: "\<And>w. wkStatfsInFlight (f w) = b" "\<And>w. wkWalkInFlight (f w) = wkWalkInFlight w"
  shows "statfs_flag (with_worker h f r) = (statfs_flag r)(h := b)" "walk_flag (with_worker h f r) = walk_flag r"
  using assms(1) by (auto simp: statfs_flag_def walk_flag_def with_worker_nth a fun_eq_iff cong: conj_cong split: if_splits)

lemma wflag_set:
  assumes "h < length (rgHeap r)" and a: "\<And>w. wkWalkInFlight (f w) = b" "\<And>w. wkStatfsInFlight (f w) = wkStatfsInFlight w"
  shows "walk_flag (with_worker h f r) = (walk_flag r)(h := b)" "statfs_flag (with_worker h f r) = statfs_flag r"
  using assms(1) by (auto simp: statfs_flag_def walk_flag_def with_worker_nth a fun_eq_iff cong: conj_cong split: if_splits)

lemma fireStatfs_inv:
  assumes "sys_inv s" "h < length (workers_of s)"
  shows "sys_inv (fireStatfs h s)"
proof (cases "wkStatfsInFlight (workers_of s ! h)")
  case False
  let ?f = "\<lambda>w. w\<lparr>wkStatfsInFlight := True\<rparr>"
  have fl: "statfs_flag (with_worker h ?f (syReg s)) = (statfs_flag (syReg s))(h := True)"
      "walk_flag (with_worker h ?f (syReg s)) = walk_flag (syReg s)"
    using flag_set [OF assms(2), of ?f True] by simp_all
  have "\<not> statfs_flag (syReg s) h" using False by (simp add: statfs_flag_def)
  moreover have "reg_inv (with_worker h ?f (syReg s))"
    using assms(1) by (intro with_worker_inv) (auto simp: sys_inv_def)
  ultimately show ?thesis using assms(1) False
    by (auto simp: fireStatfs_def sys_inv_def fl calls_of_def walks_of_def)
qed (simp add: fireStatfs_def assms(1))

lemma fireWalk_inv:
  assumes "sys_inv s" "h < length (workers_of s)"
  shows "sys_inv (fireWalk h now s)"
proof (cases "\<not> wkStatfsOK (workers_of s ! h) \<or> wkWalkInFlight (workers_of s ! h)")
  case False
  let ?f = "\<lambda>w. w\<lparr>wkWalkInFlight := True\<rparr>"
  have fl: "walk_flag (with_worker h ?f (syReg s)) = (walk_flag (syReg s))(h := True)"
      "statfs_flag (with_worker h ?f (syReg s)) = statfs_flag (syReg s)"
    using wflag_set [OF assms(2), of ?f True] by simp_all
  have "\<not> walk_flag (syReg s) h" using False by (simp add: walk_flag_def)
  moreover have "reg_inv (with_worker h ?f (syReg s))"
    using assms(1) by (intro with_worker_inv) (auto simp: sys_inv_def)
  ultimately show ?thesis using assms(1) False
    by (auto simp: fireWalk_def sys_inv_def fl calls_of_def walks_of_def)
qed (simp add: fireWalk_def assms(1))

lemma fire_heap: "length (workers_of (fireStatfs h s)) = length (workers_of s)"
  by (simp add: fireStatfs_def)

lemma worker_tick_inv: "sys_inv s \<Longrightarrow> h < length (workers_of s) \<Longrightarrow> sys_inv (worker_tick h now s)"
  by (simp add: worker_tick_def Let_def fireStatfs_inv fireWalk_inv fire_heap)

text \<open>A call that returns, and a walk that ends, clear the flag they hold.\<close>

lemma statfs_returned_inv:
  assumes "sys_inv s" "i < length (syFlights s)" "flPhase (syFlights s ! i) = Calling"
  shows "sys_inv (statfs_returned i res s)"
proof -
  let ?f = "\<lambda>w. w\<lparr>wkStatfsInFlight := False\<rparr>" and ?h = "flWorker (syFlights s ! i)"
  let ?s = "statfs_returned i res s"
  have cnt: "calls_of h ?s + of_bool (?h = h) = calls_of h s" for h
    using length_filter_update [OF assms(2), of "\<lambda>f. flWorker f = h \<and> flPhase f = Calling"
        "(syFlights s ! i)\<lparr>flPhase := Stored res\<rparr>"] assms(3)
    by (simp add: calls_of_def statfs_returned_def set_flight_def)
  have fl: "statfs_flag (syReg s) ?h" using cnt [of ?h] assms(1)
    by (cases "statfs_flag (syReg s) ?h") (auto simp: sys_inv_def)
  then have h: "?h < length (workers_of s)" by (simp add: statfs_flag_def)
  have "reg_inv (with_worker ?h ?f (syReg s))" using assms(1) by (intro with_worker_inv) (auto simp: sys_inv_def)
  moreover have "calls_of h ?s = of_bool (statfs_flag (syReg ?s) h)" for h
    using cnt [of h] fl assms(1) flag_set(1) [OF h, of ?f False]
    by (auto simp: sys_inv_def statfs_returned_def split: if_splits)
  moreover have "walks_of h ?s = of_bool (walk_flag (syReg ?s) h)" for h
    using assms(1) flag_set(2) [OF h, of ?f False]
    by (auto simp: sys_inv_def statfs_returned_def set_flight_def walks_of_def)
  ultimately show ?thesis by (simp add: sys_inv_def) (simp add: statfs_returned_def)
qed

lemma set_flight_inv:
  assumes "sys_inv s" "i < length (syFlights s)" "\<And>x. flWorker (f x) = flWorker x"
    "(flPhase (f (syFlights s ! i)) = Calling) = (flPhase (syFlights s ! i) = Calling)"
  shows "sys_inv (set_flight i f s)"
proof -
  have "calls_of h (set_flight i f s) = calls_of h s" for h
    using length_filter_update [OF assms(2), of "\<lambda>f. flWorker f = h \<and> flPhase f = Calling" "f (syFlights s ! i)"] assms(3,4)
    by (simp add: calls_of_def set_flight_def)
  moreover have "walks_of h (set_flight i f s) = walks_of h s" for h by (simp add: walks_of_def set_flight_def)
  moreover have "syReg (set_flight i f s) = syReg s" by (simp add: set_flight_def)
  ultimately show ?thesis using assms(1) by (simp add: sys_inv_def)
qed

lemma watchdog_reports_inv:
  assumes "sys_inv s" "i < length (syFlights s)"
  shows "sys_inv (watchdog_reports i res now s)"
proof -
  let ?s = "set_flight i (\<lambda>f. f\<lparr>flWatch := False\<rparr>) s"
  have i: "sys_inv ?s" using assms by (intro set_flight_inv) auto
  have r: "syReg ?s = syReg s" by (simp add: set_flight_def)
  show ?thesis unfolding watchdog_reports_def
    by (rule sys_inv_reg [OF i]) (use i onStatfs_inv onStatfs_kept r in \<open>auto simp: sys_inv_def\<close>)
qed

lemma walk_finished_inv:
  assumes "sys_inv s" "k < length (syWalks s)" "wfRunning (syWalks s ! k)"
  shows "sys_inv (walk_finished k res now s)"
proof -
  let ?f = "\<lambda>w. w\<lparr>wkWalkInFlight := False\<rparr>" and ?h = "wfWorker (syWalks s ! k)"
  let ?s = "walk_finished k res now s" and ?r = "onWalk (wfWorker (syWalks s ! k)) res (wfStart (syWalks s ! k)) now (syReg s)"
  have kept: "statfs_flag ?r = statfs_flag (syReg s)" "walk_flag ?r = walk_flag (syReg s)"
    using onWalk_kept by (auto simp: flags_kept_def)
  have cnt: "walks_of h ?s + of_bool (?h = h) = walks_of h s" for h
    using length_filter_update [OF assms(2), of "\<lambda>f. wfWorker f = h \<and> wfRunning f"
        "(syWalks s ! k)\<lparr>wfRunning := False\<rparr>"] assms(3)
    by (simp add: walks_of_def walk_finished_def Let_def)
  have fl: "walk_flag ?r ?h" using cnt [of ?h] assms(1) kept
    by (cases "walk_flag (syReg s) ?h") (auto simp: sys_inv_def)
  then have h: "?h < length (rgHeap ?r)" by (simp add: walk_flag_def)
  have reg: "syReg ?s = with_worker ?h ?f ?r" by (simp add: walk_finished_def Let_def)
  have "reg_inv ?r" using assms(1) onWalk_inv by (simp add: sys_inv_def)
  then have "reg_inv (syReg ?s)" unfolding reg by (rule with_worker_inv) auto
  moreover have "walks_of h ?s = of_bool (walk_flag (syReg ?s) h)" for h
    using cnt [of h] fl assms(1) wflag_set(1) [OF h, of ?f False] kept unfolding reg
    by (auto simp: sys_inv_def split: if_splits)
  moreover have "calls_of h ?s = of_bool (statfs_flag (syReg ?s) h)" for h
    using assms(1) wflag_set(2) [OF h, of ?f False] kept unfolding reg
    by (auto simp: sys_inv_def calls_of_def walk_finished_def Let_def)
  ultimately show ?thesis by (simp add: sys_inv_def)
qed

lemma sys_inv_with_reg:
  "sys_inv s \<Longrightarrow> (reg_inv (syReg s) \<Longrightarrow> reg_inv (f (syReg s)) \<and> flags_kept (syReg s) (f (syReg s))) \<Longrightarrow> sys_inv (with_reg f s)"
  unfolding with_reg_def by (rule sys_inv_reg) (auto simp: sys_inv_def)

lemma Close_kept: "flags_kept r (Close r)"
  by (intro flags_kept_heap) (simp add: Close_def)

lemma worker_start_kept: "flags_kept r (worker_start h now r)"
  unfolding worker_start_def by (intro flags_kept_with_worker) auto

lemma stats_step_inv: "stats_step s s' \<Longrightarrow> sys_inv s \<Longrightarrow> sys_inv s'"
  by (induction rule: stats_step.induct)
    (simp_all add: sys_inv_with_reg reg_step_facts Close_kept worker_start_kept set_flight_inv worker_tick_inv
      statfs_returned_inv watchdog_reports_inv walk_finished_inv)

lemma reachable_inv: "stats_reachable c node s \<Longrightarrow> sys_inv s"
  unfolding stats_reachable_def
proof (induction rule: rtranclp_induct)
  case base
  show ?case
    by (simp add: stats_init_def sys_inv_def NewRegistry_def Let_def calls_of_def walks_of_def statfs_flag_def walk_flag_def
        reg_inv_def)
qed (rule stats_step_inv)

end
