(* ===== verification/Stats_Props.thy ===== *)
theory Stats_Props
  imports Stats_System
begin

text \<open>
  What the usage registry guarantees: one supervisor per measured volume and one outstanding call per
  supervisor under every interleaving, the contract of a reconciliation pass and its liveness, the
  bounds of backoff and jitter, and the grace counter that survives an unstage.
\<close>

section \<open>One worker, one call\<close>

definition live_workers :: "string \<Rightarrow> Registry \<Rightarrow> nat set" where
  "live_workers i r = {h. h < length (rgHeap r) \<and> wkID (rgHeap r ! h) = i \<and> \<not> wkCancelled (rgHeap r ! h)}"

lemma live_workers_inv: "reg_inv r \<Longrightarrow> live_workers i r = set_option (map_of (rgVols r) i)"
  using reg_inv_D(4,6) [of r] by (auto simp: live_workers_def elem_set simp del: map_of_eq_Some_iff)

lemma live_workers_measured: "reg_inv r \<Longrightarrow> card (live_workers i r) = of_bool (i \<in> dom (measured r))"
  by (cases "map_of (rgVols r) i") (auto simp: live_workers_inv measured_def)

text \<open>The counters of absences never go below zero.\<close>

definition absent_ok :: "Registry \<Rightarrow> bool" where
  "absent_ok r \<longleftrightarrow> (\<forall>i. 0 \<le> absent_count (rgAbsent r) i)"

lemma absent_ok_same: "absent_ok r \<Longrightarrow> rgAbsent r' = rgAbsent r \<Longrightarrow> absent_ok r'"
  by (simp add: absent_ok_def)

lemma absent_ok_mark: "reg_inv r \<Longrightarrow> absent_ok r \<Longrightarrow> absent_ok (fst (recon_mark want g r))"
proof -
  assume r: "reg_inv r" "absent_ok r"
  obtain r' ev where m: "recon_mark want g r = (r', ev)" by fastforce
  show ?thesis using recon_mark(4) [OF r(1) m] r(2) m by (auto simp: absent_ok_def absent_count_def [of "rgAbsent r'"])
qed

lemma absent_ok_evict: "absent_ok r \<Longrightarrow> absent_ok (recon_evict i r)"
  by (auto simp: absent_ok_def recon_evict_def Let_def Untrack_fields absent_count_def delete_conv')

lemma update_reading_absent: "rgAbsent (update_reading i f r) = rgAbsent r"
  by (simp add: update_reading_def split: option.splits)

lemma with_worker_absent: "rgAbsent (with_worker h f r) = rgAbsent r"
  by (simp add: with_worker_def)

lemmas absent_same = update_reading_absent with_worker_absent Untrack_fields Track_cfg

lemma step_absent_ok: "stats_step s s' \<Longrightarrow> sys_inv s \<Longrightarrow> absent_ok (syReg s) \<Longrightarrow> absent_ok (syReg s')"
proof (induction rule: stats_step.induct)
  case (mark s want g)
  then show ?case using absent_ok_mark by (simp add: with_reg_def sys_inv_def)
next
  case (evict s i)
  then show ?case using absent_ok_evict by (simp add: with_reg_def)
qed (erule absent_ok_same, simp add: with_reg_def absent_same Close_def worker_start_def worker_tick_def fireStatfs_def fireWalk_def
      statfs_returned_def watchdog_reports_def walk_finished_def set_flight_def onStatfs_def onWalk_def Let_def)+

lemma reachable_absent_ok: "stats_reachable c node s \<Longrightarrow> absent_ok (syReg s)"
  unfolding stats_reachable_def
proof (induction rule: rtranclp_induct)
  case base
  show ?case by (simp add: stats_init_def NewRegistry_def Let_def absent_ok_def absent_count_def)
next
  case (step s s')
  then show ?case using step_absent_ok reachable_inv stats_reachable_def by blast
qed

section \<open>Passes\<close>

definition passes :: "int \<Rightarrow> TrackSpec list list \<Rightarrow> Registry \<Rightarrow> Registry" where
  "passes grace dss r = fold (\<lambda>ds r. fst (Reconcile ds True grace r)) dss r"

text \<open>A pass that misses a volume either evicts it or counts the absence.\<close>

lemma missed_pass:
  fixes grace :: int
  assumes "reg_inv r" "scEnabled (rgCfg r)" "i \<notin> set (wanted ds)"
  defines "r' \<equiv> fst (Reconcile ds True grace r)"
  shows "i \<in> known r' \<Longrightarrow> i \<in> known r \<and> absent_count (rgAbsent r') i = absent_count (rgAbsent r) i + 1 \<and>
    absent_count (rgAbsent r) i + 1 < max 1 grace"
proof -
  obtain ev where R: "Reconcile ds True grace r = (r', ev)" by (metis prod.collapse r'_def)
  note A = Reconcile_abs [OF assms(1,2) R]
  have k: "known r' = snd (spec_tracks ds (abs_reg r)) - set ev"
    using A(3) by (metis abs_reg_def fold_untrack prod.collapse snd_conv)
  assume "i \<in> known r'"
  then show ?thesis using k A(4,5) assms(3)
    by (auto simp: spec_tracks_known due_def absent_count_def [of "rgAbsent r'"] abs_reg_def split: if_splits)
qed

lemma pass_inv: "reg_inv r \<Longrightarrow> scEnabled (rgCfg r) \<Longrightarrow>
    reg_inv (fst (Reconcile ds e g r)) \<and> scEnabled (rgCfg (fst (Reconcile ds e g r)))"
  using Reconcile_abs(1,2) by (metis prod.collapse)

lemma missed_passes:
  assumes "reg_inv r" "scEnabled (rgCfg r)" "\<forall>ds \<in> set dss. i \<notin> set (wanted ds)" "i \<in> known (passes grace dss r)" "dss \<noteq> []"
  shows "absent_count (rgAbsent r) i + int (length dss) < max 1 grace"
  using assms
proof (induction dss arbitrary: r)
  case (Cons ds dss)
  let ?r = "fst (Reconcile ds True grace r)"
  have p: "passes grace (ds # dss) r = passes grace dss ?r" by (simp add: passes_def)
  show ?case
  proof (cases "dss = []")
    case True
    then show ?thesis using missed_pass [of r i ds grace] Cons.prems by (simp add: passes_def)
  next
    case False
    have "i \<in> known ?r"
    proof (rule ccontr)
      assume "i \<notin> known ?r"
      moreover have "i \<notin> known r0 \<Longrightarrow> reg_inv r0 \<Longrightarrow> scEnabled (rgCfg r0) \<Longrightarrow> \<forall>ds \<in> set xs. i \<notin> set (wanted ds) \<Longrightarrow>
          i \<notin> known (passes grace xs r0)" for xs r0
      proof (induction xs arbitrary: r0)
        case (Cons d xs)
        then show ?case using missed_pass [of r0 i d grace] pass_inv [of r0 d True grace] by (auto simp: passes_def)
      qed (simp add: passes_def)
      ultimately show False using pass_inv [of r ds True grace] Cons.prems p by auto
    qed
    then have "absent_count (rgAbsent ?r) i = absent_count (rgAbsent r) i + 1"
      using missed_pass [of r i ds grace] Cons.prems by auto
    moreover have "absent_count (rgAbsent ?r) i + int (length dss) < max 1 grace"
      using Cons.IH [of ?r] Cons.prems pass_inv [of r ds True grace] False p by auto
    ultimately show ?thesis by simp
  qed
qed simp

section \<open>Properties\<close>

text \<open>A demonstration configuration and a run of one volume whose mount hangs.\<close>

definition demo_stats :: statsConfig where
  "demo_stats = \<lparr>scEnabled = True, scInterval = 60 * Second, scStatfsTimeout = 0, scWalkEnabled = True, scWalkInterval = 0,
     scWalkWorkers = 0, scWalkBuffer = 0, scWalkTimeout = 0, scStaleAfter = 0, scMaxFailureBackoff = 0, scAggregateInterval = 0,
     scMetricsPerVolume = False, scQueryAddr = [], scQueryToken = [], scQueryTokenHeader = [], scNamespace = []\<rparr>"

definition demo_hung :: stats_sys where
  "demo_hung = worker_tick 0 1 (worker_tick 0 0 (with_reg (Track ''v'' ''/stage/v'' AccessMount) (stats_init demo_stats ''n1'')))"

lemma demo_hung_reachable: "stats_reachable demo_stats ''n1'' demo_hung"
proof -
  let ?s0 = "stats_init demo_stats ''n1''" and ?t = "with_reg (Track ''v'' ''/stage/v'' AccessMount)"
  have "0 < length (workers_of (?t ?s0))" "0 < length (workers_of (worker_tick 0 0 (?t ?s0)))" by code_simp+
  then have "stats_step ?s0 (?t ?s0)" "stats_step (?t ?s0) (worker_tick 0 0 (?t ?s0))"
      "stats_step (worker_tick 0 0 (?t ?s0)) demo_hung"
    unfolding demo_hung_def by (auto intro: stats_step.intros)
  then show ?thesis unfolding stats_reachable_def by (meson converse_rtranclp_into_rtranclp rtranclp.rtrancl_refl)
qed

text \<open>C14. Under every interleaving of RPCs, reconciliation, ticks, returning and hanging calls: a
  volume has exactly one live worker if it is measured and none otherwise, a worker has at most one
  outstanding statfs and at most one walk, and exactly when its in-flight flag is set; every cached
  reading carries its own volume id and the name of the node.\<close>

theorem stats_single_flight:
  assumes "stats_reachable c node s"
  shows "card (live_workers i (syReg s)) = of_bool (i \<in> dom (measured (syReg s)))
    \<and> calls_of h s \<le> 1 \<and> (calls_of h s = 1 \<longleftrightarrow> statfs_flag (syReg s) h)
    \<and> walks_of h s \<le> 1 \<and> (walks_of h s = 1 \<longleftrightarrow> walk_flag (syReg s) h)
    \<and> pred_option (\<lambda>cs. csVolumeID cs = i \<and> sbNode cs = rgNode (syReg s)) (Get i (syReg s))"
  using reachable_inv [OF assms] reg_inv_D(5) [of "syReg s" i] live_workers_measured
  by (auto simp: sys_inv_def Get_def option.pred_set elem_set simp del: map_of_eq_Some_iff)

theorem stats_single_flight_witness:
  "calls_of 0 demo_hung = 1 \<and> card (live_workers ''v'' (syReg demo_hung)) = 1"
proof -
  have "statfs_flag (syReg demo_hung) 0" "''v'' \<in> dom (measured (syReg demo_hung))" by code_simp+
  then show ?thesis using stats_single_flight [OF demo_hung_reachable, of "''v''" 0] by auto
qed

text \<open>C21. A reconciliation pass refines the abstract view (volume to measured path, set of known
  volumes): it tracks what is desired, then forgets exactly the known volumes that are not desired
  and whose absences, this one included, reach the grace. It never evicts a desired volume, evicts
  nothing when the enumeration was partial, and keeps the registry's invariant.\<close>

theorem reconcile_refines:
  assumes "reg_inv r" "scEnabled (rgCfg r)" "Reconcile ds evict grace r = (r', ev)"
  shows "reg_inv r' \<and> abs_reg r' = fold spec_untrack ev (spec_tracks ds (abs_reg r))
    \<and> set ev = (if evict then {i \<in> known r - set (wanted ds). max 1 grace \<le> absent_count (rgAbsent r) i + 1} else {})
    \<and> known r' = known r \<union> set (wanted ds) - set ev"
proof -
  note A = Reconcile_abs [OF assms]
  have k: "snd (spec_tracks ds (abs_reg r)) = known r \<union> set (wanted ds)" by (simp add: spec_tracks_known abs_reg_def)
  have "known r' = snd (spec_tracks ds (abs_reg r)) - set ev"
    using A(3) by (metis abs_reg_def fold_untrack prod.collapse snd_conv)
  moreover have "(if grace < 1 then 1 else grace) = max 1 grace" by simp
  ultimately show ?thesis using A(1,3,4) k by (auto simp: due_def)
qed

definition demo_spec :: TrackSpec where
  "demo_spec = \<lparr>tsVolumeID = ''w'', tsStagingPath = ''/stage/w'', tsAccessType = AccessMount\<rparr>"

definition demo_reg :: Registry where
  "demo_reg = Track ''v'' ''/stage/v'' AccessMount (NewRegistry demo_stats ''n1'')"

lemma demo_reg_inv: "reg_inv demo_reg"
  unfolding demo_reg_def by (intro Track_inv NewRegistry_inv)

theorem reconcile_refines_witness:
  "\<exists>r'. Reconcile [demo_spec] True 1 demo_reg = (r', [''v'']) \<and> known r' = {''w''}"
proof -
  obtain r' ev where R: "Reconcile [demo_spec] True 1 demo_reg = (r', ev)" by fastforce
  have "snd (Reconcile [demo_spec] True 1 demo_reg) = [''v'']" by code_simp
  then have ev: "ev = [''v'']" using R by simp
  have "scEnabled (rgCfg demo_reg)" by code_simp
  moreover have "known demo_reg = {''v''}" "set (wanted [demo_spec]) = {''w''}" by code_simp+
  ultimately show ?thesis using reconcile_refines [OF demo_reg_inv _ R] R ev by auto
qed

text \<open>C22. A volume that is gone leaves the registry: in every reachable state, as many consecutive
  evicting passes as the grace (at least one) that do not name the volume leave it unknown and
  unmeasured, whatever the counters were.\<close>

theorem gone_volume_forgotten:
  assumes "stats_reachable c node s" "scEnabled (rgCfg (syReg s))" "\<forall>ds \<in> set dss. i \<notin> set (wanted ds)"
    "dss \<noteq> []" "grace \<le> int (length dss)"
  shows "i \<notin> known (passes grace dss (syReg s)) \<and> measured (passes grace dss (syReg s)) i = None"
proof -
  have r: "reg_inv (syReg s)" using reachable_inv [OF assms(1)] by (simp add: sys_inv_def)
  have "0 \<le> absent_count (rgAbsent (syReg s)) i" using reachable_absent_ok [OF assms(1)] by (simp add: absent_ok_def)
  moreover have "1 \<le> int (length dss)" using assms(4) by (cases dss) auto
  ultimately have u: "i \<notin> known (passes grace dss (syReg s))"
    using missed_passes [OF r assms(2,3) _ assms(4)] assms(5) by fastforce
  have "reg_inv r0 \<Longrightarrow> scEnabled (rgCfg r0) \<Longrightarrow> reg_inv (passes grace xs r0)" for xs r0
    by (induction xs arbitrary: r0) (auto simp: passes_def pass_inv)
  then show ?thesis using u measured_known r assms(2) by blast
qed

theorem gone_volume_forgotten_witness:
  "''v'' \<in> known (syReg demo_hung) \<and> ''v'' \<in> known (passes 2 [[demo_spec]] (syReg demo_hung))
    \<and> ''v'' \<notin> known (passes 2 [[demo_spec], []] (syReg demo_hung))"
proof -
  have "''v'' \<in> known (syReg demo_hung)" "''v'' \<in> known (passes 2 [[demo_spec]] (syReg demo_hung))"
    "scEnabled (rgCfg (syReg demo_hung))" "\<forall>ds \<in> set [[demo_spec], []]. ''v'' \<notin> set (wanted ds)" by code_simp+
  then show ?thesis using gone_volume_forgotten [OF demo_hung_reachable, of "[[demo_spec], []]" "''v''" 2] by simp
qed

text \<open>C23. The retry delay after n failures is the interval doubled n - 1 times, capped at the maximum,
  without overflow for any maximum up to \<open>2 ^ 62\<close> nanoseconds; the first tick of a worker falls in
  the interval.\<close>

theorem backoff_and_jitter:
  assumes "0 < base" "in64 base" "mx \<le> 2 ^ 62"
  shows "backoff base mx fails = min mx (base * 2 ^ nat (fails - 1)) \<and> 0 \<le> jitterFor key base \<and> jitterFor key base < base"
  using backoff_exact [of base mx fails] jitterFor_bounds [of base key] assms by simp

theorem backoff_and_jitter_witness:
  "backoff DefaultInterval (30 * Minute) 5 = 16 * Minute \<and> backoff DefaultInterval (30 * Minute) 100 = 30 * Minute
    \<and> jitterFor ''v-s'' DefaultInterval < DefaultInterval"
  using backoff_and_jitter [of DefaultInterval "30 * Minute" 5 "''v-s''"] backoff_and_jitter [of DefaultInterval "30 * Minute" 100]
  by (simp add: DefaultInterval_def Minute_def Second_def in64_def MinInt64_def MaxInt64_def)

text \<open>The grace counter survives an unstage. A volume that was absent from one evicting pass of
  grace two, then unstaged and staged again, is dropped by the first later pass that misses it: the
  two absences were not consecutive for the volume as it is now staged.\<close>

theorem grace_survives_unstage:
  assumes "reg_inv r" "scEnabled (rgCfg r)" "i \<noteq> []" "absent_count (rgAbsent r) i = 0"
  shows "let r1 = fst (Reconcile [] True 2 (Track i p acc r)); r2 = Track i p acc (Untrack i r1)
    in i \<in> known r1 \<and> i \<in> known r2 \<and> i \<in> set (snd (Reconcile [] True 2 r2))"
proof -
  let ?r0 = "Track i p acc r"
  obtain r1 e1 where R1: "Reconcile [] True 2 ?r0 = (r1, e1)" by fastforce
  let ?r2 = "Track i p acc (Untrack i r1)"
  obtain r3 e3 where R3: "Reconcile [] True 2 ?r2 = (r3, e3)" by fastforce
  have i0: "reg_inv ?r0" and c0: "scEnabled (rgCfg ?r0)" "rgAbsent ?r0 = rgAbsent r"
    using assms Track_inv Track_cfg by simp_all
  have k0: "i \<in> known ?r0" using abs_Track [OF assms(1-3), of p acc]
    by (cases "abs_reg r") (auto simp: abs_reg_def spec_track_def)
  note P = Reconcile_abs [OF i0 c0(1) R1]
  have S: "spec_tracks [] a = a" for a by (simp add: spec_tracks_def)
  have k1: "i \<notin> set e1" using P(4) c0(2) assms(4) by (auto simp: due_def)
  have "snd (abs_reg r1) = snd (abs_reg ?r0) - set e1"
    using P(3) unfolding S by (metis fold_untrack prod.collapse snd_conv)
  then have n1: "i \<in> known r1" using k0 k1 by (simp add: abs_reg_def)
  have a1: "map_of (rgAbsent r1) i = Some 1"
    using P(5) [of i] k0 k1 c0(2) assms(4) unfolding S by (simp add: abs_reg_def wanted_def)
  have u: "reg_inv (Untrack i r1)" "scEnabled (rgCfg (Untrack i r1))" using P Untrack_inv by (simp_all add: Untrack_fields)
  have i2: "reg_inv ?r2" "scEnabled (rgCfg ?r2)" "rgAbsent ?r2 = rgAbsent r1"
    using u Track_inv by (simp_all add: Track_cfg Untrack_fields)
  have k2: "i \<in> known ?r2" using abs_Track [OF u assms(3), of p acc]
    by (cases "abs_reg (Untrack i r1)") (auto simp: abs_reg_def spec_track_def)
  have "i \<in> set e3" using Reconcile_abs(4) [OF i2(1,2) R3] k2 a1 unfolding S
    by (simp add: abs_reg_def due_def wanted_def i2(3) absent_count_def)
  then show ?thesis using R1 R3 n1 k2 by simp
qed

theorem grace_survives_unstage_witness:
  "let r = NewRegistry demo_stats ''n1''; r1 = fst (Reconcile [] True 2 (Track ''v'' ''/stage/v'' AccessMount r))
   in ''v'' \<in> set (snd (Reconcile [] True 2 (Track ''v'' ''/stage/v'' AccessMount (Untrack ''v'' r1))))"
proof -
  let ?r = "NewRegistry demo_stats ''n1''"
  have "scEnabled (rgCfg ?r)" "absent_count (rgAbsent ?r) ''v'' = 0" by code_simp+
  then show ?thesis
    using grace_survives_unstage [OF NewRegistry_inv, of demo_stats "''n1''" "''v''" "''/stage/v''" AccessMount]
    unfolding Let_def by simp
qed

end
