(* ===== verification/Local_Node_Props.thy ===== *)
theory Local_Node_Props
  imports Local_Node Stats_Props
begin

text \<open>
  What the node half of the local backend guarantees: no device with data is formatted and no volume
  is staged on a node that does not own it, on every host; staging and unstaging over a mount table;
  the identity of a volume rebuilt from its id; the wait for a device ends; a sweep after a restart
  finds the staged volumes again; and what an expansion without a declared file system does.
\<close>

section \<open>Commands\<close>

lemma PoolStatus_emits: "emits no_mkfs (ZFS_PoolStatus (traced h) p)"
  unfolding ZFS_PoolStatus_def zpool_def by (auto intro!: emits_intros simp: HasPrefix_def split: sum.split)

lemma stage_body_logs:
  assumes "ndHost n = traced h" "\<And>p. emits no_mkfs (ndWaitForPath n p)"
  shows "logs mkfs_guarded (stage_body n req)"
proof -
  have q: "emits no_mkfs m \<Longrightarrow> logs mkfs_guarded m" for m :: "(event list \<times> 'a, 'b) io"
    by (rule mk.logs_emits [OF _ no_mkfs_guarded])
  have fs: "emits no_mkfs (stage_fs n req d)" for d
    unfolding stage_fs_def Let_def assms(1) by (auto intro!: emits_intros mount_emits split: sum.split)
  have pool: "emits no_mkfs (check_stage_pool n d)" for d
    unfolding check_stage_pool_def assms(1) by (auto intro!: emits_intros PoolStatus_emits split: prod.split)
  note q1 = mk.logs_emits [OF pool no_mkfs_guarded] mk.logs_emits [OF fs no_mkfs_guarded]
    mk.logs_emits [OF assms(2) no_mkfs_guarded] mk.logs_emits [OF mount_emits(3) no_mkfs_guarded]
  show ?thesis unfolding stage_body_def
    by (intro mk.logs_intros) (auto simp: assms(1) intro!: mk.logs_intros q1 FormatIfEmpty_logs)
qed

section \<open>Staging over a mount table\<close>





section \<open>A sweep after a restart\<close>

text \<open>The dataset of a mount's source when links resolve by \<open>lnk\<close>.\<close>

definition matched :: "(string \<Rightarrow> string res) \<Rightarrow> smap \<Rightarrow> string \<Rightarrow> string option" where
  "matched lnk ours src = (case ours src of Some ds \<Rightarrow> Some ds
     | None \<Rightarrow> (case lnk src of Ok real \<Rightarrow> ours real | _ \<Rightarrow> None))"

lemma match_device_pure:
  assumes "\<And>w. EvalSymlinks h src w = (lnk src, w)" "\<And>q. lnk src \<noteq> Panic q"
  shows "match_device h ours src w = (Ok (matched lnk ours src), w)"
  using assms by (cases "lnk src") (auto simp: match_device_def matched_def tryIO_def split: option.split)

definition stage_add :: "'w node \<Rightarrow> (string \<Rightarrow> string res) \<Rightarrow> smap \<Rightarrow> MountEntry \<Rightarrow> TrackSpec list \<Rightarrow> TrackSpec list" where
  "stage_add n lnk ours m out = (case matched lnk ours (mtSource m) of None \<Rightarrow> out
     | Some ds \<Rightarrow> (let sp = staged_spec n m ds in if tsVolumeID sp \<in> tsVolumeID ` set out then out else out @ [sp]))"

lemma foldIO_pure: "(\<And>s x w. f s x w = (Ok (g x s), w)) \<Longrightarrow> foldIO f s xs w = (Ok (fold g xs s), w)"
  by (induction xs arbitrary: s) (auto simp: bindIO_def)

text \<open>The staged volumes: one spec per dataset, each from a mount.\<close>

lemma fold_stage_add:
  assumes "distinct (map tsVolumeID out)" "\<forall>d \<in> set out. \<exists>m \<in> M. \<exists>ds. matched lnk ours (mtSource m) = Some ds \<and> d = staged_spec n m ds"
    "set ms \<subseteq> M"
  defines "res \<equiv> fold (stage_add n lnk ours) ms out"
  shows "distinct (map tsVolumeID res) \<and>
    (\<forall>d \<in> set res. \<exists>m \<in> M. \<exists>ds. matched lnk ours (mtSource m) = Some ds \<and> d = staged_spec n m ds) \<and>
    tsVolumeID ` set res = tsVolumeID ` set out \<union>
      {externalID_String \<lparr>eNode = ndNodeID n, eDataset = ds\<rparr> | m ds. m \<in> set ms \<and> matched lnk ours (mtSource m) = Some ds}"
  using assms(1-3) unfolding res_def
proof (induction ms arbitrary: out)
  case (Cons m ms)
  let ?out = "stage_add n lnk ours m out"
  have d: "distinct (map tsVolumeID ?out)" using Cons.prems(1)
    by (auto simp: stage_add_def Let_def split: option.splits)
  have f: "\<forall>d \<in> set ?out. \<exists>m \<in> M. \<exists>ds. matched lnk ours (mtSource m) = Some ds \<and> d = staged_spec n m ds"
    using Cons.prems(2,3) by (auto simp: stage_add_def Let_def split: option.splits)
  have i: "tsVolumeID ` set ?out = tsVolumeID ` set out \<union>
      {externalID_String \<lparr>eNode = ndNodeID n, eDataset = ds\<rparr> | ds. matched lnk ours (mtSource m) = Some ds}"
    by (auto simp: stage_add_def Let_def staged_spec_def split: option.splits)
  show ?case using Cons.IH [OF d f] Cons.prems(3) i by auto
qed auto

lemma spec_tracks_path:
  assumes "distinct (map tsVolumeID ds)" "d \<in> set ds" "tsVolumeID d \<noteq> []" "tsAccessType d \<noteq> AccessBlock"
  shows "fst (spec_tracks ds a) (tsVolumeID d) = Some (tsStagingPath d)"
  using assms(1,2)
proof (induction ds arbitrary: a)
  case (Cons x xs)
  have step: "spec_tracks (x # xs) a = spec_tracks xs (if tsVolumeID x = [] then a
      else spec_track (tsVolumeID x) (tsStagingPath x) (tsAccessType x) a)" for a
    by (simp add: spec_tracks_def)
  have other: "tsVolumeID d \<notin> tsVolumeID ` set ys \<Longrightarrow> fst (spec_tracks ys b) (tsVolumeID d) = fst b (tsVolumeID d)" for ys b
    by (induction ys arbitrary: b) (auto simp: spec_tracks_def spec_track_def split: prod.splits)
  show ?case
  proof (cases "d = x")
    case True
    then show ?thesis using Cons.prems(1) assms(3,4) other [of xs] by (cases a) (auto simp: step spec_track_def)
  next
    case False
    then show ?thesis using Cons by (simp add: step)
  qed
qed simp

lemma stagedVolumes_pure:
  assumes "ListMounts (ndHost n) w = (Ok ms, w1)" "ndZvolDatasets n w1 = (Ok ours, w2)"
    and "\<And>p w. EvalSymlinks (ndHost n) p w = (lnk p, w)" "\<And>p q. lnk p \<noteq> Panic q"
  shows "stagedVolumes n w = (Ok (fold (stage_add n lnk ours) ms []), w2)"
proof -
  have step: "bindIO (match_device (ndHost n) ours (mtSource m)) (\<lambda>d. ret (case d of None \<Rightarrow> out
       | Some ds \<Rightarrow> (let sp = staged_spec n m ds in
           if tsVolumeID sp \<in> tsVolumeID ` set out then out else out @ [sp]))) w = (Ok (stage_add n lnk ours m out), w)" for m out w
    using match_device_pure [of "ndHost n" "mtSource m" lnk ours w] assms(3,4) by (simp add: bindIO_def stage_add_def)
  show ?thesis unfolding stagedVolumes_def
    by (subst bindIO_Ok, rule assms(1), subst bindIO_Ok, rule assms(2), rule foldIO_pure, rule step)
qed

section \<open>Properties\<close>

text \<open>C8. Staging never destroys data, on any host: whatever the commands answer, a device is formatted
  only right after a probe of that very device found it empty; and a volume whose owner, taken from its
  context or its id, is another node is refused with FailedPrecondition before any command runs.\<close>

theorem stage_data_safety:
  assumes "ndHost n = traced h" "\<And>p. emits no_mkfs (ndWaitForPath n p)"
  shows "logs mkfs_guarded (stage_body n req) \<and>
    (case resolveVolumeIdentity (stVolumeID req) (stVolumeContext req) of
       Inl e \<Rightarrow> stage_body n req = fail e \<and> err_code e = Some CodeInvalidArgument
     | Inr (ds, owner) \<Rightarrow> owner = ndNodeID n \<or>
         stage_body n req = fail (FailedPrecondition ''volume %s is owned by node %q but staged on %q''))"
  using stage_body_logs [OF assms]
  by (auto simp: stage_body_def liftE_def split: sum.splits prod.splits)
    (auto simp: resolveVolumeIdentity_def Let_def split: if_splits sum.splits)

definition demo_node :: "'w host \<Rightarrow> 'w node" where
  "demo_node h = \<lparr>ndHost = h, ndCfg = \<lparr>pools = [], defaultPool = [], defaultVolblocksize = [], reservePercent = 0,
       forwardAddr = [], forwardSecret = []\<rparr>,
     ndHasZ = True, ndNodeID = ''n1'', ndParentDataset = ''csi'', ndWaitForPath = ret,
     ndZvolDatasets = ret [''/dev/zd0'' \<mapsto> ''tank/csi/v'']\<rparr>"

definition demo_stage :: "string \<Rightarrow> StageRequest" where
  "demo_stage vid = \<lparr>stVolumeID = vid, stStagingTargetPath = ''/mnt/a'',
     stVolumeCapability = zeroCapability\<lparr>capFsType := ''ext4''\<rparr>, stVolumeContext = Map.empty, stPublishContext = Map.empty,
     stSecrets = Map.empty\<rparr>"

theorem stage_data_safety_witness:
  "logs mkfs_guarded (stage_body (demo_node (traced mtab_host)) (demo_stage ''local/v1/n2/tank/csi/v'')) \<and>
   stage_body (demo_node (traced mtab_host)) (demo_stage ''local/v1/n2/tank/csi/v'')
     = fail (FailedPrecondition ''volume %s is owned by node %q but staged on %q'')"
proof -
  let ?n = "demo_node (traced mtab_host)" and ?r = "demo_stage ''local/v1/n2/tank/csi/v''"
  have "ndHost ?n = traced mtab_host" "\<And>p. emits no_mkfs (ndWaitForPath ?n p)" by (simp_all add: demo_node_def emits_intros)
  note S = stage_data_safety [OF this, of ?r]
  have "resolveVolumeIdentity (stVolumeID ?r) (stVolumeContext ?r) = Inr (''tank/csi/v'', ''n2'')" by code_simp
  moreover have "ndNodeID ?n = ''n1''" by (simp add: demo_node_def)
  ultimately show ?thesis using S by auto
qed



text \<open>The identity of a volume survives the loss of its context: whatever part of the context that
  a create returned is left, the dataset and the owner resolved from it and the volume id are those of
  the create. Without an id that parses, a missing part is refused with InvalidArgument.\<close>

theorem identity_rebuilt:
  assumes "eid_wf e" "vctx \<subseteq>\<^sub>m [ctxKeyDataset \<mapsto> eDataset e, ctxKeyNode \<mapsto> eNode e, ctxKeyFsType \<mapsto> fs]"
  shows "resolveVolumeIdentity (externalID_String e) vctx = Inr (eDataset e, eNode e)
    \<and> (case resolveVolumeIdentity vid Map.empty of Inl err \<Rightarrow> err_code err = Some CodeInvalidArgument \<and> isl (parseExternalID vid)
       | Inr (ds, owner) \<Rightarrow> vid = externalID_String \<lparr>eNode = owner, eDataset = ds\<rparr>)"
proof
  have "vctx ctxKeyDataset \<in> {None, Some (eDataset e)}" "vctx ctxKeyNode \<in> {None, Some (eNode e)}"
    using assms(2) unfolding map_le_def ctxKey_defs by (auto simp: dom_def)
  with assms(1) show "resolveVolumeIdentity (externalID_String e) vctx = Inr (eDataset e, eNode e)" by (rule resolve_submap)
  show "case resolveVolumeIdentity vid Map.empty of Inl err \<Rightarrow> err_code err = Some CodeInvalidArgument \<and> isl (parseExternalID vid)
       | Inr (ds, owner) \<Rightarrow> vid = externalID_String \<lparr>eNode = owner, eDataset = ds\<rparr>"
    using parseExternalID_wf [of vid] by (auto simp: resolveVolumeIdentity_def split: sum.splits)
qed

theorem identity_rebuilt_witness:
  "resolveVolumeIdentity ''local/v1/n1/tank/csi/v'' [ctxKeyNode \<mapsto> ''n1''] = Inr (''tank/csi/v'', ''n1'')"
proof -
  let ?e = "\<lparr>eNode = ''n1'', eDataset = ''tank/csi/v''\<rparr>"
  have "eid_wf ?e" "externalID_String ?e = ''local/v1/n1/tank/csi/v''" by code_simp+
  moreover have "[ctxKeyNode \<mapsto> ''n1''] \<subseteq>\<^sub>m [ctxKeyDataset \<mapsto> eDataset ?e, ctxKeyNode \<mapsto> eNode ?e, ctxKeyFsType \<mapsto> ''ext4'']"
    by (auto simp: map_le_def ctxKey_defs)
  ultimately show ?thesis using identity_rebuilt [of ?e "[ctxKeyNode \<mapsto> ''n1'']" "''ext4''"] by simp
qed

text \<open>Waiting for a device ends, whatever the device does, if pauses take their time: with the
  path a resolution gave, the deadline error, or the error of a context that was cancelled
  meanwhile.\<close>

theorem wait_for_path_ends:
  assumes "ticking ck time" "\<And>p w r w'. EvalSymlinks h p w = (r, w') \<Longrightarrow> time w \<le> time w'"
  shows "\<exists>r w'. osWaitForPath h ck timeout path w = Some (r, w') \<and> (case r of
      Ok real \<Rightarrow> \<exists>v. fst (EvalSymlinks h path v) = Ok real
    | Fail e \<Rightarrow> e = CtxDeadlineExceeded \<or> (\<exists>v. fst (Pause ck (250 * Millisecond) v) = Some e)
    | Panic q \<Rightarrow> \<exists>v. fst (EvalSymlinks h path v) = Panic q)"
proof -
  obtain t w1 where n: "Now ck w = (t, w1)" by fastforce
  have fw: "time w \<le> time w'" if "resolve_attempt h path w = (r, w')" for w r w'
    using that assms(2) [of path w] by (auto simp: resolve_attempt_def split: prod.splits res.splits)
  have pos: "0 < 250 * Millisecond" by (simp add: Millisecond_def)
  have at: "fst (resolve_attempt h path v) = Some r \<Longrightarrow> fst (EvalSymlinks h path v) = r \<and> (\<forall>e. r \<noteq> Fail e)" for v r
    by (auto simp: resolve_attempt_def split: prod.splits res.splits)
  from ticking.poll_ends [OF assms(1) fw pos, where late = "Fail CtxDeadlineExceeded" and deadline = "t + timeout" and w = w1] at
  show ?thesis unfolding osWaitForPath_def n prod.case by (fastforce split: res.splits)
qed

definition late_device :: "int host" where
  "late_device = \<lparr>Run = (\<lambda>_. ret (stdout_only [])), RunPipe = (\<lambda>_ _. ret ()), MkdirAll = (\<lambda>_. ret ()), StatPath = (\<lambda>_. ret ()),
     CreateFile = (\<lambda>_. ret ()), EvalSymlinks = (\<lambda>p t. if t < Second then (Fail (NotExistErr p), t) else (Ok ''/dev/zd0'', t)),
     ReadDir = (\<lambda>_. ret []), Statfs = (\<lambda>_. ret [])\<rparr>"

theorem wait_for_path_ends_witness:
  "\<exists>r w'. osWaitForPath late_device counter_clock (30 * Second) ''/dev/zvol/tank/csi/v'' 0 = Some (r, w')"
proof -
  have "EvalSymlinks late_device p w = (r, w') \<Longrightarrow> w \<le> w'" for p w r w'
    by (auto simp: late_device_def split: if_splits)
  then show ?thesis using wait_for_path_ends [OF counter.ticking_axioms, of late_device] by blast
qed

text \<open>C25. A sweep after a restart finds the staged volumes again: from an empty registry, one sweep makes
  the known volumes exactly those with a mount whose source is, or resolves to, a zvol of this plugin,
  under the id that encodes this node and the dataset, each measured at the target of such a mount,
  and evicts nothing. When the mounts cannot be listed, the registry stays as it is.\<close>

theorem restart_rehydrates:
  assumes "scEnabled c"
    and "\<And>p w. EvalSymlinks (ndHost n) p w = (lnk p, w)" "\<And>p q. lnk p \<noteq> Panic q"
    and "ListMounts (ndHost n) w = (Ok ms, w1)" "ndZvolDatasets n w1 = (Ok ours, w2)"
  defines "ids \<equiv> {externalID_String \<lparr>eNode = ndNodeID n, eDataset = ds\<rparr> | m ds. m \<in> set ms \<and> matched lnk ours (mtSource m) = Some ds}"
  shows "(\<forall>v e v' reg. ListMounts (ndHost n) v = (Fail e, v') \<longrightarrow> sweep n (v, reg) = ([], v', reg)) \<and>
    (\<exists>reg. sweep n (w, NewRegistry c node) = ([], w2, reg) \<and> reg_inv reg \<and> known reg = ids \<and> dom (measured reg) = ids
    \<and> (\<forall>i \<in> ids. \<exists>m \<in> set ms. \<exists>ds. matched lnk ours (mtSource m) = Some ds
        \<and> i = externalID_String \<lparr>eNode = ndNodeID n, eDataset = ds\<rparr> \<and> measured reg i = Some (mtTarget m)))"
proof -
  define specs where "specs = fold (stage_add n lnk ours) ms []"
  let ?r = "NewRegistry c node"
  have S: "distinct (map tsVolumeID specs)" "tsVolumeID ` set specs = ids"
    "\<forall>d \<in> set specs. \<exists>m \<in> set ms. \<exists>ds. matched lnk ours (mtSource m) = Some ds \<and> d = staged_spec n m ds"
    using fold_stage_add [of "[]" "set ms" lnk ours n ms] unfolding specs_def ids_def by auto
  have ne: "i \<noteq> []" if "i \<in> ids" for i using that by (auto simp: ids_def externalID_String_def externalIDPrefix_def)
  have want: "set (wanted specs) = ids" using S(2) ne by (auto simp: wanted_def)
  obtain reg ev where R: "Reconcile specs True statsEvictGraceSweeps ?r = (reg, ev)" by fastforce
  have en: "scEnabled (rgCfg ?r)" using assms(1) by (simp add: NewRegistry_def Let_def withDefaults_def)
  note A = Reconcile_abs [OF NewRegistry_inv en R]
  have a0: "abs_reg ?r = (Map.empty, {})"
    by (auto simp: abs_reg_def measured_def known_def NewRegistry_def Let_def)
  have k: "snd (spec_tracks specs (abs_reg ?r)) = ids" by (simp add: spec_tracks_known a0 want)
  then have "set ev = {}" using A(4) want by (auto simp: due_def)
  then have ev: "ev = []" by simp
  have ar: "abs_reg reg = spec_tracks specs (abs_reg ?r)" using A(3) ev by simp
  have kn: "known reg = ids" using k ar by (metis abs_reg_def snd_conv)
  have me: "measured reg (tsVolumeID d) = Some (tsStagingPath d)" if "d \<in> set specs" for d
  proof -
    have "tsVolumeID d \<noteq> []" using that ne S(2) by blast
    moreover have "tsAccessType d \<noteq> AccessBlock" using S(3) that
      by (auto simp: staged_spec_def AccessMount_def AccessBlock_def)
    ultimately show ?thesis using spec_tracks_path [OF S(1) that, of "abs_reg ?r"] ar by (metis abs_reg_def fst_conv)
  qed
  have dm: "dom (measured reg) = ids"
    using me S(2) measured_known [OF A(1)] kn by (auto simp: dom_def)
  have tgt: "\<exists>m \<in> set ms. \<exists>ds. matched lnk ours (mtSource m) = Some ds
        \<and> i = externalID_String \<lparr>eNode = ndNodeID n, eDataset = ds\<rparr> \<and> measured reg i = Some (mtTarget m)" if i: "i \<in> ids" for i
  proof -
    obtain d where d: "d \<in> set specs" "i = tsVolumeID d" using i S(2) by auto
    then obtain m ds where "m \<in> set ms" "matched lnk ours (mtSource m) = Some ds" "d = staged_spec n m ds" using S(3) by blast
    then show ?thesis using me [OF d(1)] d(2) by (auto simp: staged_spec_def)
  qed
  have "sweep n (w, ?r) = ([], w2, reg)"
    using stagedVolumes_pure [OF assms(4,5,2,3)] R ev by (simp add: sweep_def specs_def)
  moreover have "sweep n (v, r0) = ([], v', r0)" if "ListMounts (ndHost n) v = (Fail e, v')" for v e v' r0
    using that by (simp add: sweep_def stagedVolumes_def bindIO_def)
  ultimately show ?thesis using A(1) kn dm tgt by blast
qed

definition table_host :: "string \<Rightarrow> unit host" where
  "table_host out = \<lparr>Run = (\<lambda>_. ret (stdout_only out)), RunPipe = (\<lambda>_ _. ret ()), MkdirAll = (\<lambda>_. ret ()), StatPath = (\<lambda>_. ret ()),
     CreateFile = (\<lambda>_. ret ()), EvalSymlinks = (\<lambda>p. fail (NotExistErr p)), ReadDir = (\<lambda>_. ret []), Statfs = (\<lambda>_. ret [])\<rparr>"

definition demo_mounts :: "MountEntry list" where
  "demo_mounts = [\<lparr>mtTarget = ''/'', mtSource = ''/dev/sda1''\<rparr>, \<lparr>mtTarget = ''/mnt/a'', mtSource = ''/dev/zd0''\<rparr>]"

theorem restart_rehydrates_witness:
  "\<exists>reg. sweep (demo_node (table_host (mount_table demo_mounts))) ((), NewRegistry demo_stats ''n1'') = ([], (), reg)
    \<and> known reg = {''local/v1/n1/tank/csi/v''}"
proof -
  let ?n = "demo_node (table_host (mount_table demo_mounts))" and ?ours = "[''/dev/zd0'' \<mapsto> ''tank/csi/v'']"
  let ?lnk = "\<lambda>p. Fail (NotExistErr p)"
  have n: "ndHost ?n = table_host (mount_table demo_mounts)" "ndZvolDatasets ?n = ret ?ours" "ndNodeID ?n = ''n1''"
    by (simp_all add: demo_node_def)
  have e: "\<And>p w. EvalSymlinks (ndHost ?n) p w = (?lnk p, w)" unfolding n(1) by (simp add: table_host_def)
  have l: "ListMounts (ndHost ?n) () = (Ok demo_mounts, ())"
    unfolding n(1) by (simp add: ListMounts_def table_host_def tryIO_def stdout_only_def parseMounts_table demo_mounts_def)
  have en: "scEnabled demo_stats" by (simp add: demo_stats_def)
  have z: "ndZvolDatasets ?n () = (Ok ?ours, ())" by (simp add: n)
  have i: "{externalID_String \<lparr>eNode = ndNodeID ?n, eDataset = ds\<rparr> | m ds. m \<in> set demo_mounts \<and> matched ?lnk ?ours (mtSource m) = Some ds}
      = {''local/v1/n1/tank/csi/v''}"
    unfolding n(3) by (auto simp: demo_mounts_def matched_def externalID_String_def externalIDPrefix_def split: if_splits
      intro!: exI [of _ "\<lparr>mtTarget = ''/mnt/a'', mtSource = ''/dev/zd0''\<rparr>"])
  have np: "\<And>p q. ?lnk p \<noteq> Panic q" by simp
  from restart_rehydrates [OF en e np l z, of "''n1''", unfolded i, THEN conjunct2]
  show ?thesis by (elim exE conjE) (intro exI conjI)
qed

text \<open>An expansion whose capability declares no file system never succeeds for a mount volume: unlike
  a stage, it does not ask the device, and the resize refuses the empty name (error Internal), on every
  host. Only raw block volumes and declared ext4 or xfs get through.\<close>

theorem expand_needs_declared_fs:
  assumes "accessType (neVolumeCapability req) = AccessTypeMount" "capFsType (neVolumeCapability req) = []"
  shows "wp (node_ExpandVolume n req) (\<lambda>r w'. case r of Ok _ \<Rightarrow> False | Fail e \<Rightarrow> err_code e = Some CodeInternal | Panic q \<Rightarrow>
     \<exists>v. fst (Run (ndHost n) (cmd ''findmnt'' [''-n'', ''-o'', ''SOURCE'', ''--target'', neVolumePath req]) v) = Panic q) w"
proof (rule wpI)
  fix r w' assume run: "node_ExpandVolume n req w = (r, w')"
  let ?c = "cmd ''findmnt'' [''-n'', ''-o'', ''SOURCE'', ''--target'', neVolumePath req]"
  obtain ro wo where o: "Run (ndHost n) ?c w = (ro, wo)" by fastforce
  then have "ro = Panic q \<Longrightarrow> \<exists>v. fst (Run (ndHost n) ?c v) = Panic q" for q by (metis fst_conv)
  then show "case r of Ok _ \<Rightarrow> False | Fail e \<Rightarrow> err_code e = Some CodeInternal | Panic q \<Rightarrow> \<exists>v. fst (Run (ndHost n) ?c v) = Panic q"
    using run assms o
    by (cases ro) (auto simp: node_ExpandVolume_def SourceDevice_def Resize_def bindIO_def wrapIO_def internal_as_def Let_def split: if_splits)
qed

definition demo_expand :: NodeExpandRequest where
  "demo_expand = \<lparr>neVolumeID = ''local/v1/n1/tank/csi/v'', neVolumePath = ''/mnt/a'', neStagingTargetPath = ''/mnt/a'',
     neCapacityRange = \<lparr>requiredBytes = 1, limitBytes = 0\<rparr>, neVolumeCapability = zeroCapability\<rparr>"

theorem expand_needs_declared_fs_witness:
  "wp (node_ExpandVolume (demo_node (table_host ''/dev/zd0'')) demo_expand) (\<lambda>r w'. \<exists>e. r = Fail e \<and> err_code e = Some CodeInternal) ()"
proof -
  have "accessType (neVolumeCapability demo_expand) = AccessTypeMount" "capFsType (neVolumeCapability demo_expand) = []"
    by (simp_all add: demo_expand_def zeroCapability_def)
  from expand_needs_declared_fs [OF this, of "demo_node (table_host ''/dev/zd0'')" "()"] show ?thesis
    by (rule wp_mono) (auto simp: demo_node_def table_host_def split: res.splits)
qed

end
