(* ===== verification/Go_Json.thy ===== *)
theory Go_Json
  imports Driver_Types
begin

text \<open>
  Package encoding/json as the sources use it: JSON texts are values of the type \<open>json\<close>, and a sequence
  of bytes that is no JSON text is \<^term>\<open>None\<close>. Encoding makes strings valid UTF-8; decoding into a struct
  visits the members in order, matches names without regard to case (of ASCII letters), ignores
  unknown members and null, and fails on a value of the wrong type or an integer outside 64 bits.
  The text of a time depends on the process (its zone), so times travel through the two functions
  of the record \<open>codec\<close>; its third field is the length in bytes of a JSON text. A number that is not an
  integer literal is kept as its text (\<open>JFloat\<close>).
\<close>

datatype json = JNull | JBool bool | JInt int | JFloat string | JStr string | JArr "json list" | JObj "(string \<times> json) list"

type_synonym body = "json option"

record codec =
  timeText :: "int option \<Rightarrow> string"
  timeParse :: "string \<Rightarrow> int option option"
  encLen :: "json \<Rightarrow> nat"

text \<open>A measure of the length of the text: characters of strings and numbers, plus one per value. A text has
  at most six bytes per character, the rest is punctuation, so the length is at most thirty times the
  weight.\<close>

fun weight :: "json \<Rightarrow> nat" where
  "weight JNull = 1"
| "weight (JBool _) = 1"
| "weight (JInt n) = length (FormatInt n)"
| "weight (JFloat t) = length t"
| "weight (JStr s) = 1 + length s"
| "weight (JArr js) = 1 + sum_list (map weight js)"
| "weight (JObj ps) = 1 + sum_list (map (\<lambda>(k, j). 1 + length k + weight j) ps)"

lemma length_show_nat: "n < 10 ^ k \<Longrightarrow> 0 < k \<Longrightarrow> length (show_nat n) \<le> k"
proof (induction n arbitrary: k rule: show_nat.induct)
  case (1 n)
  show ?case
  proof (cases "n < 10")
    case False
    then obtain j where k: "k = Suc j" "0 < j" using 1 by (cases k; cases "k - 1") auto
    have "n div 10 < 10 ^ j" using 1(2) k by (simp add: div_less_iff_less_mult)
    then show ?thesis using 1(1) [OF False] False k by (subst show_nat.simps) auto
  qed (use 1 in \<open>auto simp: show_nat.simps [of n]\<close>)
qed

lemma length_FormatInt: "in64 n \<Longrightarrow> length (FormatInt n) \<le> 20"
proof -
  assume n: "in64 n"
  then have "nat \<bar>n\<bar> < 10 ^ 19" by (auto simp: in64_def MinInt64_def MaxInt64_def)
  from length_show_nat [OF this] show ?thesis by (auto simp: FormatInt_def)
qed

section \<open>Encoding\<close>

definition utf8_fix :: "string \<Rightarrow> string" where
  "utf8_fix s = concat (map (\<lambda>(r, bs). if r = 65533 then [CHR 0xEF, CHR 0xBF, CHR 0xBD] else bs) (runes s))"

definition jstr :: "string \<Rightarrow> json" where
  "jstr s = JStr (utf8_fix s)"

text \<open>A member with \<^verbatim>\<open>omitempty\<close>.\<close>

definition omitempty :: "string \<Rightarrow> string \<Rightarrow> (string \<times> json) list" where
  "omitempty k s = (if s = [] then [] else [(k, jstr s)])"

definition utf8_ok :: "string \<Rightarrow> bool" where
  "utf8_ok s \<longleftrightarrow> utf8_fix s = s"

lemma jstr_ok: "utf8_ok s \<Longrightarrow> jstr s = JStr s"
  by (simp add: jstr_def utf8_ok_def)

lemma weight_jstr: "utf8_ok s \<Longrightarrow> weight (jstr s) = 1 + length s"
  by (simp add: jstr_ok)

lemma utf8_ok_ascii: "list_all ascii s \<Longrightarrow> utf8_ok s"
proof -
  assume a: "list_all ascii s"
  have "map (\<lambda>(r, bs). if r = 65533 then [CHR 0xEF, CHR 0xBF, CHR 0xBD] else bs) (runes s) = map (\<lambda>c. [c]) s"
    using a by (simp add: runes_ascii [OF a]) (auto simp: list_all_iff ascii_def)
  then show ?thesis by (simp add: utf8_ok_def utf8_fix_def)
qed

section \<open>Decoding\<close>

definition lower :: "string \<Rightarrow> string" where
  "lower s = map (\<lambda>c. let n = of_char c :: nat in if 65 \<le> n \<and> n \<le> 90 then char_of (n + 32) else c) s"

fun dec_string :: "json \<Rightarrow> string option" where
  "dec_string (JStr s) = Some s"
| "dec_string _ = None"

fun dec_bool :: "json \<Rightarrow> bool option" where
  "dec_bool (JBool b) = Some b"
| "dec_bool _ = None"

fun dec_int :: "json \<Rightarrow> int option" where
  "dec_int (JInt n) = (if in64 n then Some n else None)"
| "dec_int _ = None"

definition json_err :: err where "json_err = PlainErr ''json: cannot unmarshal''"

definition field_step :: "(json \<Rightarrow> 'a option) \<Rightarrow> string \<Rightarrow> err + 'a \<Rightarrow> string \<times> json \<Rightarrow> err + 'a" where
  "field_step dec k acc kv = (case acc of Inl e \<Rightarrow> Inl e
     | Inr x \<Rightarrow> if lower (fst kv) = lower k \<and> snd kv \<noteq> JNull
                 then (case dec (snd kv) of None \<Rightarrow> Inl json_err | Some y \<Rightarrow> Inr y) else Inr x)"

definition field :: "(json \<Rightarrow> 'a option) \<Rightarrow> string \<Rightarrow> 'a \<Rightarrow> (string \<times> json) list \<Rightarrow> err + 'a" where
  "field dec k d ps = foldl (field_step dec k) (Inr d) ps"

definition bindE :: "'e + 'a \<Rightarrow> ('a \<Rightarrow> 'e + 'b) \<Rightarrow> 'e + 'b" where
  "bindE x f = (case x of Inl e \<Rightarrow> Inl e | Inr a \<Rightarrow> f a)"

lemma bindE_simps [simp]: "bindE (Inr a) f = f a" "bindE (Inl e) f = Inl e"
  by (simp_all add: bindE_def)

text \<open>The members of the top-level value; null leaves the struct as it is.\<close>

definition members :: "body \<Rightarrow> err + (string \<times> json) list" where
  "members b = (case b of Some (JObj ps) \<Rightarrow> Inr ps | Some JNull \<Rightarrow> Inr [] | _ \<Rightarrow> Inl json_err)"

text \<open>A list of structs; null is the empty list.\<close>

fun dec_list :: "((string \<times> json) list \<Rightarrow> err + 'a) \<Rightarrow> json \<Rightarrow> 'a list option" where
  "dec_list d (JArr []) = Some []"
| "dec_list d (JArr (j # js)) = (case bindE (members (Some j)) d of Inl _ \<Rightarrow> None
     | Inr x \<Rightarrow> map_option ((#) x) (dec_list d (JArr js)))"
| "dec_list d _ = None"

lemma members_obj [simp]: "members (Some (JObj ps)) = Inr ps"
  by (simp add: members_def)

lemma field_Nil [simp]: "field dec k d [] = Inr d"
  by (simp add: field_def)

lemma field_Cons: "field dec k d (kv # ps) = (case field_step dec k (Inr d) kv of Inl e \<Rightarrow> Inl e | Inr x \<Rightarrow> field dec k x ps)"
proof -
  have "foldl (field_step dec k) (Inl e) ps = Inl e" for e by (induction ps) (auto simp: field_step_def)
  then show ?thesis by (simp add: field_def split: sum.splits)
qed

lemma field_skip [simp]: "lower k' \<noteq> lower k \<Longrightarrow> field dec k d ((k', v) # ps) = field dec k d ps"
  by (simp add: field_Cons field_step_def)

lemma field_take [simp]: "dec v = Some x \<Longrightarrow> v \<noteq> JNull \<Longrightarrow> field dec k d ((k, v) # ps) = field dec k x ps"
  by (simp add: field_Cons field_step_def)

lemma dec_list_map:
  assumes "\<And>x. x \<in> set xs \<Longrightarrow> d (f x) = Inr x"
  shows "dec_list d (JArr (map (\<lambda>x. JObj (f x)) xs)) = Some xs"
  using assms by (induction xs) auto

end
