(* ===== verification/Cluster_Forward.thy ===== *)
theory Cluster_Forward
  imports Go_Json
begin

text \<open>
  \<^verbatim>\<open>internal/cluster/forward.go\<close> and \<^verbatim>\<open>resolver.go\<close>: the authenticated transport that carries an operation
  to the node that owns a volume, and the peer table. An HTTP exchange is a request record and a
  response record; what the network does with them is the parameter \<open>Do\<close> of the client. The context
  of a call is the record \<open>ctx\<close> with the one value the sources put into it.
\<close>

record ctx =
  ctxForwarded :: bool

definition IsForwarded :: "ctx \<Rightarrow> bool" where
  "IsForwarded c = ctxForwarded c"

definition background :: ctx where "background = \<lparr>ctxForwarded = False\<rparr>"

text \<open>Headers are the two the transport sets; a header that is absent reads as the empty string. A
  body whose transmission broke off is \<open>rqBroken\<close>.\<close>

record http_request =
  rqMethod :: string
  rqPath :: string
  rqSecret :: string
  rqForwarded :: string
  rqBody :: body
  rqBroken :: bool

record http_response =
  rsStatus :: int
  rsBody :: body

definition forwardPathPrefix :: string where "forwardPathPrefix = ''/forward/''"

type_synonym 'w handler = "ctx \<Rightarrow> string \<Rightarrow> body \<Rightarrow> ('w, body) io"

section \<open>The server\<close>

text \<open>\<^verbatim>\<open>io.LimitReader(r, 1<<20)\<close> read to its end: a longer JSON text arrives cut off.\<close>

definition limited :: "codec \<Rightarrow> body \<Rightarrow> body" where
  "limited cd b = (case b of Some j \<Rightarrow> if encLen cd j \<le> 2 ^ 20 then b else None | None \<Rightarrow> None)"

definition wire_error :: "int \<Rightarrow> string \<Rightarrow> json" where
  "wire_error code msg = JObj [(''code'', JInt code), (''error'', jstr msg)]"

definition writeWireError :: "int \<Rightarrow> int \<Rightarrow> string \<Rightarrow> http_response" where
  "writeWireError status code msg = \<lparr>rsStatus = status, rsBody = Some (wire_error code msg)\<rparr>"

definition methodFromPath :: "string \<Rightarrow> string option" where
  "methodFromPath path = (if length path \<le> length forwardPathPrefix \<or> take (length forwardPathPrefix) path \<noteq> forwardPathPrefix
     then None else Some (drop (length forwardPathPrefix) path))"

text \<open>\<^verbatim>\<open>asCoded\<close> walks the chain of causes.\<close>

definition asCoded :: "err \<Rightarrow> err option" where
  "asCoded e = errors_As is_CodedErr e"

definition handler_error :: "err \<Rightarrow> http_response" where
  "handler_error e = (case asCoded e of
     Some (CodedErr code msg) \<Rightarrow> writeWireError 422 code msg
   | _ \<Rightarrow> writeWireError 422 0 (err_text e))"

definition ServeHTTP :: "codec \<Rightarrow> string \<Rightarrow> 'w handler \<Rightarrow> http_request \<Rightarrow> ('w, http_response) io" where
  "ServeHTTP cd secret handler r =
     (if rqMethod r \<noteq> ''POST'' then ret \<lparr>rsStatus = 405, rsBody = None\<rparr>
      else if rqSecret r \<noteq> secret then ret (writeWireError 401 0 ''unauthorized'')
      else case methodFromPath (rqPath r) of
        None \<Rightarrow> ret (writeWireError 400 0 ''bad forward path'')
      | Some method \<Rightarrow>
          if rqBroken r then ret (writeWireError 400 0 ''reading body'')
          else tryIO (handler \<lparr>ctxForwarded = True\<rparr> method (limited cd (rqBody r))) (\<lambda>res. case res of
            Inl e \<Rightarrow> ret (handler_error e)
          | Inr resp \<Rightarrow> ret \<lparr>rsStatus = 200, rsBody = resp\<rparr>))"

section \<open>The client\<close>

record 'w Client =
  clSecret :: string
  Do :: "string \<Rightarrow> http_request \<Rightarrow> ('w, http_response) io"

text \<open>The decoding of a reply that is not OK.\<close>

definition remote_error :: "body \<Rightarrow> err" where
  "remote_error b = (case bindE (members b) (\<lambda>ps. bindE (field dec_int ''code'' 0 ps) (\<lambda>c.
       bindE (field dec_string ''error'' [] ps) (\<lambda>m. Inr (c, m)))) of
     Inr (c, m) \<Rightarrow> if m \<noteq> [] then RemoteErr c m else RemoteErr 0 ''peer %s returned %s''
   | Inl _ \<Rightarrow> RemoteErr 0 ''peer %s returned %s'')"

definition forward_request :: "'w Client \<Rightarrow> string \<Rightarrow> body \<Rightarrow> http_request" where
  "forward_request cl method b = \<lparr>rqMethod = ''POST'', rqPath = forwardPathPrefix @ method, rqSecret = clSecret cl,
     rqForwarded = ''1'', rqBody = b, rqBroken = False\<rparr>"

definition Call :: "codec \<Rightarrow> 'w Client \<Rightarrow> string \<Rightarrow> string \<Rightarrow> body \<Rightarrow> ('w, body) io" where
  "Call cd cl addr method b =
     bindIO (wrapIO (WrapErr ''forwarding to %s'') (Do cl addr (forward_request cl method b))) (\<lambda>resp.
     let rb = limited cd (rsBody resp) in
     if rsStatus resp \<noteq> 200 then fail (remote_error rb) else ret rb)"

section \<open>Resolvers\<close>

record NodeInfoPeer =
  pnNode :: string
  pnAddr :: string

record 'w Resolver =
  resLocalNode :: string
  resList :: "('w, NodeInfoPeer list) io"
  resResolve :: "string \<Rightarrow> ('w, string) io"

definition StaticResolver :: "string \<Rightarrow> NodeInfoPeer list \<Rightarrow> 'w Resolver" where
  "StaticResolver self peers = \<lparr>resLocalNode = self, resList = ret peers,
     resResolve = (\<lambda>node. case List.find (\<lambda>p. pnNode p = node) peers of
       Some p \<Rightarrow> ret (pnAddr p) | None \<Rightarrow> fail (PlainErr ''cluster: no peer for node %q''))\<rparr>"

section \<open>A call that reaches a server\<close>

lemma methodFromPath_prefix: "m \<noteq> [] \<Longrightarrow> methodFromPath (forwardPathPrefix @ m) = Some m"
  by (simp add: methodFromPath_def)

lemma remote_error_wire: "in64 c \<Longrightarrow> utf8_ok m \<Longrightarrow> m \<noteq> [] \<Longrightarrow> remote_error (Some (wire_error c m)) = RemoteErr c m"
  by (simp add: remote_error_def wire_error_def jstr_ok lower_def)

text \<open>What comes back from a handler through both ends of the transport.\<close>

definition transported :: "codec \<Rightarrow> body res \<Rightarrow> body res" where
  "transported cd r = (case r of
     Ok b \<Rightarrow> Ok (limited cd b)
   | Fail e \<Rightarrow> Fail (remote_error (limited cd (rsBody (handler_error e))))
   | Panic p \<Rightarrow> Panic p)"

lemma handler_error_status: "rsStatus (handler_error e) = 422"
  by (simp add: handler_error_def writeWireError_def split: option.splits err.splits)

lemma Call_served:
  assumes "Do cl addr = ServeHTTP cd (clSecret cl) handler" "method \<noteq> []"
  shows "Call cd cl addr method b w = (case handler \<lparr>ctxForwarded = True\<rparr> method (limited cd b) w of
     (r, w') \<Rightarrow> (transported cd r, w'))"
  by (auto simp: Call_def assms(1) ServeHTTP_def forward_request_def methodFromPath_prefix [OF assms(2)] bindIO_def wrapIO_def
      tryIO_def transported_def handler_error_status Let_def split: prod.splits res.splits)

lemma limited_fits: "encLen cd j \<le> 2 ^ 20 \<Longrightarrow> limited cd (Some j) = Some j"
  by (simp add: limited_def)

end
