(* ===== verification/Local_Forward.thy ===== *)
theory Local_Forward
  imports Cluster_Forward Local_Ops Stats_Registry
begin

text \<open>
  \<^verbatim>\<open>internal/driver/local/forwardapi.go\<close>: the JSON forms of the wire types, the dispatch of a forwarded
  operation on the node that owns the volume, and the two error conversions at the ends of the
  transport. The dispatch works on the node's world and its usage registry, which it only reads.
\<close>

section \<open>Wire types\<close>

definition enc_createArgs :: "createArgs \<Rightarrow> (string \<times> json) list" where
  "enc_createArgs a = [(''name'', jstr (caName a)), (''pool'', jstr (caPool a)), (''size_bytes'', JInt (caSizeBytes a)),
     (''volblocksize'', jstr (caVolblocksize a)), (''fs_type'', jstr (caFsType a)), (''block'', JBool (caBlock a))]
     @ omitempty ''content_snapshot_id'' (caContentSnapshotID a) @ omitempty ''content_volume_id'' (caContentVolumeID a)"

definition dec_createArgs :: "(string \<times> json) list \<Rightarrow> err + createArgs" where
  "dec_createArgs ps =
     bindE (field dec_string ''name'' [] ps) (\<lambda>n. bindE (field dec_string ''pool'' [] ps) (\<lambda>p.
     bindE (field dec_int ''size_bytes'' 0 ps) (\<lambda>s. bindE (field dec_string ''volblocksize'' [] ps) (\<lambda>v.
     bindE (field dec_string ''fs_type'' [] ps) (\<lambda>f. bindE (field dec_bool ''block'' False ps) (\<lambda>b.
     bindE (field dec_string ''content_snapshot_id'' [] ps) (\<lambda>cs. bindE (field dec_string ''content_volume_id'' [] ps) (\<lambda>cv.
     Inr \<lparr>caName = n, caPool = p, caSizeBytes = s, caVolblocksize = v, caFsType = f, caBlock = b,
       caContentSnapshotID = cs, caContentVolumeID = cv\<rparr>))))))))"

definition enc_createResult :: "createResult \<Rightarrow> (string \<times> json) list" where
  "enc_createResult r = [(''volume_id'', jstr (crrVolumeID r)), (''dataset'', jstr (crrDataset r)),
     (''capacity_bytes'', JInt (crrCapacityBytes r)), (''fs_type'', jstr (crrFsType r))]"

definition dec_createResult :: "(string \<times> json) list \<Rightarrow> err + createResult" where
  "dec_createResult ps =
     bindE (field dec_string ''volume_id'' [] ps) (\<lambda>v. bindE (field dec_string ''dataset'' [] ps) (\<lambda>d.
     bindE (field dec_int ''capacity_bytes'' 0 ps) (\<lambda>c. bindE (field dec_string ''fs_type'' [] ps) (\<lambda>f.
     Inr \<lparr>crrVolumeID = v, crrDataset = d, crrCapacityBytes = c, crrFsType = f\<rparr>))))"

definition enc_idArgs :: "string \<Rightarrow> (string \<times> json) list" where
  "enc_idArgs i = [(''id'', jstr i)]"

definition dec_idArgs :: "(string \<times> json) list \<Rightarrow> err + string" where
  "dec_idArgs ps = field dec_string ''id'' [] ps"

definition enc_expandArgs :: "expandArgs \<Rightarrow> (string \<times> json) list" where
  "enc_expandArgs a = [(''volume_id'', jstr (eaVolumeID a)), (''required_bytes'', JInt (eaRequiredBytes a)),
     (''limit_bytes'', JInt (eaLimitBytes a))]"

definition dec_expandArgs :: "(string \<times> json) list \<Rightarrow> err + expandArgs" where
  "dec_expandArgs ps =
     bindE (field dec_string ''volume_id'' [] ps) (\<lambda>v. bindE (field dec_int ''required_bytes'' 0 ps) (\<lambda>r.
     bindE (field dec_int ''limit_bytes'' 0 ps) (\<lambda>l.
     Inr \<lparr>eaVolumeID = v, eaRequiredBytes = r, eaLimitBytes = l\<rparr>)))"

definition enc_expandResult :: "int \<Rightarrow> (string \<times> json) list" where
  "enc_expandResult n = [(''capacity_bytes'', JInt n)]"

definition dec_expandResult :: "(string \<times> json) list \<Rightarrow> err + int" where
  "dec_expandResult ps = field dec_int ''capacity_bytes'' 0 ps"

definition enc_snapshotArgs :: "snapshotArgs \<Rightarrow> (string \<times> json) list" where
  "enc_snapshotArgs a = [(''source_volume_id'', jstr (saSourceVolumeID a)), (''name'', jstr (saName a))]"

definition dec_snapshotArgs :: "(string \<times> json) list \<Rightarrow> err + snapshotArgs" where
  "dec_snapshotArgs ps =
     bindE (field dec_string ''source_volume_id'' [] ps) (\<lambda>s. bindE (field dec_string ''name'' [] ps) (\<lambda>n.
     Inr \<lparr>saSourceVolumeID = s, saName = n\<rparr>))"

definition enc_snapshotResult :: "snapshotResult \<Rightarrow> (string \<times> json) list" where
  "enc_snapshotResult r = [(''snapshot_id'', jstr (srSnapshotID r)), (''size_bytes'', JInt (srSizeBytes r)),
     (''creation_unix'', JInt (srCreationUnix r)), (''ready_to_use'', JBool (srReadyToUse r))]"

definition dec_snapshotResult :: "(string \<times> json) list \<Rightarrow> err + snapshotResult" where
  "dec_snapshotResult ps =
     bindE (field dec_string ''snapshot_id'' [] ps) (\<lambda>i. bindE (field dec_int ''size_bytes'' 0 ps) (\<lambda>s.
     bindE (field dec_int ''creation_unix'' 0 ps) (\<lambda>c. bindE (field dec_bool ''ready_to_use'' False ps) (\<lambda>r.
     Inr \<lparr>srSnapshotID = i, srSizeBytes = s, srCreationUnix = c, srReadyToUse = r\<rparr>))))"

definition enc_statsArgs :: "string \<Rightarrow> (string \<times> json) list" where
  "enc_statsArgs p = [(''pool'', jstr p)]"

definition dec_statsArgs :: "(string \<times> json) list \<Rightarrow> err + string" where
  "dec_statsArgs ps = field dec_string ''pool'' [] ps"

definition enc_statsResult :: "statsResult \<Rightarrow> (string \<times> json) list" where
  "enc_statsResult r = [(''node'', jstr (stNode r)), (''has_pool'', JBool (stHasPool r)), (''volume_count'', JInt (stVolumeCount r)),
     (''free_bytes'', JInt (stFreeBytes r)), (''avail_bytes'', JInt (stAvailBytes r))]"

definition dec_statsResult :: "(string \<times> json) list \<Rightarrow> err + statsResult" where
  "dec_statsResult ps =
     bindE (field dec_string ''node'' [] ps) (\<lambda>n. bindE (field dec_bool ''has_pool'' False ps) (\<lambda>h.
     bindE (field dec_int ''volume_count'' 0 ps) (\<lambda>v. bindE (field dec_int ''free_bytes'' 0 ps) (\<lambda>f.
     bindE (field dec_int ''avail_bytes'' 0 ps) (\<lambda>a.
     Inr \<lparr>stNode = n, stHasPool = h, stVolumeCount = v, stFreeBytes = f, stAvailBytes = a\<rparr>)))))"

definition enc_volWire :: "volWire \<Rightarrow> (string \<times> json) list" where
  "enc_volWire v = [(''volume_id'', jstr (vwVolumeID v)), (''capacity_bytes'', JInt (vwCapacityBytes v))]"

definition dec_volWire :: "(string \<times> json) list \<Rightarrow> err + volWire" where
  "dec_volWire ps =
     bindE (field dec_string ''volume_id'' [] ps) (\<lambda>v. bindE (field dec_int ''capacity_bytes'' 0 ps) (\<lambda>c.
     Inr \<lparr>vwVolumeID = v, vwCapacityBytes = c\<rparr>))"

definition enc_listSnapshotsArgs :: "string \<Rightarrow> (string \<times> json) list" where
  "enc_listSnapshotsArgs d = omitempty ''dataset'' d"

definition dec_listSnapshotsArgs :: "(string \<times> json) list \<Rightarrow> err + string" where
  "dec_listSnapshotsArgs ps = field dec_string ''dataset'' [] ps"

definition enc_snapWire :: "snapWire \<Rightarrow> (string \<times> json) list" where
  "enc_snapWire s = [(''snapshot_id'', jstr (swSnapshotID s)), (''source_volume_id'', jstr (swSourceVolumeID s)),
     (''size_bytes'', JInt (swSizeBytes s)), (''creation_unix'', JInt (swCreationUnix s)), (''ready_to_use'', JBool (swReadyToUse s))]"

definition dec_snapWire :: "(string \<times> json) list \<Rightarrow> err + snapWire" where
  "dec_snapWire ps =
     bindE (field dec_string ''snapshot_id'' [] ps) (\<lambda>i. bindE (field dec_string ''source_volume_id'' [] ps) (\<lambda>v.
     bindE (field dec_int ''size_bytes'' 0 ps) (\<lambda>s. bindE (field dec_int ''creation_unix'' 0 ps) (\<lambda>c.
     bindE (field dec_bool ''ready_to_use'' False ps) (\<lambda>r.
     Inr \<lparr>swSnapshotID = i, swSourceVolumeID = v, swSizeBytes = s, swCreationUnix = c, swReadyToUse = r\<rparr>)))))"

text \<open>A nil slice is encoded as null.\<close>

definition enc_slice :: "('a \<Rightarrow> (string \<times> json) list) \<Rightarrow> 'a list \<Rightarrow> json" where
  "enc_slice f xs = (if xs = [] then JNull else JArr (map (\<lambda>x. JObj (f x)) xs))"

definition enc_listResult :: "volWire list \<Rightarrow> (string \<times> json) list" where
  "enc_listResult vs = [(''volumes'', enc_slice enc_volWire vs)]"

definition dec_listResult :: "(string \<times> json) list \<Rightarrow> err + volWire list" where
  "dec_listResult ps = field (dec_list dec_volWire) ''volumes'' [] ps"

definition enc_snapListResult :: "snapWire list \<Rightarrow> (string \<times> json) list" where
  "enc_snapListResult vs = [(''snapshots'', enc_slice enc_snapWire vs)]"

definition dec_snapListResult :: "(string \<times> json) list \<Rightarrow> err + snapWire list" where
  "dec_snapListResult ps = field (dec_list dec_snapWire) ''snapshots'' [] ps"

definition enc_existsResult :: "bool \<Rightarrow> (string \<times> json) list" where
  "enc_existsResult b = [(''exists'', JBool b)]"

definition dec_existsResult :: "(string \<times> json) list \<Rightarrow> err + bool" where
  "dec_existsResult ps = field dec_bool ''exists'' False ps"

definition enc_CSIVolumeStats :: "codec \<Rightarrow> CSIVolumeStats \<Rightarrow> (string \<times> json) list" where
  "enc_CSIVolumeStats cd s =
     [(''volume_id'', jstr (csVolumeID s)), (''node'', jstr (sbNode s)), (''access_type'', jstr (sbAccessType s)),
      (''total_bytes'', JInt (sbTotalBytes s)), (''used_bytes'', JInt (sbUsedBytes s)), (''available_bytes'', JInt (sbAvailableBytes s)),
      (''total_inodes'', JInt (sbTotalInodes s)), (''used_inodes'', JInt (sbUsedInodes s)), (''free_inodes'', JInt (sbFreeInodes s)),
      (''statfs_at'', JStr (timeText cd (sbStatfsAt s))), (''file_count'', JInt (sbFileCount s)), (''dir_count'', JInt (sbDirCount s)),
      (''other_count'', JInt (sbOtherCount s)), (''walk_at'', JStr (timeText cd (sbWalkAt s))),
      (''walk_duration'', JInt (sbWalkDuration s)), (''walk_complete'', JBool (sbWalkComplete s))]
     @ omitempty ''last_error'' (sbLastError s)"

definition dec_time :: "codec \<Rightarrow> json \<Rightarrow> int option option" where
  "dec_time cd j = (case dec_string j of None \<Rightarrow> None | Some t \<Rightarrow> timeParse cd t)"

definition dec_CSIVolumeStats :: "codec \<Rightarrow> (string \<times> json) list \<Rightarrow> err + CSIVolumeStats" where
  "dec_CSIVolumeStats cd ps =
     bindE (field dec_string ''volume_id'' [] ps) (\<lambda>i. bindE (field dec_string ''node'' [] ps) (\<lambda>n.
     bindE (field dec_string ''access_type'' [] ps) (\<lambda>a.
     bindE (field dec_int ''total_bytes'' 0 ps) (\<lambda>tb. bindE (field dec_int ''used_bytes'' 0 ps) (\<lambda>ub.
     bindE (field dec_int ''available_bytes'' 0 ps) (\<lambda>ab. bindE (field dec_int ''total_inodes'' 0 ps) (\<lambda>ti.
     bindE (field dec_int ''used_inodes'' 0 ps) (\<lambda>ui. bindE (field dec_int ''free_inodes'' 0 ps) (\<lambda>fi.
     bindE (field (dec_time cd) ''statfs_at'' None ps) (\<lambda>sa. bindE (field dec_int ''file_count'' 0 ps) (\<lambda>fc.
     bindE (field dec_int ''dir_count'' 0 ps) (\<lambda>dc. bindE (field dec_int ''other_count'' 0 ps) (\<lambda>oc.
     bindE (field (dec_time cd) ''walk_at'' None ps) (\<lambda>wa. bindE (field dec_int ''walk_duration'' 0 ps) (\<lambda>wd.
     bindE (field dec_bool ''walk_complete'' False ps) (\<lambda>wc. bindE (field dec_string ''last_error'' [] ps) (\<lambda>le.
     Inr \<lparr>sbNode = n, sbAccessType = a, sbTotalBytes = tb, sbUsedBytes = ub, sbAvailableBytes = ab, sbTotalInodes = ti,
       sbUsedInodes = ui, sbFreeInodes = fi, sbStatfsAt = sa, sbFileCount = fc, sbDirCount = dc, sbOtherCount = oc,
       sbWalkAt = wa, sbWalkDuration = wd, sbWalkComplete = wc, sbLastError = le, csVolumeID = i\<rparr>)))))))))))))))))"

section \<open>Errors across the wire\<close>

definition codedFromErr :: "err \<Rightarrow> err" where
  "codedFromErr e = (case errors_As is_DriverErr e of
     Some (DriverErr c m x) \<Rightarrow> CodedErr (int_of_Code c) (err_text (DriverErr c m x))
   | _ \<Rightarrow> CodedErr (int_of_Code CodeInternal) (err_text e))"

definition remoteToDriver :: "err \<Rightarrow> err" where
  "remoteToDriver e = (case errors_As is_RemoteErr e of
     Some (RemoteErr c m) \<Rightarrow> DriverErr (Code_of_int c) m None | _ \<Rightarrow> e)"

section \<open>Dispatch\<close>

text \<open>\<^verbatim>\<open>encodeOrCoded\<close>; encoding these types cannot fail.\<close>

definition encodeOrCoded :: "('a \<Rightarrow> json) \<Rightarrow> ('w, 'a) io \<Rightarrow> ('w, body) io" where
  "encodeOrCoded enc m = bindIO (wrapIO codedFromErr m) (\<lambda>a. ret (Some (enc a)))"

definition obj :: "('a \<Rightarrow> (string \<times> json) list) \<Rightarrow> 'a \<Rightarrow> json" where
  "obj f a = JObj (f a)"

definition decoded :: "((string \<times> json) list \<Rightarrow> err + 'a) \<Rightarrow> string \<Rightarrow> body \<Rightarrow> ('a \<Rightarrow> ('w, 'b) io) \<Rightarrow> ('w, 'b) io" where
  "decoded dec what b k = (case bindE (members b) dec of
     Inl _ \<Rightarrow> fail (codedFromErr (InvalidArgument what)) | Inr a \<Rightarrow> k a)"

definition dispatchForward :: "codec \<Rightarrow> 'w controller \<Rightarrow> ('w \<Rightarrow> Registry) \<Rightarrow> 'w handler" where
  "dispatchForward cd c reg = (\<lambda>ctx method b.
     if method = ''create'' then decoded dec_createArgs ''decoding create args: %v'' b (\<lambda>a.
       encodeOrCoded (obj enc_createResult) (localCreate c a))
     else if method = ''delete'' then decoded dec_idArgs ''decoding delete args: %v'' b (\<lambda>i.
       encodeOrCoded (\<lambda>_. JObj []) (localDelete c i))
     else if method = ''expand'' then decoded dec_expandArgs ''decoding expand args: %v'' b (\<lambda>a.
       encodeOrCoded (obj enc_expandResult) (localExpand c (eaVolumeID a) (eaRequiredBytes a) (eaLimitBytes a)))
     else if method = ''snapshot'' then decoded dec_snapshotArgs ''decoding snapshot args: %v'' b (\<lambda>a.
       encodeOrCoded (obj enc_snapshotResult) (localSnapshot c a))
     else if method = ''deletesnapshot'' then decoded dec_idArgs ''decoding deletesnapshot args: %v'' b (\<lambda>i.
       encodeOrCoded (\<lambda>_. JObj []) (localDeleteSnapshot c i))
     else if method = ''stats'' then decoded dec_statsArgs ''decoding stats args: %v'' b (\<lambda>p.
       encodeOrCoded (obj enc_statsResult) (localStats c p))
     else if method = ''list'' then encodeOrCoded (obj enc_listResult) (localList c)
     else if method = ''listsnapshots'' then decoded dec_listSnapshotsArgs ''decoding list-snapshots args: %v'' b (\<lambda>d.
       encodeOrCoded (obj enc_snapListResult) (localListSnapshots c d))
     else if method = ''exists'' then decoded dec_idArgs ''decoding exists args: %v'' b (\<lambda>i.
       encodeOrCoded (obj enc_existsResult) (localExists c i))
     else if method = ''volstats'' then decoded dec_idArgs ''decoding volstats args: %v'' b (\<lambda>i.
       (\<lambda>w. case Get i (reg w) of
          None \<Rightarrow> (Fail (codedFromErr (NotFound ''volume %s not tracked on this node'')), w)
        | Some cs \<Rightarrow> (Ok (Some (obj (enc_CSIVolumeStats cd) cs)), w)))
     else if method = ''volstatsdump'' then
       (\<lambda>w. (Ok (Some (JArr (map (obj (enc_CSIVolumeStats cd)) (Dump (reg w))))), w))
     else fail (codedFromErr (InvalidArgument ''unknown forward method %q'')))"

end
