(* ===== verification/Local_Controller.thy ===== *)
theory Local_Controller
  imports Local_Forward
begin

text \<open>
  \<^verbatim>\<open>internal/driver/local/controller.go\<close> and \<^verbatim>\<open>stats_source.go\<close>: the controller half of the local backend.
  Each operation runs on the node that owns the volume: here when that is this node, otherwise over
  the forwarding transport. \<open>pcLocal\<close> is the part that runs local operations (\<^verbatim>\<open>res.LocalNode()\<close> is its
  \<open>LocalNode\<close>), the other fields are the resolver, the forwarding client, the registry of this node and
  the mapper between Nomad's volume ids and external ids. Metrics and log lines are left out.
\<close>

record 'w Mapper =
  mpExternalID :: "string \<Rightarrow> string \<Rightarrow> ('w, string \<times> bool) io"
  mpReverse :: "string \<Rightarrow> ('w, smap) io"

record 'w localController =
  pcLocal :: "'w controller"
  pcRes :: "'w Resolver"
  pcFwd :: "'w Client"
  pcCodec :: codec
  pcStats :: "'w \<Rightarrow> Registry"
  pcMapper :: "'w Mapper"
  pcStatsNS :: string

abbreviation self :: "'w localController \<Rightarrow> string" where
  "self c \<equiv> LocalNode (pcLocal c)"

section \<open>Forwarding\<close>

definition listPeers :: "'w localController \<Rightarrow> ('w, NodeInfoPeer list) io" where
  "listPeers c = resList (pcRes c)"

definition forward_call :: "'w localController \<Rightarrow> ctx \<Rightarrow> string \<Rightarrow> string \<Rightarrow> body \<Rightarrow> ('w, body) io" where
  "forward_call c ctx node method b =
     (if IsForwarded ctx then fail (Internal ''refusing to forward an already-forwarded %q to node %q (possible loop)'')
      else bindIO (wrapIO (\<lambda>_. Unavailable ''resolving node %q: %v'') (resResolve (pcRes c) node)) (\<lambda>addr.
      wrapIO remoteToDriver (Call (pcCodec c) (pcFwd c) addr method b)))"

text \<open>With a response to decode, and without (\<^verbatim>\<open>resp\<close> nil).\<close>

definition forward :: "'w localController \<Rightarrow> ctx \<Rightarrow> string \<Rightarrow> string \<Rightarrow> body \<Rightarrow> ((string \<times> json) list \<Rightarrow> err + 'a) \<Rightarrow> ('w, 'a) io" where
  "forward c ctx node method b dec =
     bindIO (forward_call c ctx node method b) (\<lambda>out. case bindE (members out) dec of
       Inl _ \<Rightarrow> fail (Internal ''decoding forward response: %v'') | Inr a \<Rightarrow> ret a)"

definition forward_ack :: "'w localController \<Rightarrow> ctx \<Rightarrow> string \<Rightarrow> string \<Rightarrow> body \<Rightarrow> ('w, unit) io" where
  "forward_ack c ctx node method b = bindIO (forward_call c ctx node method b) (\<lambda>_. ret ())"

definition forwardOutcome :: "err \<Rightarrow> string" where
  "forwardOutcome e = (if errors_As is_NetErr e \<noteq> None then ''unreachable'' else ''error'')"

section \<open>Placement\<close>

definition statsFor :: "'w localController \<Rightarrow> ctx \<Rightarrow> string \<Rightarrow> string \<Rightarrow> ('w, statsResult) io" where
  "statsFor c ctx node pool =
     (if node = self c then localStats (pcLocal c) pool
      else forward c ctx node ''stats'' (Some (JObj (enc_statsArgs pool))) dec_statsResult)"

text \<open>The best node so far, its available bytes and its number of volumes.\<close>

type_synonym pick = "string \<times> int \<times> int"

definition pick_step :: "int \<Rightarrow> string \<Rightarrow> statsResult \<Rightarrow> pick \<Rightarrow> pick" where
  "pick_step sz node st = (\<lambda>(best, bestAvail, bestCount).
     if \<not> stHasPool st \<or> stAvailBytes st < sz then (best, bestAvail, bestCount)
     else if stAvailBytes st > bestAvail
          \<or> stAvailBytes st = bestAvail \<and> stVolumeCount st < bestCount
          \<or> stAvailBytes st = bestAvail \<and> stVolumeCount st = bestCount \<and> str_less node best
     then (node, stAvailBytes st, stVolumeCount st)
     else (best, bestAvail, bestCount))"

definition pick_init :: pick where "pick_init = ([], -1, MaxInt64)"

definition pickRoomiest :: "'w localController \<Rightarrow> ctx \<Rightarrow> string \<Rightarrow> int \<Rightarrow> ('w, string) io" where
  "pickRoomiest c ctx pool sz =
     bindIO (wrapIO (\<lambda>_. Unavailable ''listing peers: %v'') (listPeers c)) (\<lambda>peers.
     if peers = [] then fail (Unavailable ''no local-driver nodes available for placement'')
     else bindIO (foldIO (\<lambda>b p. tryIO (statsFor c ctx (pnNode p) pool) (\<lambda>r. case r of
         Inl _ \<Rightarrow> ret b | Inr st \<Rightarrow> ret (pick_step sz (pnNode p) st b))) pick_init peers) (\<lambda>(best, _, _).
     if best = [] then fail (Unavailable ''no local-driver node has pool %q online with %d bytes available'') else ret best))"

definition validateNode :: "'w localController \<Rightarrow> string \<Rightarrow> ('w, unit) io" where
  "validateNode c node =
     bindIO (wrapIO (\<lambda>_. Unavailable ''listing peers: %v'') (listPeers c)) (\<lambda>peers.
     if node \<in> pnNode ` set peers then ret () else fail (InvalidArgument ''host %q is not a known local-driver node''))"

definition place_content :: "ContentSource option \<Rightarrow> (err + string) option" where
  "place_content src = (case src of None \<Rightarrow> None
     | Some s \<Rightarrow>
         if srcSnapshotID s \<noteq> [] then Some (case parseSnapshotID (srcSnapshotID s) of Inl e \<Rightarrow> Inl e | Inr sid \<Rightarrow> Inr (sNode sid))
         else if srcVolumeID s \<noteq> [] then Some (case parseExternalID (srcVolumeID s) of Inl e \<Rightarrow> Inl e | Inr eid \<Rightarrow> Inr (eNode eid))
         else None)"

definition placeVolume :: "'w localController \<Rightarrow> ctx \<Rightarrow> volumeParams \<Rightarrow> int \<Rightarrow> ContentSource option \<Rightarrow> ('w, string) io" where
  "placeVolume c ctx vp sz src = (case place_content src of
     Some r \<Rightarrow> liftE r
   | None \<Rightarrow>
       if vpHost vp \<noteq> hostAuto then
         bindIO (validateNode c (vpHost vp)) (\<lambda>_.
         bindIO (wrapIO (\<lambda>_. Unavailable ''checking pool %q on node %q: %v'') (statsFor c ctx (vpHost vp) (vpPool vp))) (\<lambda>st.
         if \<not> stHasPool st then fail (InvalidArgument ''node %q does not have pool %q online'') else ret (vpHost vp)))
       else pickRoomiest c ctx (vpPool vp) sz)"

section \<open>Volumes\<close>

definition create_args :: "CreateVolumeRequest \<Rightarrow> volumeParams \<Rightarrow> int \<Rightarrow> createArgs" where
  "create_args req vp sz = \<lparr>caName = sanitizeName (crName req), caPool = vpPool vp, caSizeBytes = sz,
     caVolblocksize = vpVolblocksize vp, caFsType = vpFsType vp, caBlock = vpBlock vp,
     caContentSnapshotID = (case crContentSource req of None \<Rightarrow> [] | Some s \<Rightarrow> srcSnapshotID s),
     caContentVolumeID = (case crContentSource req of None \<Rightarrow> [] | Some s \<Rightarrow> srcVolumeID s)\<rparr>"

definition create_on :: "'w localController \<Rightarrow> ctx \<Rightarrow> string \<Rightarrow> createArgs \<Rightarrow> ('w, createResult) io" where
  "create_on c ctx node a =
     (if node = self c then localCreate (pcLocal c) a
      else forward c ctx node ''create'' (Some (JObj (enc_createArgs a))) dec_createResult)"

definition created_volume :: "CreateVolumeRequest \<Rightarrow> string \<Rightarrow> createResult \<Rightarrow> Volume" where
  "created_volume req node r = \<lparr>volumeID = crrVolumeID r, capacityBytes = crrCapacityBytes r,
     volumeContext = (let m = [ctxKeyDataset \<mapsto> crrDataset r, ctxKeyNode \<mapsto> node]
       in if crrFsType r \<noteq> [] then m(ctxKeyFsType \<mapsto> crrFsType r) else m),
     accessibleTopology = [[topologyKey \<mapsto> node]], contentSource = crContentSource req\<rparr>"

definition ctl_CreateVolume :: "'w localController \<Rightarrow> ctx \<Rightarrow> CreateVolumeRequest \<Rightarrow> ('w, Volume) io" where
  "ctl_CreateVolume c ctx req =
     bindIO (liftE (resolveParams (cfg (pcLocal c)) (crParameters req) (crCapabilities req))) (\<lambda>vp.
     bindIO (liftR (roundUpToBlock (crCapacityRange req) (vpVolblocksize vp))) (\<lambda>sz.
     bindIO (placeVolume c ctx vp sz (crContentSource req)) (\<lambda>node.
     bindIO (create_on c ctx node (create_args req vp sz)) (\<lambda>r.
     ret (created_volume req node r)))))"

definition ctl_DeleteVolume :: "'w localController \<Rightarrow> ctx \<Rightarrow> string \<Rightarrow> ('w, unit) io" where
  "ctl_DeleteVolume c ctx vid =
     bindIO (liftE (parseExternalID vid)) (\<lambda>eid.
     if eNode eid = self c then localDelete (pcLocal c) vid
     else forward_ack c ctx (eNode eid) ''delete'' (Some (JObj (enc_idArgs vid))))"

definition ctl_VolumeExists :: "'w localController \<Rightarrow> ctx \<Rightarrow> string \<Rightarrow> ('w, bool) io" where
  "ctl_VolumeExists c ctx vid =
     bindIO (liftE (parseExternalID vid)) (\<lambda>eid.
     if eNode eid = self c then localExists (pcLocal c) vid
     else forward c ctx (eNode eid) ''exists'' (Some (JObj (enc_idArgs vid))) dec_existsResult)"

definition ctl_ExpandVolume :: "'w localController \<Rightarrow> ctx \<Rightarrow> string \<Rightarrow> CapacityRange \<Rightarrow> ('w, int \<times> bool) io" where
  "ctl_ExpandVolume c ctx vid cr =
     bindIO (liftE (parseExternalID vid)) (\<lambda>eid.
     if requiredBytes cr \<le> 0 then fail (InvalidArgument ''capacity required_bytes must be > 0'')
     else bindIO (if eNode eid = self c then localExpand (pcLocal c) vid (requiredBytes cr) (limitBytes cr)
        else forward c ctx (eNode eid) ''expand'' (Some (JObj (enc_expandArgs
          \<lparr>eaVolumeID = vid, eaRequiredBytes = requiredBytes cr, eaLimitBytes = limitBytes cr\<rparr>))) dec_expandResult) (\<lambda>n.
     ret (n, True)))"

section \<open>Snapshots\<close>

definition unix_time :: "int \<Rightarrow> int option" where
  "unix_time n = (if 0 < n then Some n else None)"

definition ctl_CreateSnapshot :: "'w localController \<Rightarrow> ctx \<Rightarrow> CreateSnapshotRequest \<Rightarrow> ('w, Snapshot) io" where
  "ctl_CreateSnapshot c ctx req =
     bindIO (liftE (parseExternalID (csSourceVolumeID req))) (\<lambda>eid.
     let a = \<lparr>saSourceVolumeID = csSourceVolumeID req, saName = csName req\<rparr> in
     bindIO (if eNode eid = self c then localSnapshot (pcLocal c) a
        else forward c ctx (eNode eid) ''snapshot'' (Some (JObj (enc_snapshotArgs a))) dec_snapshotResult) (\<lambda>r.
     ret \<lparr>snSnapshotID = srSnapshotID r, snSourceVolumeID = csSourceVolumeID req, snSizeBytes = srSizeBytes r,
       snCreationTime = unix_time (srCreationUnix r), snReadyToUse = srReadyToUse r\<rparr>))"

definition ctl_DeleteSnapshot :: "'w localController \<Rightarrow> ctx \<Rightarrow> string \<Rightarrow> ('w, unit) io" where
  "ctl_DeleteSnapshot c ctx i =
     bindIO (liftE (parseSnapshotID i)) (\<lambda>sid.
     if sNode sid = self c then localDeleteSnapshot (pcLocal c) i
     else forward_ack c ctx (sNode sid) ''deletesnapshot'' (Some (JObj (enc_idArgs i))))"

definition listSnapshotsOn :: "'w localController \<Rightarrow> ctx \<Rightarrow> string \<Rightarrow> string \<Rightarrow> ('w, snapWire list) io" where
  "listSnapshotsOn c ctx node dataset =
     (if node = self c then localListSnapshots (pcLocal c) dataset
      else forward c ctx node ''listsnapshots'' (Some (JObj (enc_listSnapshotsArgs dataset))) dec_snapListResult)"

definition toSnapshotInfo :: "snapWire \<Rightarrow> SnapshotInfo" where
  "toSnapshotInfo s = \<lparr>snSnapshotID = swSnapshotID s, snSourceVolumeID = swSourceVolumeID s, snSizeBytes = swSizeBytes s,
     snCreationTime = unix_time (swCreationUnix s), snReadyToUse = swReadyToUse s\<rparr>"

definition ctl_ListSnapshots :: "'w localController \<Rightarrow> ctx \<Rightarrow> string \<Rightarrow> ('w, SnapshotInfo list) io" where
  "ctl_ListSnapshots c ctx sourceVolumeID =
     (if sourceVolumeID \<noteq> [] then
        bindIO (liftE (parseExternalID sourceVolumeID)) (\<lambda>eid.
        bindIO (listSnapshotsOn c ctx (eNode eid) (eDataset eid)) (\<lambda>r. ret (map toSnapshotInfo r)))
      else
        bindIO (wrapIO (\<lambda>_. Unavailable ''listing peers: %v'') (listPeers c)) (\<lambda>peers.
        foldIO (\<lambda>out p. tryIO (listSnapshotsOn c ctx (pnNode p) []) (\<lambda>r. case r of
          Inl _ \<Rightarrow> ret out | Inr ss \<Rightarrow> ret (out @ map toSnapshotInfo ss))) [] peers))"

section \<open>Capacity and listing\<close>

definition ctl_GetCapacity :: "'w localController \<Rightarrow> smap \<Rightarrow> ('w, int) io" where
  "ctl_GetCapacity c params =
     (let lc = pcLocal c; pool = nonempty_or (sget params ''pool'') (defaultPool (cfg lc)) in
      if PoolByName (cfg lc) pool = None then fail (InvalidArgument ''parameters.pool %q is not an allowed pool (configured: %v)'')
      else bindIO (wrapIO (\<lambda>_. Internal ''zpool status: %v'') (ZFS_PoolStatus (cz lc) pool)) (\<lambda>(present, online).
      if \<not> present \<or> \<not> online then ret 0
      else bindIO (wrapIO (\<lambda>_. Internal ''zfs available: %v'') (ZFS_PoolAvailable (cz lc) pool)) (\<lambda>avail.
      bindIO (wrapIO (\<lambda>_. Internal ''zpool sz: %v'') (ZFS_PoolSize (cz lc) pool)) (\<lambda>tot.
      ret (max64 (sub64 avail (reserveBytes tot (ReserveFor (cfg lc) pool))) 0)))))"

definition list_on :: "'w localController \<Rightarrow> ctx \<Rightarrow> string \<Rightarrow> ('w, volWire list) io" where
  "list_on c ctx node = (if node = self c then localList (pcLocal c) else forward c ctx node ''list'' None dec_listResult)"

definition volume_info :: "string \<Rightarrow> volWire \<Rightarrow> VolumeInfo" where
  "volume_info node v = \<lparr>viVolumeID = vwVolumeID v, viCapacityBytes = vwCapacityBytes v, viAccessibleTopology = [[topologyKey \<mapsto> node]]\<rparr>"

definition ctl_ListVolumes :: "'w localController \<Rightarrow> ctx \<Rightarrow> ('w, VolumeInfo list) io" where
  "ctl_ListVolumes c ctx =
     bindIO (wrapIO (\<lambda>_. Unavailable ''listing peers: %v'') (listPeers c)) (\<lambda>peers.
     foldIO (\<lambda>out p. tryIO (list_on c ctx (pnNode p)) (\<lambda>r. case r of
       Inl _ \<Rightarrow> ret out | Inr vs \<Rightarrow> ret (out @ map (volume_info (pnNode p)) vs))) [] peers)"

text \<open>The interface of the CSI services. \<^verbatim>\<open>ControllerPublishVolume\<close> and its inverse do nothing.\<close>

definition local_ControllerBackend :: "'w localController \<Rightarrow> ctx \<Rightarrow> 'w ControllerBackend" where
  "local_ControllerBackend c ctx = \<lparr>beCreateVolume = ctl_CreateVolume c ctx, beDeleteVolume = (\<lambda>i _. ctl_DeleteVolume c ctx i),
     beVolumeExists = ctl_VolumeExists c ctx, beExpandVolume = (\<lambda>i cr _. ctl_ExpandVolume c ctx i cr),
     beControllerPublishVolume = (\<lambda>_ _ _ _ _ _. ret Map.empty), beControllerUnpublishVolume = (\<lambda>_ _ _. ret ()),
     beCreateSnapshot = ctl_CreateSnapshot c ctx, beDeleteSnapshot = (\<lambda>i _. ctl_DeleteSnapshot c ctx i),
     beGetCapacity = (\<lambda>_. ctl_GetCapacity c), beListVolumes = ctl_ListVolumes c ctx, beListSnapshots = ctl_ListSnapshots c ctx\<rparr>"

section \<open>stats_source.go\<close>

definition NotMounted :: err where "NotMounted = WrapErr ''%w: volume %q is not mounted on any node'' (PlainErr ''volume is not mounted on any node'')"

definition read_stats :: "'w localController \<Rightarrow> ctx \<Rightarrow> string \<Rightarrow> string \<Rightarrow> ('w, CSIVolumeStats) io" where
  "read_stats c ctx node extID =
     (if node = self c then (\<lambda>w. case Get extID (pcStats c w) of None \<Rightarrow> (Fail NotMounted, w) | Some cs \<Rightarrow> (Ok cs, w))
      else wrapIO (\<lambda>e. if err_code e = Some CodeNotFound then NotMounted else e)
        (forward c ctx node ''volstats'' (Some (JObj (enc_idArgs extID))) (dec_CSIVolumeStats (pcCodec c))))"

definition Stats :: "'w localController \<Rightarrow> ctx \<Rightarrow> string \<Rightarrow> string \<Rightarrow> ('w, PublicVolumeStats option) io" where
  "Stats c ctx nomadID namespace =
     bindIO (mpExternalID (pcMapper c) namespace nomadID) (\<lambda>(extID, found).
     if \<not> found then ret None
     else bindIO (liftE (parseExternalID extID)) (\<lambda>eid.
     bindIO (read_stats c ctx (eNode eid) extID) (\<lambda>cs. ret (Some (ToPublic cs nomadID namespace)))))"

definition All :: "'w localController \<Rightarrow> string \<Rightarrow> ('w, PublicVolumeStats list) io" where
  "All c namespace =
     bindIO (mpReverse (pcMapper c) namespace) (\<lambda>rev_ids. (\<lambda>w. (Ok (Relabel (Dump (pcStats c w)) rev_ids namespace), w)))"

definition metricsSnapshot :: "'w localController \<Rightarrow> ('w, PublicVolumeStats list) io" where
  "metricsSnapshot c = tryIO (All c (pcStatsNS c)) (\<lambda>r. case r of Inl _ \<Rightarrow> ret [] | Inr out \<Rightarrow> ret out)"

end
