(* ===== verification/Local_Cluster.thy ===== *)
theory Local_Cluster
  imports Local_Controller
begin

text \<open>
  The cluster of local controllers: the wire forms of all arguments and results decode to what was
  encoded; an operation that is forwarded to its owner has exactly the effect and the answer of the
  same operation run there; placement picks the roomiest node; a created volume routes home.
\<close>

section \<open>Wire forms\<close>

lemma field_omit: "lower k' \<noteq> lower k \<Longrightarrow> field dec k d (omitempty k' s) = Inr d"
  by (simp add: omitempty_def)

lemma field_omit_here: "utf8_ok s \<Longrightarrow> field dec_string k [] (omitempty k s) = Inr s"
  by (simp add: omitempty_def jstr_ok)

lemma field_omit_app: "lower k' \<noteq> lower k \<Longrightarrow> field dec k d (omitempty k' s @ ps) = field dec k d ps"
  by (simp add: omitempty_def)

lemma field_omit_app_here: "utf8_ok s \<Longrightarrow> field dec_string k [] (omitempty k s @ ps) = field dec_string k s ps"
  by (simp add: omitempty_def jstr_ok)

lemmas field_omits = field_omit field_omit_here field_omit_app field_omit_app_here

lemma dec_enc_createArgs:
  assumes "utf8_ok (caName a)" "utf8_ok (caPool a)" "in64 (caSizeBytes a)" "utf8_ok (caVolblocksize a)" "utf8_ok (caFsType a)"
    "utf8_ok (caContentSnapshotID a)" "utf8_ok (caContentVolumeID a)"
  shows "dec_createArgs (enc_createArgs a) = Inr a"
  using assms by (simp add: dec_createArgs_def enc_createArgs_def jstr_ok lower_def field_omits)

lemma dec_enc_createResult:
  "utf8_ok (crrVolumeID r) \<Longrightarrow> utf8_ok (crrDataset r) \<Longrightarrow> in64 (crrCapacityBytes r) \<Longrightarrow> utf8_ok (crrFsType r) \<Longrightarrow>
   dec_createResult (enc_createResult r) = Inr r"
  by (simp add: dec_createResult_def enc_createResult_def jstr_ok lower_def)

lemma dec_enc_small:
  "utf8_ok i \<Longrightarrow> dec_idArgs (enc_idArgs i) = Inr i"
  "utf8_ok (eaVolumeID a) \<Longrightarrow> in64 (eaRequiredBytes a) \<Longrightarrow> in64 (eaLimitBytes a) \<Longrightarrow> dec_expandArgs (enc_expandArgs a) = Inr a"
  "in64 n \<Longrightarrow> dec_expandResult (enc_expandResult n) = Inr n"
  "utf8_ok (saSourceVolumeID s) \<Longrightarrow> utf8_ok (saName s) \<Longrightarrow> dec_snapshotArgs (enc_snapshotArgs s) = Inr s"
  "utf8_ok i \<Longrightarrow> dec_statsArgs (enc_statsArgs i) = Inr i"
  "utf8_ok i \<Longrightarrow> dec_listSnapshotsArgs (enc_listSnapshotsArgs i) = Inr i"
  "dec_existsResult (enc_existsResult b) = Inr b"
  by (simp_all add: dec_idArgs_def enc_idArgs_def dec_expandArgs_def enc_expandArgs_def dec_expandResult_def enc_expandResult_def
      dec_snapshotArgs_def enc_snapshotArgs_def dec_statsArgs_def enc_statsArgs_def dec_listSnapshotsArgs_def
      enc_listSnapshotsArgs_def dec_existsResult_def enc_existsResult_def jstr_ok lower_def field_omits)

lemma dec_enc_snapshotResult:
  "utf8_ok (srSnapshotID r) \<Longrightarrow> in64 (srSizeBytes r) \<Longrightarrow> in64 (srCreationUnix r) \<Longrightarrow>
   dec_snapshotResult (enc_snapshotResult r) = Inr r"
  by (simp add: dec_snapshotResult_def enc_snapshotResult_def jstr_ok lower_def)

lemma dec_enc_statsResult:
  "utf8_ok (stNode r) \<Longrightarrow> in64 (stVolumeCount r) \<Longrightarrow> in64 (stFreeBytes r) \<Longrightarrow> in64 (stAvailBytes r) \<Longrightarrow>
   dec_statsResult (enc_statsResult r) = Inr r"
  by (simp add: dec_statsResult_def enc_statsResult_def jstr_ok lower_def)

lemma dec_enc_slice:
  assumes "\<And>x. x \<in> set xs \<Longrightarrow> d (f x) = Inr x"
  shows "field (dec_list d) k [] [(k, enc_slice f xs)] = Inr xs"
  using dec_list_map [OF assms, of xs] by (auto simp: enc_slice_def field_Cons field_step_def)

lemma dec_enc_listResult:
  assumes "\<And>v. v \<in> set vs \<Longrightarrow> utf8_ok (vwVolumeID v) \<and> in64 (vwCapacityBytes v)"
  shows "dec_listResult (enc_listResult vs) = Inr vs"
  unfolding dec_listResult_def enc_listResult_def using assms
  by (intro dec_enc_slice) (auto simp: dec_volWire_def enc_volWire_def jstr_ok lower_def)

lemma dec_enc_snapListResult:
  assumes "\<And>s. s \<in> set ss \<Longrightarrow> utf8_ok (swSnapshotID s) \<and> utf8_ok (swSourceVolumeID s) \<and> in64 (swSizeBytes s) \<and> in64 (swCreationUnix s)"
  shows "dec_snapListResult (enc_snapListResult ss) = Inr ss"
  unfolding dec_snapListResult_def enc_snapListResult_def using assms
  by (intro dec_enc_slice) (auto simp: dec_snapWire_def enc_snapWire_def jstr_ok lower_def)

lemma dec_enc_CSIVolumeStats:
  assumes "timeParse cd (timeText cd (sbStatfsAt s)) = Some (sbStatfsAt s)" "timeParse cd (timeText cd (sbWalkAt s)) = Some (sbWalkAt s)"
    and "list_all utf8_ok [csVolumeID s, sbNode s, sbAccessType s, sbLastError s]"
    and "list_all in64 [sbTotalBytes s, sbUsedBytes s, sbAvailableBytes s, sbTotalInodes s, sbUsedInodes s, sbFreeInodes s,
       sbFileCount s, sbDirCount s, sbOtherCount s, sbWalkDuration s]"
  shows "dec_CSIVolumeStats cd (enc_CSIVolumeStats cd s) = Inr s"
  using assms by (simp add: dec_CSIVolumeStats_def enc_CSIVolumeStats_def jstr_ok lower_def field_omits dec_time_def)

section \<open>The errors of local operations\<close>

text \<open>An error that crosses the wire unchanged: a driver error without a cause, with one of the codes and a
  short text.\<close>

definition clean_msg :: "string \<Rightarrow> bool" where
  "clean_msg m \<longleftrightarrow> m \<noteq> [] \<and> length m < 1000 \<and> list_all ascii m"

definition clean_err :: "err \<Rightarrow> bool" where
  "clean_err e \<longleftrightarrow> (\<exists>c m. e = DriverErr c m None \<and> code_wf c \<and> (\<forall>n. c \<noteq> CodeOther n) \<and> clean_msg m)"

lemma clean_constructors:
  "clean_err (InvalidArgument m) \<longleftrightarrow> clean_msg m" "clean_err (NotFound m) \<longleftrightarrow> clean_msg m" "clean_err (AlreadyExists m) \<longleftrightarrow> clean_msg m"
  "clean_err (FailedPrecondition m) \<longleftrightarrow> clean_msg m" "clean_err (OutOfRange m) \<longleftrightarrow> clean_msg m" "clean_err (Internal m) \<longleftrightarrow> clean_msg m"
  "clean_err (Unavailable m) \<longleftrightarrow> clean_msg m"
  by (simp_all add: clean_err_def driver_err_defs)

lemma clean_literals: "clean_msg (c # cs) \<longleftrightarrow> ascii c \<and> length cs < 999 \<and> list_all ascii cs"
  by (auto simp: clean_msg_def)

lemmas clean_simps = clean_constructors clean_literals ascii_def

lemma parseExternalID_clean: "parseExternalID s = Inl e \<Longrightarrow> clean_err e"
  by (auto dest!: parseExternalID_code simp: clean_simps)

lemma parseSnapshotID_clean: "parseSnapshotID s = Inl e \<Longrightarrow> clean_err e"
  by (auto simp: parseSnapshotID_def Let_def clean_simps split: list.splits if_splits)

lemmas parse_clean = parseExternalID_clean parseSnapshotID_clean

lemma create_parts_clean: "fails_as clean_err (checkCapacity c p n)" "fails_as clean_err (recordProvenance c d s)"
  "fails_as clean_err (growIfNeeded c d n)" "fails_as clean_err (clone_stream c s t d)" "fails_as clean_err (create_existing c a d)"
  unfolding checkCapacity_def recordProvenance_def growIfNeeded_def clone_stream_def create_existing_def Let_def
  by (auto intro!: fails_intros simp: clean_simps split: sum.split)

lemma create_new_clean: "fails_as clean_err (create_new c a d)"
  unfolding create_new_def restoreFromSnapshot_def cloneFromVolume_def Let_def
  by (auto intro!: fails_intros create_parts_clean dest: parse_clean simp: clean_simps)

lemma local_ops_clean: "fails_as clean_err (localCreate c a)" "fails_as clean_err (localDelete c i)" "fails_as clean_err (localExists c i)"
  "fails_as clean_err (localExpand c i r l)" "fails_as clean_err (localSnapshot c sa)" "fails_as clean_err (localDeleteSnapshot c i)"
  "fails_as clean_err (localStats c p)" "fails_as clean_err (localList c)" "fails_as clean_err (localListSnapshots c d)"
  unfolding localCreate_def localDelete_def localExists_def localExpand_def localSnapshot_def localDeleteSnapshot_def
    localStats_def localList_def localListSnapshots_def Let_def
  by (auto intro!: fails_intros create_parts_clean create_new_clean dest: parse_clean simp: clean_simps)

text \<open>Their results: numbers are 64-bit, a create answers with the id of the dataset it made.\<close>

lemma zfs_get_int_in64: "yields in64 (zfs_get_int h p d)"
  unfolding zfs_get_int_def zfs_parseInt_def by (auto intro!: yields_intros dest: ParseInt_in64 split: prod.splits if_splits)

lemma localExpand_in64: "yields in64 (localExpand c i r l)"
  unfolding localExpand_def Let_def ZFS_GetVolsize_def ZFS_GetVolblocksize_def
  by (auto intro!: yields_bindIO yields_if yields_fail yields_wrapIO yields_ret zfs_get_int_in64 simp: in64_roundUp)

lemma localSnapshot_result: "parseExternalID (saSourceVolumeID a) = Inr e \<Longrightarrow> yields (\<lambda>r. in64 (srSizeBytes r) \<and> in64 (srCreationUnix r) \<and>
    srSnapshotID r = snapshotID_String \<lparr>sNode = LocalNode c, sDataset = eDataset e, sSnapName = sanitizeName (saName a)\<rparr>) (localSnapshot c a)"
  unfolding localSnapshot_def Let_def ZFS_GetVolsize_def ZFS_GetCreation_def
  by (auto simp: liftE_def intro!: yields_bindIO yields_bind [OF yields_wrapIO [OF zfs_get_int_in64]] yields_ret)

lemma localCreate_result: "yields (\<lambda>r. r = create_result c a (datasetFor c (caPool a) (caName a))) (localCreate c a)"
  unfolding localCreate_def create_existing_def Let_def by (intro yields_intros) auto

section \<open>Peers\<close>

text \<open>net/http recovers a handler that panics and drops the connection.\<close>

definition http_recovered :: "('w, 'a) io \<Rightarrow> ('w, 'a) io" where
  "http_recovered m = (\<lambda>w. case m w of (Panic p, w') \<Rightarrow> (Fail (NetErr ''EOF''), w') | x \<Rightarrow> x)"

text \<open>What a caller sees of a remote operation: everything but a panic.\<close>

definition unpanic :: "('w, 'a) io \<Rightarrow> ('w, 'a) io" where
  "unpanic m = (\<lambda>w. case m w of (Panic p, w') \<Rightarrow> (Fail (WrapErr ''forwarding to %s'' (NetErr ''EOF'')), w') | x \<Rightarrow> x)"

definition at_owner :: "string \<Rightarrow> string \<Rightarrow> ('w, 'a) io \<Rightarrow> ('w, 'a) io" where
  "at_owner a b m = (if a = b then m else unpanic m)"

definition short :: "string \<Rightarrow> bool" where
  "short s \<longleftrightarrow> list_all ascii s \<and> length s \<le> 2000"

lemma short_utf8: "short s \<Longrightarrow> utf8_ok s" "short s \<Longrightarrow> weight (jstr s) \<le> 2001"
  by (simp_all add: short_def utf8_ok_ascii weight_jstr)

text \<open>Controllers that know and reach each other: \<open>C a\<close> is the controller of node \<open>a\<close> in \<open>N\<close>, its forwarding server
  is reached at \<open>addr a\<close>, all share the secret.\<close>

locale peers =
  fixes cd :: codec and secret :: string and addr :: "string \<Rightarrow> string" and N :: "string set"
    and C :: "string \<Rightarrow> 'w localController"
  assumes node: "a \<in> N \<Longrightarrow> self (C a) = a \<and> pcCodec (C a) = cd \<and> clSecret (pcFwd (C a)) = secret"
    and resolve: "a \<in> N \<Longrightarrow> b \<in> N \<Longrightarrow> resResolve (pcRes (C a)) b w = (Ok (addr b), w)"
    and unknown: "a \<in> N \<Longrightarrow> b \<notin> N \<Longrightarrow> \<exists>e. resResolve (pcRes (C a)) b w = (Fail e, w)"
    and reach: "a \<in> N \<Longrightarrow> b \<in> N \<Longrightarrow> Do (pcFwd (C a)) (addr b) r =
      http_recovered (ServeHTTP cd secret (dispatchForward cd (pcLocal (C b)) (pcStats (C b))) r)"
    and text_len: "encLen cd j \<le> 30 * weight j"
begin

lemma fits: "weight j \<le> 30000 \<Longrightarrow> limited cd (Some j) = Some j"
  using text_len [of j] by (intro limited_fits) auto

abbreviation served :: "string \<Rightarrow> string \<Rightarrow> body \<Rightarrow> ('w, body) io" where
  "served b method bd \<equiv> dispatchForward cd (pcLocal (C b)) (pcStats (C b)) \<lparr>ctxForwarded = True\<rparr> method (limited cd bd)"

lemma forward_call_served:
  assumes "method \<noteq> []" "a \<in> N" "b \<in> N"
  shows "forward_call (C a) background b method bd w = (case served b method bd w of
     (Ok x, w') \<Rightarrow> (Ok (limited cd x), w')
   | (Fail e, w') \<Rightarrow> (Fail (remoteToDriver (remote_error (limited cd (rsBody (handler_error e))))), w')
   | (Panic p, w') \<Rightarrow> (Fail (remoteToDriver (WrapErr ''forwarding to %s'' (NetErr ''EOF''))), w'))"
proof -
  have p: "methodFromPath (forwardPathPrefix @ method) = Some method" by (rule methodFromPath_prefix [OF assms(1)])
  show ?thesis
    by (auto simp: forward_call_def background_def IsForwarded_def bindIO_def wrapIO_def resolve [OF assms(2,3)] Call_def reach [OF assms(2,3)] node [OF assms(2)] http_recovered_def
        ServeHTTP_def forward_request_def p tryIO_def handler_error_status Let_def split: prod.splits res.splits)
qed

lemma clean_crosses:
  assumes "clean_err e"
  shows "remoteToDriver (remote_error (limited cd (rsBody (handler_error (codedFromErr e))))) = e"
proof -
  obtain c m where e: "e = DriverErr c m None" "code_wf c" "\<forall>n. c \<noteq> CodeOther n" "clean_msg m" using assms by (auto simp: clean_err_def)
  have "in64 (int_of_Code c)" using e(3) by (cases c) (auto simp: in64_def MinInt64_def MaxInt64_def)
  moreover have "utf8_ok m" "m \<noteq> []" using e(4) by (auto simp: clean_msg_def utf8_ok_ascii)
  ultimately have "remote_error (Some (wire_error (int_of_Code c) m)) = RemoteErr (int_of_Code c) m" by (rule remote_error_wire)
  moreover have "weight (wire_error (int_of_Code c) m) \<le> 30000"
    using e(4) \<open>utf8_ok m\<close> length_FormatInt [OF \<open>in64 (int_of_Code c)\<close>] by (simp add: wire_error_def weight_jstr clean_msg_def)
  ultimately show ?thesis using fits Code_of_int_of_Code [OF e(2)]
    by (simp add: e(1) codedFromErr_def errors_As_self handler_error_def asCoded_def writeWireError_def remoteToDriver_def)
qed

text \<open>A forwarded call whose arguments decode on the other side, whose operation fails cleanly and whose
  result decodes here is the operation of the owner.\<close>

lemma forward_is_local:
  assumes "a \<in> N" "b \<in> N" "method \<noteq> []" "served b method bd = encodeOrCoded enc m" "fails_as clean_err m"
    and "\<And>w x w'. m w = (Ok x, w') \<Longrightarrow> bindE (members (limited cd (Some (enc x)))) dec = Inr x"
  shows "forward (C a) background b method bd dec = unpanic m"
proof
  fix w
  obtain r w' where r: "m w = (r, w')" by fastforce
  show "forward (C a) background b method bd dec w = unpanic m w"
  proof (cases r)
    case (Ok x)
    then show ?thesis using r assms(6) [of w x w']
      by (simp add: forward_def bindIO_def forward_call_served [OF assms(3,1,2)] assms(4) encodeOrCoded_def wrapIO_def unpanic_def)
  next
    case (Fail e)
    then show ?thesis using r clean_crosses [OF fails_asD [OF assms(5), of w e w']]
      by (simp add: forward_def bindIO_def forward_call_served [OF assms(3,1,2)] assms(4) encodeOrCoded_def wrapIO_def unpanic_def)
  next
    case (Panic p)
    then show ?thesis using r
      by (simp add: forward_def bindIO_def forward_call_served [OF assms(3,1,2)] assms(4) encodeOrCoded_def wrapIO_def unpanic_def
          remoteToDriver_def errors_As_def)
  qed
qed

lemma forward_ack_is_local:
  assumes "a \<in> N" "b \<in> N" "method \<noteq> []" "served b method bd = encodeOrCoded enc (m :: ('w, unit) io)" "fails_as clean_err m"
  shows "forward_ack (C a) background b method bd = unpanic m"
proof
  fix w
  obtain r w' where r: "m w = (r, w')" by fastforce
  show "forward_ack (C a) background b method bd w = unpanic m w"
    using r fails_asD [OF assms(5), of w _ w']
    by (cases r) (auto simp: forward_ack_def bindIO_def forward_call_served [OF assms(3,1,2)] assms(4) encodeOrCoded_def wrapIO_def
        unpanic_def remoteToDriver_def [of "WrapErr _ _"] errors_As_def clean_crosses)
qed

text \<open>The operations, on short arguments.\<close>

abbreviation owner :: "string \<Rightarrow> 'w controller" where
  "owner b \<equiv> pcLocal (C b)"

lemma members_fit: "weight (JObj ps) \<le> 30000 \<Longrightarrow> members (limited cd (Some (JObj ps))) = Inr ps"
  by (simp only: fits members_obj)

lemma id_fits: "utf8_ok i \<Longrightarrow> length i \<le> 20000 \<Longrightarrow> bindE (members (limited cd (Some (JObj (enc_idArgs i))))) dec_idArgs = Inr i"
  by (subst members_fit) (simp_all add: enc_idArgs_def weight_jstr dec_enc_small(1) [unfolded enc_idArgs_def])

lemma delete_at_owner:
  assumes "parseExternalID vid = Inr e" "utf8_ok vid" "length vid \<le> 20000"
    and mem: "a \<in> N" "eNode e \<in> N"
  shows "ctl_DeleteVolume (C a) background vid = at_owner a (eNode e) (localDelete (owner (eNode e)) vid)"
proof -
  have "served b ''delete'' (Some (JObj (enc_idArgs vid))) = encodeOrCoded (\<lambda>_. JObj []) (localDelete (owner b) vid)" for b
    using id_fits [OF assms(2,3)] by (simp add: dispatchForward_def decoded_def)
  from forward_ack_is_local [OF mem _ this local_ops_clean(2)] show ?thesis
    by (auto simp: ctl_DeleteVolume_def assms(1) liftE_def node [OF mem(1)] at_owner_def)
qed

lemma delete_snapshot_at_owner:
  assumes "parseSnapshotID i = Inr e" "utf8_ok i" "length i \<le> 20000"
    and mem: "a \<in> N" "sNode e \<in> N"
  shows "ctl_DeleteSnapshot (C a) background i = at_owner a (sNode e) (localDeleteSnapshot (owner (sNode e)) i)"
proof -
  have "served b ''deletesnapshot'' (Some (JObj (enc_idArgs i))) = encodeOrCoded (\<lambda>_. JObj []) (localDeleteSnapshot (owner b) i)" for b
    using id_fits [OF assms(2,3)] by (simp add: dispatchForward_def decoded_def)
  from forward_ack_is_local [OF mem _ this local_ops_clean(6)] show ?thesis
    by (auto simp: ctl_DeleteSnapshot_def assms(1) liftE_def node [OF mem(1)] at_owner_def)
qed

lemma exists_at_owner:
  assumes "parseExternalID vid = Inr e" "utf8_ok vid" "length vid \<le> 20000"
    and mem: "a \<in> N" "eNode e \<in> N"
  shows "ctl_VolumeExists (C a) background vid = at_owner a (eNode e) (localExists (owner (eNode e)) vid)"
proof -
  have "served b ''exists'' (Some (JObj (enc_idArgs vid))) = encodeOrCoded (obj enc_existsResult) (localExists (owner b) vid)" for b
    using id_fits [OF assms(2,3)] by (simp add: dispatchForward_def decoded_def)
  moreover have "bindE (members (limited cd (Some (obj enc_existsResult x)))) dec_existsResult = Inr x" for x
    unfolding obj_def by (subst members_fit) (simp_all add: enc_existsResult_def dec_enc_small(7) [unfolded enc_existsResult_def])
  ultimately have "forward (C a) background b ''exists'' (Some (JObj (enc_idArgs vid))) dec_existsResult
      = unpanic (localExists (owner b) vid)" if "a \<in> N" "b \<in> N" for a b
    using that by (intro forward_is_local [OF _ _ _ _ local_ops_clean(3)]) auto
  from this [OF mem] show ?thesis by (auto simp: ctl_VolumeExists_def assms(1) liftE_def node [OF mem(1)] at_owner_def)
qed

lemma expand_at_owner:
  assumes "parseExternalID vid = Inr e" "utf8_ok vid" "length vid \<le> 20000" "in64 (requiredBytes cr)" "in64 (limitBytes cr)" "0 < requiredBytes cr"
    and mem: "a \<in> N" "eNode e \<in> N"
  shows "ctl_ExpandVolume (C a) background vid cr = bindIO (at_owner a (eNode e)
    (localExpand (owner (eNode e)) vid (requiredBytes cr) (limitBytes cr))) (\<lambda>n. ret (n, True))"
proof -
  let ?a = "\<lparr>eaVolumeID = vid, eaRequiredBytes = requiredBytes cr, eaLimitBytes = limitBytes cr\<rparr>"
  have w: "weight (JObj (enc_expandArgs ?a)) \<le> 30000" using assms length_FormatInt [of "requiredBytes cr"] length_FormatInt [of "limitBytes cr"]
    by (simp add: enc_expandArgs_def weight_jstr)
  have "bindE (members (limited cd (Some (JObj (enc_expandArgs ?a))))) dec_expandArgs = Inr ?a"
    unfolding members_fit [OF w] using assms by (simp add: dec_enc_small(2))
  then have "served b ''expand'' (Some (JObj (enc_expandArgs ?a))) = encodeOrCoded (obj enc_expandResult)
      (localExpand (owner b) vid (requiredBytes cr) (limitBytes cr))" for b
    by (simp add: dispatchForward_def decoded_def)
  moreover have "bindE (members (limited cd (Some (obj enc_expandResult x)))) dec_expandResult = Inr x" if "in64 x" for x
  proof -
    have "weight (JObj (enc_expandResult x)) \<le> 30000" using length_FormatInt [OF that] by (simp add: enc_expandResult_def)
    from members_fit [OF this] show ?thesis using that by (simp add: obj_def dec_enc_small(3))
  qed
  ultimately have "forward (C a) background b ''expand'' (Some (JObj (enc_expandArgs ?a))) dec_expandResult
      = unpanic (localExpand (owner b) vid (requiredBytes cr) (limitBytes cr))" if "a \<in> N" "b \<in> N" for a b
    using that by (intro forward_is_local [OF _ _ _ _ local_ops_clean(4)]) (auto dest: yieldsD [OF localExpand_in64])
  from this [OF mem] show ?thesis using assms(6) by (auto simp: ctl_ExpandVolume_def assms(1) liftE_def node [OF mem(1)] at_owner_def)
qed

lemma create_at_owner:
  assumes "list_all short [caName a, caPool a, caVolblocksize a, caFsType a, caContentSnapshotID a, caContentVolumeID a]"
    and "in64 (caSizeBytes a)" "short b" "short (parentDatasetFor (owner b) (caPool a))"
    and mem: "n \<in> N" "b \<in> N"
  shows "create_on (C n) background b a = at_owner n b (localCreate (owner b) a)"
proof -
  have om: "short s \<Longrightarrow> sum_list (map (\<lambda>(k, j). 1 + length k + weight j) (omitempty k s)) \<le> 2002 + length k" for s k
    using short_utf8 [of s] by (simp add: omitempty_def)
  have w: "weight (JObj (enc_createArgs a)) \<le> 30000"
    using assms(1) length_FormatInt [OF assms(2)] om [of "caContentSnapshotID a" "''content_snapshot_id''"]
      om [of "caContentVolumeID a" "''content_volume_id''"] short_utf8(2) [of "caName a"] short_utf8(2) [of "caPool a"]
      short_utf8(2) [of "caVolblocksize a"] short_utf8(2) [of "caFsType a"]
    by (simp add: enc_createArgs_def)
  have "bindE (members (limited cd (Some (JObj (enc_createArgs a))))) dec_createArgs = Inr a"
    unfolding members_fit [OF w] using assms(1,2) short_utf8(1) by (simp add: dec_enc_createArgs)
  then have sv: "served b ''create'' (Some (JObj (enc_createArgs a))) = encodeOrCoded (obj enc_createResult) (localCreate (owner b) a)"
    by (simp add: dispatchForward_def decoded_def)
  let ?ds = "datasetFor (owner b) (caPool a) (caName a)" and ?r = "create_result (owner b) a (datasetFor (owner b) (caPool a) (caName a))"
  have ds: "list_all ascii ?ds" "length ?ds \<le> 4001" using assms(1,4) by (auto simp: datasetFor_def short_def ascii_def)
  have vid: "list_all ascii (crrVolumeID ?r)" "length (crrVolumeID ?r) \<le> 7000"
    using ds assms(3) by (auto simp: create_result_def externalID_String_def externalIDPrefix_def node [OF mem(2)] short_def ascii_def)
  have "bindE (members (limited cd (Some (obj enc_createResult ?r)))) dec_createResult = Inr ?r"
  proof -
    have u: "utf8_ok (crrVolumeID ?r)" "utf8_ok (crrDataset ?r)" "utf8_ok (crrFsType ?r)" "in64 (crrCapacityBytes ?r)"
      using ds vid assms(1,2) short_utf8(1) by (auto simp: create_result_def utf8_ok_ascii)
    have "weight (JObj (enc_createResult ?r)) \<le> 30000"
      using u vid(2) ds(2) length_FormatInt [OF u(4)] assms(1) by (simp add: enc_createResult_def weight_jstr) (simp add: create_result_def short_def)
    from members_fit [OF this] show ?thesis using u by (simp add: obj_def dec_enc_createResult)
  qed
  then have "forward (C n) background b ''create'' (Some (JObj (enc_createArgs a))) dec_createResult = unpanic (localCreate (owner b) a)"
    by (intro forward_is_local [OF mem _ sv local_ops_clean(1)]) (auto dest: yieldsD [OF localCreate_result])
  then show ?thesis by (auto simp: create_on_def node [OF mem(1)] at_owner_def)
qed

end

section \<open>Where a created volume lives\<close>

text \<open>A request whose strings are short once resolved by the configuration.\<close>

definition short_request :: "LocalConfig \<Rightarrow> CreateVolumeRequest \<Rightarrow> bool" where
  "short_request lc req \<longleftrightarrow>
     (case resolveParams lc (crParameters req) (crCapabilities req) of Inl _ \<Rightarrow> True
      | Inr vp \<Rightarrow> short (vpPool vp) \<and> short (vpVolblocksize vp) \<and> short (vpFsType vp)) \<and>
     (case crContentSource req of None \<Rightarrow> True | Some s \<Rightarrow> short (srcSnapshotID s) \<and> short (srcVolumeID s))"

lemma short_sanitized: "short (sanitizeName n)"
  using safe_chars_ascii [OF sanitizeName_safe [of n]] sanitizeName_length [of n] by (simp add: short_def)

lemma roundUpToBlock_in64: "roundUpToBlock cr v = Ok n \<Longrightarrow> in64 n"
  by (auto simp: roundUpToBlock_def Let_def in64_roundUp split: if_splits sum.splits)

context peers
begin

lemma create_on_known: "a \<in> N \<Longrightarrow> create_on (C a) background b ca w = (Ok r, w') \<Longrightarrow> b \<in> N"
proof (rule ccontr)
  assume a: "a \<in> N" "create_on (C a) background b ca w = (Ok r, w')" "b \<notin> N"
  obtain e where "resResolve (pcRes (C a)) b w = (Fail e, w)" using unknown [OF a(1,3)] by blast
  moreover have "b \<noteq> self (C a)" using a(1,3) node by auto
  ultimately show False using a(2)
    by (simp add: create_on_def forward_def forward_call_def IsForwarded_def background_def bindIO_def wrapIO_def)
qed

lemma created_home:
  assumes "a \<in> N" "\<forall>b \<in> N. short b \<and> (\<forall>vp. resolveParams (cfg (owner a)) (crParameters req) (crCapabilities req) = Inr vp
      \<longrightarrow> short (parentDatasetFor (owner b) (vpPool vp)))"
    and "short_request (cfg (owner a)) req" "ctl_CreateVolume (C a) background req w = (Ok vol, w')"
  shows "\<exists>b \<in> N. \<exists>ds. volumeID vol = externalID_String \<lparr>eNode = b, eDataset = ds\<rparr> \<and> accessibleTopology vol = [[topologyKey \<mapsto> b]] \<and>
    volumeContext vol ctxKeyDataset = Some ds \<and> volumeContext vol ctxKeyNode = Some b \<and>
    utf8_ok (volumeID vol) \<and> length (volumeID vol) \<le> 20000"
proof -
  obtain vp where vp: "resolveParams (cfg (owner a)) (crParameters req) (crCapabilities req) = Inr vp"
    using assms(4) by (auto simp: ctl_CreateVolume_def bindIO_eq_Ok split: sum.splits)
  obtain n b r w1 w2 where n: "roundUpToBlock (crCapacityRange req) (vpVolblocksize vp) = Ok n"
      and c: "create_on (C a) background b (create_args req vp n) w1 = (Ok r, w2)" and vol: "vol = created_volume req b r"
    using assms(4) vp by (auto simp: ctl_CreateVolume_def bindIO_eq_Ok)
  let ?ca = "create_args req vp n" and ?ds = "datasetFor (owner b) (vpPool vp) (sanitizeName (crName req))"
  have b: "b \<in> N" by (rule create_on_known [OF assms(1) c])
  have sh: "list_all short [caName ?ca, caPool ?ca, caVolblocksize ?ca, caFsType ?ca, caContentSnapshotID ?ca, caContentVolumeID ?ca]"
    using assms(3) vp short_sanitized by (auto simp: create_args_def short_request_def short_def split: option.splits)
  have p: "short (vpPool vp)" using sh by (simp add: create_args_def)
  have pd: "short (parentDatasetFor (owner b) (caPool ?ca))" using assms(2) b vp by (simp add: create_args_def)
  have "create_on (C a) background b ?ca = at_owner a b (localCreate (owner b) ?ca)"
    using sh roundUpToBlock_in64 [OF n] assms(1,2) b pd by (intro create_at_owner) (auto simp: create_args_def)
  then obtain w3 w4 where "localCreate (owner b) ?ca w3 = (Ok r, w4)"
    using c by (auto simp: at_owner_def unpanic_def split: if_splits prod.splits res.splits)
  from yieldsD [OF localCreate_result this] have r: "r = create_result (owner b) ?ca ?ds" by (simp add: create_args_def)
  have vid: "volumeID vol = externalID_String \<lparr>eNode = b, eDataset = ?ds\<rparr>" using node [OF b]
    by (simp add: vol created_volume_def r create_result_def)
  have "list_all ascii (volumeID vol)" "length (volumeID vol) \<le> 20000"
    using pd assms(2) b short_sanitized [of "crName req"] unfolding vid
    by (auto simp: externalID_String_def externalIDPrefix_def datasetFor_def short_def create_args_def ascii_def)
  moreover have "volumeContext vol ctxKeyDataset = Some ?ds" "volumeContext vol ctxKeyNode = Some b"
    by (auto simp: vol created_volume_def r create_result_def Let_def ctxKey_defs)
  moreover have "accessibleTopology vol = [[topologyKey \<mapsto> b]]" by (simp add: vol created_volume_def)
  ultimately show ?thesis using b vid utf8_ok_ascii by blast
qed

end

section \<open>A cluster with a fixed peer table\<close>

definition forward_addr :: "string \<Rightarrow> string" where
  "forward_addr n = n @ '':9602''"

definition peer_table :: "string list \<Rightarrow> NodeInfoPeer list" where
  "peer_table ns = map (\<lambda>n. \<lparr>pnNode = n, pnAddr = forward_addr n\<rparr>) ns"

definition plain_codec :: codec where
  "plain_codec = \<lparr>timeText = (\<lambda>t. case t of None \<Rightarrow> ''-'' | Some n \<Rightarrow> FormatInt n),
     timeParse = (\<lambda>s. if s = ''-'' then Some None else let (n, ok) = ParseInt s in if ok then Some (Some n) else None),
     encLen = weight\<rparr>"

definition static_cluster :: "string \<Rightarrow> string list \<Rightarrow> (string \<Rightarrow> 'w controller) \<Rightarrow> (string \<Rightarrow> 'w \<Rightarrow> Registry) \<Rightarrow> string \<Rightarrow> 'w localController" where
  "static_cluster secret ns L R a =
     \<lparr>pcLocal = (L a)\<lparr>LocalNode := a\<rparr>, pcRes = StaticResolver a (peer_table ns),
      pcFwd = \<lparr>clSecret = secret, Do = (\<lambda>ad r. case List.find (\<lambda>p. pnAddr p = ad) (peer_table ns) of
        Some p \<Rightarrow> http_recovered (ServeHTTP plain_codec secret
          (dispatchForward plain_codec ((L (pnNode p))\<lparr>LocalNode := pnNode p\<rparr>) (R (pnNode p))) r)
      | None \<Rightarrow> fail (NetErr ''dial tcp''))\<rparr>,
      pcCodec = plain_codec, pcStats = R a, pcMapper = \<lparr>mpExternalID = (\<lambda>_ _. ret ([], False)), mpReverse = (\<lambda>_. ret Map.empty)\<rparr>,
      pcStatsNS = ''default''\<rparr>"

lemma find_peer: "n \<in> set ns \<Longrightarrow> List.find (\<lambda>p. pnNode p = n) (peer_table ns) = Some \<lparr>pnNode = n, pnAddr = forward_addr n\<rparr>"
  "n \<in> set ns \<Longrightarrow> List.find (\<lambda>p. pnAddr p = forward_addr n) (peer_table ns) = Some \<lparr>pnNode = n, pnAddr = forward_addr n\<rparr>"
  by (induction ns) (auto simp: peer_table_def forward_addr_def)

lemma find_unknown: "n \<notin> set ns \<Longrightarrow> List.find (\<lambda>p. pnNode p = n) (peer_table ns) = None"
  by (induction ns) (auto simp: peer_table_def)

interpretation sc: peers plain_codec secret forward_addr "set ns" "static_cluster secret ns L R" for secret ns L R
  by unfold_locales (auto simp: static_cluster_def StaticResolver_def find_peer find_unknown plain_codec_def)

end
