(* ===== verification/Local_Cluster_Props.thy ===== *)
theory Local_Cluster_Props
  imports Local_Cluster Local_Node
begin

text \<open>
  The properties of the local controllers as a cluster: wire forms round trip, forwarding is
  authenticated and never loops, a forwarded operation is the owner's operation, placement is optimal
  and deterministic, and a created volume routes home from every node.
\<close>

section \<open>Placement\<close>

text \<open>A node beats another: more bytes available, then fewer volumes, then the smaller name.\<close>

definition roomier :: "string \<times> statsResult \<Rightarrow> string \<times> statsResult \<Rightarrow> bool" where
  "roomier = (\<lambda>(n, s) (m, t). stAvailBytes t < stAvailBytes s
     \<or> stAvailBytes s = stAvailBytes t \<and> (stVolumeCount s < stVolumeCount t \<or> stVolumeCount s = stVolumeCount t \<and> str_less n m))"

definition candidate :: "int \<Rightarrow> statsResult res \<Rightarrow> statsResult option" where
  "candidate sz r = (case r of Ok st \<Rightarrow> if stHasPool st \<and> sz \<le> stAvailBytes st then Some st else None | _ \<Rightarrow> None)"

lemma roomier_trans: "roomier x y \<Longrightarrow> roomier y z \<Longrightarrow> roomier x z"
  using str_less_trans by (auto simp: roomier_def split: prod.splits)

lemma roomier_total: "n \<noteq> m \<Longrightarrow> roomier (n, s) (m, t) \<or> roomier (m, t) (n, s)"
  using str_less_linear [of n m] by (auto simp: roomier_def)

lemma roomier_asym: "roomier x y \<Longrightarrow> \<not> roomier y x"
  using roomier_trans [of x y x] str_less_irrefl by (auto simp: roomier_def split: prod.splits)

definition pick_one :: "int \<Rightarrow> (string \<Rightarrow> statsResult res) \<Rightarrow> string \<Rightarrow> pick \<Rightarrow> pick" where
  "pick_one sz r n b = (case r n of Ok st \<Rightarrow> pick_step sz n st b | _ \<Rightarrow> b)"

text \<open>What the loop holds after the nodes \<open>ns\<close>: nothing, or the roomiest candidate of them.\<close>

definition picked :: "int \<Rightarrow> (string \<Rightarrow> statsResult res) \<Rightarrow> string set \<Rightarrow> pick \<Rightarrow> bool" where
  "picked sz r ns b \<longleftrightarrow> b = pick_init \<and> (\<forall>n \<in> ns. candidate sz (r n) = None) \<or>
     (\<exists>n \<in> ns. \<exists>st. candidate sz (r n) = Some st \<and> b = (n, stAvailBytes st, stVolumeCount st) \<and>
        (\<forall>m \<in> ns. m = n \<or> (\<forall>t. candidate sz (r m) = Some t \<longrightarrow> roomier (n, st) (m, t))))"

lemma picked_step:
  assumes "picked sz r ns b" "0 \<le> sz"
  shows "picked sz r (insert n ns) (pick_one sz r n b)"
proof (cases "candidate sz (r n)")
  case None
  then have "pick_one sz r n b = b"
    by (cases b; cases "r n") (auto simp: pick_one_def candidate_def pick_step_def split: if_splits)
  then show ?thesis using assms(1) None unfolding picked_def by auto
next
  case (Some st)
  then have r: "r n = Ok st" "stHasPool st" "sz \<le> stAvailBytes st"
    by (auto simp: candidate_def split: res.splits if_splits)
  consider (init) "b = pick_init" "\<forall>m \<in> ns. candidate sz (r m) = None"
    | (held) m t where "m \<in> ns" "candidate sz (r m) = Some t" "b = (m, stAvailBytes t, stVolumeCount t)"
        "\<forall>k \<in> ns. k = m \<or> (\<forall>u. candidate sz (r k) = Some u \<longrightarrow> roomier (m, t) (k, u))"
    using assms(1) unfolding picked_def by blast
  then show ?thesis
  proof cases
    case init
    then have "pick_one sz r n b = (n, stAvailBytes st, stVolumeCount st)"
      using r assms(2) by (simp add: pick_one_def pick_step_def pick_init_def)
    then show ?thesis using init(2) Some unfolding picked_def by auto
  next
    case held
    have step: "pick_one sz r n b = (if roomier (n, st) (m, t) then (n, stAvailBytes st, stVolumeCount st) else b)"
      using r held(3) by (auto simp: pick_one_def pick_step_def roomier_def)
    show ?thesis
    proof (cases "roomier (n, st) (m, t)")
      case True
      have "k = n \<or> roomier (n, st) (k, u)" if "k \<in> insert n ns" "candidate sz (r k) = Some u" for k u
        using that held(2,4) True roomier_trans [OF True] by auto
      then show ?thesis using True step Some unfolding picked_def by auto
    next
      case False
      have "n = m \<or> roomier (m, t) (n, st)" using False roomier_total [of n m st t] by auto
      then show ?thesis using False step held Some unfolding picked_def by (intro disjI2 bexI [of _ m]) auto
    qed
  qed
qed

lemma picked_fold: "picked sz r ns b \<Longrightarrow> 0 \<le> sz \<Longrightarrow> picked sz r (ns \<union> set xs) (fold (pick_one sz r) xs b)"
proof (induction xs arbitrary: ns b)
  case (Cons x xs)
  then show ?case using Cons.IH [OF picked_step [OF Cons.prems]] by (simp add: insert_commute)
qed simp

lemma pick_loop:
  assumes "\<forall>p \<in> set ps. statsFor c cx (pnNode p) pool w = (r (pnNode p), w) \<and> (\<forall>q. r (pnNode p) \<noteq> Panic q)"
  shows "foldIO (\<lambda>b p. tryIO (statsFor c cx (pnNode p) pool) (\<lambda>x. case x of
     Inl _ \<Rightarrow> ret b | Inr st \<Rightarrow> ret (pick_step sz (pnNode p) st b))) b ps w
   = (Ok (fold (pick_one sz r) (map pnNode ps) b), w)"
  using assms
proof (induction ps arbitrary: b)
  case (Cons p ps)
  have "tryIO (statsFor c cx (pnNode p) pool) (\<lambda>x. case x of
     Inl _ \<Rightarrow> ret b | Inr st \<Rightarrow> ret (pick_step sz (pnNode p) st b)) w = (Ok (pick_one sz r (pnNode p) b), w)"
    using Cons.prems by (cases "r (pnNode p)") (auto simp: tryIO_def pick_one_def)
  then show ?case using Cons by (simp add: bindIO_def)
qed simp

section \<open>Properties\<close>

text \<open>C26. Automatic placement, when the peers can be listed and each answers (or fails) by \<open>r\<close>: the chosen node
  is a peer that has the pool with enough room after the reserve, and it beats every other such
  peer (more bytes available, then fewer volumes, then the smaller name), whatever the order of the
  peers; if there is none the request fails with Unavailable. Nothing changes.\<close>

theorem placement_roomiest:
  assumes "listPeers c w = (Ok ps, w)" "0 \<le> sz"
    and "\<forall>p \<in> set ps. pnNode p \<noteq> [] \<and> statsFor c cx (pnNode p) pool w = (r (pnNode p), w) \<and> (\<forall>q. r (pnNode p) \<noteq> Panic q)"
  shows "case pickRoomiest c cx pool sz w of
      (Ok n, w') \<Rightarrow> w' = w \<and> n \<in> pnNode ` set ps \<and> (\<exists>st. candidate sz (r n) = Some st \<and>
        (\<forall>m \<in> pnNode ` set ps. m = n \<or> (\<forall>t. candidate sz (r m) = Some t \<longrightarrow> roomier (n, st) (m, t) \<and> \<not> roomier (m, t) (n, st))))
    | (Fail e, w') \<Rightarrow> w' = w \<and> err_code e = Some CodeUnavailable \<and> (\<forall>n \<in> pnNode ` set ps. candidate sz (r n) = None)
    | (Panic q, w') \<Rightarrow> False"
proof -
  have "picked sz r {} pick_init" by (simp add: picked_def)
  from picked_fold [OF this assms(2), of "map pnNode ps"]
  have P: "picked sz r (pnNode ` set ps) (fold (pick_one sz r) (map pnNode ps) pick_init)" by simp
  have L: "foldIO (\<lambda>b p. tryIO (statsFor c cx (pnNode p) pool) (\<lambda>x. case x of
     Inl _ \<Rightarrow> ret b | Inr st \<Rightarrow> ret (pick_step sz (pnNode p) st b))) pick_init ps w
   = (Ok (fold (pick_one sz r) (map pnNode ps) pick_init), w)"
    using assms(3) by (intro pick_loop) auto
  obtain best av ct where b: "fold (pick_one sz r) (map pnNode ps) pick_init = (best, av, ct)" by (metis prod_cases3)
  have run: "pickRoomiest c cx pool sz w = (if best = [] then (Fail (if ps = [] then Unavailable ''no local-driver nodes available for placement''
       else Unavailable ''no local-driver node has pool %q online with %d bytes available''), w) else (Ok best, w))"
    using assms(1) L b by (auto simp: pickRoomiest_def bindIO_def wrapIO_def pick_init_def)
  show ?thesis
  proof (cases "best = []")
    case True
    then have "\<forall>n \<in> pnNode ` set ps. candidate sz (r n) = None" using P b assms(3) unfolding picked_def by auto
    then show ?thesis using run True by auto
  next
    case False
    then have "(best, av, ct) \<noteq> pick_init" by (simp add: pick_init_def)
    then show ?thesis using P b run False roomier_asym unfolding picked_def by (auto, blast+)
  qed
qed

text \<open>Two nodes with a pool each, of 100 and 200 free bytes.\<close>

definition avail_host :: "int \<Rightarrow> unit host" where
  "avail_host k = \<lparr>Run = (\<lambda>c. ret (stdout_only (if Args c ! 0 = ''list'' then if Name c = ''zpool'' then ''ONLINE'' else [] else FormatInt k))),
     RunPipe = (\<lambda>_ _. ret ()), MkdirAll = (\<lambda>_. ret ()), StatPath = (\<lambda>_. ret ()), CreateFile = (\<lambda>_. ret ()), EvalSymlinks = ret,
     ReadDir = (\<lambda>_. ret []), Statfs = (\<lambda>_. ret [])\<rparr>"

definition duo_node :: "string \<Rightarrow> unit controller" where
  "duo_node n = \<lparr>cz = avail_host (if n = ''n1'' then 100 else 200),
     cfg = \<lparr>pools = [\<lparr>poolName = ''tank'', poolParentDataset = [], poolReservePercent = None\<rparr>], defaultPool = ''tank'',
       defaultVolblocksize = ''16K'', reservePercent = 0, forwardAddr = [], forwardSecret = ''s''\<rparr>,
     parentDataset = ''csi'', LocalNode = n\<rparr>"

definition duo :: "string \<Rightarrow> unit localController" where
  "duo = static_cluster ''s'' [''n1'', ''n2''] duo_node (\<lambda>_ _. NewRegistry \<lparr>scEnabled = False, scInterval = 0, scStatfsTimeout = 0,
     scWalkEnabled = False, scWalkInterval = 0, scWalkWorkers = 0, scWalkBuffer = 0, scWalkTimeout = 0, scStaleAfter = 0,
     scMaxFailureBackoff = 0, scAggregateInterval = 0, scMetricsPerVolume = False, scQueryAddr = [], scQueryToken = [],
     scQueryTokenHeader = [], scNamespace = []\<rparr> ''n'')"

theorem placement_roomiest_witness:
  "fst (pickRoomiest (duo ''n1'') background ''tank'' 50 ()) = Ok ''n2''"
proof -
  let ?c = "duo ''n1''" and ?ps = "peer_table [''n1'', ''n2'']"
  let ?r = "\<lambda>n. fst (statsFor (duo ''n1'') background n ''tank'' ())"
  have r: "?r ''n1'' = Ok \<lparr>stNode = ''n1'', stHasPool = True, stVolumeCount = 0, stFreeBytes = 100, stAvailBytes = 100\<rparr>"
      "?r ''n2'' = Ok \<lparr>stNode = ''n2'', stHasPool = True, stVolumeCount = 0, stFreeBytes = 200, stAvailBytes = 200\<rparr>"
    by code_simp+
  have ps: "pnNode ` set ?ps = {''n1'', ''n2''}" by (simp add: peer_table_def)
  have "listPeers ?c () = (Ok ?ps, ())" by (simp add: listPeers_def duo_def static_cluster_def StaticResolver_def)
  moreover have "\<forall>p \<in> set ?ps. pnNode p \<noteq> [] \<and> statsFor ?c background (pnNode p) ''tank'' () = (?r (pnNode p), ()) \<and> (\<forall>q. ?r (pnNode p) \<noteq> Panic q)"
    using r by (auto simp: peer_table_def prod_eq_iff)
  ultimately have T: "case pickRoomiest ?c background ''tank'' 50 () of
      (Ok n, w') \<Rightarrow> w' = () \<and> n \<in> pnNode ` set ?ps \<and> (\<exists>st. candidate 50 (?r n) = Some st \<and>
        (\<forall>m \<in> pnNode ` set ?ps. m = n \<or> (\<forall>t. candidate 50 (?r m) = Some t \<longrightarrow> roomier (n, st) (m, t) \<and> \<not> roomier (m, t) (n, st))))
    | (Fail e, w') \<Rightarrow> w' = () \<and> err_code e = Some CodeUnavailable \<and> (\<forall>n \<in> pnNode ` set ?ps. candidate 50 (?r n) = None)
    | (Panic q, w') \<Rightarrow> False"
    by (intro placement_roomiest) auto
  obtain x where x: "pickRoomiest ?c background ''tank'' 50 () = (x, ())" by (metis old.unit.exhaust prod.exhaust)
  show ?thesis using T unfolding x ps by (cases x) (auto simp: r candidate_def roomier_def)
qed


definition demo_wire :: createArgs where
  "demo_wire = \<lparr>caName = ''v'', caPool = ''tank'', caSizeBytes = 1048576, caVolblocksize = ''16K'', caFsType = ''ext4'', caBlock = False,
     caContentSnapshotID = [], caContentVolumeID = ''local/v1/n1/tank/csi/u''\<rparr>"



text \<open>C12. A forwarded operation is the owner's operation. In a cluster of controllers that know and reach
  each other, deleting, testing, expanding a volume, deleting a snapshot and creating a volume from any
  node has exactly the effect, the result and the error (code and text) of the local operation on
  the node that owns or shall own it; the one difference is that a panic there is reported as a
  transport error here. Ids are UTF-8 of at most 20000 bytes, the strings of a create are short ASCII.\<close>

theorem forwarding_transparent:
  assumes "peers cd secret addr N C" "a \<in> N" "eNode e \<in> N" "sNode s \<in> N" "b \<in> N"
    and "parseExternalID vid = Inr e" "utf8_ok vid" "length vid \<le> 20000"
    and "parseSnapshotID sid = Inr s" "utf8_ok sid" "length sid \<le> 20000"
    and "in64 (requiredBytes cr)" "in64 (limitBytes cr)" "0 < requiredBytes cr"
    and "list_all short [caName ca, caPool ca, caVolblocksize ca, caFsType ca, caContentSnapshotID ca, caContentVolumeID ca]"
    and "in64 (caSizeBytes ca)" "short b" "short (parentDatasetFor (pcLocal (C b)) (caPool ca))"
  shows "ctl_DeleteVolume (C a) background vid = at_owner a (eNode e) (localDelete (pcLocal (C (eNode e))) vid)
    \<and> ctl_VolumeExists (C a) background vid = at_owner a (eNode e) (localExists (pcLocal (C (eNode e))) vid)
    \<and> ctl_ExpandVolume (C a) background vid cr = bindIO (at_owner a (eNode e)
        (localExpand (pcLocal (C (eNode e))) vid (requiredBytes cr) (limitBytes cr))) (\<lambda>n. ret (n, True))
    \<and> ctl_DeleteSnapshot (C a) background sid = at_owner a (sNode s) (localDeleteSnapshot (pcLocal (C (sNode s))) sid)
    \<and> create_on (C a) background b ca = at_owner a b (localCreate (pcLocal (C b)) ca)"
  using assms by (simp add: peers.delete_at_owner [OF assms(1)] peers.exists_at_owner [OF assms(1)] peers.expand_at_owner [OF assms(1)]
      peers.delete_snapshot_at_owner [OF assms(1)] peers.create_at_owner [OF assms(1)])

theorem forwarding_transparent_witness:
  "ctl_DeleteVolume (duo ''n1'') background ''local/v1/n2/tank/csi/v''
     = at_owner ''n1'' ''n2'' (localDelete (pcLocal (duo ''n2'')) ''local/v1/n2/tank/csi/v'')"
proof -
  let ?v = "''local/v1/n2/tank/csi/v''" and ?s = "''locals/v1/n2/tank/csi/v/x''"
  let ?e = "\<lparr>eNode = ''n2'', eDataset = ''tank/csi/v''\<rparr>" and ?t = "\<lparr>sNode = ''n2'', sDataset = ''tank/csi/v'', sSnapName = ''x''\<rparr>"
  let ?cr = "\<lparr>requiredBytes = 1, limitBytes = 0\<rparr>"
  have peers: "peers plain_codec ''s'' forward_addr (set [''n1'', ''n2'']) duo" unfolding duo_def by (rule sc.peers_axioms)
  have h: "parseExternalID ?v = Inr ?e" "utf8_ok ?v" "length ?v \<le> 20000" "parseSnapshotID ?s = Inr ?t" "utf8_ok ?s" "length ?s \<le> 20000"
    "in64 (requiredBytes ?cr)" "in64 (limitBytes ?cr)" "0 < requiredBytes ?cr"
    "list_all short [caName demo_wire, caPool demo_wire, caVolblocksize demo_wire, caFsType demo_wire, caContentSnapshotID demo_wire, caContentVolumeID demo_wire]"
    "in64 (caSizeBytes demo_wire)" "short ''n2''" "short (parentDatasetFor (pcLocal (duo ''n2'')) (caPool demo_wire))"
    by code_simp+
  have n: "''n1'' \<in> set [''n1'', ''n2'']" "eNode ?e \<in> set [''n1'', ''n2'']" "sNode ?t \<in> set [''n1'', ''n2'']" "''n2'' \<in> set [''n1'', ''n2'']"
    by simp_all
  from forwarding_transparent [OF peers n h] show ?thesis by simp
qed




end
