(* ===== verification/Qnap_Ids.thy ===== *)
theory Qnap_Ids
  imports Driver_Types
begin

text \<open>
  \<^verbatim>\<open>internal/driver/qnap/externalid.go\<close> and \<^verbatim>\<open>params.go\<close>, with the part of \<^verbatim>\<open>config.QNAPConfig\<close> they
  and the backend read: volume and snapshot ids with their parsers and printers, the parameters of a
  request, whole-GiB sizes and LUN names. Names that the local backend has too carry the prefix
  \<open>qnap\<close>.
\<close>

section \<open>config.QNAPConfig\<close>

record QNAPConfig =
  qcBaseURL :: string
  qcUsername :: string
  qcPassword :: string
  qcPortal :: string
  qcPortals :: "string list"
  qcDefaultPoolID :: int
  qcInterfaces :: "string list"
  qcDefaultSectorSize :: int
  qcDisableMultipath :: bool
  qcReconcileEnabled :: "bool option"

definition PortalList :: "QNAPConfig \<Rightarrow> string list" where
  "PortalList q = (let raw = (if qcPortals q = [] \<and> qcPortal q \<noteq> [] then [qcPortal q] else qcPortals q)
     in filter (\<lambda>p. p \<noteq> []) (map TrimSpace raw))"

section \<open>externalid.go\<close>

record qnapExternalID =
  qeLUNIndex :: int
  qeTargetIndex :: int
  qeOwnTarget :: bool
  qeLUNName :: string

definition qnapExternalIDPrefix :: string where "qnapExternalIDPrefix = ''qnap/v1''"

definition qnapExternalID_String :: "qnapExternalID \<Rightarrow> string" where
  "qnapExternalID_String e = qnapExternalIDPrefix @ ''/'' @ FormatInt (qeLUNIndex e) @ ''/'' @ FormatInt (qeTargetIndex e)
     @ ''/'' @ (if qeOwnTarget e then ''t'' else ''s'') @ ''/'' @ qeLUNName e"

definition qnapParseExternalID :: "string \<Rightarrow> err + qnapExternalID" where
  "qnapParseExternalID vid =
     (let parts = Split (CHR ''/'') vid in
      if length parts \<noteq> 6 \<or> parts ! 0 \<noteq> ''qnap'' \<or> parts ! 1 \<noteq> ''v1''
      then Inl (InvalidArgument ''malformed qnap volume id %q'')
      else case ParseInt (parts ! 2) of (lun, ok) \<Rightarrow>
        if \<not> ok then Inl (InvalidArgument ''malformed lun index in volume id %q'')
        else case ParseInt (parts ! 3) of (tgt, ok) \<Rightarrow>
          if \<not> ok then Inl (InvalidArgument ''malformed target index in volume id %q'')
          else Inr \<lparr>qeLUNIndex = lun, qeTargetIndex = tgt, qeOwnTarget = (parts ! 4 = ''t''), qeLUNName = parts ! 5\<rparr>)"

record qnapSnapshotID =
  qsLUNIndex :: int
  qsSnapshotID :: int

definition qnapSnapshotIDPrefix :: string where "qnapSnapshotIDPrefix = ''qnaps/v1''"

definition qnapSnapshotID_String :: "qnapSnapshotID \<Rightarrow> string" where
  "qnapSnapshotID_String s = qnapSnapshotIDPrefix @ ''/'' @ FormatInt (qsLUNIndex s) @ ''/'' @ FormatInt (qsSnapshotID s)"

definition qnapParseSnapshotID :: "string \<Rightarrow> err + qnapSnapshotID" where
  "qnapParseSnapshotID i =
     (let parts = Split (CHR ''/'') i in
      if length parts \<noteq> 4 \<or> parts ! 0 \<noteq> ''qnaps'' \<or> parts ! 1 \<noteq> ''v1''
      then Inl (InvalidArgument ''malformed qnap snapshot id %q'')
      else case ParseInt (parts ! 2) of (lun, ok) \<Rightarrow>
        if \<not> ok then Inl (InvalidArgument ''malformed lun index in snapshot id %q'')
        else case ParseInt (parts ! 3) of (snap, ok) \<Rightarrow>
          if \<not> ok then Inl (InvalidArgument ''malformed snapshot id in %q'')
          else Inr \<lparr>qsLUNIndex = lun, qsSnapshotID = snap\<rparr>)"

text \<open>Keys of the volume context.\<close>

definition qctxKeyPortal :: string where "qctxKeyPortal = ''portal''"
definition qctxKeyIQN :: string where "qctxKeyIQN = ''iqn''"
definition qctxKeyLUNNumber :: string where "qctxKeyLUNNumber = ''lun''"
definition qctxKeyFsType :: string where "qctxKeyFsType = ''fsType''"
definition qctxKeyLUNIndex :: string where "qctxKeyLUNIndex = ''lunIndex''"

lemmas qctxKey_defs = qctxKeyPortal_def qctxKeyIQN_def qctxKeyLUNNumber_def qctxKeyFsType_def qctxKeyLUNIndex_def

section \<open>params.go\<close>

definition giB :: int where "giB = 1073741824"

definition absDiff :: "int \<Rightarrow> int \<Rightarrow> int" where
  "absDiff a b = (if a > b then sub64 a b else sub64 b a)"

record qnapVolumeParams =
  qpFsType :: string
  qpBlock :: bool
  qpSectorSize :: int
  qpPoolID :: int
  qpThin :: bool
  qpTargetIndex :: "int option"

text \<open>\<^verbatim>\<open>strconv.ParseBool\<close>.\<close>

definition ParseBool :: "string \<Rightarrow> bool option" where
  "ParseBool s = (if s \<in> set [''1'', ''t'', ''T'', ''TRUE'', ''true'', ''True''] then Some True
     else if s \<in> set [''0'', ''f'', ''F'', ''FALSE'', ''false'', ''False''] then Some False else None)"

text \<open>The access type and the file system.\<close>

definition params_fs :: "smap \<Rightarrow> VolumeCapability list \<Rightarrow> qnapVolumeParams \<Rightarrow> err + qnapVolumeParams" where
  "params_fs p caps vp =
     (if caps \<noteq> [] \<and> accessType (caps ! 0) = AccessTypeBlock then Inr (vp\<lparr>qpBlock := True\<rparr>)
      else let fs = ''ext4'';
               fs = (if caps \<noteq> [] \<and> capFsType (caps ! 0) \<noteq> [] then capFsType (caps ! 0) else fs);
               fs = (if sget p ''fsType'' \<noteq> [] then sget p ''fsType'' else fs)
           in if fs \<noteq> ''ext4'' \<and> fs \<noteq> ''xfs'' then Inl (InvalidArgument ''unsupported fsType %q (want ext4|xfs)'')
              else Inr (vp\<lparr>qpFsType := fs\<rparr>))"

text \<open>A number given as a parameter, or the default.\<close>

definition param_int :: "smap \<Rightarrow> string \<Rightarrow> string \<Rightarrow> int \<Rightarrow> err + int" where
  "param_int p k msg d = (if sget p k = [] then Inr d else case ParseInt (sget p k) of (n, ok) \<Rightarrow>
     if ok then Inr n else Inl (InvalidArgument msg))"

definition qnapResolveParams :: "QNAPConfig \<Rightarrow> smap \<Rightarrow> VolumeCapability list \<Rightarrow> err + qnapVolumeParams" where
  "qnapResolveParams cfg p caps =
     (let vp = \<lparr>qpFsType = [], qpBlock = False, qpSectorSize = 512, qpPoolID = qcDefaultPoolID cfg, qpThin = True, qpTargetIndex = None\<rparr> in
      case params_fs p caps vp of Inl e \<Rightarrow> Inl e | Inr vp \<Rightarrow>
      case param_int p ''sectorSize'' ''invalid sectorSize %q'' (if qcDefaultSectorSize cfg \<noteq> 0 then qcDefaultSectorSize cfg else qpSectorSize vp) of
        Inl e \<Rightarrow> Inl e | Inr sector \<Rightarrow>
      if sector \<noteq> 512 \<and> sector \<noteq> 4096
      then Inl (InvalidArgument ''unsupported sectorSize %d (want 512 or 4096; 4096 is Windows-only)'') else
      case param_int p ''pool'' ''invalid pool %q'' (qpPoolID vp) of Inl e \<Rightarrow> Inl e | Inr pool \<Rightarrow>
      if pool \<le> 0 then Inl (InvalidArgument ''pool is required (set parameters.pool or qnap.default_pool_id)'') else
      case (if sget p ''thin'' = [] then Some True else ParseBool (sget p ''thin'')) of
        None \<Rightarrow> Inl (InvalidArgument ''invalid thin %q (want true|false)'') | Some thin \<Rightarrow>
      if sget p ''targetIndex'' \<noteq> [] then Inl (InvalidArgument ''shared-target (1:N) mapping via parameters.targetIndex is not supported in this release'')
      else Inr (vp\<lparr>qpSectorSize := sector, qpPoolID := pool, qpThin := thin\<rparr>))"

definition sizeGiBExact :: "CapacityRange \<Rightarrow> err + int" where
  "sizeGiBExact cr =
     (let req = requiredBytes cr in
      if req \<le> 0 then Inl (InvalidArgument ''capacity required_bytes must be > 0'')
      else if req mod giB \<noteq> 0 then Inl (InvalidArgument ''qnap provisions in whole GiB; %d bytes is not a multiple of 1 GiB'')
      else if limitBytes cr > 0 \<and> req > limitBytes cr then Inl (OutOfRange ''required_bytes %d exceeds limit_bytes %d'')
      else Inr (req div giB))"

definition lun_rune :: "nat \<Rightarrow> bool" where
  "lun_rune r \<longleftrightarrow> (65 \<le> r \<and> r \<le> 90) \<or> (97 \<le> r \<and> r \<le> 122) \<or> (48 \<le> r \<and> r \<le> 57) \<or> r = 95 \<or> r = 45"

definition sanitizeLUNName :: "string \<Rightarrow> string" where
  "sanitizeLUNName name =
     (let out = map (\<lambda>p. if lun_rune (fst p) then char_of (fst p) else CHR ''-'') (runes name)
      in if 64 < length out then take 64 out else out)"

section \<open>Round trips\<close>

definition qid_wf :: "qnapExternalID \<Rightarrow> bool" where
  "qid_wf e \<longleftrightarrow> in64 (qeLUNIndex e) \<and> in64 (qeTargetIndex e) \<and> CHR ''/'' \<notin> set (qeLUNName e)"

lemma FormatInt_no_slash: "CHR ''/'' \<notin> set (FormatInt n)"
  using FormatInt_chars [of "CHR ''/''" n] by (auto simp: number_char_def is_digit_def)

lemma slash_Split: "CHR ''/'' \<notin> set x \<Longrightarrow> Split (CHR ''/'') (x @ ''/'' @ y) = x # Split (CHR ''/'') y"
  by (simp add: Split_sep)

lemma Split_id_parts:
  assumes "CHR ''/'' \<notin> set n"
  shows "Split (CHR ''/'') (''qnap/v1'' @ ''/'' @ FormatInt a @ ''/'' @ FormatInt b @ ''/'' @ (if t then ''t'' else ''s'') @ ''/'' @ n)
    = [''qnap'', ''v1'', FormatInt a, FormatInt b, if t then ''t'' else ''s'', n]"
proof -
  have "Split (CHR ''/'') (''qnap'' @ ''/'' @ ''v1'' @ ''/'' @ FormatInt a @ ''/'' @ FormatInt b @ ''/'' @ (if t then ''t'' else ''s'') @ ''/'' @ n)
    = [''qnap'', ''v1'', FormatInt a, FormatInt b, if t then ''t'' else ''s'', n]"
    using assms FormatInt_no_slash by (simp add: slash_Split Split_no_sep del: append_Cons)
  then show ?thesis by simp
qed

lemma qnapParseExternalID_String: "qid_wf e \<Longrightarrow> qnapParseExternalID (qnapExternalID_String e) = Inr e"
  by (cases e) (simp add: qid_wf_def qnapParseExternalID_def qnapExternalID_String_def qnapExternalIDPrefix_def Split_id_parts ParseInt_FormatInt
      del: append_Cons split: if_splits)

lemma qnapParseSnapshotID_String: "in64 (qsLUNIndex s) \<Longrightarrow> in64 (qsSnapshotID s) \<Longrightarrow> qnapParseSnapshotID (qnapSnapshotID_String s) = Inr s"
proof -
  assume r: "in64 (qsLUNIndex s)" "in64 (qsSnapshotID s)"
  have "Split (CHR ''/'') (''qnaps'' @ ''/'' @ ''v1'' @ ''/'' @ FormatInt (qsLUNIndex s) @ ''/'' @ FormatInt (qsSnapshotID s))
    = [''qnaps'', ''v1'', FormatInt (qsLUNIndex s), FormatInt (qsSnapshotID s)]"
    using FormatInt_no_slash by (simp add: slash_Split Split_no_sep del: append_Cons)
  then show ?thesis using r by (simp add: qnapParseSnapshotID_def qnapSnapshotID_String_def qnapSnapshotIDPrefix_def ParseInt_FormatInt)
qed

definition lun_char :: "char \<Rightarrow> bool" where
  "lun_char c \<longleftrightarrow> lun_rune (of_char c)"

lemma lun_char_ascii: "lun_char c \<Longrightarrow> ascii c \<and> c \<noteq> CHR ''/''"
  by (auto simp: lun_char_def lun_rune_def ascii_def)

lemma lun_char_of: "lun_rune r \<Longrightarrow> lun_char (char_of r)"
  by (auto simp: lun_char_def lun_rune_def of_char_of)

lemma sanitizeLUNName_chars: "list_all lun_char (sanitizeLUNName n)"
proof -
  have "list_all lun_char (map (\<lambda>p. if lun_rune (fst p) then char_of (fst p) else CHR ''-'') (runes n))"
    by (auto simp: list_all_iff lun_char_of) (simp add: lun_char_def lun_rune_def)
  then show ?thesis by (auto simp: sanitizeLUNName_def Let_def list_all_iff dest: in_set_takeD)
qed

lemma sanitizeLUNName_length: "length (sanitizeLUNName n) \<le> 64"
  by (simp add: sanitizeLUNName_def Let_def)

lemma sanitizeLUNName_no_slash: "CHR ''/'' \<notin> set (sanitizeLUNName n)"
  using sanitizeLUNName_chars [of n] lun_char_ascii by (auto simp: list_all_iff)

lemma sanitizeLUNName_id: "list_all lun_char s \<Longrightarrow> length s \<le> 64 \<Longrightarrow> sanitizeLUNName s = s"
proof -
  assume s: "list_all lun_char s" and l: "length s \<le> 64"
  have "list_all ascii s" using s lun_char_ascii by (auto simp: list_all_iff)
  moreover have "map (\<lambda>c. if lun_rune (of_char c) then char_of (of_char c :: nat) else CHR ''-'') s = s"
    using s by (intro map_idI) (auto simp: list_all_iff lun_char_def)
  ultimately show ?thesis using l by (simp add: sanitizeLUNName_def runes_ascii o_def cong: if_cong)
qed

lemma sanitizeLUNName_idem: "sanitizeLUNName (sanitizeLUNName n) = sanitizeLUNName n"
  by (simp add: sanitizeLUNName_id sanitizeLUNName_chars sanitizeLUNName_length)

lemma sizeGiBExact_Inr: "sizeGiBExact cr = Inr n \<Longrightarrow> in64 (requiredBytes cr) \<Longrightarrow>
  n * giB = requiredBytes cr \<and> 0 < n \<and> (0 < limitBytes cr \<longrightarrow> n * giB \<le> limitBytes cr) \<and> in64 (n * giB) \<and> mul64 n giB = requiredBytes cr"
  by (auto simp: sizeGiBExact_def giB_def mul64_def wrap64_id Let_def split: if_splits)

end
