(* ===== verification/Qnap_Client.thy ===== *)
theory Qnap_Client
  imports Qnap_Ids Go_Clock "HOL-Library.AList"
begin

text \<open>
  \<^verbatim>\<open>internal/driver/qnap/client.go\<close> and \<^verbatim>\<open>cache.go\<close>: the narrow interface to the
  appliance, the session that is renewed once when a call finds it expired, and the controller's index of
  LUNs and targets. The package go-qnap behind the interface is not part
  of the sources: its operations are the fields of the record \<open>Client\<close>, its data the records below.
  A Go map is an association list; the order in which Go visits a map is unspecified, so no
  statement about a list made from one depends on its order.
\<close>

section \<open>Data of go-qnap\<close>

record LUN =
  lnIndex :: int
  lnName :: string
  lnCapacityBytes :: int

record Target =
  tgIndex :: int
  tgIQN :: string
  tgAlias :: string
  tgLUNs :: "int list"

record qSnapshot =
  qnID :: int
  qnSizeBytes :: int
  qnCreatedAt :: string
  qnReady :: bool

record CreateBlockLUNRequest =
  cbName :: string
  cbPoolID :: int
  cbSizeGB :: int
  cbSectorSize :: int
  cbThin :: bool
  cbTargetIndex :: int

text \<open>A LUN from a snapshot (\<^verbatim>\<open>CreateLUNFromSnapshotRequest\<close>) or from a LUN (\<^verbatim>\<open>CloneLUNRequest\<close>): the
  source, the name, the pool and the target.\<close>

record CopyLUNRequest =
  cpSource :: int
  cpName :: string
  cpPoolID :: int
  cpTargetIndex :: int

record CreateTargetRequest =
  ctName :: string
  ctAlias :: string
  ctInterfaces :: "string list"

text \<open>A session is an opaque token; \<open>SessValid\<close> is \<^verbatim>\<open>Session.Valid\<close> and \<open>SessZero\<close> the zero value. The
  waiting calls take their options from the caller in the source; they are constant there.\<close>

record 'w Client =
  SessValid :: "string \<Rightarrow> bool"
  SessZero :: string
  SanLogin :: "string \<Rightarrow> string \<Rightarrow> ('w, string) io"
  CreateBlockLUN :: "string \<Rightarrow> CreateBlockLUNRequest \<Rightarrow> ('w, int) io"
  GetLUN :: "string \<Rightarrow> int \<Rightarrow> ('w, LUN) io"
  ListLUNs :: "string \<Rightarrow> ('w, LUN list) io"
  DeleteLUN :: "string \<Rightarrow> int \<Rightarrow> ('w, unit) io"
  UnmapLUN :: "string \<Rightarrow> int \<Rightarrow> int \<Rightarrow> ('w, unit) io"
  WaitForLUNGone :: "string \<Rightarrow> int \<Rightarrow> ('w, unit) io"
  ResizeLUN :: "string \<Rightarrow> int \<Rightarrow> int \<Rightarrow> ('w, unit) io"
  WaitForResizeComplete :: "string \<Rightarrow> int \<Rightarrow> int \<Rightarrow> ('w, LUN) io"
  CreateTarget :: "string \<Rightarrow> CreateTargetRequest \<Rightarrow> ('w, int) io"
  GetTarget :: "string \<Rightarrow> int \<Rightarrow> ('w, Target) io"
  ListTargets :: "string \<Rightarrow> ('w, Target list) io"
  DeleteTarget :: "string \<Rightarrow> int \<Rightarrow> ('w, unit) io"
  GetPool :: "string \<Rightarrow> int \<Rightarrow> ('w, int) io"
  SanCreateSnapshot :: "string \<Rightarrow> int \<Rightarrow> string \<Rightarrow> ('w, qSnapshot) io"
  SanListSnapshots :: "string \<Rightarrow> int \<Rightarrow> ('w, qSnapshot list) io"
  SanDeleteSnapshot :: "string \<Rightarrow> int \<Rightarrow> ('w, unit) io"
  WaitForSnapshotGone :: "string \<Rightarrow> int \<Rightarrow> int \<Rightarrow> ('w, unit) io"
  CreateLUNFromSnapshot :: "string \<Rightarrow> CopyLUNRequest \<Rightarrow> ('w, int) io"
  CloneLUN :: "string \<Rightarrow> CopyLUNRequest \<Rightarrow> ('w, int) io"

section \<open>State of the driver\<close>

record lunCache =
  byName :: "(string \<times> LUN) list"
  lunToTarget :: "(int \<times> Target) list"
  cacheLoaded :: bool
  lastRefresh :: time

definition newLUNCache :: lunCache where
  "newLUNCache = \<lparr>byName = [], lunToTarget = [], cacheLoaded = False, lastRefresh = 0\<rparr>"

text \<open>What a controller keeps between calls: the session and the index.\<close>

record qstate =
  qSess :: string
  qCache :: lunCache

type_synonym ('w, 'a) qio = "('w \<times> qstate, 'a) io"

definition on_san :: "('w, 'a) io \<Rightarrow> ('w, 'a) qio" where
  "on_san m = (\<lambda>(w, q). case m w of (r, w') \<Rightarrow> (r, (w', q)))"

section \<open>sessionManager\<close>

record 'w sessionManager =
  smClient :: "'w Client"
  smUser :: string
  smPass :: string

definition isAuthError :: "err \<Rightarrow> bool" where
  "isAuthError e \<longleftrightarrow> SessionInvalid \<in> set (err_chain e) \<or>
     (case errors_As is_ApiErr e of Some (ApiErr st _ _) \<Rightarrow> st = 401 \<or> st = 403 | _ \<Rightarrow> False)"

definition sm_get :: "'w sessionManager \<Rightarrow> ('w, string) qio" where
  "sm_get sm = (\<lambda>(w, q).
     if SessValid (smClient sm) (qSess q) then (Ok (qSess q), (w, q))
     else (case SanLogin (smClient sm) (smUser sm) (smPass sm) w of
         (Ok s, w') \<Rightarrow> (Ok s, (w', q\<lparr>qSess := s\<rparr>))
       | (Fail e, w') \<Rightarrow> (Fail e, (w', q))
       | (Panic p, w') \<Rightarrow> (Panic p, (w', q))))"

definition sm_reset :: "'w sessionManager \<Rightarrow> ('w, unit) qio" where
  "sm_reset sm = (\<lambda>(w, q). (Ok (), (w, q\<lparr>qSess := SessZero (smClient sm)\<rparr>)))"

definition sm_do :: "'w sessionManager \<Rightarrow> (string \<Rightarrow> ('w, 'a) qio) \<Rightarrow> ('w, 'a) qio" where
  "sm_do sm fn =
     bindIO (sm_get sm) (\<lambda>sess.
     tryIO (fn sess) (\<lambda>r. case r of
       Inl e \<Rightarrow> if isAuthError e then bindIO (sm_reset sm) (\<lambda>_. bindIO (sm_get sm) fn) else fail e
     | Inr a \<Rightarrow> ret a))"

section \<open>lunCache\<close>

definition cacheTTL :: int where "cacheTTL = 60000000000"

definition index_luns :: "LUN list \<Rightarrow> (string \<times> LUN) list" where
  "index_luns ls = fold (\<lambda>l m. AList.update (lnName l) l m) ls []"

definition index_targets :: "Target list \<Rightarrow> (int \<times> Target) list" where
  "index_targets ts = fold (\<lambda>t m. fold (\<lambda>i m. AList.update i t m) (tgLUNs t) m) ts []"

definition q_now :: "'w clock \<Rightarrow> ('w, time) qio" where
  "q_now ck = (\<lambda>(w, q). case Now ck w of (t, w') \<Rightarrow> (Ok t, (w', q)))"

definition set_cache :: "(lunCache \<Rightarrow> lunCache) \<Rightarrow> ('w, unit) qio" where
  "set_cache f = (\<lambda>(w, q). (Ok (), (w, q\<lparr>qCache := f (qCache q)\<rparr>)))"

definition get_cache :: "('w, lunCache) qio" where
  "get_cache = (\<lambda>(w, q). (Ok (qCache q), (w, q)))"

text \<open>The clock is not read when the index was never loaded.\<close>

definition cache_fresh :: "'w clock \<Rightarrow> ('w, bool) qio" where
  "cache_fresh ck = bindIO get_cache (\<lambda>c.
     if cacheLoaded c then bindIO (q_now ck) (\<lambda>now. ret (now - lastRefresh c < cacheTTL)) else ret False)"

definition ensureFresh :: "'w clock \<Rightarrow> ('w, LUN list \<times> Target list) qio \<Rightarrow> ('w, unit) qio" where
  "ensureFresh ck fetch =
     bindIO (cache_fresh ck) (\<lambda>fresh.
     if fresh then ret ()
     else bindIO fetch (\<lambda>(luns, targets).
       bindIO (q_now ck) (\<lambda>now.
       set_cache (\<lambda>_. \<lparr>byName = index_luns luns, lunToTarget = index_targets targets, cacheLoaded = True, lastRefresh = now\<rparr>))))"

definition lookupByName :: "lunCache \<Rightarrow> string \<Rightarrow> LUN option" where
  "lookupByName c name = map_of (byName c) name"

definition targetForLUN :: "lunCache \<Rightarrow> int \<Rightarrow> Target option" where
  "targetForLUN c i = map_of (lunToTarget c) i"

definition cache_all :: "lunCache \<Rightarrow> LUN list" where
  "cache_all c = map snd (byName c)"

definition addLUN :: "LUN \<Rightarrow> Target \<Rightarrow> lunCache \<Rightarrow> lunCache" where
  "addLUN l t c = c\<lparr>byName := AList.update (lnName l) l (byName c), lunToTarget := AList.update (lnIndex l) t (lunToTarget c)\<rparr>"

definition removeLUN :: "int \<Rightarrow> lunCache \<Rightarrow> lunCache" where
  "removeLUN i c = c\<lparr>
     byName := (case List.find (\<lambda>(_, l). lnIndex l = i) (byName c) of Some (n, _) \<Rightarrow> AList.delete n (byName c) | None \<Rightarrow> byName c),
     lunToTarget := AList.delete i (lunToTarget c)\<rparr>"

section \<open>Error mapping\<close>

definition mapQNAPError :: "string \<Rightarrow> err \<Rightarrow> err" where
  "mapQNAPError op e =
     (if isAuthError e then Unavailable ''%s: qnap session/auth error: %v''
      else case errors_As is_ApiErr e of
        Some (ApiErr _ code _) \<Rightarrow>
          if code = -22 \<or> code = -17 then AlreadyExists ''%s: %v''
          else if code = -34 then FailedPrecondition ''%s: resource busy: %v''
          else Internal ''%s: %v''
      | _ \<Rightarrow> Internal ''%s: %v'')"

end
