(* ===== verification/Iscsi.thy ===== *)
theory Iscsi
  imports Exec_Runner Go_Clock
begin

text \<open>
  \<^verbatim>\<open>internal/iscsi/iscsi.go\<close> and \<^verbatim>\<open>internal/multipath/multipath.go\<close>: the commands the qnap node runs
  to log into targets, list sessions and address multipath maps, with the parsers of their output.
  The lemmas show that the session parser inverts the listing that \<^verbatim>\<open>iscsiadm -m session -P 3\<close>
  prints, whatever other lines it has in between.
\<close>

section \<open>iscsi.go\<close>

definition exitAlreadyExists :: int where "exitAlreadyExists = 15"

definition exitNoObjectsFound :: int where "exitNoObjectsFound = 21"

definition Discover :: "'w host \<Rightarrow> string \<Rightarrow> ('w, unit) io" where
  "Discover h portal =
     bindIO (wrapIO (WrapErr ''iscsi discovery against %s'')
       (Run h (cmd ''iscsiadm'' [''-m'', ''discovery'', ''-t'', ''sendtargets'', ''-p'', portal]))) (\<lambda>_. ret ())"

definition login_cmd :: "string \<Rightarrow> string \<Rightarrow> command" where
  "login_cmd portal iqn = cmd ''iscsiadm'' [''-m'', ''node'', ''-T'', iqn, ''-p'', portal, ''--login'']"

definition Login :: "'w host \<Rightarrow> string \<Rightarrow> string \<Rightarrow> ('w, unit) io" where
  "Login h portal iqn =
     tryIO (Run h (login_cmd portal iqn)) (\<lambda>r. case r of
       Inl e \<Rightarrow> if \<not> IsExit e exitAlreadyExists then fail (WrapErr ''iscsi login to %s via %s'' e) else ret ()
     | Inr _ \<Rightarrow> ret ())"

definition logout_cmd :: "string \<Rightarrow> string \<Rightarrow> command" where
  "logout_cmd portal iqn = cmd ''iscsiadm'' [''-m'', ''node'', ''-T'', iqn, ''-p'', portal, ''--logout'']"

definition Logout :: "'w host \<Rightarrow> string \<Rightarrow> string \<Rightarrow> ('w, unit) io" where
  "Logout h portal iqn =
     tryIO (Run h (logout_cmd portal iqn)) (\<lambda>r. case r of
       Inl e \<Rightarrow> if \<not> IsExit e exitAlreadyExists then fail (WrapErr ''iscsi logout of %s via %s'' e) else ret ()
     | Inr _ \<Rightarrow> ret ())"

definition Rescan :: "'w host \<Rightarrow> string \<Rightarrow> string \<Rightarrow> ('w, unit) io" where
  "Rescan h portal iqn =
     bindIO (wrapIO (WrapErr ''iscsi rescan of %s'')
       (Run h (cmd ''iscsiadm'' [''-m'', ''node'', ''-T'', iqn, ''-p'', portal, ''-R'']))) (\<lambda>_. ret ())"

definition ByPath :: "string \<Rightarrow> string \<Rightarrow> int \<Rightarrow> string" where
  "ByPath portal iqn lun = ''/dev/disk/by-path/ip-'' @ portal @ ''-iscsi-'' @ iqn @ ''-lun-'' @ FormatInt lun"

definition DeviceGlob :: "string \<Rightarrow> int \<Rightarrow> string" where
  "DeviceGlob iqn lun = ''/dev/disk/by-path/*-iscsi-'' @ iqn @ ''-lun-'' @ FormatInt lun"

record Session =
  snIQN :: string
  snPortal :: string
  snLUN :: int
  snDevice :: string

definition firstField :: "string \<Rightarrow> string" where
  "firstField s = (case Fields s of [] \<Rightarrow> [] | f # _ \<Rightarrow> f)"

definition stripTPGT :: "string \<Rightarrow> string" where
  "stripTPGT portal = (let i = IndexByte portal (CHR '','') in if 0 \<le> i then take (nat i) portal else portal)"

text \<open>The field after the first occurrence of a keyword that is not the last field.\<close>

fun field_after :: "string \<Rightarrow> string list \<Rightarrow> string option" where
  "field_after k (f # g # r) = (if f = k then Some g else field_after k (g # r))"
| "field_after k _ = None"

definition lunOf :: "string \<Rightarrow> int option" where
  "lunOf line = (case field_after ''Lun:'' (Fields line) of
     Some f \<Rightarrow> (case ParseInt f of (n, ok) \<Rightarrow> if ok then Some n else None)
   | None \<Rightarrow> None)"

definition attachedDisk :: "string \<Rightarrow> string" where
  "attachedDisk line = (case field_after ''disk'' (Fields line) of Some f \<Rightarrow> f | None \<Rightarrow> [])"

text \<open>The variables of the parser's loop.\<close>

record session_scan =
  scOut :: "Session list"
  scIqn :: string
  scPortal :: string
  scPend :: "Session option"

definition scan_init :: session_scan where
  "scan_init = \<lparr>scOut = [], scIqn = [], scPortal = [], scPend = None\<rparr>"

definition flush :: "session_scan \<Rightarrow> session_scan" where
  "flush s = (case scPend s of Some p \<Rightarrow> s\<lparr>scOut := scOut s @ [p], scPend := None\<rparr> | None \<Rightarrow> s)"

definition scan_line :: "session_scan \<Rightarrow> string \<Rightarrow> session_scan" where
  "scan_line s raw =
     (let line = TrimSpace raw in
      if HasPrefix line ''Target:'' then
        (flush s)\<lparr>scIqn := firstField (TrimPrefix line ''Target:''), scPortal := []\<rparr>
      else if HasPrefix line ''Current Portal:'' then
        (flush s)\<lparr>scPortal := stripTPGT (firstField (TrimPrefix line ''Current Portal:''))\<rparr>
      else if HasPrefix line ''scsi'' \<and> Contains line ''Lun:'' then
        (let s = flush s in case lunOf line of
           Some lun \<Rightarrow> if scIqn s \<noteq> []
             then s\<lparr>scPend := Some \<lparr>snIQN = scIqn s, snPortal = scPortal s, snLUN = lun, snDevice = []\<rparr>\<rparr> else s
         | None \<Rightarrow> s)
      else if HasPrefix line ''Attached scsi disk'' \<and> scPend s \<noteq> None then
        (let dev = attachedDisk line in
         if dev \<noteq> [] then s\<lparr>scPend := Some ((the (scPend s))\<lparr>snDevice := ''/dev/'' @ dev\<rparr>)\<rparr> else s)
      else s)"

definition parseSessions :: "string \<Rightarrow> Session list" where
  "parseSessions text = scOut (flush (foldl scan_line scan_init (Split NL text)))"

definition ListSessions :: "'w host \<Rightarrow> ('w, Session list) io" where
  "ListSessions h =
     tryIO (Run h (cmd ''iscsiadm'' [''-m'', ''session'', ''-P'', ''3''])) (\<lambda>r. case r of
       Inl e \<Rightarrow> if IsExit e exitNoObjectsFound then ret [] else fail (WrapErr ''iscsi session list'' e)
     | Inr out \<Rightarrow> ret (parseSessions (Stdout out)))"

section \<open>multipath.go\<close>

definition DefaultConfigDir :: string where "DefaultConfigDir = ''/etc/multipath/conf.d''"

definition dropinName :: string where "dropinName = ''nomad-csi-qnap.conf''"

text \<open>The manager: a host, and the directory of its drop-in.\<close>

record 'w Manager =
  mpHost :: "'w host"
  mpConfigDir :: string

definition multipath_New :: "'w host \<Rightarrow> string \<Rightarrow> 'w Manager" where
  "multipath_New h dir = \<lparr>mpHost = h, mpConfigDir = (if dir = [] then DefaultConfigDir else dir)\<rparr>"

text \<open>\<^verbatim>\<open>os.WriteFile\<close> is an argument: the path and the content.\<close>

definition WriteDropin :: "(string \<Rightarrow> string \<Rightarrow> ('w, unit) io) \<Rightarrow> 'w Manager \<Rightarrow> string \<Rightarrow> ('w, unit) io" where
  "WriteDropin write m content =
     bindIO (wrapIO (WrapErr ''creating multipath config dir %s'') (MkdirAll (mpHost m) (mpConfigDir m))) (\<lambda>_.
     wrapIO (WrapErr ''writing multipath drop-in %s'') (write (path_Join [mpConfigDir m, dropinName]) content))"

definition Reload :: "'w Manager \<Rightarrow> ('w, unit) io" where
  "Reload m = bindIO (wrapIO (WrapErr ''multipathd reconfigure'')
     (Run (mpHost m) (cmd ''multipathd'' [''reconfigure'']))) (\<lambda>_. ret ())"

definition WWID :: "'w Manager \<Rightarrow> string \<Rightarrow> ('w, string) io" where
  "WWID m device =
     bindIO (wrapIO (WrapErr ''resolving WWID for %s'')
       (Run (mpHost m) (cmd ''/lib/udev/scsi_id'' [''-g'', ''-u'', ''-d'', device]))) (\<lambda>out.
     let wwid = TrimSpace (Stdout out) in
     if wwid = [] then fail (PlainErr ''empty WWID for %s'') else ret wwid)"

definition MapperPath :: "string \<Rightarrow> string" where
  "MapperPath wwid = ''/dev/mapper/'' @ wwid"

definition show_paths :: command where
  "show_paths = cmd ''multipathd'' [''show'', ''paths'', ''format'', ''%d %w'']"

text \<open>A line of the listing: a path device and the map it belongs to.\<close>

definition path_line :: "string \<Rightarrow> (string \<times> string) option" where
  "path_line line = (case Fields line of d # w # _ \<Rightarrow> Some (d, w) | _ \<Rightarrow> None)"

definition show_paths_lines :: "cmd_output \<Rightarrow> (string \<times> string) list" where
  "show_paths_lines out = List.map_filter path_line (Split NL (TrimSpace (Stdout out)))"

definition MapWWID :: "'w Manager \<Rightarrow> string \<Rightarrow> ('w, string) io" where
  "MapWWID m device =
     bindIO (wrapIO (WrapErr ''multipathd show paths'') (Run (mpHost m) show_paths)) (\<lambda>out.
     ret (case List.find (\<lambda>(d, _). d = path_Base device) (show_paths_lines out) of
       Some (_, w) \<Rightarrow> w | None \<Rightarrow> []))"

definition Members :: "'w Manager \<Rightarrow> string \<Rightarrow> ('w, string list) io" where
  "Members m wwid =
     bindIO (wrapIO (WrapErr ''multipathd show paths'') (Run (mpHost m) show_paths)) (\<lambda>out.
     ret (map fst (filter (\<lambda>(_, w). w = wwid) (show_paths_lines out))))"

definition flush_cmd :: "string \<Rightarrow> command" where
  "flush_cmd wwid = cmd ''multipath'' [''-f'', wwid]"

definition Flush :: "'w Manager \<Rightarrow> string \<Rightarrow> ('w, unit) io" where
  "Flush m wwid = bindIO (wrapIO (WrapErr ''flushing multipath map %s'') (Run (mpHost m) (flush_cmd wwid))) (\<lambda>_. ret ())"

section \<open>The session listing\<close>

text \<open>What \<^verbatim>\<open>iscsiadm -m session -P 3\<close> prints: per target its portals, per portal other lines and
  the attached LUNs, each with its disk once the kernel has attached one.\<close>

record lun_entry =
  leLUN :: int
  leDisk :: "string option"

record portal_entry =
  peAddr :: string
  peTPGT :: string
  peOther :: "string list"
  peLUNs :: "lun_entry list"

record target_entry =
  teIQN :: string
  tePortals :: "portal_entry list"

definition lun_line :: "lun_entry \<Rightarrow> string" where
  "lun_line l = [TAB, TAB] @ ''scsi5 Channel 00 Id 0 Lun: '' @ FormatInt (leLUN l)"

definition disk_line :: "string \<Rightarrow> string" where
  "disk_line d = [TAB, TAB, TAB] @ ''Attached scsi disk '' @ d @ [TAB, TAB] @ ''State: running''"

definition lun_lines :: "lun_entry \<Rightarrow> string list" where
  "lun_lines l = lun_line l # (case leDisk l of None \<Rightarrow> [] | Some d \<Rightarrow> [disk_line d])"

definition portal_line :: "portal_entry \<Rightarrow> string" where
  "portal_line p = [TAB] @ ''Current Portal: '' @ peAddr p @ '','' @ peTPGT p"

definition portal_lines :: "portal_entry \<Rightarrow> string list" where
  "portal_lines p = portal_line p # peOther p @ concat (map lun_lines (peLUNs p))"

definition target_line :: "target_entry \<Rightarrow> string" where
  "target_line t = ''Target: '' @ teIQN t @ '' (non-flash)''"

definition target_lines :: "target_entry \<Rightarrow> string list" where
  "target_lines t = target_line t # concat (map portal_lines (tePortals t))"

definition session_listing :: "target_entry list \<Rightarrow> string" where
  "session_listing ts = concat (map (\<lambda>l. l @ [NL]) (concat (map target_lines ts)))"

text \<open>A line the parser passes over.\<close>

definition other_line :: "string \<Rightarrow> bool" where
  "other_line l \<longleftrightarrow> NL \<notin> set l \<and> (let t = TrimSpace l in \<not> HasPrefix t ''Target:'' \<and> \<not> HasPrefix t ''Current Portal:'' \<and>
     \<not> HasPrefix t ''scsi'' \<and> \<not> HasPrefix t ''Attached scsi disk'')"

definition lun_ok :: "lun_entry \<Rightarrow> bool" where
  "lun_ok l \<longleftrightarrow> in64 (leLUN l) \<and> (case leDisk l of None \<Rightarrow> True | Some d \<Rightarrow> word d)"

definition portal_ok :: "portal_entry \<Rightarrow> bool" where
  "portal_ok p \<longleftrightarrow> word (peAddr p) \<and> CHR '','' \<notin> set (peAddr p) \<and> word (peTPGT p) \<and> list_all other_line (peOther p) \<and> list_all lun_ok (peLUNs p)"

definition target_ok :: "target_entry \<Rightarrow> bool" where
  "target_ok t \<longleftrightarrow> word (teIQN t) \<and> list_all portal_ok (tePortals t)"

text \<open>The sessions of a listing: one per target, portal and LUN.\<close>

definition session_of :: "string \<Rightarrow> string \<Rightarrow> lun_entry \<Rightarrow> Session" where
  "session_of iqn addr l = \<lparr>snIQN = iqn, snPortal = addr, snLUN = leLUN l,
     snDevice = (case leDisk l of None \<Rightarrow> [] | Some d \<Rightarrow> ''/dev/'' @ d)\<rparr>"

definition sessions_of :: "target_entry \<Rightarrow> Session list" where
  "sessions_of t = concat (map (\<lambda>p. map (session_of (teIQN t) (peAddr p)) (peLUNs p)) (tePortals t))"

lemma space_literals [simp]: "is_space (CHR '' '')" "ascii (CHR '' '')" "is_space TAB" "ascii TAB" "\<not> is_space (CHR '','')" "ascii (CHR '','')"
  by (simp_all add: is_space_def is_space_rune_def ascii_def TAB_def)

lemma stripTPGT_word: "CHR '','' \<notin> set a \<Longrightarrow> stripTPGT (a @ '','' @ t) = a"
  by (simp add: stripTPGT_def IndexByte_first)

lemma scan_target: assumes "word (teIQN t)"
  shows "scan_line s (target_line t) = (flush s)\<lparr>scIqn := teIQN t, scPortal := []\<rparr>"
proof -
  have a: "list_all ascii (teIQN t)" using assms by (rule word_ascii)
  have "TrimSpace ([] @ target_line t) = target_line t"
    using a by (intro TrimSpace_indent) (auto simp: target_line_def ascii_def is_space_def is_space_rune_def)
  moreover have "Fields ('' '' @ teIQN t @ '' (non-flash)'') = teIQN t # Fields ''(non-flash)''"
    using assms a by (simp add: Fields_space Fields_word_space ascii_def)
  ultimately show ?thesis by (simp add: scan_line_def target_line_def firstField_def HasPrefix_def TrimPrefix_def)
qed

lemma scan_portal: assumes "portal_ok p"
  shows "scan_line s (portal_line p) = (flush s)\<lparr>scPortal := peAddr p\<rparr>"
proof -
  let ?t = "''Current Portal: '' @ peAddr p @ '','' @ peTPGT p"
  have w: "word (peAddr p @ '','' @ peTPGT p)" using assms by (auto simp: portal_ok_def word_def word_char_def)
  have a: "list_all ascii (peAddr p @ '','' @ peTPGT p)" using w by (rule word_ascii)
  have l: "\<not> is_space (last (peTPGT p))" "peTPGT p \<noteq> []" using assms word_last [of "peTPGT p"] by (auto simp: portal_ok_def word_def)
  have "TrimSpace ([TAB] @ ?t) = ?t"
    using a l by (intro TrimSpace_indent) (auto simp: ascii_def is_space_def is_space_rune_def TAB_def)
  moreover have "Fields ('' '' @ peAddr p @ '','' @ peTPGT p) = [peAddr p @ '','' @ peTPGT p]"
    using Fields_word [OF w] a by (simp add: Fields_space)
  ultimately show ?thesis using assms stripTPGT_word [of "peAddr p" "peTPGT p"]
    by (simp add: scan_line_def portal_line_def firstField_def HasPrefix_def TrimPrefix_def portal_ok_def)
qed

lemma Fields_lun: "word x \<Longrightarrow> Fields (''scsi5 Channel 00 Id 0 Lun: '' @ x) = [''scsi5'', ''Channel'', ''00'', ''Id'', ''0'', ''Lun:'', x]"
  using Fields_word [of x] word_ascii [of x] by (simp add: Fields_ascii ascii_def is_space_rune_def)

lemma scan_lun: assumes "lun_ok l" "scIqn s \<noteq> []"
  shows "scan_line s (lun_line l) = (flush s)\<lparr>scPend := Some (session_of (scIqn s) (scPortal s) (l\<lparr>leDisk := None\<rparr>))\<rparr>"
proof -
  let ?n = "FormatInt (leLUN l)" and ?t = "''scsi5 Channel 00 Id 0 Lun: '' @ FormatInt (leLUN l)"
  have a: "list_all ascii ?n" by (rule word_ascii) simp
  have "TrimSpace ([TAB, TAB] @ ?t) = ?t"
    using a word_last [of ?n] by (intro TrimSpace_indent) (auto simp: ascii_def is_space_def is_space_rune_def TAB_def)
  moreover have "Contains ?t ''Lun:''"
    unfolding Contains_iff by (intro exI [of _ "''scsi5 Channel 00 Id 0 ''"] exI [of _ "'' '' @ ?n"]) simp
  moreover have "lunOf ?t = Some (leLUN l)"
    using assms(1) by (simp add: lunOf_def Fields_lun ParseInt_FormatInt lun_ok_def del: append_Cons)
  moreover have "scIqn (flush s) = scIqn s" "scPortal (flush s) = scPortal s" by (simp_all add: flush_def split: option.splits)
  ultimately show ?thesis using assms(2)
    by (simp add: scan_line_def lun_line_def HasPrefix_def session_of_def del: append_Cons)
qed

lemma Fields_disk: "word d \<Longrightarrow> Fields (''Attached scsi disk '' @ d @ [TAB, TAB] @ ''State: running'')
    = [''Attached'', ''scsi'', ''disk'', d, ''State:'', ''running'']"
  using word_ascii [of d] fields_acc_run [of d "[]"]
  by (simp add: Fields_ascii ascii_def is_space_rune_def TAB_def word_def)

lemma scan_disk: assumes "word d" "scPend s = Some p"
  shows "scan_line s (disk_line d) = s\<lparr>scPend := Some (p\<lparr>snDevice := ''/dev/'' @ d\<rparr>)\<rparr>"
proof -
  let ?t = "''Attached scsi disk '' @ d @ [TAB, TAB] @ ''State: running''"
  have "TrimSpace ([TAB, TAB, TAB] @ ?t) = ?t"
    using word_ascii [OF assms(1)] by (intro TrimSpace_indent) (auto simp: ascii_def is_space_def is_space_rune_def TAB_def)
  moreover have "attachedDisk ?t = d" by (simp only: attachedDisk_def Fields_disk [OF assms(1)]) simp
  ultimately show ?thesis using assms
    by (simp add: scan_line_def disk_line_def HasPrefix_def word_def)
qed

lemma scan_other: "other_line l \<Longrightarrow> scan_line s l = s"
  by (simp add: other_line_def scan_line_def Let_def)

text \<open>What the loop has found so far, the pending session included.\<close>

definition scanned :: "session_scan \<Rightarrow> Session list" where
  "scanned s = scOut (flush s)"

lemma scanned_simps [simp]:
  "scanned ((flush s)\<lparr>scIqn := i, scPortal := p\<rparr>) = scanned s" "scanned ((flush s)\<lparr>scPortal := p\<rparr>) = scanned s"
  "scanned ((flush s)\<lparr>scPend := Some x\<rparr>) = scanned s @ [x]"
  "scIqn (flush s) = scIqn s" "scPortal (flush s) = scPortal s"
  by (auto simp: scanned_def flush_def split: option.splits)

lemma scan_lun_lines: assumes "lun_ok l" "scIqn s \<noteq> []"
  shows "\<exists>s'. foldl scan_line s (lun_lines l) = s' \<and> scanned s' = scanned s @ [session_of (scIqn s) (scPortal s) l]
    \<and> scIqn s' = scIqn s \<and> scPortal s' = scPortal s"
proof (cases "leDisk l")
  case None
  then show ?thesis using scan_lun [OF assms] by (simp add: lun_lines_def session_of_def)
next
  case (Some d)
  then have "word d" using assms(1) by (simp add: lun_ok_def)
  then show ?thesis using Some scan_lun [OF assms] by (simp add: lun_lines_def scan_disk session_of_def)
qed

lemma scan_luns: "list_all lun_ok ls \<Longrightarrow> scIqn s \<noteq> [] \<Longrightarrow>
  \<exists>s'. foldl scan_line s (concat (map lun_lines ls)) = s' \<and> scanned s' = scanned s @ map (session_of (scIqn s) (scPortal s)) ls
    \<and> scIqn s' = scIqn s \<and> scPortal s' = scPortal s"
proof (induction ls arbitrary: s)
  case (Cons l ls)
  obtain s' where s': "foldl scan_line s (lun_lines l) = s'" "scanned s' = scanned s @ [session_of (scIqn s) (scPortal s) l]"
      "scIqn s' = scIqn s" "scPortal s' = scPortal s" using scan_lun_lines [of l s] Cons.prems by auto
  show ?case using Cons.IH [of s'] Cons.prems s' by simp
qed simp

lemma scan_others: "list_all other_line ls \<Longrightarrow> foldl scan_line s ls = s"
  by (induction ls) (simp_all add: scan_other)

lemma scan_portals: "list_all portal_ok ps \<Longrightarrow> scIqn s \<noteq> [] \<Longrightarrow>
  \<exists>s'. foldl scan_line s (concat (map portal_lines ps)) = s' \<and> scIqn s' = scIqn s \<and>
    scanned s' = scanned s @ concat (map (\<lambda>p. map (session_of (scIqn s) (peAddr p)) (peLUNs p)) ps)"
proof (induction ps arbitrary: s)
  case (Cons p ps)
  let ?s1 = "(flush s)\<lparr>scPortal := peAddr p\<rparr>"
  have "foldl scan_line s (portal_line p # peOther p) = ?s1"
    using Cons.prems by (simp add: scan_portal scan_others portal_ok_def)
  then have "foldl scan_line s (portal_lines p) = foldl scan_line ?s1 (concat (map lun_lines (peLUNs p)))"
    by (simp add: portal_lines_def)
  moreover obtain s' where s': "foldl scan_line ?s1 (concat (map lun_lines (peLUNs p))) = s'" "scIqn s' = scIqn s"
      "scanned s' = scanned s @ map (session_of (scIqn s) (peAddr p)) (peLUNs p)"
    using scan_luns [of "peLUNs p" ?s1] Cons.prems by (auto simp: portal_ok_def)
  ultimately show ?case using Cons.IH [of s'] Cons.prems by simp
qed simp

lemma scan_targets: "list_all target_ok ts \<Longrightarrow>
  scanned (foldl scan_line s (concat (map target_lines ts))) = scanned s @ concat (map sessions_of ts)"
proof (induction ts arbitrary: s)
  case (Cons t ts)
  let ?s1 = "(flush s)\<lparr>scIqn := teIQN t, scPortal := []\<rparr>"
  have w: "word (teIQN t)" using Cons.prems by (simp add: target_ok_def)
  then have "scan_line s (target_line t) = ?s1" by (rule scan_target)
  then have "foldl scan_line s (target_lines t) = foldl scan_line ?s1 (concat (map portal_lines (tePortals t)))"
    by (simp add: target_lines_def)
  moreover obtain s' where s': "foldl scan_line ?s1 (concat (map portal_lines (tePortals t))) = s'"
      "scanned s' = scanned s @ sessions_of t"
    using scan_portals [of "tePortals t" ?s1] Cons.prems w by (auto simp: target_ok_def word_def sessions_of_def)
  ultimately show ?case using Cons by simp
qed simp

lemma word_NL: "word w \<Longrightarrow> NL \<notin> set w"
  using word_chars NL_space by blast

lemma NL_literals [simp]: "NL \<noteq> TAB" "TAB \<noteq> NL"
  by (simp_all add: NL_def TAB_def)

lemma lun_lines_NL: "lun_ok l \<Longrightarrow> x \<in> set (lun_lines l) \<Longrightarrow> NL \<notin> set x"
  using word_NL [OF word_FormatInt]
  by (auto simp: lun_lines_def lun_line_def disk_line_def lun_ok_def word_NL split: option.splits) (simp_all add: NL_def)

lemma portal_lines_NL: "portal_ok p \<Longrightarrow> x \<in> set (portal_lines p) \<Longrightarrow> NL \<notin> set x"
  by (auto simp: portal_lines_def portal_ok_def list_all_iff other_line_def dest: lun_lines_NL)
     (auto simp: portal_line_def word_NL, simp_all add: NL_def)

lemma target_lines_NL: "target_ok t \<Longrightarrow> x \<in> set (target_lines t) \<Longrightarrow> NL \<notin> set x"
  by (auto simp: target_lines_def target_ok_def list_all_iff dest: portal_lines_NL)
     (auto simp: target_line_def word_NL, simp_all add: NL_def)

lemma listing_line_NL: "list_all target_ok ts \<Longrightarrow> l \<in> set (concat (map target_lines ts)) \<Longrightarrow> NL \<notin> set l"
  by (auto simp: list_all_iff dest: target_lines_NL)

lemma Split_listing: "\<forall>l \<in> set ls. NL \<notin> set l \<Longrightarrow> Split NL (concat (map (\<lambda>l. l @ [NL]) ls)) = ls @ [[]]"
  by (induction ls) (simp_all add: Split_sep Split_no_sep)

lemma scan_blank: "scan_line s [] = s"
  by (simp add: scan_line_def HasPrefix_def TrimSpace_def)

lemma parseSessions_listing: "list_all target_ok ts \<Longrightarrow> parseSessions (session_listing ts) = concat (map sessions_of ts)"
  using scan_targets [of ts scan_init] listing_line_NL [of ts]
  by (simp add: parseSessions_def session_listing_def Split_listing scan_blank scanned_def [symmetric])
     (simp add: scanned_def scan_init_def flush_def)

end
