(* ===== verification/Qnap_Node.thy ===== *)
theory Qnap_Node
  imports Qnap_Client Iscsi Mountutil Stats_Registry
begin

text \<open>
  \<^verbatim>\<open>internal/driver/qnap/node.go\<close>, \<^verbatim>\<open>meta.go\<close> and \<^verbatim>\<open>sancache.go\<close>: the node half of the SAN backend. A call
  works on the pair of a world and what the node keeps: its session with the appliance (the index that a
  controller keeps beside it is not used here), the stage metadata, the identities read from the
  appliance and the usage registry. \<^verbatim>\<open>waitForPath\<close> and \<^verbatim>\<open>holdersFn\<close> are fields of the node, as in the code; so
  is the wait for a multipath map, whose production value \<open>waitForMapWWID\<close> is a polling loop that may not
  return. Sets of strings (\<^verbatim>\<open>map[string]struct{}\<close>) are lists without duplicates. Metrics and log lines have
  no result and are left out.
\<close>

section \<open>Portals\<close>

definition normalizePortal :: "string \<Rightarrow> string" where
  "normalizePortal s = (let p = TrimSpace s in
     if p = [] then [] else if SplitHostPort p = None then JoinHostPort p ''3260'' else p)"

definition portalOwned :: "string \<Rightarrow> string list \<Rightarrow> bool" where
  "portalOwned portal ours \<longleftrightarrow> ours = [] \<or> normalizePortal portal \<in> set ours"

definition splitPortals :: "string \<Rightarrow> string list" where
  "splitPortals s = filter (\<lambda>p. p \<noteq> []) (map TrimSpace (Split (CHR '','') s))"

fun insort_str :: "string \<Rightarrow> string list \<Rightarrow> string list" where
  "insort_str x [] = [x]"
| "insort_str x (y # ys) = (if str_less y x then y # insort_str x ys else x # y # ys)"

definition sortedKeys :: "string list \<Rightarrow> string list" where
  "sortedKeys ks = foldr insort_str ks []"

section \<open>meta.go\<close>

record stageMeta =
  smtPortals :: "string list"
  smtPortal :: string
  smtIQN :: string
  smtLUNNumber :: int
  smtWWID :: string

definition portalList :: "stageMeta \<Rightarrow> string list" where
  "portalList m = (if smtPortals m \<noteq> [] then smtPortals m else if smtPortal m \<noteq> [] then [smtPortal m] else [])"

text \<open>The identity map of sancache.go; \<^term>\<open>None\<close> is the nil map of a cache that was never filled.\<close>

record sanIdentity =
  siTgts :: "(int \<rightharpoonup> Target) option"
  siLuns :: "int \<rightharpoonup> LUN"
  siByIQN :: "string \<rightharpoonup> Target"
  siLoaded :: time

record nst =
  nsQ :: qstate
  nsMeta :: "(string \<times> stageMeta) list"
  nsSan :: sanIdentity
  nsReg :: Registry

type_synonym ('w, 'a) nio = "('w \<times> nst, 'a) io"

definition on_host :: "('w, 'a) io \<Rightarrow> ('w, 'a) nio" where
  "on_host m = (\<lambda>(w, s). case m w of (r, w') \<Rightarrow> (r, (w', s)))"

definition with_session :: "('w, 'a) qio \<Rightarrow> ('w, 'a) nio" where
  "with_session m = (\<lambda>(w, s). case m (w, nsQ s) of (r, (w', q')) \<Rightarrow> (r, (w', s\<lparr>nsQ := q'\<rparr>)))"

definition get_nst :: "('w, nst) nio" where
  "get_nst = (\<lambda>(w, s). (Ok s, (w, s)))"

definition set_nst :: "(nst \<Rightarrow> nst) \<Rightarrow> ('w, unit) nio" where
  "set_nst f = (\<lambda>(w, s). (Ok (), (w, f s)))"

text \<open>\<^verbatim>\<open>memMetaStore\<close>: Save, Load, Delete and iqns.\<close>

definition meta_Save :: "string \<Rightarrow> stageMeta \<Rightarrow> ('w, unit) nio" where
  "meta_Save vid m = set_nst (\<lambda>s. s\<lparr>nsMeta := AList.update vid m (nsMeta s)\<rparr>)"

definition meta_Load :: "string \<Rightarrow> ('w, stageMeta) nio" where
  "meta_Load vid = bindIO get_nst (\<lambda>s. case map_of (nsMeta s) vid of
     None \<Rightarrow> fail (NotExistErr ''file does not exist'') | Some m \<Rightarrow> ret m)"

definition meta_Delete :: "string \<Rightarrow> ('w, unit) nio" where
  "meta_Delete vid = set_nst (\<lambda>s. s\<lparr>nsMeta := AList.delete vid (nsMeta s)\<rparr>)"

definition meta_iqns :: "(string \<times> stageMeta) list \<Rightarrow> string list" where
  "meta_iqns ms = filter (\<lambda>i. i \<noteq> []) (map (smtIQN \<circ> snd) (AList.clearjunk ms))"

section \<open>sancache.go\<close>

definition sanIdentityCacheTTL :: int where "sanIdentityCacheTTL = 30000000000"

definition newSANIdentity :: sanIdentity where
  "newSANIdentity = \<lparr>siTgts = None, siLuns = Map.empty, siByIQN = Map.empty, siLoaded = 0\<rparr>"

definition identity_of :: "Target list \<Rightarrow> LUN list \<Rightarrow> time \<Rightarrow> sanIdentity" where
  "identity_of tgts luns now = \<lparr>siTgts = Some (fold (\<lambda>t m. m(tgIndex t \<mapsto> t)) tgts Map.empty),
     siLuns = fold (\<lambda>l m. m(lnIndex l \<mapsto> l)) luns Map.empty,
     siByIQN = fold (\<lambda>t m. if tgIQN t \<noteq> [] then m(tgIQN t \<mapsto> t) else m) tgts Map.empty, siLoaded = now\<rparr>"

definition n_now :: "'w clock \<Rightarrow> ('w, time) nio" where
  "n_now ck = on_host (\<lambda>w. case Now ck w of (t, w') \<Rightarrow> (Ok t, w'))"

text \<open>The session is asked for directly, not through \<^verbatim>\<open>sessionManager.do\<close>.\<close>

definition hydrate :: "'w clock \<Rightarrow> 'w sessionManager \<Rightarrow> ('w, unit) nio" where
  "hydrate ck sm =
     bindIO (with_session (sm_get sm)) (\<lambda>sess.
     bindIO (on_host (ListTargets (smClient sm) sess)) (\<lambda>tgts.
     bindIO (on_host (ListLUNs (smClient sm) sess)) (\<lambda>luns.
     bindIO (n_now ck) (\<lambda>now.
     set_nst (\<lambda>s. s\<lparr>nsSan := identity_of tgts luns now\<rparr>)))))"

text \<open>Fill the map when it is empty or too old (the clock is read only when it is not empty).\<close>

definition identities :: "'w clock \<Rightarrow> 'w sessionManager \<Rightarrow> ('w, sanIdentity) nio" where
  "identities ck sm =
     bindIO get_nst (\<lambda>s.
     bindIO (if siTgts (nsSan s) = None then ret True
       else bindIO (n_now ck) (\<lambda>now. ret (sanIdentityCacheTTL < now - siLoaded (nsSan s)))) (\<lambda>stale.
     bindIO (if stale then hydrate ck sm else ret ()) (\<lambda>_.
     bindIO get_nst (\<lambda>s. ret (nsSan s)))))"

definition lookup_iqn :: "sanIdentity \<Rightarrow> qnapExternalID \<Rightarrow> string option" where
  "lookup_iqn si eid = (case (siLuns si (qeLUNIndex eid), case siTgts si of None \<Rightarrow> None | Some m \<Rightarrow> m (qeTargetIndex eid)) of
     (Some lun, Some tgt) \<Rightarrow> if lnName lun \<noteq> qeLUNName eid then None else Some (tgIQN tgt)
   | _ \<Rightarrow> None)"

definition resolveIQN :: "'w clock \<Rightarrow> 'w sessionManager \<Rightarrow> qnapExternalID \<Rightarrow> ('w, string option) nio" where
  "resolveIQN ck sm eid = tryIO (identities ck sm) (\<lambda>r. case r of Inl _ \<Rightarrow> ret None | Inr si \<Rightarrow> ret (lookup_iqn si eid))"

definition lookup_external :: "sanIdentity \<Rightarrow> string \<Rightarrow> int \<Rightarrow> string option" where
  "lookup_external si iqn lunNumber = (case siByIQN si iqn of
     None \<Rightarrow> None
   | Some tgt \<Rightarrow>
       (case (if length (tgLUNs tgt) = 1 then Some (tgLUNs tgt ! 0)
              else if 0 \<le> lunNumber \<and> lunNumber < int (length (tgLUNs tgt)) then Some (tgLUNs tgt ! nat lunNumber) else None) of
          None \<Rightarrow> None
        | Some lunIndex \<Rightarrow> (case siLuns si lunIndex of
            None \<Rightarrow> None
          | Some lun \<Rightarrow> Some (qnapExternalID_String \<lparr>qeLUNIndex = lunIndex, qeTargetIndex = tgIndex tgt,
              qeOwnTarget = (tgAlias tgt = lnName lun), qeLUNName = lnName lun\<rparr>))))"

definition resolveExternalID :: "'w clock \<Rightarrow> 'w sessionManager \<Rightarrow> string \<Rightarrow> int \<Rightarrow> ('w, string option) nio" where
  "resolveExternalID ck sm iqn lunNumber = tryIO (identities ck sm) (\<lambda>r. case r of
     Inl _ \<Rightarrow> ret None | Inr si \<Rightarrow> ret (lookup_external si iqn lunNumber))"

section \<open>The node\<close>

record 'w qnode =
  qnCfg :: QNAPConfig
  qnNodeID :: string
  qnHost :: "'w host"
  qnMpath :: "'w Manager"
  qnUseMultipath :: bool
  qnSan :: "'w sessionManager option"
  qnClock :: "'w clock"
  qnWaitForPath :: "string \<Rightarrow> ('w, string) io"
  qnWaitForMap :: "string \<Rightarrow> ('w, string) io"
  qnHolders :: "(string \<Rightarrow> ('w, bool) io) option"

definition ourPortals :: "QNAPConfig \<Rightarrow> string list" where
  "ourPortals cfg = remdups (filter (\<lambda>p. p \<noteq> []) (map normalizePortal (PortalList cfg)))"

text \<open>A loop that stops at the first element that gives a result.\<close>

fun first_some :: "('a \<Rightarrow> ('w, 'b option) io) \<Rightarrow> 'a list \<Rightarrow> ('w, 'b option) io" where
  "first_some f [] = ret None"
| "first_some f (x # xs) = bindIO (f x) (\<lambda>r. case r of Some b \<Rightarrow> ret (Some b) | None \<Rightarrow> first_some f xs)"

definition session_key :: "string \<Rightarrow> int \<Rightarrow> string" where
  "session_key iqn lun = iqn @ ''/'' @ FormatInt lun"

definition qStagedCount :: "'w qnode \<Rightarrow> ('w, int) io" where
  "qStagedCount n = bindIO (ListSessions (qnHost n)) (\<lambda>sessions.
     ret (int (length (remdups (map (\<lambda>s. session_key (snIQN s) (snLUN s))
       (filter (\<lambda>s. portalOwned (snPortal s) (ourPortals (qnCfg n))) sessions))))))"

record stagedSession =
  ssIQN :: string
  ssLUN :: int
  ssStagingPath :: string
  ssAccessType :: string

text \<open>The candidates for the source of a mount of a path device: the device and its multipath map.\<close>

definition device_candidates :: "'w Manager \<Rightarrow> bool \<Rightarrow> string \<Rightarrow> ('w, string list) io" where
  "device_candidates mp useMultipath dev =
     (if useMultipath then tryIO (MapWWID mp dev) (\<lambda>r. case r of
         Inr wwid \<Rightarrow> ret (if wwid \<noteq> [] then [dev, MapperPath wwid] else [dev])
       | Inl _ \<Rightarrow> ret [dev])
      else ret [dev])"

definition mount_of :: "'w host \<Rightarrow> string \<Rightarrow> MountEntry \<Rightarrow> ('w, string option) io" where
  "mount_of h cand m = (if mtSource m = cand then ret (Some (mtTarget m))
     else tryIO (EvalSymlinks h cand) (\<lambda>r. case r of
       Inr real \<Rightarrow> ret (if mtSource m = real then Some (mtTarget m) else None) | Inl _ \<Rightarrow> ret None))"

definition stagingMountFor :: "'w qnode \<Rightarrow> string list \<Rightarrow> MountEntry list \<Rightarrow> ('w, string option) io" where
  "stagingMountFor n memberDevs mounts =
     first_some (\<lambda>dev. if dev = [] then ret None
       else bindIO (device_candidates (qnMpath n) (qnUseMultipath n) dev) (\<lambda>cands.
         first_some (\<lambda>cand. first_some (mount_of (qnHost n) cand) mounts) cands)) memberDevs"

text \<open>The member devices of each pair of target and LUN, in the order of the sessions.\<close>

definition session_devices :: "string list \<Rightarrow> Session list \<Rightarrow> ((string \<times> int) \<times> string list) list" where
  "session_devices ours sessions = fold (\<lambda>s m. if portalOwned (snPortal s) ours
     then (let k = (snIQN s, snLUN s); ds = (case map_of m k of None \<Rightarrow> [] | Some ds \<Rightarrow> ds)
           in AList.update k (if snDevice s \<noteq> [] then ds @ [snDevice s] else ds) m)
     else m) sessions []"

definition stagedSessions :: "'w qnode \<Rightarrow> ('w, stagedSession list) io" where
  "stagedSessions n =
     bindIO (ListSessions (qnHost n)) (\<lambda>sessions.
     bindIO (ListMounts (qnHost n)) (\<lambda>mounts.
     foldIO (\<lambda>out (k, devs). bindIO (stagingMountFor n devs mounts) (\<lambda>p.
       ret (out @ [\<lparr>ssIQN = fst k, ssLUN = snd k, ssStagingPath = (case p of None \<Rightarrow> [] | Some t \<Rightarrow> t),
         ssAccessType = (if p = None then AccessBlock else AccessMount)\<rparr>])))
       [] (session_devices (ourPortals (qnCfg n)) sessions)))"

section \<open>Attaching\<close>

definition try_portal :: "'w host \<Rightarrow> string \<Rightarrow> string \<Rightarrow> ('w, bool) io" where
  "try_portal h iqn p = tryIO (Discover h p) (\<lambda>d. case d of
     Inl _ \<Rightarrow> ret False
   | Inr _ \<Rightarrow> tryIO (Login h p iqn) (\<lambda>l. case l of Inl _ \<Rightarrow> ret False | Inr _ \<Rightarrow> ret True))"

definition loginPortals :: "'w host \<Rightarrow> string list \<Rightarrow> string \<Rightarrow> ('w, string list) io" where
  "loginPortals h portals iqn =
     bindIO (foldIO (\<lambda>active p. bindIO (try_portal h iqn p) (\<lambda>up. ret (if up then active @ [p] else active))) [] portals) (\<lambda>active.
     if active = [] then fail (Unavailable ''iscsi login failed: no portal reachable for %s (tried %d: %v)'') else ret active)"

text \<open>\<^verbatim>\<open>resolveAttachIdentity\<close>: the parts of the context that are missing, one after the other.\<close>

definition lun_number :: "string \<Rightarrow> err + int" where
  "lun_number raw = (case ParseInt raw of (n, ok) \<Rightarrow>
     if ok then Inr n else Inl (InvalidArgument ''volume context has a non-numeric %q (%q): %v''))"

definition rebuild_iqn :: "'w qnode \<Rightarrow> qnapExternalID \<Rightarrow> string \<Rightarrow> ('w, string) nio" where
  "rebuild_iqn n eid iqn = (if iqn \<noteq> [] then ret iqn
     else case qnSan n of
       None \<Rightarrow> fail (FailedPrecondition ''volume %s has no %q in its volume context and no read-only SAN client is configured to recover it'')
     | Some sm \<Rightarrow> bindIO (resolveIQN (qnClock n) sm eid) (\<lambda>r. case r of
         None \<Rightarrow> fail (FailedPrecondition ''volume %s has no %q in its volume context and the SAN could not resolve the target IQN for LUN index %d'')
       | Some i \<Rightarrow> ret i))"

definition rebuild_portals :: "QNAPConfig \<Rightarrow> string list \<Rightarrow> err + string list" where
  "rebuild_portals cfg portals = (if portals \<noteq> [] then Inr portals
     else let ps = filter (\<lambda>p. p \<noteq> []) (map normalizePortal (PortalList cfg))
          in if ps = [] then Inl (FailedPrecondition ''volume %s has no %q in its volume context and this node has no qnap.portals configured'') else Inr ps)"

definition rebuild_lun :: "qnapExternalID \<Rightarrow> string \<Rightarrow> err + int" where
  "rebuild_lun eid lunRaw = (if lunRaw \<noteq> [] then lun_number lunRaw
     else if qeOwnTarget eid then Inr 0
     else Inl (FailedPrecondition ''volume %s has no %q in its volume context and its target is shared (1:N)''))"

definition resolveAttachIdentity :: "'w qnode \<Rightarrow> string \<Rightarrow> smap \<Rightarrow> ('w, string list \<times> string \<times> int) nio" where
  "resolveAttachIdentity n vid vctx =
     (let portals = splitPortals (sget vctx qctxKeyPortal); iqn = sget vctx qctxKeyIQN; lunRaw = TrimSpace (sget vctx qctxKeyLUNNumber)
      in if portals \<noteq> [] \<and> iqn \<noteq> [] \<and> lunRaw \<noteq> [] then bindIO (liftE (lun_number lunRaw)) (\<lambda>lun. ret (portals, iqn, lun))
         else bindIO (wrapIO (\<lambda>_. InvalidArgument ''volume context is missing portal/iqn/lun and volume id %q cannot be parsed to recover them: %v'')
             (liftE (qnapParseExternalID vid))) (\<lambda>eid.
           bindIO (rebuild_iqn n eid iqn) (\<lambda>iqn.
           bindIO (liftE (rebuild_portals (qnCfg n) portals)) (\<lambda>portals.
           bindIO (liftE (rebuild_lun eid lunRaw)) (\<lambda>lun. ret (portals, iqn, lun))))))"

definition logout_all :: "'w host \<Rightarrow> string \<Rightarrow> string list \<Rightarrow> ('w, unit) io" where
  "logout_all h iqn ps = foldIO (\<lambda>_ p. tryIO (Logout h p iqn) (\<lambda>_. ret ())) () ps"

definition flush_map :: "'w qnode \<Rightarrow> string \<Rightarrow> ('w, unit) io" where
  "flush_map n wwid = (if qnUseMultipath n \<and> wwid \<noteq> [] then tryIO (Flush (qnMpath n) wwid) (\<lambda>_. ret ()) else ret ())"

definition cleanupAttach :: "'w qnode \<Rightarrow> string list \<Rightarrow> string \<Rightarrow> string \<Rightarrow> ('w, unit) io" where
  "cleanupAttach n portals iqn wwid = bindIO (flush_map n wwid) (\<lambda>_. logout_all (qnHost n) iqn portals)"

text \<open>The device of a target that is logged in; a failure undoes the logins.\<close>

definition give_up :: "'w qnode \<Rightarrow> string list \<Rightarrow> string \<Rightarrow> string \<Rightarrow> string \<Rightarrow> ('w, 'a) io" where
  "give_up n active iqn wwid msg = bindIO (cleanupAttach n active iqn wwid) (\<lambda>_. fail (Unavailable msg))"

definition attach_map :: "'w qnode \<Rightarrow> string list \<Rightarrow> string \<Rightarrow> int \<Rightarrow> string \<Rightarrow> ('w, string \<times> stageMeta) io" where
  "attach_map n active iqn lun raw =
     (let meta = \<lparr>smtPortals = active, smtPortal = [], smtIQN = iqn, smtLUNNumber = lun, smtWWID = []\<rparr> in
      if qnUseMultipath n then
        tryIO (qnWaitForMap n raw) (\<lambda>m. case m of
          Inl _ \<Rightarrow> give_up n active iqn [] ''multipath device did not appear: %v''
        | Inr wwid \<Rightarrow> tryIO (qnWaitForPath n (MapperPath wwid)) (\<lambda>p. case p of
            Inl _ \<Rightarrow> give_up n active iqn wwid ''multipath device did not appear: %v''
          | Inr mp \<Rightarrow> ret (mp, meta\<lparr>smtWWID := wwid\<rparr>)))
      else ret (raw, meta))"

definition attach_device :: "'w qnode \<Rightarrow> string list \<Rightarrow> string \<Rightarrow> int \<Rightarrow> ('w, string \<times> stageMeta) io" where
  "attach_device n active iqn lun =
     tryIO (qnWaitForPath n (DeviceGlob iqn lun)) (\<lambda>p. case p of
       Inl _ \<Rightarrow> give_up n active iqn [] ''iscsi device did not appear: %v''
     | Inr raw \<Rightarrow> attach_map n active iqn lun raw)"

definition attach_host :: "'w qnode \<Rightarrow> string list \<Rightarrow> string \<Rightarrow> int \<Rightarrow> ('w, string \<times> stageMeta) io" where
  "attach_host n portals iqn lun = bindIO (loginPortals (qnHost n) portals iqn) (\<lambda>active. attach_device n active iqn lun)"

definition attach :: "'w qnode \<Rightarrow> string \<Rightarrow> smap \<Rightarrow> ('w, string \<times> stageMeta) nio" where
  "attach n vid vctx = bindIO (resolveAttachIdentity n vid vctx) (\<lambda>(portals, iqn, lun). on_host (attach_host n portals iqn lun))"

section \<open>Staging\<close>

definition as_internal :: "string \<Rightarrow> err \<Rightarrow> err" where
  "as_internal m = (\<lambda>_. Internal m)"

definition stage_mount :: "'w host \<Rightarrow> StageRequest \<Rightarrow> string \<Rightarrow> ('w, unit) io" where
  "stage_mount h req dev =
     (let fs0 = sget (stVolumeContext req) qctxKeyFsType;
          fsType = (if fs0 = [] then capFsType (stVolumeCapability req) else fs0)
      in bindIO (wrapIO (as_internal ''format: %v'') (FormatIfEmpty h dev fsType [])) (\<lambda>_.
         wrapIO (as_internal ''mount: %v'') (Mount h dev (stStagingTargetPath req) fsType (mountFlags (stVolumeCapability req)))))"

definition qstage_body :: "'w qnode \<Rightarrow> StageRequest \<Rightarrow> ('w, unit) nio" where
  "qstage_body n req =
     bindIO (attach n (stVolumeID req) (stVolumeContext req)) (\<lambda>(dev, meta).
     bindIO (meta_Save (stVolumeID req) meta) (\<lambda>_.
     if accessType (stVolumeCapability req) = AccessTypeBlock then ret () else on_host (stage_mount (qnHost n) req dev)))"

definition qstageAccessType :: "AccessType \<Rightarrow> string" where
  "qstageAccessType at = (if at = AccessTypeBlock then AccessBlock else AccessMount)"

text \<open>The deferred call tracks the volume when the error result is nil, also while a panic unwinds.\<close>

definition qStageVolume :: "'w qnode \<Rightarrow> StageRequest \<Rightarrow> ('w, unit) nio" where
  "qStageVolume n req = (\<lambda>v. case qstage_body n req v of
     (Fail e, v') \<Rightarrow> (Fail e, v')
   | (r, (w', s')) \<Rightarrow> (r, (w', s'\<lparr>nsReg := Track (stVolumeID req) (stStagingTargetPath req)
       (qstageAccessType (accessType (stVolumeCapability req))) (nsReg s')\<rparr>)))"

section \<open>Unstaging\<close>

text \<open>The sessions of this plugin that pass a test: the target and LUN of the last one, its device, and the portals.\<close>

definition matching :: "string list \<Rightarrow> (Session \<Rightarrow> bool) \<Rightarrow> Session list \<Rightarrow> Session list" where
  "matching ours t ss = filter (\<lambda>s. t s \<and> portalOwned (snPortal s) ours) ss"

definition portals_of :: "Session list \<Rightarrow> string list" where
  "portals_of ss = sortedKeys (remdups (map (normalizePortal \<circ> snPortal) ss))"

definition member_names :: "'w qnode \<Rightarrow> string \<Rightarrow> ('w, string \<times> string list) io" where
  "member_names n dev =
     (if HasPrefix dev ''/dev/mapper/''
      then tryIO (Members (qnMpath n) (path_Base dev)) (\<lambda>r. ret (path_Base dev, case r of Inl _ \<Rightarrow> [] | Inr ms \<Rightarrow> map path_Base ms))
      else ret ([], [path_Base dev]))"

definition reconstructFromMount :: "'w qnode \<Rightarrow> string \<Rightarrow> ('w, stageMeta option) io" where
  "reconstructFromMount n stagingPath =
     tryIO (SourceDevice (qnHost n) stagingPath) (\<lambda>d. case d of
       Inl _ \<Rightarrow> ret None
     | Inr dev \<Rightarrow> tryIO (ListSessions (qnHost n)) (\<lambda>l. case l of
         Inl _ \<Rightarrow> ret None
       | Inr sessions \<Rightarrow> bindIO (member_names n dev) (\<lambda>(wwid, members).
           let ss = matching (ourPortals (qnCfg n)) (\<lambda>s. path_Base (snDevice s) \<in> set members) sessions
           in ret (if ss = [] \<or> snIQN (last ss) = [] then None
              else Some \<lparr>smtPortals = portals_of ss, smtPortal = [], smtIQN = snIQN (last ss), smtLUNNumber = snLUN (last ss), smtWWID = wwid\<rparr>))))"

definition san_sessions :: "'w qnode \<Rightarrow> string \<Rightarrow> ('w, stageMeta option) io" where
  "san_sessions n iqn =
     tryIO (ListSessions (qnHost n)) (\<lambda>l. case l of
       Inl _ \<Rightarrow> ret None
     | Inr sessions \<Rightarrow>
         (let ss = matching (ourPortals (qnCfg n)) (\<lambda>s. snIQN s = iqn) sessions in
          if ss = [] \<or> snLUN (last ss) < 0 then ret None
          else bindIO (if qnUseMultipath n \<and> snDevice (last ss) \<noteq> []
              then tryIO (MapWWID (qnMpath n) (snDevice (last ss))) (\<lambda>r. ret (case r of Inl _ \<Rightarrow> [] | Inr x \<Rightarrow> x)) else ret []) (\<lambda>wwid.
            ret (Some \<lparr>smtPortals = portals_of ss, smtPortal = [], smtIQN = iqn, smtLUNNumber = snLUN (last ss), smtWWID = wwid\<rparr>))))"

definition reconstructFromSAN :: "'w qnode \<Rightarrow> string \<Rightarrow> ('w, stageMeta option) nio" where
  "reconstructFromSAN n vid = (case qnSan n of
     None \<Rightarrow> ret None
   | Some sm \<Rightarrow> (case qnapParseExternalID vid of
       Inl _ \<Rightarrow> ret None
     | Inr eid \<Rightarrow> bindIO (resolveIQN (qnClock n) sm eid) (\<lambda>r. case r of
         None \<Rightarrow> ret None | Some iqn \<Rightarrow> on_host (san_sessions n iqn))))"

definition resolveTeardown :: "'w qnode \<Rightarrow> UnstageRequest \<Rightarrow> ('w, stageMeta option) nio" where
  "resolveTeardown n req = tryIO (meta_Load (usVolumeID req)) (\<lambda>r. case r of
     Inr m \<Rightarrow> ret (Some m)
   | Inl _ \<Rightarrow> bindIO (on_host (reconstructFromMount n (usStagingTargetPath req))) (\<lambda>m. case m of
       Some m \<Rightarrow> ret (Some m)
     | None \<Rightarrow> reconstructFromSAN n (usVolumeID req)))"

text \<open>A mount other than the staging mount that uses the staging path or the map as its source.\<close>

definition other_use :: "string \<Rightarrow> string \<Rightarrow> MountEntry \<Rightarrow> bool" where
  "other_use staging mapperDev m \<longleftrightarrow> mtTarget m \<noteq> staging \<and> (mtSource m = staging \<or> mapperDev \<noteq> [] \<and> mtSource m = mapperDev)"

definition deviceInUse :: "'w qnode \<Rightarrow> UnstageRequest \<Rightarrow> stageMeta \<Rightarrow> ('w, bool) io" where
  "deviceInUse n req i =
     bindIO (ListMounts (qnHost n)) (\<lambda>mounts.
     let mapperDev = (if smtWWID i \<noteq> [] then MapperPath (smtWWID i) else []) in
     if list_ex (other_use (usStagingTargetPath req) mapperDev) mounts then ret True
     else case qnHolders n of
       Some holders \<Rightarrow> if mapperDev \<noteq> [] then tryIO (holders mapperDev) (\<lambda>r. ret (r = Inr True)) else ret False
     | None \<Rightarrow> ret False)"

definition deviceHasHolders :: "'w host \<Rightarrow> string \<Rightarrow> ('w, bool) io" where
  "deviceHasHolders h device =
     tryIO (EvalSymlinks h device) (\<lambda>r.
     let name = (case r of Inr real \<Rightarrow> path_Base real | Inl _ \<Rightarrow> path_Base device) in
     tryIO (ReadDir h (path_Join [''/sys/block'', name, ''holders''])) (\<lambda>es. ret (case es of Inl _ \<Rightarrow> False | Inr l \<Rightarrow> l \<noteq> [])))"

definition last_lun :: "string \<Rightarrow> int \<Rightarrow> Session list \<Rightarrow> bool" where
  "last_lun iqn lun sessions = (let luns = remdups (map snLUN (filter (\<lambda>s. snIQN s = iqn) sessions))
     in luns = [] \<or> length luns = 1 \<and> lun \<in> set luns)"

definition lastLUNOnTarget :: "'w host \<Rightarrow> string \<Rightarrow> int \<Rightarrow> ('w, bool) io" where
  "lastLUNOnTarget h iqn lun = tryIO (ListSessions h) (\<lambda>r. ret (case r of Inl _ \<Rightarrow> True | Inr ss \<Rightarrow> last_lun iqn lun ss))"

definition detach :: "'w qnode \<Rightarrow> stageMeta \<Rightarrow> ('w, unit) io" where
  "detach n i =
     bindIO (flush_map n (smtWWID i)) (\<lambda>_.
     if smtIQN i = [] then ret ()
     else bindIO (lastLUNOnTarget (qnHost n) (smtIQN i) (smtLUNNumber i)) (\<lambda>only.
       if only then logout_all (qnHost n) (smtIQN i) (portalList i) else ret ()))"

text \<open>The check for other users: an error of the check counts as none.\<close>

definition in_use_check :: "'w qnode \<Rightarrow> UnstageRequest \<Rightarrow> stageMeta option \<Rightarrow> ('w, bool) io" where
  "in_use_check n req i = (case i of None \<Rightarrow> ret False
     | Some m \<Rightarrow> tryIO (deviceInUse n req m) (\<lambda>r. ret (case r of Inl _ \<Rightarrow> False | Inr b \<Rightarrow> b)))"

definition qUnstageVolume :: "'w qnode \<Rightarrow> UnstageRequest \<Rightarrow> ('w, unit) nio" where
  "qUnstageVolume n req =
     bindIO (resolveTeardown n req) (\<lambda>i.
     bindIO (on_host (in_use_check n req i)) (\<lambda>inUse.
     if inUse then fail (FailedPrecondition ''volume %s still in use on node %q; refusing to detach'')
     else bindIO (on_host (wrapIO (as_internal ''unmount staging: %v'') (Unmount (qnHost n) (usStagingTargetPath req)))) (\<lambda>_.
     bindIO (set_nst (\<lambda>s. s\<lparr>nsReg := Untrack (usVolumeID req) (nsReg s)\<rparr>)) (\<lambda>_.
     case i of
       None \<Rightarrow> ret ()
     | Some m \<Rightarrow> bindIO (on_host (detach n m)) (\<lambda>_. meta_Delete (usVolumeID req))))))"

section \<open>Publishing and the rest\<close>

definition qPublishVolume :: "'w qnode \<Rightarrow> PublishRequest \<Rightarrow> ('w, unit) nio" where
  "qPublishVolume n req =
     (if accessType (puVolumeCapability req) = AccessTypeBlock
      then bindIO (attach n (puVolumeID req) (puVolumeContext req)) (\<lambda>(dev, _).
        on_host (wrapIO (as_internal ''bind mount: %v'') (BindMount (qnHost n) dev (puTargetPath req) False (puReadonly req))))
      else on_host (wrapIO (as_internal ''bind mount: %v'')
        (BindMount (qnHost n) (puStagingTargetPath req) (puTargetPath req) True (puReadonly req))))"

definition qUnpublishVolume :: "'w qnode \<Rightarrow> UnpublishRequest \<Rightarrow> ('w, unit) nio" where
  "qUnpublishVolume n req = on_host (wrapIO (as_internal ''unpublish unmount: %v'') (Unmount (qnHost n) (upTargetPath req)))"

definition rescan_all :: "'w host \<Rightarrow> stageMeta \<Rightarrow> ('w, unit) io" where
  "rescan_all h m = (if smtIQN m = [] then ret ()
     else foldIO (\<lambda>_ p. tryIO (Rescan h p (smtIQN m)) (\<lambda>_. ret ())) () (portalList m))"

definition qnode_ExpandVolume :: "'w qnode \<Rightarrow> NodeExpandRequest \<Rightarrow> ('w, int) nio" where
  "qnode_ExpandVolume n req =
     tryIO (meta_Load (neVolumeID req)) (\<lambda>l.
     bindIO (case l of Inl _ \<Rightarrow> ret () | Inr m \<Rightarrow> on_host (rescan_all (qnHost n) m)) (\<lambda>_.
     if accessType (neVolumeCapability req) = AccessTypeBlock then ret (requiredBytes (neCapacityRange req))
     else on_host (
       bindIO (wrapIO (as_internal ''locating device for expand: %v'') (SourceDevice (qnHost n) (neVolumePath req))) (\<lambda>dev.
       bindIO (wrapIO (as_internal ''resize filesystem: %v'') (Resize (qnHost n) dev (neVolumePath req) (capFsType (neVolumeCapability req)))) (\<lambda>_.
       ret (requiredBytes (neCapacityRange req)))))))"

definition qnode_GetInfo :: "'w qnode \<Rightarrow> ('w, NodeInfo) nio" where
  "qnode_GetInfo n = ret \<lparr>niNodeID = qnNodeID n, niMaxVolumesPerNode = 0, niAccessibleTopology = None\<rparr>"

definition qGetVolumeStats :: "'w qnode \<Rightarrow> string \<Rightarrow> ('w, VolumeStats) nio" where
  "qGetVolumeStats n volumePath = on_host (
     bindIO (wrapIO (as_internal ''statfs %s: %v'') (StatFS (qnHost n) volumePath)) (\<lambda>s.
     ret \<lparr>vsTotalBytes = fsTotalBytes s, vsUsedBytes = fsUsedBytes s, vsAvailableBytes = fsAvailableBytes s,
       vsTotalInodes = fsTotalInodes s, vsUsedInodes = fsUsedInodes s, vsFreeInodes = fsFreeInodes s\<rparr>))"

definition qnap_NodeBackend :: "'w qnode \<Rightarrow> ('w \<times> nst) NodeBackend" where
  "qnap_NodeBackend n = \<lparr>beStageVolume = qStageVolume n, beUnstageVolume = qUnstageVolume n,
     bePublishVolume = qPublishVolume n, beUnpublishVolume = qUnpublishVolume n,
     beNodeExpandVolume = qnode_ExpandVolume n, beGetInfo = qnode_GetInfo n, beGetVolumeStats = (\<lambda>_. qGetVolumeStats n)\<rparr>"

section \<open>Waiting\<close>

definition devAppearTimeout :: int where "devAppearTimeout = 60000000000"

definition map_attempt :: "'w Manager \<Rightarrow> string \<Rightarrow> 'w \<Rightarrow> string res option \<times> 'w" where
  "map_attempt mp raw w = (case MapWWID mp raw w of
     (Ok wwid, w') \<Rightarrow> (if wwid \<noteq> [] then Some (Ok wwid) else None, w') | (r, w') \<Rightarrow> (Some r, w'))"

definition waitForMapWWID :: "'w Manager \<Rightarrow> 'w clock \<Rightarrow> string \<Rightarrow> 'w \<Rightarrow> (string res \<times> 'w) option" where
  "waitForMapWWID mp ck raw w = (case Now ck w of (t, w1) \<Rightarrow>
     poll ck (map_attempt mp raw) (Fail CtxDeadlineExceeded) (250 * Millisecond) (t + devAppearTimeout) w1)"

text \<open>\<^verbatim>\<open>filepath.Glob\<close> is an argument; its error is dropped.\<close>

definition resolvePath :: "'w host \<Rightarrow> (string \<Rightarrow> ('w, string list) io) \<Rightarrow> string \<Rightarrow> ('w, string option) io" where
  "resolvePath h glob path =
     (let eval = (\<lambda>p. tryIO (EvalSymlinks h p) (\<lambda>r. ret (case r of Inr real \<Rightarrow> Some real | Inl _ \<Rightarrow> None))) in
      if CHR ''*'' \<in> set path \<or> CHR ''?'' \<in> set path \<or> CHR ''['' \<in> set path
      then tryIO (glob path) (\<lambda>r. first_some eval (case r of Inr ms \<Rightarrow> ms | Inl _ \<Rightarrow> []))
      else eval path)"

definition resolve_step :: "'w host \<Rightarrow> (string \<Rightarrow> ('w, string list) io) \<Rightarrow> string \<Rightarrow> 'w \<Rightarrow> string res option \<times> 'w" where
  "resolve_step h glob path w = (case resolvePath h glob path w of
     (Ok (Some real), w') \<Rightarrow> (Some (Ok real), w') | (Ok None, w') \<Rightarrow> (None, w') | (Fail e, w') \<Rightarrow> (Some (Fail e), w') | (Panic p, w') \<Rightarrow> (Some (Panic p), w'))"

definition qosWaitForPath :: "'w host \<Rightarrow> (string \<Rightarrow> ('w, string list) io) \<Rightarrow> 'w clock \<Rightarrow> int \<Rightarrow> string \<Rightarrow> 'w \<Rightarrow> (string res \<times> 'w) option" where
  "qosWaitForPath h glob ck timeout path w = (case Now ck w of (t, w1) \<Rightarrow>
     poll ck (resolve_step h glob path) (Fail CtxDeadlineExceeded) (250 * Millisecond) (t + timeout) w1)"

end
