(* ===== verification/Qnap_Reconcile.thy ===== *)
theory Qnap_Reconcile
  imports Qnap_Node
begin

text \<open>
  \<^verbatim>\<open>internal/driver/qnap/reconciler.go\<close> and \<^verbatim>\<open>stats_reconcile.go\<close>: the sweep that logs leaked targets out and
  the sweep that fills the usage registry from the live sessions. A sweep is one call; the ticker that
  repeats it is left out. Go visits a map in an unspecified order; here the targets are visited in the
  order of their first session and the portals in the order of the sessions, and no statement depends on it.
  The lemmas show what a run of sweeps can log out: \<open>observed\<close> is what a sweep sees of a target.
\<close>

section \<open>The session reconciler\<close>

record 'w reconciler =
  rcHost :: "'w host"
  rcMpath :: "'w Manager"
  rcUseMultipath :: bool
  rcOurPortals :: "string list"
  rcGrace :: int
  rcClock :: "'w clock"

definition defaultReconcileInterval :: int where "defaultReconcileInterval = 120000000000"
definition defaultReconcileGrace :: int where "defaultReconcileGrace = 300000000000"

definition newReconciler :: "'w qnode \<Rightarrow> int \<Rightarrow> 'w reconciler" where
  "newReconciler n grace = \<lparr>rcHost = qnHost n, rcMpath = qnMpath n, rcUseMultipath = qnUseMultipath n,
     rcOurPortals = ourPortals (qnCfg n), rcGrace = grace, rcClock = qnClock n\<rparr>"

definition candidate_mounted :: "'w host \<Rightarrow> string list \<Rightarrow> string \<Rightarrow> ('w, unit option) io" where
  "candidate_mounted h mounted cand = (if cand \<in> set mounted then ret (Some ())
     else tryIO (EvalSymlinks h cand) (\<lambda>r. ret (case r of Inr real \<Rightarrow> if real \<in> set mounted then Some () else None | Inl _ \<Rightarrow> None)))"

definition deviceMounted :: "'w reconciler \<Rightarrow> string list \<Rightarrow> string \<Rightarrow> ('w, bool) io" where
  "deviceMounted r mounted device = (if device = [] then ret False
     else bindIO (device_candidates (rcMpath r) (rcUseMultipath r) device) (\<lambda>cands.
       bindIO (first_some (candidate_mounted (rcHost r) mounted) cands) (\<lambda>m. ret (m \<noteq> None))))"

record tstate =
  tsPortals :: "string list"
  tsLive :: bool

type_synonym targets = "(string \<times> tstate) list"
type_synonym orphans = "(string \<times> time) list"

definition see_session :: "string list \<Rightarrow> Session \<Rightarrow> bool \<Rightarrow> targets \<Rightarrow> targets" where
  "see_session cached s mounted targets =
     (let t = (case map_of targets (snIQN s) of None \<Rightarrow> \<lparr>tsPortals = [], tsLive = False\<rparr> | Some t \<Rightarrow> t)
      in AList.update (snIQN s) (t\<lparr>tsPortals := remdups (tsPortals t @ [normalizePortal (snPortal s)]),
           tsLive := (tsLive t \<or> snIQN s \<in> set cached \<or> mounted)\<rparr>) targets)"

definition classify :: "'w reconciler \<Rightarrow> string list \<Rightarrow> string list \<Rightarrow> targets \<Rightarrow> Session \<Rightarrow> ('w, targets) io" where
  "classify r cached mounted targets s =
     (if \<not> portalOwned (snPortal s) (rcOurPortals r) then ret targets
      else bindIO (deviceMounted r mounted (snDevice s)) (\<lambda>m. ret (see_session cached s m targets)))"

text \<open>What happens to one target: its timer afterwards, and whether it is logged out.\<close>

definition judge_orphan :: "int \<Rightarrow> time \<Rightarrow> tstate \<Rightarrow> time option \<Rightarrow> time option \<times> bool" where
  "judge_orphan grace now t first =
     (if tsLive t then (None, False)
      else case first of
        None \<Rightarrow> (Some now, False)
      | Some f \<Rightarrow> if now - f < grace then (Some f, False) else (None, True))"

definition set_timer :: "string \<Rightarrow> time option \<Rightarrow> orphans \<Rightarrow> orphans" where
  "set_timer iqn t os = (case t of None \<Rightarrow> AList.delete iqn os | Some x \<Rightarrow> AList.update iqn x os)"

definition judge :: "'w reconciler \<Rightarrow> time \<Rightarrow> orphans \<Rightarrow> string \<times> tstate \<Rightarrow> ('w, orphans) io" where
  "judge r now os = (\<lambda>(iqn, t). case judge_orphan (rcGrace r) now t (map_of os iqn) of (f, out) \<Rightarrow>
     bindIO (if out then logout_all (rcHost r) iqn (tsPortals t) else ret ()) (\<lambda>_. ret (set_timer iqn f os)))"

definition observe :: "'w reconciler \<Rightarrow> string list \<Rightarrow> ('w, targets) io" where
  "observe r cached =
     bindIO (ListSessions (rcHost r)) (\<lambda>sessions.
     bindIO (ListMounts (rcHost r)) (\<lambda>mounts.
     foldIO (classify r cached (map mtSource mounts)) [] sessions))"

definition now_io :: "'w clock \<Rightarrow> ('w, time) io" where
  "now_io ck = (\<lambda>w. case Now ck w of (t, w') \<Rightarrow> (Ok t, w'))"

text \<open>A listing that fails ends the sweep and leaves the timers.\<close>

definition recon_sweep :: "'w reconciler \<Rightarrow> string list \<Rightarrow> orphans \<Rightarrow> ('w, orphans) io" where
  "recon_sweep r cached os = tryIO (observe r cached) (\<lambda>ob. case ob of
     Inl _ \<Rightarrow> ret os
   | Inr targets \<Rightarrow>
       bindIO (now_io (rcClock r)) (\<lambda>now.
       bindIO (foldIO (judge r now) os targets) (\<lambda>os.
       ret (filter (\<lambda>(iqn, _). iqn \<in> fst ` set targets) os))))"

section \<open>The stats reconciler\<close>

definition qstatsEvictGraceSweeps :: int where "qstatsEvictGraceSweeps = 2"

text \<open>One session: the memo first, then the appliance. \<^verbatim>\<open>nd.san\<close> is not nil in node mode; a nil one panics.\<close>

definition resolve_session :: "'w qnode \<Rightarrow> smap \<Rightarrow> stagedSession \<Rightarrow> ('w, string option) nio" where
  "resolve_session n memo s = (case memo (session_key (ssIQN s) (ssLUN s)) of
     Some i \<Rightarrow> ret (Some i)
   | None \<Rightarrow> (case qnSan n of
       None \<Rightarrow> panic ''invalid memory address or nil pointer dereference''
     | Some sm \<Rightarrow> resolveExternalID (qnClock n) sm (ssIQN s) (ssLUN s)))"

definition want_session :: "'w qnode \<Rightarrow> TrackSpec list \<times> bool \<times> smap \<Rightarrow> stagedSession \<Rightarrow> ('w, TrackSpec list \<times> bool \<times> smap) nio" where
  "want_session n = (\<lambda>(desired, all, memo) s.
     bindIO (resolve_session n memo s) (\<lambda>r. ret (case r of
       None \<Rightarrow> (desired, False, memo)
     | Some i \<Rightarrow> (desired @ [\<lparr>tsVolumeID = i, tsStagingPath = ssStagingPath s, tsAccessType = ssAccessType s\<rparr>], all,
         memo(session_key (ssIQN s) (ssLUN s) \<mapsto> i)))))"

definition reconcile_registry :: "TrackSpec list \<Rightarrow> bool \<Rightarrow> ('w, string list) nio" where
  "reconcile_registry desired all = (\<lambda>(w, s).
     case Reconcile desired all qstatsEvictGraceSweeps (nsReg s) of (reg, evicted) \<Rightarrow> (Ok evicted, (w, s\<lparr>nsReg := reg\<rparr>)))"

definition qstats_sweep :: "'w qnode \<Rightarrow> smap \<Rightarrow> ('w, smap \<times> string list) nio" where
  "qstats_sweep n memo = tryIO (on_host (stagedSessions n)) (\<lambda>r. case r of
     Inl _ \<Rightarrow> ret (memo, [])
   | Inr sessions \<Rightarrow>
       bindIO (foldIO (want_session n) ([], True, memo) sessions) (\<lambda>(desired, all, memo).
       bindIO (reconcile_registry desired all) (\<lambda>evicted. ret (memo, evicted))))"

section \<open>What a sweep sees\<close>

text \<open>The sessions of a target that belong to this plugin.\<close>

definition owned :: "'w reconciler \<Rightarrow> string \<Rightarrow> Session list \<Rightarrow> Session set" where
  "owned r iqn ss = {s \<in> set ss. snIQN s = iqn \<and> portalOwned (snPortal s) (rcOurPortals r)}"

definition seen_ok :: "'w reconciler \<Rightarrow> string list \<Rightarrow> string list \<Rightarrow> Session list \<Rightarrow> targets \<Rightarrow> bool" where
  "seen_ok r cached mounted ss ts \<longleftrightarrow> distinct (map fst ts) \<and> (\<forall>iqn. (map_of ts iqn = None \<longleftrightarrow> owned r iqn ss = {}) \<and>
     (\<forall>t. map_of ts iqn = Some t \<longrightarrow> set (tsPortals t) = (normalizePortal \<circ> snPortal) ` owned r iqn ss \<and>
        (\<not> tsLive t \<longrightarrow> iqn \<notin> set cached \<and> (\<forall>s \<in> owned r iqn ss. \<exists>v. fst (deviceMounted r mounted (snDevice s) v) = Ok False))))"

lemma bindIO_Ok_iff: "bindIO m f w = (Ok a, w') \<longleftrightarrow> (\<exists>b v. m w = (Ok b, v) \<and> f b v = (Ok a, w'))"
  by (auto simp: bindIO_def split: prod.splits res.splits)

lemma bindIO_assoc: "bindIO (bindIO m f) g = bindIO m (\<lambda>a. bindIO (f a) g)"
  by (auto simp: bindIO_def fun_eq_iff split: prod.splits res.splits)

lemma owned_snoc: "owned r iqn (ss @ [s]) = (if snIQN s = iqn \<and> portalOwned (snPortal s) (rcOurPortals r) then insert s (owned r iqn ss) else owned r iqn ss)"
  by (auto simp: owned_def)

lemma see_session_ok:
  assumes "seen_ok r cached mounted ss ts" "portalOwned (snPortal s) (rcOurPortals r)" "fst (deviceMounted r mounted (snDevice s) v) = Ok m"
  shows "seen_ok r cached mounted (ss @ [s]) (see_session cached s m ts)"
proof -
  let ?t = "case map_of ts (snIQN s) of None \<Rightarrow> \<lparr>tsPortals = [], tsLive = False\<rparr> | Some t \<Rightarrow> t"
  let ?u = "?t\<lparr>tsPortals := remdups (tsPortals ?t @ [normalizePortal (snPortal s)]), tsLive := (tsLive ?t \<or> snIQN s \<in> set cached \<or> m)\<rparr>"
  have ts: "see_session cached s m ts = AList.update (snIQN s) ?u ts" by (simp add: see_session_def Let_def)
  have old: "set (tsPortals ?t) = (normalizePortal \<circ> snPortal) ` owned r (snIQN s) ss"
    "\<not> tsLive ?t \<Longrightarrow> x \<in> owned r (snIQN s) ss \<Longrightarrow> \<exists>v. fst (deviceMounted r mounted (snDevice x) v) = Ok False" for x
    using assms(1) by (auto simp: seen_ok_def split: option.splits)
  show ?thesis unfolding seen_ok_def ts
  proof (intro conjI allI)
    show "distinct (map fst (AList.update (snIQN s) ?u ts))" using assms(1) by (simp add: seen_ok_def distinct_update)
    fix iqn
    show "(map_of (AList.update (snIQN s) ?u ts) iqn = None) = (owned r iqn (ss @ [s]) = {})"
      using assms(1,2) by (auto simp: seen_ok_def update_conv' owned_snoc)
    show "map_of (AList.update (snIQN s) ?u ts) iqn = Some t \<longrightarrow> set (tsPortals t) = (normalizePortal \<circ> snPortal) ` owned r iqn (ss @ [s]) \<and>
        (\<not> tsLive t \<longrightarrow> iqn \<notin> set cached \<and> (\<forall>x \<in> owned r iqn (ss @ [s]). \<exists>v. fst (deviceMounted r mounted (snDevice x) v) = Ok False))" for t
    proof (cases "iqn = snIQN s")
      case True
      then show ?thesis using assms(2,3) old by (auto simp: update_conv' owned_snoc)
    next
      case False
      then show ?thesis using assms(1) by (auto simp: update_conv' owned_snoc seen_ok_def)
    qed
  qed
qed

lemma classify_fold:
  assumes "foldIO (classify r cached mounted) ts ss w = (Ok ts', w')" "seen_ok r cached mounted ss0 ts"
  shows "seen_ok r cached mounted (ss0 @ ss) ts'"
  using assms
proof (induction ss arbitrary: ts w ss0)
  case (Cons s ss)
  obtain t1 w1 where t1: "classify r cached mounted ts s w = (Ok t1, w1)" "foldIO (classify r cached mounted) t1 ss w1 = (Ok ts', w')"
    using Cons.prems(1) by (auto simp: bindIO_Ok_iff)
  have "seen_ok r cached mounted (ss0 @ [s]) t1"
  proof (cases "portalOwned (snPortal s) (rcOurPortals r)")
    case True
    then obtain m v where "fst (deviceMounted r mounted (snDevice s) v) = Ok m" "t1 = see_session cached s m ts"
      using t1(1) by (auto simp: classify_def bindIO_Ok_iff ret_def) (metis fst_conv)
    then show ?thesis using see_session_ok [OF Cons.prems(2) True] by blast
  next
    case False
    then show ?thesis using t1(1) Cons.prems(2) by (auto simp: classify_def ret_def seen_ok_def owned_snoc)
  qed
  from Cons.IH [OF t1(2) this] show ?case by simp
qed (simp add: ret_def)

lemma observe_ok:
  assumes "observe r cached w = (Ok ts, w')"
  shows "\<exists>ss ms v1 v2. ListSessions (rcHost r) w = (Ok ss, v1) \<and> ListMounts (rcHost r) v1 = (Ok ms, v2) \<and> seen_ok r cached (map mtSource ms) ss ts"
proof -
  obtain ss v1 ms v2 where o: "ListSessions (rcHost r) w = (Ok ss, v1)" "ListMounts (rcHost r) v1 = (Ok ms, v2)"
      "foldIO (classify r cached (map mtSource ms)) [] ss v2 = (Ok ts, w')"
    using assms by (auto simp: observe_def bindIO_Ok_iff)
  have "seen_ok r cached (map mtSource ms) [] []" by (simp add: seen_ok_def owned_def)
  from classify_fold [OF o(3) this] o show ?thesis by auto
qed

section \<open>What a sweep does\<close>

lemma set_timer_map: "map_of (set_timer i t os) = (map_of os)(i := t)"
  by (auto simp: set_timer_def update_conv' delete_conv' split: option.splits)

lemma judge_fold_timers:
  assumes "foldIO (judge r now) os ts w = (Ok os', w')" "distinct (map fst ts)"
  shows "map_of os' iqn = (case map_of ts iqn of None \<Rightarrow> map_of os iqn | Some t \<Rightarrow> fst (judge_orphan (rcGrace r) now t (map_of os iqn)))"
  using assms
proof (induction ts arbitrary: os w)
  case (Cons p ts)
  obtain i t where p: "p = (i, t)" by fastforce
  obtain o1 w1 where o1: "judge r now os p w = (Ok o1, w1)" "foldIO (judge r now) o1 ts w1 = (Ok os', w')"
    using Cons.prems(1) by (auto simp: bindIO_Ok_iff)
  have "o1 = set_timer i (fst (judge_orphan (rcGrace r) now t (map_of os i))) os"
    using o1(1) p by (auto simp: judge_def bindIO_Ok_iff ret_def split: prod.splits)
  then have m: "map_of o1 = (map_of os)(i := fst (judge_orphan (rcGrace r) now t (map_of os i)))" by (simp add: set_timer_map)
  have "map_of ts i = None" using Cons.prems(2) p by (simp add: map_of_eq_None_iff)
  then show ?case using Cons.IH [OF o1(2)] Cons.prems(2) p m by (auto split: option.splits)
qed (simp add: ret_def)

text \<open>The commands: logouts of targets and portals in a set.\<close>

definition logouts :: "(string \<times> string) set \<Rightarrow> event \<Rightarrow> bool" where
  "logouts A e \<longleftrightarrow> (\<exists>p iqn x. e = Ran (logout_cmd p iqn) x \<and> (iqn, p) \<in> A)"

lemma logout_cmd_eq [simp]: "logout_cmd p i = logout_cmd q j \<longleftrightarrow> p = q \<and> i = j"
  by (auto simp: logout_cmd_def cmd_def)

lemma logout_all_emits: "{iqn} \<times> set ps \<subseteq> A \<Longrightarrow> emits (logouts A) (logout_all (traced h) iqn ps)"
  unfolding logout_all_def Logout_def by (auto intro!: emits_intros simp: logouts_def split: sum.split)

lemma judge_fold_emits:
  assumes "rcHost r = traced h" "distinct (map fst ts)"
    and "\<And>iqn t. (iqn, t) \<in> set ts \<Longrightarrow> snd (judge_orphan (rcGrace r) now t (map_of os iqn)) \<Longrightarrow> {iqn} \<times> set (tsPortals t) \<subseteq> A"
  shows "emits (logouts A) (foldIO (judge r now) os ts)"
  using assms(2,3)
proof (induction ts arbitrary: os)
  case (Cons p ts)
  obtain i t where p: "p = (i, t)" by fastforce
  let ?j = "judge_orphan (rcGrace r) now t (map_of os i)"
  let ?o = "set_timer i (fst ?j) os"
  have "emits (logouts A) (foldIO (judge r now) ?o ts)"
  proof (rule Cons.IH)
    show "distinct (map fst ts)" using Cons.prems(1) by simp
    fix iqn u assume u: "(iqn, u) \<in> set ts" "snd (judge_orphan (rcGrace r) now u (map_of ?o iqn))"
    then have "iqn \<noteq> i" using Cons.prems(1) p by force
    then show "{iqn} \<times> set (tsPortals u) \<subseteq> A" using Cons.prems(2) [of iqn u] u by (simp add: set_timer_map)
  qed
  moreover have "emits (logouts A) (logout_all (traced h) i (tsPortals t))" if "snd ?j"
    using Cons.prems(2) [of i t] p that by (intro logout_all_emits) auto
  ultimately have "emits (logouts A) (bindIO (bindIO (if snd ?j then logout_all (traced h) i (tsPortals t) else ret ()) (\<lambda>_. ret ?o)) (\<lambda>s. foldIO (judge r now) s ts))"
    by (auto simp: bindIO_assoc intro!: emits_intros)
  moreover have "judge r now os p = bindIO (if snd ?j then logout_all (traced h) i (tsPortals t) else ret ()) (\<lambda>_. ret ?o)"
    unfolding judge_def p assms(1) by (simp only: prod.case split_def fst_conv snd_conv)
  ultimately show ?case by (simp only: foldIO.simps)
qed (simp only: foldIO.simps emits_ret)

lemma emits_first_some [emits_intros]: "(\<And>x. x \<in> set xs \<Longrightarrow> emits P (f x)) \<Longrightarrow> emits P (first_some f xs)"
proof (induction xs)
  case (Cons x xs)
  then show ?case unfolding first_some.simps by (intro emits_bindIO) (auto split: option.split intro!: emits_ret)
qed (simp only: first_some.simps emits_ret)

lemma no_logout_reads:
  assumes "rcHost r = traced h" "mpHost (rcMpath r) = traced h"
  shows "emits (\<lambda>e. \<forall>p iqn x. e \<noteq> Ran (logout_cmd p iqn) x) (observe r cached)"
proof -
  have c: "emits (\<lambda>e. \<forall>p iqn x. e \<noteq> Ran (logout_cmd p iqn) x) (device_candidates (rcMpath r) b d)" for b d
    unfolding device_candidates_def MapWWID_def assms(2) by (auto intro!: emits_intros simp: show_paths_def logout_cmd_def cmd_def split: sum.split)
  have f: "emits (\<lambda>e. \<forall>p iqn x. e \<noteq> Ran (logout_cmd p iqn) x) (first_some (candidate_mounted (rcHost r) m) cs)" for m cs
    by (rule emits_first_some) (auto simp: candidate_mounted_def assms(1) intro!: emits_intros)
  show ?thesis unfolding observe_def classify_def deviceMounted_def ListSessions_def ListMounts_def
    by (intro emits_intros c f) (auto simp: assms(1) logout_cmd_def cmd_def intro!: emits_intros c f)
qed

section \<open>Runs of sweeps\<close>

text \<open>A run: any number of sweeps, the world changing in any way between them, with what each successful one
  observed and when.\<close>

inductive recon_run :: "'w reconciler \<Rightarrow> (time \<times> targets) list \<Rightarrow> orphans \<Rightarrow> bool" for r where
  start: "recon_run r [] []"
| swept: "recon_run r h os \<Longrightarrow> observe r cached w = (Ok ts, w1) \<Longrightarrow> Now (rcClock r) w1 = (now, w2) \<Longrightarrow>
    recon_sweep r cached os w = (Ok os', w3) \<Longrightarrow> recon_run r (h @ [(now, ts)]) os'"
| skipped: "recon_run r h os \<Longrightarrow> observe r cached w = (Fail e, w1) \<Longrightarrow> recon_sweep r cached os w = (Ok os', w3) \<Longrightarrow> recon_run r h os'"

definition orphan :: "string \<Rightarrow> targets \<Rightarrow> bool" where
  "orphan iqn ts \<longleftrightarrow> (\<exists>t. map_of ts iqn = Some t \<and> \<not> tsLive t)"

text \<open>The target has been an orphan in every observation since one at the time \<open>f\<close>.\<close>

definition orphan_since :: "string \<Rightarrow> time \<Rightarrow> (time \<times> targets) list \<Rightarrow> bool" where
  "orphan_since iqn f h \<longleftrightarrow> (\<exists>a ts b. h = a @ (f, ts) # b \<and> (\<forall>x \<in> set ((f, ts) # b). orphan iqn (snd x)))"

lemma orphan_since_snoc: "orphan_since iqn f h \<Longrightarrow> orphan iqn ts \<Longrightarrow> orphan_since iqn f (h @ [(now, ts)])"
proof -
  assume "orphan_since iqn f h" and o: "orphan iqn ts"
  then obtain a us b where "h = a @ (f, us) # b" "\<forall>x \<in> set ((f, us) # b). orphan iqn (snd x)" unfolding orphan_since_def by blast
  then show ?thesis using o unfolding orphan_since_def by (intro exI [of _ a] exI [of _ us] exI [of _ "b @ [(now, ts)]"]) auto
qed

lemma orphan_since_first: "orphan iqn ts \<Longrightarrow> orphan_since iqn now (h @ [(now, ts)])"
  unfolding orphan_since_def by (intro exI [of _ h] exI [of _ ts] exI [of _ "[]"]) auto

lemma sweep_timers:
  assumes "recon_sweep r cached os w = (Ok os', w3)" "observe r cached w = (Ok ts, w1)" "Now (rcClock r) w1 = (now, w2)"
  shows "map_of os' iqn = (case map_of ts iqn of None \<Rightarrow> None | Some t \<Rightarrow> fst (judge_orphan (rcGrace r) now t (map_of os iqn)))"
proof -
  obtain o1 where o1: "foldIO (judge r now) os ts w2 = (Ok o1, w3)" "os' = filter (\<lambda>(iqn, _). iqn \<in> fst ` set ts) o1"
    using assms by (auto simp: recon_sweep_def tryIO_def bindIO_Ok_iff now_io_def ret_def)
  have d: "distinct (map fst ts)" using observe_ok [OF assms(2)] by (auto simp: seen_ok_def)
  have "map_of (filter (\<lambda>(k, _). k \<in> K) xs) i = (if i \<in> K then map_of xs i else None)" for K :: "string set" and xs :: orphans and i
    by (induction xs) auto
  then show ?thesis using judge_fold_timers [OF o1(1) d, of iqn] o1(2)
    by (auto simp: map_of_eq_None_iff split: option.splits dest: map_of_SomeD intro: rev_image_eqI)
qed

lemma sweep_skipped: "recon_sweep r cached os w = (Ok os', w3) \<Longrightarrow> observe r cached w = (Fail e, w1) \<Longrightarrow> os' = os"
  by (simp add: recon_sweep_def tryIO_def ret_def)

text \<open>The invariant of the timers.\<close>

lemma timer_since: "recon_run r h os \<Longrightarrow> map_of os iqn = Some f \<Longrightarrow> orphan_since iqn f h"
proof (induction arbitrary: f rule: recon_run.induct)
  case (swept h os cached w ts w1 now w2 os' w3)
  obtain t where t: "map_of ts iqn = Some t" "fst (judge_orphan (rcGrace r) now t (map_of os iqn)) = Some f"
    using swept.prems sweep_timers [OF swept.hyps(4,2,3), of iqn] by (auto split: option.splits)
  then have o: "orphan iqn ts" by (auto simp: orphan_def judge_orphan_def split: if_splits)
  show ?case
  proof (cases "map_of os iqn")
    case None
    then show ?thesis using t o by (auto simp: judge_orphan_def orphan_since_first split: if_splits)
  next
    case (Some g)
    then show ?thesis using t swept.IH [OF Some] o by (auto simp: judge_orphan_def split: if_splits intro: orphan_since_snoc)
  qed
next
  case (skipped h os cached w e w1 os' w3)
  then show ?case using sweep_skipped [OF skipped.hyps(3,2)] by simp
qed simp

section \<open>The logouts of a sweep\<close>

definition leaked :: "'w reconciler \<Rightarrow> time \<Rightarrow> targets \<Rightarrow> orphans \<Rightarrow> (string \<times> string) set" where
  "leaked r now ts os = {(iqn, p). \<exists>t. map_of ts iqn = Some t \<and> p \<in> set (tsPortals t) \<and> snd (judge_orphan (rcGrace r) now t (map_of os iqn))}"

definition outs :: "event list \<Rightarrow> (string \<times> string) set" where
  "outs l = {(iqn, p). \<exists>x. Ran (logout_cmd p iqn) x \<in> set l}"

lemma outs_append [simp]: "outs (a @ b) = outs a \<union> outs b" "outs [] = {}"
  by (auto simp: outs_def)

lemma outs_Cons [simp]: "outs (Ran (logout_cmd p i) x # l) = insert (i, p) (outs l)"
  by (auto simp: outs_def)

lemma outs_logouts: "list_all (logouts A) l \<Longrightarrow> outs l \<subseteq> A"
  by (auto simp: outs_def list_all_iff logouts_def)

lemma outs_none: "list_all (\<lambda>e. \<forall>p iqn x. e \<noteq> Ran (logout_cmd p iqn) x) l \<Longrightarrow> outs l = {}"
  by (auto simp: outs_def list_all_iff)

lemma leaked_since: "recon_run r h os \<Longrightarrow> (iqn, p) \<in> leaked r now ts os \<Longrightarrow>
  \<exists>t f. map_of ts iqn = Some t \<and> \<not> tsLive t \<and> p \<in> set (tsPortals t) \<and> rcGrace r \<le> now - f \<and> orphan_since iqn f h"
proof -
  assume r: "recon_run r h os" and "(iqn, p) \<in> leaked r now ts os"
  then obtain t where t: "map_of ts iqn = Some t" "p \<in> set (tsPortals t)" "snd (judge_orphan (rcGrace r) now t (map_of os iqn))"
    by (auto simp: leaked_def)
  then obtain f where f: "map_of os iqn = Some f" "\<not> tsLive t" "rcGrace r \<le> now - f"
    by (cases "map_of os iqn") (auto simp: judge_orphan_def split: if_splits)
  from timer_since [OF r f(1)] f t show ?thesis by blast
qed

text \<open>A logout is issued for every portal, whatever it answers.\<close>

lemma Logout_once: "Logout (traced h) p iqn (l, w) = (r, (l2, w2)) \<Longrightarrow> \<exists>x. l2 = l @ [Ran (logout_cmd p iqn) x]"
  by (auto simp: Logout_def tryIO_def traced_def logging_def Let_def ret_def fail_def split: prod.splits res.splits if_splits)

lemma logout_all_exact: "logout_all (traced h) iqn ps (l, w) = (Ok u, (l2, w2)) \<Longrightarrow> \<exists>ev. l2 = l @ ev \<and> outs ev = {iqn} \<times> set ps"
proof (induction ps arbitrary: l w)
  case (Cons p ps)
  have "bindIO (tryIO (Logout (traced h) p iqn) (\<lambda>_. ret ())) (\<lambda>_. logout_all (traced h) iqn ps) (l, w) = (Ok u, (l2, w2))"
    using Cons.prems by (simp add: logout_all_def)
  then obtain z v where z: "tryIO (Logout (traced h) p iqn) (\<lambda>_. ret ()) (l, w) = (Ok z, v)" "logout_all (traced h) iqn ps v = (Ok u, (l2, w2))"
    unfolding bindIO_Ok_iff by blast
  obtain r1 l1 w1 where a0: "Logout (traced h) p iqn (l, w) = (r1, (l1, w1))" by (metis prod_cases3)
  then have "v = (l1, w1)" using z(1) by (cases r1) (auto simp: tryIO_def ret_def)
  with a0 z(2) have a: "Logout (traced h) p iqn (l, w) = (r1, (l1, w1))" "logout_all (traced h) iqn ps (l1, w1) = (Ok u, (l2, w2))" by simp_all
  obtain x where x: "l1 = l @ [Ran (logout_cmd p iqn) x]" using Logout_once [OF a(1)] by blast
  obtain ev where "l2 = l1 @ ev" "outs ev = {iqn} \<times> set ps" using Cons.IH [OF a(2)] by blast
  then show ?case using x by (intro exI [of _ "Ran (logout_cmd p iqn) x # ev"]) auto
qed (auto simp: logout_all_def ret_def)

lemma judge_fold_exact:
  assumes "rcHost r = traced h" "distinct (map fst ts)" "foldIO (judge r now) os ts (l, w) = (Ok os', (l2, w2))"
  shows "\<exists>ev. l2 = l @ ev \<and> outs ev = leaked r now ts os"
  using assms(2,3)
proof (induction ts arbitrary: os l w)
  case (Cons q ts)
  obtain i t where q: "q = (i, t)" by fastforce
  let ?j = "judge_orphan (rcGrace r) now t (map_of os i)"
  obtain o1 l1 w1 where a: "judge r now os q (l, w) = (Ok o1, (l1, w1))" "foldIO (judge r now) o1 ts (l1, w1) = (Ok os', (l2, w2))"
    using Cons.prems(2) by (auto simp: bindIO_Ok_iff)
  have o1: "o1 = set_timer i (fst ?j) os" using a(1) q by (auto simp: judge_def bindIO_Ok_iff ret_def split: prod.splits)
  obtain e1 where e1: "l1 = l @ e1" "outs e1 = (if snd ?j then {i} \<times> set (tsPortals t) else {})"
    using a(1) q assms(1) logout_all_exact [of h i "tsPortals t" l w] by (cases "snd ?j") (fastforce simp: judge_def bindIO_Ok_iff ret_def split: prod.splits)+
  obtain e2 where e2: "l2 = l1 @ e2" "outs e2 = leaked r now ts o1" using Cons.IH [OF _ a(2)] Cons.prems(1) by auto
  have n: "map_of ts i = None" using Cons.prems(1) q by (simp add: map_of_eq_None_iff)
  have "leaked r now (q # ts) os = outs e1 \<union> leaked r now ts o1"
    using n q by (auto simp: leaked_def e1(2) o1 set_timer_map split: if_splits)
  then show ?case using e1 e2 by (intro exI [of _ "e1 @ e2"]) simp
qed (auto simp: ret_def leaked_def)

lemma sweep_logouts:
  assumes "rcHost r = traced h" "mpHost (rcMpath r) = traced h" "\<And>l w. fst (snd (Now (rcClock r) (l, w))) = l"
    and "recon_sweep r cached os (l, w) = (res, (l2, w2))"
  shows "\<exists>ev. l2 = l @ ev \<and> (case observe r cached (l, w) of
      (Ok ts, v) \<Rightarrow> outs ev \<subseteq> leaked r (fst (Now (rcClock r) v)) ts os \<and> (\<forall>os'. res = Ok os' \<longrightarrow> outs ev = leaked r (fst (Now (rcClock r) v)) ts os)
    | _ \<Rightarrow> outs ev = {})"
proof -
  obtain x l1 w1 where o: "observe r cached (l, w) = (x, (l1, w1))" by (metis prod_cases3)
  obtain e1 where e1: "l1 = l @ e1" "outs e1 = {}" using emitsD [OF no_logout_reads [OF assms(1,2)] o] outs_none by blast
  show ?thesis
  proof (cases x)
    case (Ok ts)
    obtain now w3 where n: "Now (rcClock r) (l1, w1) = (now, (l1, w3))" using assms(3) [of l1 w1] by (metis prod.collapse)
    have d: "distinct (map fst ts)" using observe_ok [OF o [unfolded Ok]] by (auto simp: seen_ok_def)
    obtain y where f: "foldIO (judge r now) os ts (l1, w3) = (y, (l2, w2))" and y: "\<And>os'. res = Ok os' \<Longrightarrow> \<exists>z. y = Ok z"
      using assms(4) o Ok n by (auto simp: recon_sweep_def tryIO_def bindIO_def now_io_def ret_def split: prod.splits res.splits)
    have A: "{iqn} \<times> set (tsPortals t) \<subseteq> leaked r now ts os" if "(iqn, t) \<in> set ts" "snd (judge_orphan (rcGrace r) now t (map_of os iqn))" for iqn t
      using that d by (auto simp: leaked_def)
    obtain e2 where e2: "l2 = l1 @ e2" "outs e2 \<subseteq> leaked r now ts os"
      using emitsD [OF judge_fold_emits [OF assms(1) d A] f] outs_logouts by blast
    have "outs e2 = leaked r now ts os" if "res = Ok os'" for os'
      using y [OF that] judge_fold_exact [OF assms(1) d, of now os l1 w3] f e2(1) by auto
    then show ?thesis using e1 e2 o Ok n by (intro exI [of _ "e1 @ e2"]) auto
  next
    case (Fail e)
    then show ?thesis using assms(4) o e1 by (auto simp: recon_sweep_def tryIO_def ret_def)
  next
    case (Panic q)
    then show ?thesis using assms(4) o e1 by (auto simp: recon_sweep_def tryIO_def ret_def)
  qed
qed

end
