(* ===== verification/Qnap_Attach.thy ===== *)
theory Qnap_Attach
  imports Qnap_Reconcile
begin

text \<open>
  What the node of the SAN backend runs: \<open>does m R\<close> relates the outcome of a call and the events it appends to
  the log of a traced host, with a rule for each way calls are composed. The lemmas follow an attach
  (\<^verbatim>\<open>node.go\<close>) from its logins to the logouts that undo them, and an unstage to its logouts.
\<close>

section \<open>Attaching\<close>

text \<open>The portals at which the log shows a login to a target that succeeded or was there already.\<close>

definition logged_in :: "string \<Rightarrow> event list \<Rightarrow> string set" where
  "logged_in iqn l = {p. \<exists>x. Ran (login_cmd p iqn) x \<in> set l \<and> (case x of Ok _ \<Rightarrow> True | Fail e \<Rightarrow> IsExit e exitAlreadyExists | Panic _ \<Rightarrow> False)}"

lemma login_cmd_eq [simp]: "login_cmd p i = login_cmd q j \<longleftrightarrow> p = q \<and> i = j" "login_cmd p i \<noteq> logout_cmd q j" "logout_cmd q j \<noteq> login_cmd p i"
  by (auto simp: login_cmd_def logout_cmd_def cmd_def)

text \<open>Neither a login nor a logout.\<close>

definition no_session_cmd :: "event \<Rightarrow> bool" where
  "no_session_cmd e \<longleftrightarrow> (\<forall>p i x. e \<noteq> Ran (login_cmd p i) x \<and> e \<noteq> Ran (logout_cmd p i) x)"

lemma logged_in_simps [simp]: "logged_in iqn (a @ b) = logged_in iqn a \<union> logged_in iqn b" "logged_in iqn [] = {}"
    "logged_in iqn (Ran (login_cmd p i) x # l) =
       (if i = iqn \<and> (case x of Ok _ \<Rightarrow> True | Fail e \<Rightarrow> IsExit e exitAlreadyExists | Panic _ \<Rightarrow> False) then insert p (logged_in iqn l) else logged_in iqn l)"
  by (auto simp: logged_in_def)

lemma no_session_simps: "list_all no_session_cmd l \<Longrightarrow> logged_in iqn l = {} \<and> outs l = {}"
  by (auto simp: logged_in_def outs_def list_all_iff no_session_cmd_def)

lemma outs_login [simp]: "outs (Ran (login_cmd p i) x # l) = outs l" "outs [Ran (login_cmd p i) x] = {}"
  by (auto simp: outs_def)

text \<open>\<open>does m R\<close>: the call only appends to the log; \<open>R\<close> relates its outcome and what it appends.\<close>

definition does :: "(event list \<times> 'w, 'a) io \<Rightarrow> ('a res \<Rightarrow> event list \<Rightarrow> bool) \<Rightarrow> bool" where
  "does m R \<longleftrightarrow> (\<forall>l w r l2 w2. m (l, w) = (r, (l2, w2)) \<longrightarrow> (\<exists>ev. l2 = l @ ev \<and> R r ev))"

lemma doesI: "(\<And>l w r l2 w2. m (l, w) = (r, (l2, w2)) \<Longrightarrow> \<exists>ev. l2 = l @ ev \<and> R r ev) \<Longrightarrow> does m R"
  by (auto simp: does_def)

lemma doesD: "does m R \<Longrightarrow> m (l, w) = (r, (l2, w2)) \<Longrightarrow> \<exists>ev. l2 = l @ ev \<and> R r ev"
  unfolding does_def by blast

lemma does_mono: "does m R \<Longrightarrow> (\<And>r l. R r l \<Longrightarrow> S r l) \<Longrightarrow> does m S"
  unfolding does_def by blast

lemma does_ret: "R (Ok a) [] \<Longrightarrow> does (ret a) R" and does_fail: "R (Fail e) [] \<Longrightarrow> does (fail e) R"
  by (auto simp: does_def ret_def fail_def)

lemma does_emits: "emits P m \<Longrightarrow> (\<And>r l. list_all P l \<Longrightarrow> R r l) \<Longrightarrow> does m R"
  by (rule doesI) (blast dest: emitsD)

lemma does_bindIO:
  assumes "does m R" "\<And>a. does (f a) (S a)" "\<And>a l1 r l2. R (Ok a) l1 \<Longrightarrow> S a r l2 \<Longrightarrow> T r (l1 @ l2)"
    and "\<And>e l. R (Fail e) l \<Longrightarrow> T (Fail e) l" "\<And>p l. R (Panic p) l \<Longrightarrow> T (Panic p) l"
  shows "does (bindIO m f) T"
proof (rule doesI)
  fix l w r l2 w2 assume b: "bindIO m f (l, w) = (r, (l2, w2))"
  obtain r1 l1 w1 where m: "m (l, w) = (r1, (l1, w1))" by (metis prod_cases3)
  obtain e1 where e1: "l1 = l @ e1" "R r1 e1" using doesD [OF assms(1) m] by blast
  show "\<exists>ev. l2 = l @ ev \<and> T r ev"
  proof (cases r1)
    case (Ok a)
    then have "f a (l1, w1) = (r, (l2, w2))" using b m by (simp add: bindIO_def)
    then obtain e2 where "l2 = l1 @ e2" "S a r e2" using doesD [OF assms(2)] by blast
    then show ?thesis using e1 Ok assms(3) by (intro exI [of _ "e1 @ e2"]) auto
  qed (use b m e1 assms(4,5) in \<open>auto simp: bindIO_def\<close>)
qed

lemma does_tryIO:
  assumes "does m R" "\<And>a. does (f a) (S a)" "\<And>a l1 r l2. R (Ok a) l1 \<Longrightarrow> S (Inr a) r l2 \<Longrightarrow> T r (l1 @ l2)"
    and "\<And>e l1 r l2. R (Fail e) l1 \<Longrightarrow> S (Inl e) r l2 \<Longrightarrow> T r (l1 @ l2)" "\<And>p l. R (Panic p) l \<Longrightarrow> T (Panic p) l"
  shows "does (tryIO m f) T"
proof (rule doesI)
  fix l w r l2 w2 assume b: "tryIO m f (l, w) = (r, (l2, w2))"
  obtain r1 l1 w1 where m: "m (l, w) = (r1, (l1, w1))" by (metis prod_cases3)
  obtain e1 where e1: "l1 = l @ e1" "R r1 e1" using doesD [OF assms(1) m] by blast
  show "\<exists>ev. l2 = l @ ev \<and> T r ev"
  proof (cases r1)
    case (Ok a)
    then have "f (Inr a) (l1, w1) = (r, (l2, w2))" using b m by (simp add: tryIO_def)
    then obtain e2 where "l2 = l1 @ e2" "S (Inr a) r e2" using doesD [OF assms(2)] by blast
    then show ?thesis using e1 Ok assms(3) by (intro exI [of _ "e1 @ e2"]) auto
  next
    case (Fail e)
    then have "f (Inl e) (l1, w1) = (r, (l2, w2))" using b m by (simp add: tryIO_def)
    then obtain e2 where "l2 = l1 @ e2" "S (Inl e) r e2" using doesD [OF assms(2)] by blast
    then show ?thesis using e1 Fail assms(4) by (intro exI [of _ "e1 @ e2"]) auto
  qed (use b m e1 assms(5) in \<open>auto simp: tryIO_def\<close>)
qed

lemma does_foldIO:
  assumes "\<And>s x. x \<in> set xs \<Longrightarrow> does (f s x) (R s x)"
    and "\<And>s. I s (Ok s) []" "\<And>s x a l1 r l2. x \<in> set xs \<Longrightarrow> R s x (Ok a) l1 \<Longrightarrow> I a r l2 \<Longrightarrow> I s r (l1 @ l2)"
    and "\<And>s x e l. R s x (Fail e) l \<Longrightarrow> I s (Fail e) l" "\<And>s x p l. R s x (Panic p) l \<Longrightarrow> I s (Panic p) l"
  shows "does (foldIO f s xs) (I s)"
  using assms(1,3)
proof (induction xs arbitrary: s)
  case Nil
  then show ?case using assms(2) by (simp only: foldIO.simps) (rule does_ret)
next
  case (Cons x xs)
  have h: "does (foldIO f a xs) (I a)" for a using Cons.IH Cons.prems by fastforce
  show ?case unfolding foldIO.simps
    by (rule does_bindIO [OF Cons.prems(1) [of x s] h]) (auto intro: Cons.prems(2) [of x] assms(4,5))
qed

text \<open>The logins: which portals answered, and that nothing is logged out.\<close>

definition logs_in :: "string \<Rightarrow> string set \<Rightarrow> event list \<Rightarrow> bool" where
  "logs_in iqn A ev \<longleftrightarrow> outs ev = {} \<and> (\<forall>j. logged_in j ev = (if j = iqn then A else {}))"

lemma logs_in_append: "logs_in iqn A a \<Longrightarrow> logs_in iqn B b \<Longrightarrow> logs_in iqn (A \<union> B) (a @ b)"
  by (auto simp: logs_in_def)

lemma logs_in_none: "list_all no_session_cmd ev \<Longrightarrow> logs_in iqn {} ev"
  using no_session_simps by (auto simp: logs_in_def)

lemma Discover_quiet: "emits no_session_cmd (Discover (traced h) p)"
  unfolding Discover_def by (auto intro!: emits_intros simp: no_session_cmd_def login_cmd_def logout_cmd_def cmd_def)

lemma Login_does: "does (Login (traced h) p iqn) (\<lambda>r ev. logs_in iqn (if r = Ok () then {p} else {}) ev)"
  by (rule doesI) (auto simp: Login_def tryIO_def traced_def logging_def Let_def ret_def fail_def logs_in_def split: prod.splits res.splits if_splits)

lemma try_portal_does: "does (try_portal (traced h) iqn p) (\<lambda>r ev. (case r of Ok b \<Rightarrow> logs_in iqn (if b then {p} else {}) ev | Fail e \<Rightarrow> False | Panic q \<Rightarrow> True))"
proof -
  have l: "does (tryIO (Login (traced h) p iqn) (\<lambda>l. case l of Inl _ \<Rightarrow> ret False | Inr _ \<Rightarrow> ret True))
      (\<lambda>r ev. case r of Ok b \<Rightarrow> logs_in iqn (if b then {p} else {}) ev | Fail e \<Rightarrow> False | Panic q \<Rightarrow> True)"
    by (rule does_tryIO [OF Login_does, where S = "\<lambda>a r ev. r = Ok (a = Inr ()) \<and> ev = []"])
       (auto split: sum.split intro!: does_ret)
  show ?thesis unfolding try_portal_def
  proof (rule does_tryIO [OF does_emits [OF Discover_quiet, where R = "\<lambda>r ev. logs_in iqn {} ev"],
        where S = "\<lambda>a r ev. case r of Ok b \<Rightarrow> logs_in iqn (if b then {p} else {}) ev | Fail e \<Rightarrow> False | Panic q \<Rightarrow> True"])
    show "does (case a of Inl _ \<Rightarrow> ret False | Inr _ \<Rightarrow> tryIO (Login (traced h) p iqn) (\<lambda>l. case l of Inl _ \<Rightarrow> ret False | Inr _ \<Rightarrow> ret True))
      (\<lambda>r ev. case r of Ok b \<Rightarrow> logs_in iqn (if b then {p} else {}) ev | Fail e \<Rightarrow> False | Panic q \<Rightarrow> True)" for a :: "err + unit"
      using l by (cases a) (auto intro!: does_ret simp: logs_in_def)
  qed (use logs_in_append in \<open>fastforce simp: logs_in_none split: res.splits if_splits\<close>)+
qed

definition grown :: "string list \<Rightarrow> string \<Rightarrow> string list \<Rightarrow> string list res \<Rightarrow> event list \<Rightarrow> bool" where
  "grown portals iqn s r ev \<longleftrightarrow> (case r of
     Ok a \<Rightarrow> \<exists>A. set a = set s \<union> A \<and> A \<subseteq> set portals \<and> logs_in iqn A ev | Fail _ \<Rightarrow> False | Panic _ \<Rightarrow> True)"

lemma grown_append: "grown portals iqn s (Ok a) l1 \<Longrightarrow> grown portals iqn a r l2 \<Longrightarrow> grown portals iqn s r (l1 @ l2)"
proof -
  assume "grown portals iqn s (Ok a) l1" and r: "grown portals iqn a r l2"
  then obtain A where A: "set a = set s \<union> A" "A \<subseteq> set portals" "logs_in iqn A l1" by (auto simp: grown_def)
  show ?thesis
  proof (cases r)
    case (Ok b)
    then obtain B where "set b = set a \<union> B" "B \<subseteq> set portals" "logs_in iqn B l2" using r by (auto simp: grown_def)
    then show ?thesis using A Ok logs_in_append [of iqn A l1 B l2] by (auto simp: grown_def intro!: exI [of _ "A \<union> B"])
  qed (use r in \<open>auto simp: grown_def\<close>)
qed

definition all_in :: "string list \<Rightarrow> string \<Rightarrow> string list res \<Rightarrow> event list \<Rightarrow> bool" where
  "all_in portals iqn r ev \<longleftrightarrow> (case r of
     Ok active \<Rightarrow> logs_in iqn (set active) ev \<and> active \<noteq> [] \<and> set active \<subseteq> set portals
   | Fail _ \<Rightarrow> logs_in iqn {} ev | Panic _ \<Rightarrow> True)"

lemma loginPortals_does: "does (loginPortals (traced h) portals iqn) (all_in portals iqn)"
proof -
  have f: "does (foldIO (\<lambda>active p. bindIO (try_portal (traced h) iqn p) (\<lambda>up. ret (if up then active @ [p] else active))) [] portals) (grown portals iqn [])"
  proof (rule does_foldIO [where I = "grown portals iqn" and R = "\<lambda>s x. grown portals iqn s"])
    fix s x assume "x \<in> set portals"
    then show "does (bindIO (try_portal (traced h) iqn x) (\<lambda>up. ret (if up then s @ [x] else s))) (grown portals iqn s)"
      by (intro does_bindIO [OF try_portal_does, where S = "\<lambda>b r ev. r = Ok (if b then s @ [x] else s) \<and> ev = []"])
         (auto simp: grown_def intro!: does_ret split: if_splits)
  next
    show "grown portals iqn s (Ok s) []" for s by (auto simp: logs_in_def grown_def)
  qed (auto intro: grown_append)
  show ?thesis unfolding loginPortals_def
  proof (rule does_bindIO [OF f, where S = "\<lambda>a r ev. ev = [] \<and> (if a = [] then \<exists>e. r = Fail e else r = Ok a)"])
    show "does (if a = [] then fail (Unavailable m) else ret a) (\<lambda>r ev. ev = [] \<and> (if a = [] then \<exists>e. r = Fail e else r = Ok a))" for a :: "string list" and m
      by (auto intro!: does_ret does_fail)
    show "all_in portals iqn r (l1 @ l2)" if "grown portals iqn [] (Ok a) l1" "l2 = [] \<and> (if a = [] then \<exists>e. r = Fail e else r = Ok a)" for a l1 r l2
      using that by (cases "a = []") (auto simp: grown_def all_in_def)
  qed (auto simp: grown_def all_in_def)
qed

text \<open>After the logins: the waits, and the logouts when one fails.\<close>

definition silent :: "event list \<Rightarrow> bool" where
  "silent ev \<longleftrightarrow> (\<forall>j. logged_in j ev = {})"

lemma silent_simps [simp]: "silent []" "silent (a @ b) \<longleftrightarrow> silent a \<and> silent b" "silent (Ran (logout_cmd p i) x # l) \<longleftrightarrow> silent l"
  by (auto simp: silent_def logged_in_def)

definition undone :: "string \<Rightarrow> string list \<Rightarrow> 'a res \<Rightarrow> event list \<Rightarrow> bool" where
  "undone iqn active r ev \<longleftrightarrow> silent ev \<and> (case r of
     Ok _ \<Rightarrow> outs ev = {} | Fail _ \<Rightarrow> outs ev = {iqn} \<times> set active | Panic _ \<Rightarrow> True)"

lemma Logout_does: "does (Logout (traced h) p iqn) (\<lambda>r ev. outs ev = {(iqn, p)} \<and> silent ev)"
proof (rule doesI)
  fix l w r l2 w2 assume a: "Logout (traced h) p iqn (l, w) = (r, (l2, w2))"
  obtain x where "l2 = l @ [Ran (logout_cmd p iqn) x]" using Logout_once [OF a] by blast
  then show "\<exists>ev. l2 = l @ ev \<and> outs ev = {(iqn, p)} \<and> silent ev"
    by (intro exI [of _ "[Ran (logout_cmd p iqn) x]"]) simp
qed

lemma logout_one_does: "does (tryIO (Logout (traced h) p iqn) (\<lambda>_. ret ())) (\<lambda>r ev. silent ev \<and> outs ev = {(iqn, p)} \<and> (\<forall>e. r \<noteq> Fail e))"
  by (rule does_tryIO [OF Logout_does, where S = "\<lambda>a r ev. r = Ok () \<and> ev = []"]) (auto intro: does_ret)

definition all_out :: "string \<Rightarrow> string list \<Rightarrow> unit res \<Rightarrow> event list \<Rightarrow> bool" where
  "all_out iqn ps r ev \<longleftrightarrow> silent ev \<and> outs ev \<subseteq> {iqn} \<times> set ps \<and>
    (case r of Ok _ \<Rightarrow> outs ev = {iqn} \<times> set ps | Fail _ \<Rightarrow> False | Panic _ \<Rightarrow> True)"

lemma all_out_Cons: "silent a \<Longrightarrow> outs a = {(iqn, p)} \<Longrightarrow> all_out iqn ps r b \<Longrightarrow> all_out iqn (p # ps) r (a @ b)"
  by (cases r) (auto simp: all_out_def)

lemma logout_all_does: "does (logout_all (traced h) iqn ps) (all_out iqn ps)"
proof (induction ps)
  case Nil
  show ?case by (simp only: logout_all_def foldIO.simps) (rule does_ret, simp add: all_out_def)
next
  case (Cons p ps)
  have s: "logout_all (traced h) iqn (p # ps) = bindIO (tryIO (Logout (traced h) p iqn) (\<lambda>_. ret ())) (\<lambda>_. logout_all (traced h) iqn ps)"
    by (simp add: logout_all_def)
  show ?case unfolding s
    by (rule does_bindIO [OF logout_one_does Cons.IH]) (auto intro: all_out_Cons, auto simp: all_out_def)
qed

lemma quiet_reads: "mpHost mp = traced h \<Longrightarrow> emits no_session_cmd (Flush mp wwid)"
  unfolding Flush_def by (auto intro!: emits_intros simp: no_session_cmd_def login_cmd_def logout_cmd_def flush_cmd_def cmd_def)

lemma flush_map_quiet: "mpHost (qnMpath n) = traced h \<Longrightarrow> emits no_session_cmd (flush_map n wwid)"
  unfolding flush_map_def by (intro emits_intros quiet_reads)

lemma give_up_does:
  assumes "qnHost n = traced h" "mpHost (qnMpath n) = traced h"
  shows "does (give_up n active iqn wwid msg) (\<lambda>r ev. undone iqn active r ev \<and> (\<forall>a. r \<noteq> Ok a))"
proof -
  have f: "does (flush_map n wwid) (\<lambda>r ev. logs_in iqn {} ev \<and> (\<forall>e. r \<noteq> Fail e))"
  proof (rule doesI)
    fix l w r l2 w2 assume e: "flush_map n wwid (l, w) = (r, (l2, w2))"
    have "r \<noteq> Fail x" for x using e by (auto simp: flush_map_def tryIO_def ret_def split: prod.splits res.splits if_splits)
    then show "\<exists>ev. l2 = l @ ev \<and> logs_in iqn {} ev \<and> (\<forall>e. r \<noteq> Fail e)"
      using emitsD [OF flush_map_quiet [OF assms(2)] e] logs_in_none by blast
  qed
  have c: "does (cleanupAttach n active iqn wwid) (all_out iqn active)"
    unfolding cleanupAttach_def assms(1)
    by (rule does_bindIO [OF f logout_all_does]) (auto simp: logs_in_def all_out_def silent_def split: res.splits)
  show ?thesis unfolding give_up_def
    by (rule does_bindIO [OF c, where S = "\<lambda>a r ev. ev = [] \<and> (\<exists>e. r = Fail e)"]) (auto simp: undone_def all_out_def intro!: does_fail)
qed

lemma undone_after: "list_all no_session_cmd a \<Longrightarrow> undone iqn active r b \<Longrightarrow> undone iqn active r (a @ b)"
  using no_session_simps [of a] by (auto simp: undone_def silent_def split: res.splits)

definition attached :: "string \<Rightarrow> int \<Rightarrow> string list \<Rightarrow> (string \<times> stageMeta) res \<Rightarrow> event list \<Rightarrow> bool" where
  "attached iqn lun active r ev \<longleftrightarrow> undone iqn active r ev \<and>
     (\<forall>d m. r = Ok (d, m) \<longrightarrow> smtPortals m = active \<and> smtIQN m = iqn \<and> smtLUNNumber m = lun)"

lemma attached_after: "list_all no_session_cmd a \<Longrightarrow> attached iqn lun active r b \<Longrightarrow> attached iqn lun active r (a @ b)"
  by (auto simp: attached_def intro: undone_after)

lemma attached_panic: "list_all no_session_cmd l \<Longrightarrow> attached iqn lun active (Panic x) l"
  using no_session_simps [of l] by (auto simp: attached_def undone_def silent_def)

lemma attach_device_does:
  assumes "qnHost n = traced h" "mpHost (qnMpath n) = traced h"
    and "\<And>p. emits no_session_cmd (qnWaitForPath n p)" "\<And>d. emits no_session_cmd (qnWaitForMap n d)"
  shows "does (attach_device n active iqn lun) (attached iqn lun active)" (is "does _ ?R")
proof -
  note q = does_emits [OF assms(3), where R = "\<lambda>r ev. list_all no_session_cmd ev"] does_emits [OF assms(4), where R = "\<lambda>r ev. list_all no_session_cmd ev"]
  note t = does_tryIO [OF q(1), where S = "\<lambda>_. ?R"] does_tryIO [OF q(2), where S = "\<lambda>_. ?R"]
  have g: "does (give_up n active iqn wwid msg) ?R" for wwid msg
    by (rule does_mono [OF give_up_does [OF assms(1,2)]]) (auto simp: attached_def)
  have o: "does (ret (d, \<lparr>smtPortals = active, smtPortal = [], smtIQN = iqn, smtLUNNumber = lun, smtWWID = x\<rparr>)) ?R" for d x
    by (rule does_ret) (simp add: undone_def attached_def)
  have m: "does (attach_map n active iqn lun raw) ?R" for raw
    unfolding attach_map_def Let_def
    by (cases "qnUseMultipath n") (auto simp: o split: sum.split intro!: t attached_after attached_panic g o)
  show ?thesis unfolding attach_device_def
    by (rule t(1)) (auto intro: attached_after attached_panic split: sum.split intro!: g m)
qed

lemma attach_on_host:
  assumes "resolveAttachIdentity n vid vctx v = (Ok (portals, iqn, lun), (w, s))" "attach n vid vctx v = (r, (w2, s2))"
  shows "s2 = s \<and> attach_host n portals iqn lun w = (r, w2)"
  using assms by (auto simp: attach_def bindIO_def on_host_def split: prod.splits)

section \<open>Unstaging\<close>

definition sessions_cmd :: command where
  "sessions_cmd = cmd ''iscsiadm'' [''-m'', ''session'', ''-P'', ''3'']"

text \<open>A listing of the sessions that does not show another LUN of the target, or that failed.\<close>

definition last_shown :: "string \<Rightarrow> int \<Rightarrow> event \<Rightarrow> bool" where
  "last_shown iqn lun e \<longleftrightarrow> (\<exists>x. e = Ran sessions_cmd x \<and> (case x of
     Ok out \<Rightarrow> last_lun iqn lun (parseSessions (Stdout out)) | Fail _ \<Rightarrow> True | Panic _ \<Rightarrow> False))"

text \<open>An event that takes the device away, and one that unmounts.\<close>

definition detaches :: "event \<Rightarrow> bool" where
  "detaches e \<longleftrightarrow> (\<exists>p i x. e = Ran (logout_cmd p i) x) \<or> (\<exists>u x. e = Ran (flush_cmd u) x)"

definition unmounts :: "event \<Rightarrow> bool" where
  "unmounts e \<longleftrightarrow> (\<exists>p x. e = Ran (cmd ''umount'' [p]) x)"

lemma cmd_distinct [simp]: "sessions_cmd \<noteq> logout_cmd p i" "sessions_cmd \<noteq> login_cmd p i" "flush_cmd u \<noteq> logout_cmd p i" "flush_cmd u \<noteq> login_cmd p i"
    "sessions_cmd \<noteq> flush_cmd u" "sessions_cmd \<noteq> cmd ''umount'' [q]" "cmd ''umount'' [q] \<noteq> logout_cmd p i" "cmd ''umount'' [q] \<noteq> flush_cmd u"
  by (auto simp: sessions_cmd_def logout_cmd_def login_cmd_def flush_cmd_def cmd_def)

declare cmd_distinct [symmetric, simp]

lemma outs_keeps: "list_all (\<lambda>e. \<not> detaches e) ev \<Longrightarrow> outs ev = {}"
  by (auto simp: outs_def detaches_def list_all_iff)

text \<open>The detach: the events of the listing, then the logouts it allows.\<close>

definition detached :: "stageMeta \<Rightarrow> unit res \<Rightarrow> event list \<Rightarrow> bool" where
  "detached i r ev \<longleftrightarrow> outs ev \<subseteq> {smtIQN i} \<times> set (portalList i) \<and> (case r of
     Ok _ \<Rightarrow> outs ev = (if smtIQN i \<noteq> [] \<and> (\<exists>e \<in> set ev. last_shown (smtIQN i) (smtLUNNumber i) e) then {smtIQN i} \<times> set (portalList i) else {})
   | Fail _ \<Rightarrow> False
   | Panic _ \<Rightarrow> outs ev \<noteq> {} \<longrightarrow> (\<exists>e \<in> set ev. last_shown (smtIQN i) (smtLUNNumber i) e))"

lemma lastLUN_does: "does (lastLUNOnTarget (traced h) iqn lun) (\<lambda>r ev. \<exists>x. ev = [Ran sessions_cmd x] \<and>
    (case r of Ok b \<Rightarrow> b = last_shown iqn lun (Ran sessions_cmd x) | Fail _ \<Rightarrow> False | Panic _ \<Rightarrow> True))"
proof (rule doesI)
  fix l w r l2 w2 assume a: "lastLUNOnTarget (traced h) iqn lun (l, w) = (r, (l2, w2))"
  obtain x w1 where x: "Run h sessions_cmd w = (x, w1)" by fastforce
  have "last_lun iqn lun []" by (simp add: last_lun_def)
  then show "\<exists>ev. l2 = l @ ev \<and> (\<exists>x. ev = [Ran sessions_cmd x] \<and> (case r of Ok b \<Rightarrow> b = last_shown iqn lun (Ran sessions_cmd x) | Fail _ \<Rightarrow> False | Panic _ \<Rightarrow> True))"
    using a x by (cases x) (auto simp: lastLUNOnTarget_def ListSessions_def sessions_cmd_def [symmetric] tryIO_def Run_traced ret_def fail_def last_shown_def split: if_splits)
qed

lemma flush_map_does: "mpHost (qnMpath n) = traced h \<Longrightarrow>
  does (flush_map n wwid) (\<lambda>r ev. list_all (\<lambda>e. \<exists>u x. e = Ran (flush_cmd u) x) ev \<and> (\<forall>e. r \<noteq> Fail e))"
proof (rule doesI)
  assume h: "mpHost (qnMpath n) = traced h"
  fix l w r l2 w2 assume e: "flush_map n wwid (l, w) = (r, (l2, w2))"
  have "r \<noteq> Fail x" for x using e by (auto simp: flush_map_def tryIO_def ret_def split: prod.splits res.splits if_splits)
  moreover have f: "emits (\<lambda>e. \<exists>u x. e = Ran (flush_cmd u) x) (flush_map n wwid)"
    unfolding flush_map_def Flush_def h by (auto intro!: emits_intros)
  ultimately show "\<exists>ev. l2 = l @ ev \<and> list_all (\<lambda>e. \<exists>u x. e = Ran (flush_cmd u) x) ev \<and> (\<forall>e. r \<noteq> Fail e)"
    using emitsD [OF f e] by blast
qed

lemma flushes_not_shown: "list_all (\<lambda>e. \<exists>u x. e = Ran (flush_cmd u) x) ev \<Longrightarrow> outs ev = {} \<and> (\<forall>e \<in> set ev. \<not> last_shown iqn lun e \<and> \<not> unmounts e)"
  by (auto simp: outs_def last_shown_def unmounts_def list_all_iff)

lemma logouts_not_shown: "list_all (logouts A) ev \<Longrightarrow> e \<in> set ev \<Longrightarrow> \<not> last_shown iqn lun e \<and> \<not> unmounts e"
  by (fastforce simp: logouts_def last_shown_def unmounts_def list_all_iff)

lemma logout_all_shown: "does (logout_all (traced h) iqn ps) (\<lambda>r ev. all_out iqn ps r ev \<and> (\<forall>e \<in> set ev. \<forall>i lun. \<not> last_shown i lun e \<and> \<not> unmounts e))"
proof (rule doesI)
  fix l w r l2 w2 assume a: "logout_all (traced h) iqn ps (l, w) = (r, (l2, w2))"
  obtain ev where ev: "l2 = l @ ev" "all_out iqn ps r ev" using doesD [OF logout_all_does a] by blast
  obtain ev' where "l2 = l @ ev'" "list_all (logouts ({iqn} \<times> set ps)) ev'" using emitsD [OF logout_all_emits a] by blast
  then show "\<exists>ev. l2 = l @ ev \<and> all_out iqn ps r ev \<and> (\<forall>e \<in> set ev. \<forall>i lun. \<not> last_shown i lun e \<and> \<not> unmounts e)"
    using ev logouts_not_shown by auto
qed

lemma last_then_out:
  "does (bindIO (lastLUNOnTarget (traced h) iqn lun) (\<lambda>only. if only then logout_all (traced h) iqn ps else ret ()))
    (\<lambda>r ev. outs ev \<subseteq> {iqn} \<times> set ps \<and> (\<forall>e \<in> set ev. \<not> unmounts e) \<and> (case r of
       Ok _ \<Rightarrow> outs ev = (if \<exists>e \<in> set ev. last_shown iqn lun e then {iqn} \<times> set ps else {}) | Fail _ \<Rightarrow> False
     | Panic _ \<Rightarrow> outs ev \<noteq> {} \<longrightarrow> (\<exists>e \<in> set ev. last_shown iqn lun e)))"
proof -
  have u: "\<not> unmounts (Ran sessions_cmd x)" "outs (Ran sessions_cmd x # l) = outs l" for x l by (auto simp: unmounts_def outs_def)
  show ?thesis
  proof (rule does_bindIO [OF lastLUN_does, where S = "\<lambda>b r ev. (if b then all_out iqn ps r ev else r = Ok () \<and> ev = []) \<and> (\<forall>e \<in> set ev. \<not> last_shown iqn lun e \<and> \<not> unmounts e)"])
    show "does (if b then logout_all (traced h) iqn ps else ret ()) (\<lambda>r ev. (if b then all_out iqn ps r ev else r = Ok () \<and> ev = []) \<and> (\<forall>e \<in> set ev. \<not> last_shown iqn lun e \<and> \<not> unmounts e))" for b
      by (cases b) (auto intro: does_ret does_mono [OF logout_all_shown])
  qed (auto simp: u all_out_def split: if_splits res.splits)
qed

lemma detach_does:
  assumes "qnHost n = traced h" "mpHost (qnMpath n) = traced h"
  shows "does (detach n i) (\<lambda>r ev. detached i r ev \<and> (\<forall>e \<in> set ev. \<not> unmounts e))"
proof -
  let ?S = "\<lambda>r ev. detached i r ev \<and> (\<forall>e \<in> set ev. \<not> unmounts e)"
  have rest: "does (if smtIQN i = [] then ret ()
      else bindIO (lastLUNOnTarget (qnHost n) (smtIQN i) (smtLUNNumber i)) (\<lambda>only. if only then logout_all (qnHost n) (smtIQN i) (portalList i) else ret ())) ?S"
  proof (cases "smtIQN i = []")
    case True
    then show ?thesis by (simp add: does_ret detached_def)
  next
    case False
    then show ?thesis unfolding assms(1) if_not_P [OF False]
      by (intro does_mono [OF last_then_out [of h "smtIQN i" "smtLUNNumber i" "portalList i"]]) (auto simp: detached_def split: res.splits)
  qed
  have c: "?S r (a @ b)" if "list_all (\<lambda>e. \<exists>u x. e = Ran (flush_cmd u) x) a" "?S r b" for r :: "unit res" and a b
    using flushes_not_shown [OF that(1), of "smtIQN i" "smtLUNNumber i"] that(2) by (cases r) (auto simp: detached_def)
  have p: "?S (Panic q) l" if "list_all (\<lambda>e. \<exists>u x. e = Ran (flush_cmd u) x) l" for q l
    using flushes_not_shown [OF that] by (auto simp: detached_def)
  show ?thesis unfolding detach_def
    by (rule does_bindIO [OF flush_map_does [OF assms(2)] rest]) (use c p in auto)
qed

definition harmless :: "event \<Rightarrow> bool" where
  "harmless e \<longleftrightarrow> \<not> detaches e \<and> \<not> unmounts e"

lemma harmless_findmnt: "harmless (Ran (cmd ''findmnt'' as) x)"
  by (auto simp: harmless_def detaches_def unmounts_def logout_cmd_def flush_cmd_def cmd_def)

lemma in_use_keeps:
  assumes "qnHost n = traced h" "pred_option (\<lambda>f. \<forall>d. emits harmless (f d)) (qnHolders n)"
  shows "emits harmless (in_use_check n req i)"
proof -
  have "emits harmless (case qnHolders n of Some holders \<Rightarrow> if d \<noteq> [] then tryIO (holders d) (\<lambda>r. ret (r = Inr True)) else ret False | None \<Rightarrow> ret False)" for d
    using assms(2) by (cases "qnHolders n") (auto intro!: emits_intros)
  then show ?thesis unfolding in_use_check_def deviceInUse_def ListMounts_def assms(1) Let_def
    by (cases i) (auto intro!: emits_intros harmless_findmnt)
qed

lemma Unmount_keeps: "emits (\<lambda>e. \<not> detaches e) (Unmount (traced h) p)"
  unfolding Unmount_def IsMounted_def findmnt_target_def
  by (auto intro!: emits_intros simp: detaches_def logout_cmd_def flush_cmd_def cmd_def split: sum.split bool.split)

text \<open>The steps of an unstage after the identity is known.\<close>

lemma unstage_cases:
  assumes "resolveTeardown n req v = (Ok i, (w, s))" "qUnstageVolume n req v = (r, (w2, s2))"
  obtains b w1 where "in_use_check n req i w = (b, w1)"
    and "b = Ok True \<Longrightarrow> r = Fail (FailedPrecondition ''volume %s still in use on node %q; refusing to detach'') \<and> w2 = w1 \<and> s2 = s"
    and "\<And>e. b \<noteq> Fail e"
    and "b = Ok False \<Longrightarrow> \<exists>u w3. Unmount (qnHost n) (usStagingTargetPath req) w1 = (u, w3) \<and> (case u of
       Fail _ \<Rightarrow> (\<exists>m. r = Fail (Internal m)) \<and> w2 = w3 \<and> s2 = s
     | Panic q \<Rightarrow> r = Panic q \<and> w2 = w3 \<and> s2 = s
     | Ok _ \<Rightarrow> (case i of None \<Rightarrow> r = Ok () \<and> w2 = w3 \<and> s2 = s\<lparr>nsReg := Untrack (usVolumeID req) (nsReg s)\<rparr>
        | Some m \<Rightarrow> \<exists>d. detach n m w3 = (d, w2) \<and> r = d \<and> (d = Ok () \<longrightarrow>
            s2 = s\<lparr>nsReg := Untrack (usVolumeID req) (nsReg s), nsMeta := AList.delete (usVolumeID req) (nsMeta s)\<rparr>)))"
    and "\<And>q. b = Panic q \<Longrightarrow> r = Panic q \<and> w2 = w1"
proof -
  obtain b w1 where b: "in_use_check n req i w = (b, w1)" by fastforce
  have "b \<noteq> Fail e" for e using b by (auto simp: in_use_check_def tryIO_def ret_def split: option.splits prod.splits res.splits sum.splits)
  moreover have "r = Fail (FailedPrecondition ''volume %s still in use on node %q; refusing to detach'') \<and> w2 = w1 \<and> s2 = s" if "b = Ok True"
    using assms b that by (simp add: qUnstageVolume_def bindIO_def on_host_def fail_def)
  moreover have "r = Panic q \<and> w2 = w1" if "b = Panic q" for q
    using assms b that by (simp add: qUnstageVolume_def bindIO_def on_host_def)
  moreover obtain u w3 where "Unmount (qnHost n) (usStagingTargetPath req) w1 = (u, w3)" by fastforce
  ultimately show ?thesis using assms b
    by (intro that [of b w1]) (auto simp: qUnstageVolume_def bindIO_def on_host_def wrapIO_def as_internal_def set_nst_def meta_Delete_def ret_def
        split: res.splits option.splits prod.splits)
qed

end
