(* ===== verification/Go_Time.thy ===== *)
theory Go_Time
  imports Go_Prelude
begin

text \<open>
  \<^verbatim>\<open>time.Parse(time.ANSIC, s)\<close>: the layout \<^verbatim>\<open>Mon Jan _2 15:04:05 2006\<close>, read by the rules of package
  time (a blank of the layout takes one or more blanks, or none at the end of the text; the weekday is
  any weekday; a fraction of a second may follow the seconds), giving the Unix second in UTC.
\<close>

definition cutspace :: "string \<Rightarrow> string" where
  "cutspace = dropWhile (\<lambda>c. c = CHR '' '')"

definition blank :: "string \<Rightarrow> string option" where
  "blank s = (case s of [] \<Rightarrow> Some [] | c # _ \<Rightarrow> if c = CHR '' '' then Some (cutspace s) else None)"

definition colon :: "string \<Rightarrow> string option" where
  "colon s = (case s of c # r \<Rightarrow> if c = CHR '':'' then Some r else None | [] \<Rightarrow> None)"

definition lower_char :: "char \<Rightarrow> char" where
  "lower_char c = (if 65 \<le> (of_char c :: nat) \<and> (of_char c :: nat) \<le> 90 then char_of (of_char c + 32 :: nat) else c)"

text \<open>\<^verbatim>\<open>lookup\<close>: a table name at the start of the text, ignoring case.\<close>

definition name_at :: "string list \<Rightarrow> string \<Rightarrow> (nat \<times> string) option" where
  "name_at tab s = (case List.find (\<lambda>(_, n). map lower_char (take (length n) s) = map lower_char n) (enumerate 0 tab) of
     Some (i, n) \<Rightarrow> Some (i, drop (length n) s) | None \<Rightarrow> None)"

definition shortDayNames :: "string list" where
  "shortDayNames = [''Sun'', ''Mon'', ''Tue'', ''Wed'', ''Thu'', ''Fri'', ''Sat'']"

definition shortMonthNames :: "string list" where
  "shortMonthNames = [''Jan'', ''Feb'', ''Mar'', ''Apr'', ''May'', ''Jun'', ''Jul'', ''Aug'', ''Sep'', ''Oct'', ''Nov'', ''Dec'']"

text \<open>\<^verbatim>\<open>getnum\<close>: one or two digits, exactly two when \<open>fixed\<close>.\<close>

definition getnum :: "bool \<Rightarrow> string \<Rightarrow> (nat \<times> string) option" where
  "getnum fixed s = (case s of
     c # d # r \<Rightarrow> if \<not> is_digit c then None else if is_digit d then Some (digit_val c * 10 + digit_val d, r)
       else if fixed then None else Some (digit_val c, d # r)
   | [c] \<Rightarrow> if is_digit c \<and> \<not> fixed then Some (digit_val c, []) else None
   | [] \<Rightarrow> None)"

text \<open>A fraction of a second is read and dropped.\<close>

definition skip_fraction :: "string \<Rightarrow> string" where
  "skip_fraction s = (case s of c # d # r \<Rightarrow>
     if (c = CHR ''.'' \<or> c = CHR '','') \<and> is_digit d then dropWhile is_digit (d # r) else s | _ \<Rightarrow> s)"

definition year4 :: "string \<Rightarrow> (nat \<times> string) option" where
  "year4 s = (if 4 \<le> length s \<and> list_all is_digit (take 4 s) then Some (digits_val 0 (take 4 s), drop 4 s) else None)"

definition leap :: "int \<Rightarrow> bool" where
  "leap y \<longleftrightarrow> 4 dvd y \<and> (\<not> 100 dvd y \<or> 400 dvd y)"

definition days_in :: "nat \<Rightarrow> int \<Rightarrow> int" where
  "days_in m y = (if m = 1 then (if leap y then 29 else 28) else if m \<in> set [3, 5, 8, 10] then 30 else 31)"

definition days_before_year :: "int \<Rightarrow> int" where
  "days_before_year y = (let z = y - 1 in 365 * z + z div 4 - z div 100 + z div 400)"

definition days_before_month :: "nat \<Rightarrow> int \<Rightarrow> int" where
  "days_before_month m y = sum_list (map (\<lambda>i. days_in i y) [0..<m])"

text \<open>The Unix second of a date and time of day; 719162 days lie between year 1 and 1970.\<close>

definition unix_of :: "int \<Rightarrow> nat \<Rightarrow> nat \<Rightarrow> nat \<Rightarrow> nat \<Rightarrow> nat \<Rightarrow> int" where
  "unix_of y m d hh mm ss = (days_before_year y + days_before_month m y + int d - 1 - 719162) * 86400 + int hh * 3600 + int mm * 60 + int ss"

text \<open>\<^term>\<open>None\<close> is the zero time, which a failed parse returns.\<close>

definition parseANSIC :: "string \<Rightarrow> int option" where
  "parseANSIC s =
     Option.bind (name_at shortDayNames s) (\<lambda>(_, s). Option.bind (blank s) (\<lambda>s.
     Option.bind (name_at shortMonthNames s) (\<lambda>(m, s). Option.bind (blank s) (\<lambda>s.
     Option.bind (getnum False s) (\<lambda>(d, s). Option.bind (blank s) (\<lambda>s.
     Option.bind (getnum False s) (\<lambda>(hh, s). if 24 \<le> hh then None else Option.bind (colon s) (\<lambda>s.
     Option.bind (getnum True s) (\<lambda>(mm, s). if 60 \<le> mm then None else Option.bind (colon s) (\<lambda>s.
     Option.bind (getnum True s) (\<lambda>(ss, s). if 60 \<le> ss then None else Option.bind (blank (skip_fraction s)) (\<lambda>s.
     Option.bind (year4 s) (\<lambda>(y, s).
       if s \<noteq> [] \<or> d < 1 \<or> days_in m (int y) < int d then None
       else let t = unix_of (int y) m d hh mm ss in if t = - 62135596800 then None else Some t)))))))))))))"

lemma parseANSIC_example: "parseANSIC ''Fri May 29 10:13:33 2026'' = Some 1780049613"
  by code_simp

lemma parseANSIC_epoch: "parseANSIC ''Thu Jan  1 00:00:00 1970'' = Some 0"
  by code_simp

end
