(* ===== verification/Qnap_Controller.thy ===== *)
theory Qnap_Controller
  imports Qnap_Client Go_Time
begin

text \<open>
  \<^verbatim>\<open>internal/driver/qnap/controller.go\<close>: every controller operation of the SAN backend, over the
  client of the appliance, the session and the index. A closure given to \<^verbatim>\<open>sessionManager.do\<close> that
  assigns a captured variable returns the value instead. Log lines have no result and are left out.
\<close>

record 'w qController =
  qkSM :: "'w sessionManager"
  qkCfg :: QNAPConfig
  qkClock :: "'w clock"

abbreviation qkCl :: "'w qController \<Rightarrow> 'w Client" where
  "qkCl c \<equiv> smClient (qkSM c)"

text \<open>\<^verbatim>\<open>defer\<close> of a call without a result: it runs whatever the outcome.\<close>

definition deferIO :: "('w, unit) io \<Rightarrow> ('w, 'a) io \<Rightarrow> ('w, 'a) io" where
  "deferIO d m = (\<lambda>w. case m w of (r, w') \<Rightarrow> (r, snd (d w')))"

definition cacheRefresh :: "'w qController \<Rightarrow> ('w, LUN list \<times> Target list) qio" where
  "cacheRefresh c = sm_do (qkSM c) (\<lambda>s.
     bindIO (on_san (ListLUNs (qkCl c) s)) (\<lambda>luns.
     bindIO (on_san (ListTargets (qkCl c) s)) (\<lambda>targets. ret (luns, targets))))"

text \<open>\<^verbatim>\<open>GetLUN\<close> under the session manager, as several operations call it.\<close>

definition get_lun :: "'w qController \<Rightarrow> int \<Rightarrow> ('w, LUN) qio" where
  "get_lun c i = sm_do (qkSM c) (\<lambda>s. on_san (GetLUN (qkCl c) s i))"

section \<open>Portals\<close>

fun hasPort_rev :: "string \<Rightarrow> bool" where
  "hasPort_rev [] = False"
| "hasPort_rev (c # cs) = (if c = CHR '':'' then True else if c = CHR '']'' then False else hasPort_rev cs)"

definition hasPort :: "string \<Rightarrow> bool" where
  "hasPort hostport = hasPort_rev (rev hostport)"

definition q_portals :: "QNAPConfig \<Rightarrow> string list" where
  "q_portals cfg = map (\<lambda>p. if hasPort p then p else p @ '':3260'') (PortalList cfg)"

section \<open>Creating volumes\<close>

definition resize_and_wait :: "'w qController \<Rightarrow> int \<Rightarrow> int \<Rightarrow> int \<Rightarrow> ('w, unit) qio" where
  "resize_and_wait c lunIdx sizeGB want = sm_do (qkSM c) (\<lambda>s.
     bindIO (on_san (ResizeLUN (qkCl c) s lunIdx sizeGB)) (\<lambda>_.
     bindIO (on_san (WaitForResizeComplete (qkCl c) s lunIdx want)) (\<lambda>_. ret ())))"

definition growToRequested :: "'w qController \<Rightarrow> int \<Rightarrow> int \<Rightarrow> ('w, unit) qio" where
  "growToRequested c lunIdx sizeGB =
     bindIO (wrapIO (mapQNAPError ''GetLUN'') (get_lun c lunIdx)) (\<lambda>lun.
     let want = mul64 sizeGB giB in
     if want \<le> lnCapacityBytes lun then ret () else resize_and_wait c lunIdx sizeGB want)"

definition resolveTarget :: "'w qController \<Rightarrow> string \<Rightarrow> qnapVolumeParams \<Rightarrow> ('w, int \<times> bool) qio" where
  "resolveTarget c lunName vp = (case qpTargetIndex vp of
     Some i \<Rightarrow> ret (i, False)
   | None \<Rightarrow> bindIO (wrapIO (mapQNAPError ''CreateTarget'') (sm_do (qkSM c) (\<lambda>s. on_san (CreateTarget (qkCl c) s
       \<lparr>ctName = lunName, ctAlias = lunName, ctInterfaces = qcInterfaces (qkCfg c)\<rparr>)))) (\<lambda>i. ret (i, True)))"

definition bestEffortDeleteTarget :: "'w qController \<Rightarrow> int \<Rightarrow> ('w, unit) qio" where
  "bestEffortDeleteTarget c i = tryIO (sm_do (qkSM c) (\<lambda>s. on_san (DeleteTarget (qkCl c) s i))) (\<lambda>_. ret ())"

definition copy_request :: "int \<Rightarrow> string \<Rightarrow> qnapVolumeParams \<Rightarrow> int \<Rightarrow> CopyLUNRequest" where
  "copy_request src lunName vp t = \<lparr>cpSource = src, cpName = lunName, cpPoolID = qpPoolID vp, cpTargetIndex = t\<rparr>"

definition create_fresh :: "'w qController \<Rightarrow> qnapVolumeParams \<Rightarrow> string \<Rightarrow> int \<Rightarrow> int \<Rightarrow> ('w, int) qio" where
  "create_fresh c vp lunName sizeGB t =
     wrapIO (mapQNAPError ''CreateBlockLUN'') (sm_do (qkSM c) (\<lambda>s. on_san (CreateBlockLUN (qkCl c) s
       \<lparr>cbName = lunName, cbPoolID = qpPoolID vp, cbSizeGB = sizeGB, cbSectorSize = qpSectorSize vp, cbThin = qpThin vp, cbTargetIndex = t\<rparr>)))"

definition provisionLUN :: "'w qController \<Rightarrow> ContentSource option \<Rightarrow> qnapVolumeParams \<Rightarrow> string \<Rightarrow> int \<Rightarrow> int \<Rightarrow> ('w, int) qio" where
  "provisionLUN c src vp lunName sizeGB t = (case src of
     None \<Rightarrow> create_fresh c vp lunName sizeGB t
   | Some src \<Rightarrow>
       if srcSnapshotID src \<noteq> [] then
         bindIO (liftE (qnapParseSnapshotID (srcSnapshotID src))) (\<lambda>sid.
         bindIO (wrapIO (mapQNAPError ''CreateLUNFromSnapshot'') (sm_do (qkSM c) (\<lambda>s. on_san
           (CreateLUNFromSnapshot (qkCl c) s (copy_request (qsSnapshotID sid) lunName vp t))))) (\<lambda>lunIdx.
         bindIO (growToRequested c lunIdx sizeGB) (\<lambda>_. ret lunIdx)))
       else if srcVolumeID src \<noteq> [] then
         bindIO (liftE (qnapParseExternalID (srcVolumeID src))) (\<lambda>eid.
         bindIO (wrapIO (mapQNAPError ''CloneLUN'') (sm_do (qkSM c) (\<lambda>s. on_san
           (CloneLUN (qkCl c) s (copy_request (qeLUNIndex eid) lunName vp t))))) (\<lambda>lunIdx.
         bindIO (growToRequested c lunIdx sizeGB) (\<lambda>_. ret lunIdx)))
       else create_fresh c vp lunName sizeGB t)"

definition volume_of :: "QNAPConfig \<Rightarrow> ContentSource option \<Rightarrow> qnapVolumeParams \<Rightarrow> LUN \<Rightarrow> Target \<Rightarrow> int \<Rightarrow> int \<Rightarrow> bool \<Rightarrow> int \<Rightarrow> Volume" where
  "volume_of cfg src vp lun tgt lunIdx targetIdx own sizeGB =
     (let vctx = [qctxKeyPortal \<mapsto> Join (CHR '','') (q_portals cfg), qctxKeyIQN \<mapsto> tgIQN tgt, qctxKeyLUNNumber \<mapsto> ''0'',
        qctxKeyLUNIndex \<mapsto> FormatInt lunIdx]
      in \<lparr>volumeID = qnapExternalID_String \<lparr>qeLUNIndex = lunIdx, qeTargetIndex = targetIdx, qeOwnTarget = own, qeLUNName = lnName lun\<rparr>,
          capacityBytes = (if lnCapacityBytes lun = 0 then mul64 sizeGB giB else lnCapacityBytes lun),
          volumeContext = (if qpBlock vp then vctx else vctx(qctxKeyFsType \<mapsto> qpFsType vp)),
          accessibleTopology = [], contentSource = src\<rparr>)"

definition assembleVolume :: "'w qController \<Rightarrow> ContentSource option \<Rightarrow> qnapVolumeParams \<Rightarrow> int \<Rightarrow> int \<Rightarrow> bool \<Rightarrow> int \<Rightarrow> ('w, Volume) qio" where
  "assembleVolume c src vp lunIdx targetIdx own sizeGB =
     bindIO (wrapIO (mapQNAPError ''GetLUN/GetTarget'') (sm_do (qkSM c) (\<lambda>s.
       bindIO (on_san (GetLUN (qkCl c) s lunIdx)) (\<lambda>lun.
       bindIO (on_san (GetTarget (qkCl c) s targetIdx)) (\<lambda>tgt. ret (lun, tgt)))))) (\<lambda>(lun, tgt).
     bindIO (set_cache (addLUN lun tgt)) (\<lambda>_.
     ret (volume_of (qkCfg c) src vp lun tgt lunIdx targetIdx own sizeGB)))"

text \<open>The retry of a create answers without the content source of the request.\<close>

definition findExistingVolume :: "'w qController \<Rightarrow> string \<Rightarrow> int \<Rightarrow> qnapVolumeParams \<Rightarrow> ('w, Volume option) qio" where
  "findExistingVolume c lunName wantBytes vp =
     bindIO (wrapIO (mapQNAPError ''cache refresh'') (ensureFresh (qkClock c) (cacheRefresh c))) (\<lambda>_.
     bindIO get_cache (\<lambda>ca. case lookupByName ca lunName of
       None \<Rightarrow> ret None
     | Some lun \<Rightarrow>
         if giB \<le> absDiff (lnCapacityBytes lun) wantBytes
         then fail (AlreadyExists ''volume %q already exists with a different size (%d != %d)'')
         else case targetForLUN ca (lnIndex lun) of
           None \<Rightarrow> fail (Internal ''existing LUN %d is not mapped to any target'')
         | Some tgt \<Rightarrow> bindIO (assembleVolume c None vp (lnIndex lun) (tgIndex tgt) (tgAlias tgt = lunName) (div64 wantBytes giB))
             (\<lambda>v. ret (Some v))))"

text \<open>A target made for the volume is removed again when the LUN cannot be made.\<close>

definition create_on_target :: "'w qController \<Rightarrow> ContentSource option \<Rightarrow> qnapVolumeParams \<Rightarrow> string \<Rightarrow> int \<Rightarrow> int \<Rightarrow> bool \<Rightarrow> ('w, Volume) qio" where
  "create_on_target c src vp lunName sizeGB targetIdx own =
     tryIO (provisionLUN c src vp lunName sizeGB targetIdx) (\<lambda>r. case r of
       Inl e \<Rightarrow> bindIO (if own then bestEffortDeleteTarget c targetIdx else ret ()) (\<lambda>_. fail e)
     | Inr lunIdx \<Rightarrow> assembleVolume c src vp lunIdx targetIdx own sizeGB)"

definition qCreateVolume :: "'w qController \<Rightarrow> CreateVolumeRequest \<Rightarrow> ('w, Volume) qio" where
  "qCreateVolume c req =
     bindIO (liftE (qnapResolveParams (qkCfg c) (crParameters req) (crCapabilities req))) (\<lambda>vp.
     bindIO (liftE (sizeGiBExact (crCapacityRange req))) (\<lambda>sizeGB.
     let lunName = sanitizeLUNName (crName req) in
     bindIO (findExistingVolume c lunName (mul64 sizeGB giB) vp) (\<lambda>existing. case existing of
       Some v \<Rightarrow> ret v
     | None \<Rightarrow>
         bindIO (resolveTarget c lunName vp) (\<lambda>(targetIdx, own).
         create_on_target c (crContentSource req) vp lunName sizeGB targetIdx own))))"

section \<open>Existence, deletion, expansion\<close>

definition qVolumeExists :: "'w qController \<Rightarrow> string \<Rightarrow> ('w, bool) qio" where
  "qVolumeExists c vid =
     bindIO (liftE (qnapParseExternalID vid)) (\<lambda>eid.
     tryIO (get_lun c (qeLUNIndex eid)) (\<lambda>r. case r of
       Inl e \<Rightarrow> if isAuthError e then fail (Unavailable ''checking volume %s: %v'') else ret False
     | Inr lun \<Rightarrow> ret (lnName lun \<noteq> [] \<and> \<not> (qeLUNName eid \<noteq> [] \<and> lnName lun \<noteq> qeLUNName eid))))"

definition lunGone :: "'w Client \<Rightarrow> string \<Rightarrow> int \<Rightarrow> ('w, bool) qio" where
  "lunGone cl s i = tryIO (on_san (GetLUN cl s i)) (\<lambda>r. case r of
     Inl _ \<Rightarrow> ret True | Inr lun \<Rightarrow> ret (lnName lun = [] \<or> lnCapacityBytes lun = 0))"

definition targetIsOurs :: "'w Client \<Rightarrow> string \<Rightarrow> int \<Rightarrow> string \<Rightarrow> ('w, bool) qio" where
  "targetIsOurs cl s i name = (if name = [] then ret False
     else tryIO (on_san (GetTarget cl s i)) (\<lambda>r. case r of Inl _ \<Rightarrow> ret False | Inr t \<Rightarrow> ret (tgAlias t = name)))"

text \<open>The LUN is ours: refuse while it has snapshots, unmap (errors ignored), delete, wait.\<close>

definition delete_lun :: "'w Client \<Rightarrow> string \<Rightarrow> qnapExternalID \<Rightarrow> ('w, unit) qio" where
  "delete_lun cl s eid =
     bindIO (wrapIO (mapQNAPError ''ListSnapshots'') (on_san (SanListSnapshots cl s (qeLUNIndex eid)))) (\<lambda>snaps.
     if snaps \<noteq> [] then fail (FailedPrecondition ''volume %s still has %d snapshot(s); delete them first'')
     else tryIO (on_san (UnmapLUN cl s (qeLUNIndex eid) (qeTargetIndex eid))) (\<lambda>_.
       tryIO (on_san (DeleteLUN cl s (qeLUNIndex eid))) (\<lambda>r. case r of
         Inl e \<Rightarrow> bindIO (lunGone cl s (qeLUNIndex eid)) (\<lambda>gone. if gone then ret () else fail (mapQNAPError ''DeleteLUN'' e))
       | Inr _ \<Rightarrow> wrapIO (mapQNAPError ''WaitForLUNGone'') (on_san (WaitForLUNGone cl s (qeLUNIndex eid))))))"

definition delete_target :: "'w Client \<Rightarrow> string \<Rightarrow> qnapExternalID \<Rightarrow> ('w, unit) qio" where
  "delete_target cl s eid = (if qeOwnTarget eid
     then bindIO (targetIsOurs cl s (qeTargetIndex eid) (qeLUNName eid)) (\<lambda>ours.
       if ours then tryIO (on_san (DeleteTarget cl s (qeTargetIndex eid))) (\<lambda>_. ret ()) else ret ())
     else ret ())"

definition delete_body :: "'w Client \<Rightarrow> qnapExternalID \<Rightarrow> string \<Rightarrow> ('w, unit) qio" where
  "delete_body cl eid s =
     tryIO (on_san (GetLUN cl s (qeLUNIndex eid))) (\<lambda>g.
     bindIO (case g of
         Inl _ \<Rightarrow> ret ()
       | Inr lun \<Rightarrow>
           if lnName lun = [] then ret ()
           else if qeLUNName eid \<noteq> [] \<and> lnName lun \<noteq> qeLUNName eid then ret ()
           else delete_lun cl s eid) (\<lambda>_.
     delete_target cl s eid))"

definition qDeleteVolume :: "'w qController \<Rightarrow> string \<Rightarrow> ('w, unit) qio" where
  "qDeleteVolume c vid =
     bindIO (liftE (qnapParseExternalID vid)) (\<lambda>eid.
     deferIO (set_cache (removeLUN (qeLUNIndex eid))) (sm_do (qkSM c) (delete_body (qkCl c) eid)))"

definition ensureLUNIsOurs :: "'w qController \<Rightarrow> qnapExternalID \<Rightarrow> ('w, unit) qio" where
  "ensureLUNIsOurs c eid = (if qeLUNName eid = [] then ret ()
     else bindIO (wrapIO (\<lambda>_. NotFound ''volume no longer exists (LUN index %d not found)'') (get_lun c (qeLUNIndex eid))) (\<lambda>lun.
       if lnName lun \<noteq> qeLUNName eid then fail (NotFound ''volume no longer exists (LUN index %d now holds %q, expected %q)'') else ret ()))"

definition qExpandVolume :: "'w qController \<Rightarrow> string \<Rightarrow> CapacityRange \<Rightarrow> ('w, int \<times> bool) qio" where
  "qExpandVolume c vid cr =
     bindIO (liftE (qnapParseExternalID vid)) (\<lambda>eid.
     bindIO (liftE (sizeGiBExact cr)) (\<lambda>sizeGB.
     bindIO (ensureLUNIsOurs c eid) (\<lambda>_.
     let want = mul64 sizeGB giB in
     bindIO (wrapIO (mapQNAPError ''ResizeLUN'') (resize_and_wait c (qeLUNIndex eid) sizeGB want)) (\<lambda>_.
     ret (want, True)))))"

section \<open>Snapshots, capacity, listings\<close>

definition qCreateSnapshot :: "'w qController \<Rightarrow> CreateSnapshotRequest \<Rightarrow> ('w, Snapshot) qio" where
  "qCreateSnapshot c req =
     bindIO (liftE (qnapParseExternalID (csSourceVolumeID req))) (\<lambda>eid.
     bindIO (ensureLUNIsOurs c eid) (\<lambda>_.
     bindIO (wrapIO (mapQNAPError ''CreateSnapshot'') (sm_do (qkSM c) (\<lambda>s. on_san
       (SanCreateSnapshot (qkCl c) s (qeLUNIndex eid) (sanitizeLUNName (csName req)))))) (\<lambda>snap.
     ret \<lparr>snSnapshotID = qnapSnapshotID_String \<lparr>qsLUNIndex = qeLUNIndex eid, qsSnapshotID = qnID snap\<rparr>,
       snSourceVolumeID = csSourceVolumeID req, snSizeBytes = qnSizeBytes snap, snCreationTime = parseANSIC (qnCreatedAt snap),
       snReadyToUse = qnReady snap\<rparr>)))"

definition qDeleteSnapshot :: "'w qController \<Rightarrow> string \<Rightarrow> ('w, unit) qio" where
  "qDeleteSnapshot c i =
     bindIO (liftE (qnapParseSnapshotID i)) (\<lambda>sid.
     sm_do (qkSM c) (\<lambda>s.
       bindIO (wrapIO (mapQNAPError ''DeleteSnapshot'') (on_san (SanDeleteSnapshot (qkCl c) s (qsSnapshotID sid)))) (\<lambda>_.
       wrapIO (mapQNAPError ''WaitForSnapshotGone'') (on_san (WaitForSnapshotGone (qkCl c) s (qsLUNIndex sid) (qsSnapshotID sid))))))"

definition qGetCapacity :: "'w qController \<Rightarrow> smap \<Rightarrow> ('w, int) qio" where
  "qGetCapacity c params =
     bindIO (liftE (param_int params ''pool'' ''invalid pool %q'' (qcDefaultPoolID (qkCfg c)))) (\<lambda>poolID.
     if poolID \<le> 0 then fail (InvalidArgument ''pool is required for GetCapacity'')
     else wrapIO (mapQNAPError ''GetPool'') (sm_do (qkSM c) (\<lambda>s. on_san (GetPool (qkCl c) s poolID))))"

text \<open>The id of a LUN in the index, if it is mapped.\<close>

definition cached_id :: "lunCache \<Rightarrow> LUN \<Rightarrow> string option" where
  "cached_id ca lun = map_option (\<lambda>t. qnapExternalID_String \<lparr>qeLUNIndex = lnIndex lun, qeTargetIndex = tgIndex t,
     qeOwnTarget = (tgAlias t = lnName lun), qeLUNName = lnName lun\<rparr>) (targetForLUN ca (lnIndex lun))"

definition qListVolumes :: "'w qController \<Rightarrow> ('w, VolumeInfo list) qio" where
  "qListVolumes c =
     bindIO (wrapIO (mapQNAPError ''ListVolumes'') (ensureFresh (qkClock c) (cacheRefresh c))) (\<lambda>_.
     bindIO get_cache (\<lambda>ca.
     ret (List.map_filter (\<lambda>lun. map_option (\<lambda>i. \<lparr>viVolumeID = i, viCapacityBytes = lnCapacityBytes lun, viAccessibleTopology = []\<rparr>)
       (cached_id ca lun)) (cache_all ca))))"

definition snapshot_info :: "int \<Rightarrow> string \<Rightarrow> qSnapshot \<Rightarrow> SnapshotInfo" where
  "snapshot_info lunIdx src sn = \<lparr>snSnapshotID = qnapSnapshotID_String \<lparr>qsLUNIndex = lunIdx, qsSnapshotID = qnID sn\<rparr>,
     snSourceVolumeID = src, snSizeBytes = qnSizeBytes sn, snCreationTime = parseANSIC (qnCreatedAt sn), snReadyToUse = qnReady sn\<rparr>"

definition snapshotsForLUN :: "'w qController \<Rightarrow> int \<Rightarrow> string \<Rightarrow> ('w, SnapshotInfo list) qio" where
  "snapshotsForLUN c lunIdx src =
     bindIO (wrapIO (mapQNAPError ''ListSnapshots'') (sm_do (qkSM c) (\<lambda>s. on_san (SanListSnapshots (qkCl c) s lunIdx)))) (\<lambda>snaps.
     ret (map (snapshot_info lunIdx src) snaps))"

definition qListSnapshots :: "'w qController \<Rightarrow> string \<Rightarrow> ('w, SnapshotInfo list) qio" where
  "qListSnapshots c src =
     (if src \<noteq> [] then bindIO (liftE (qnapParseExternalID src)) (\<lambda>eid. snapshotsForLUN c (qeLUNIndex eid) src)
      else bindIO (wrapIO (mapQNAPError ''ListSnapshots'') (ensureFresh (qkClock c) (cacheRefresh c))) (\<lambda>_.
        bindIO get_cache (\<lambda>ca.
        foldIO (\<lambda>out lun. case cached_id ca lun of
            None \<Rightarrow> ret out
          | Some i \<Rightarrow> bindIO (snapshotsForLUN c (lnIndex lun) i) (\<lambda>infos. ret (out @ infos))) [] (cache_all ca))))"

definition qnap_ControllerBackend :: "'w qController \<Rightarrow> ('w \<times> qstate) ControllerBackend" where
  "qnap_ControllerBackend c = \<lparr>beCreateVolume = qCreateVolume c, beDeleteVolume = (\<lambda>i _. qDeleteVolume c i),
     beVolumeExists = qVolumeExists c, beExpandVolume = (\<lambda>i cr _. qExpandVolume c i cr),
     beControllerPublishVolume = (\<lambda>_ _ _ _ _ _. ret Map.empty), beControllerUnpublishVolume = (\<lambda>_ _ _. ret ()),
     beCreateSnapshot = qCreateSnapshot c, beDeleteSnapshot = (\<lambda>i _. qDeleteSnapshot c i),
     beGetCapacity = (\<lambda>_. qGetCapacity c), beListVolumes = qListVolumes c, beListSnapshots = qListSnapshots c\<rparr>"

end
