(* ===== verification/Qnap_Safety.thy ===== *)
theory Qnap_Safety
  imports Qnap_Controller
begin

text \<open>
  Which calls the SAN controller makes to the appliance. \<open>traced_san cl\<close> is the client \<open>cl\<close> with a log of
  its calls and their outcomes. \<open>wpl L m a Q\<close> says that the call \<open>m\<close>, started when the log since some
  point is \<open>a\<close>, only appends to the log, and ends with an outcome and a log that satisfy \<open>Q\<close>; its rules
  work backwards over a program, as those of a weakest precondition do. The properties are then
  statements about logs: what must directly precede a destructive call.
\<close>

section \<open>Calls to the appliance\<close>

datatype san_call = LoggedIn | Looked | GotLUN int "LUN res" | GotTarget int "Target res" | ListedSnaps int "qSnapshot list res"
  | MadeLUN "int res" | MadeTarget "int res" | LUNDeleted int | LUNUnmapped int int | TargetDeleted int
  | LUNResized int | LUNSnapped int | SnapDeleted int

definition san_log :: "('a res \<Rightarrow> san_call) \<Rightarrow> ('w, 'a) io \<Rightarrow> (san_call list \<times> 'w, 'a) io" where
  "san_log f m = (\<lambda>(l, w). case m w of (r, w') \<Rightarrow> (r, (l @ [f r], w')))"

definition traced_san :: "'w Client \<Rightarrow> (san_call list \<times> 'w) Client" where
  "traced_san cl = \<lparr>SessValid = SessValid cl, SessZero = SessZero cl,
     SanLogin = (\<lambda>u p. san_log (\<lambda>_. LoggedIn) (SanLogin cl u p)),
     CreateBlockLUN = (\<lambda>s r. san_log MadeLUN (CreateBlockLUN cl s r)),
     GetLUN = (\<lambda>s i. san_log (GotLUN i) (GetLUN cl s i)),
     ListLUNs = (\<lambda>s. san_log (\<lambda>_. Looked) (ListLUNs cl s)),
     DeleteLUN = (\<lambda>s i. san_log (\<lambda>_. LUNDeleted i) (DeleteLUN cl s i)),
     UnmapLUN = (\<lambda>s i t. san_log (\<lambda>_. LUNUnmapped i t) (UnmapLUN cl s i t)),
     WaitForLUNGone = (\<lambda>s i. san_log (\<lambda>_. Looked) (WaitForLUNGone cl s i)),
     ResizeLUN = (\<lambda>s i g. san_log (\<lambda>_. LUNResized i) (ResizeLUN cl s i g)),
     WaitForResizeComplete = (\<lambda>s i n. san_log (\<lambda>_. Looked) (WaitForResizeComplete cl s i n)),
     CreateTarget = (\<lambda>s r. san_log MadeTarget (CreateTarget cl s r)),
     GetTarget = (\<lambda>s i. san_log (GotTarget i) (GetTarget cl s i)),
     ListTargets = (\<lambda>s. san_log (\<lambda>_. Looked) (ListTargets cl s)),
     DeleteTarget = (\<lambda>s i. san_log (\<lambda>_. TargetDeleted i) (DeleteTarget cl s i)),
     GetPool = (\<lambda>s i. san_log (\<lambda>_. Looked) (GetPool cl s i)),
     SanCreateSnapshot = (\<lambda>s i n. san_log (\<lambda>_. LUNSnapped i) (SanCreateSnapshot cl s i n)),
     SanListSnapshots = (\<lambda>s i. san_log (ListedSnaps i) (SanListSnapshots cl s i)),
     SanDeleteSnapshot = (\<lambda>s i. san_log (\<lambda>_. SnapDeleted i) (SanDeleteSnapshot cl s i)),
     WaitForSnapshotGone = (\<lambda>s i n. san_log (\<lambda>_. Looked) (WaitForSnapshotGone cl s i n)),
     CreateLUNFromSnapshot = (\<lambda>s r. san_log MadeLUN (CreateLUNFromSnapshot cl s r)),
     CloneLUN = (\<lambda>s r. san_log MadeLUN (CloneLUN cl s r))\<rparr>"

definition calls :: "(san_call list \<times> 'w) \<times> qstate \<Rightarrow> san_call list" where
  "calls = fst \<circ> fst"

type_synonym ('w, 'a) tio = "((san_call list \<times> 'w) \<times> qstate, 'a) io"

definition wpl :: "('w, 'a) tio \<Rightarrow> san_call list \<Rightarrow> ('a res \<Rightarrow> san_call list \<Rightarrow> bool) \<Rightarrow> bool" where
  "wpl m a Q \<longleftrightarrow> (\<forall>w. \<exists>l. calls (snd (m w)) = calls w @ l \<and> Q (fst (m w)) (a @ l))"

named_theorems wpl_intros \<open>rules for the calls to the appliance\<close>

lemma wplI: "(\<And>w r w'. m w = (r, w') \<Longrightarrow> \<exists>l. calls w' = calls w @ l \<and> Q r (a @ l)) \<Longrightarrow> wpl m a Q"
  unfolding wpl_def by (metis prod.collapse)

lemma wplD: "wpl m a Q \<Longrightarrow> m w = (r, w') \<Longrightarrow> \<exists>l. calls w' = calls w @ l \<and> Q r (a @ l)"
  unfolding wpl_def by (metis fst_conv snd_conv)

lemma wpl_mono: "wpl m a Q \<Longrightarrow> (\<And>r l. Q r l \<Longrightarrow> R r l) \<Longrightarrow> wpl m a R"
  unfolding wpl_def by metis

lemma wpl_ret [wpl_intros]: "Q (Ok x) a \<Longrightarrow> wpl (ret x) a Q" and wpl_fail [wpl_intros]: "Q (Fail e) a \<Longrightarrow> wpl (fail e) a Q"
  by (simp_all add: wpl_def)

lemma wpl_liftE [wpl_intros]: "(\<And>e. x = Inl e \<Longrightarrow> Q (Fail e) a) \<Longrightarrow> (\<And>y. x = Inr y \<Longrightarrow> Q (Ok y) a) \<Longrightarrow> wpl (liftE x) a Q"
  by (cases x) (simp_all add: wpl_def)

text \<open>What follows a call in a sequence.\<close>

definition andthen :: "('a \<Rightarrow> ('w, 'b) tio) \<Rightarrow> ('b res \<Rightarrow> san_call list \<Rightarrow> bool) \<Rightarrow> 'a res \<Rightarrow> san_call list \<Rightarrow> bool" where
  "andthen f Q r a = (case r of Ok x \<Rightarrow> wpl (f x) a Q | Fail e \<Rightarrow> Q (Fail e) a | Panic p \<Rightarrow> Q (Panic p) a)"

definition orelse :: "(err + 'a \<Rightarrow> ('w, 'b) tio) \<Rightarrow> ('b res \<Rightarrow> san_call list \<Rightarrow> bool) \<Rightarrow> 'a res \<Rightarrow> san_call list \<Rightarrow> bool" where
  "orelse f Q r a = (case r of Ok x \<Rightarrow> wpl (f (Inr x)) a Q | Fail e \<Rightarrow> wpl (f (Inl e)) a Q | Panic p \<Rightarrow> Q (Panic p) a)"

lemma wpl_seq:
  assumes "calls w1 = calls w @ l1" "wpl m (a @ l1) Q" "m w1 = (r, w2)"
  shows "\<exists>l. calls w2 = calls w @ l \<and> Q r (a @ l)"
  using wplD [OF assms(2,3)] assms(1) by (metis append.assoc)

lemma wpl_Pair: "Q r a \<Longrightarrow> wpl (Pair r) a Q"
  by (simp add: wpl_def)

lemma wpl_bindIO [wpl_intros]: assumes "wpl m a (andthen f Q)" shows "wpl (bindIO m f) a Q"
proof (rule wplI)
  fix w r w' assume r: "bindIO m f w = (r, w')"
  obtain r1 w1 where m: "m w = (r1, w1)" by (cases "m w")
  obtain l1 where l1: "calls w1 = calls w @ l1" "andthen f Q r1 (a @ l1)" using wplD [OF assms m] by blast
  show "\<exists>l. calls w' = calls w @ l \<and> Q r (a @ l)"
    using l1(2) r m by (cases r1) (auto simp: bindIO_def andthen_def l1(1) intro!: wpl_seq [OF l1(1)] wpl_Pair)
qed

lemma wpl_tryIO [wpl_intros]: assumes "wpl m a (orelse f Q)" shows "wpl (tryIO m f) a Q"
proof (rule wplI)
  fix w r w' assume r: "tryIO m f w = (r, w')"
  obtain r1 w1 where m: "m w = (r1, w1)" by (cases "m w")
  obtain l1 where l1: "calls w1 = calls w @ l1" "orelse f Q r1 (a @ l1)" using wplD [OF assms m] by blast
  show "\<exists>l. calls w' = calls w @ l \<and> Q r (a @ l)"
    using l1(2) r m by (cases r1) (auto simp: tryIO_def orelse_def l1(1) intro!: wpl_seq [OF l1(1)] wpl_Pair)
qed

definition rewrapped :: "(err \<Rightarrow> err) \<Rightarrow> ('a res \<Rightarrow> san_call list \<Rightarrow> bool) \<Rightarrow> 'a res \<Rightarrow> san_call list \<Rightarrow> bool" where
  "rewrapped g Q r a = (case r of Fail e \<Rightarrow> Q (Fail (g e)) a | _ \<Rightarrow> Q r a)"

lemma wpl_wrapIO [wpl_intros]: assumes "wpl m a (rewrapped g Q)" shows "wpl (wrapIO g m) a Q"
proof (rule wplI)
  fix w r w' assume r: "wrapIO g m w = (r, w')"
  obtain r1 w1 where m: "m w = (r1, w1)" by (cases "m w")
  show "\<exists>l. calls w' = calls w @ l \<and> Q r (a @ l)"
    using wplD [OF assms m] r m by (cases r1) (auto simp: wrapIO_def rewrapped_def)
qed

lemma wpl_deferIO: assumes "wpl m a Q" "\<And>w. calls (snd (d w)) = calls w" shows "wpl (deferIO d m) a Q"
proof (rule wplI)
  fix w r w' assume r: "deferIO d m w = (r, w')"
  obtain r1 w1 where m: "m w = (r1, w1)" by (cases "m w")
  show "\<exists>l. calls w' = calls w @ l \<and> Q r (a @ l)"
    using wplD [OF assms(1) m] r m assms(2) [of w1] by (auto simp: deferIO_def)
qed

lemma wpl_if [wpl_intros]: "(b \<Longrightarrow> wpl m a Q) \<Longrightarrow> (\<not> b \<Longrightarrow> wpl n a Q) \<Longrightarrow> wpl (if b then m else n) a Q"
  by simp

lemma wpl_case_sum [wpl_intros]:
  "(\<And>e. x = Inl e \<Longrightarrow> wpl (f e) a Q) \<Longrightarrow> (\<And>y. x = Inr y \<Longrightarrow> wpl (g y) a Q) \<Longrightarrow> wpl (case_sum f g x) a Q"
  by (cases x) auto

lemma wpl_case_option [wpl_intros]:
  "(x = None \<Longrightarrow> wpl m a Q) \<Longrightarrow> (\<And>y. x = Some y \<Longrightarrow> wpl (g y) a Q) \<Longrightarrow> wpl (case_option m g x) a Q"
  by (cases x) auto

lemma wpl_case_prod [wpl_intros]: "(\<And>y z. x = (y, z) \<Longrightarrow> wpl (f y z) a Q) \<Longrightarrow> wpl (case_prod f x) a Q"
  by (cases x) auto

lemma wpl_Let [wpl_intros]: "wpl (f x) a Q \<Longrightarrow> wpl (Let x f) a Q"
  by simp

lemma andthen_simps [simp]: "andthen f Q (Ok x) a = wpl (f x) a Q" "andthen f Q (Fail e) a = Q (Fail e) a" "andthen f Q (Panic p) a = Q (Panic p) a"
  by (simp_all add: andthen_def)

lemma orelse_simps [simp]: "orelse f Q (Ok x) a = wpl (f (Inr x)) a Q" "orelse f Q (Fail e) a = wpl (f (Inl e)) a Q" "orelse f Q (Panic p) a = Q (Panic p) a"
  by (simp_all add: orelse_def)

lemma andthenI [wpl_intros]: "(\<And>x. r = Ok x \<Longrightarrow> wpl (f x) a Q) \<Longrightarrow> (\<And>e. r = Fail e \<Longrightarrow> Q (Fail e) a) \<Longrightarrow>
    (\<And>p. r = Panic p \<Longrightarrow> Q (Panic p) a) \<Longrightarrow> andthen f Q r a"
  by (cases r) auto

lemma orelseI [wpl_intros]: "(\<And>x. r = Ok x \<Longrightarrow> wpl (f (Inr x)) a Q) \<Longrightarrow> (\<And>e. r = Fail e \<Longrightarrow> wpl (f (Inl e)) a Q) \<Longrightarrow>
    (\<And>p. r = Panic p \<Longrightarrow> Q (Panic p) a) \<Longrightarrow> orelse f Q r a"
  by (cases r) auto

lemma rewrappedI [wpl_intros]: "(\<And>x. r = Ok x \<Longrightarrow> Q (Ok x) a) \<Longrightarrow> (\<And>e. r = Fail e \<Longrightarrow> Q (Fail (g e)) a) \<Longrightarrow>
    (\<And>p. r = Panic p \<Longrightarrow> Q (Panic p) a) \<Longrightarrow> rewrapped g Q r a"
  by (cases r) (auto simp: rewrapped_def)

lemma wpl_on_san: "(\<And>r. Q r (a @ [f r])) \<Longrightarrow> wpl (on_san (san_log f m)) a Q"
  by (rule wplI) (auto simp: on_san_def san_log_def calls_def split: prod.splits)

lemma wpl_cache [wpl_intros]: "Q (Ok ()) a \<Longrightarrow> wpl (set_cache f) a Q" "Q (Ok ()) a \<Longrightarrow> wpl (sm_reset sm) a Q"
  by (auto simp: wpl_def set_cache_def sm_reset_def calls_def split: prod.splits)

lemma wpl_get_cache [wpl_intros]: "(\<And>c. Q (Ok c) a) \<Longrightarrow> wpl get_cache a Q"
  by (rule wplI) (auto simp: get_cache_def calls_def split: prod.splits)

text \<open>The client's calls, each as the entry it appends.\<close>

lemma wpl_calls [wpl_intros]:
  "(\<And>r. Q1 r (a @ [MadeLUN r])) \<Longrightarrow> wpl (on_san (CreateBlockLUN (traced_san cl) s cb)) a Q1"
  "(\<And>r. Q2 r (a @ [GotLUN i r])) \<Longrightarrow> wpl (on_san (GetLUN (traced_san cl) s i)) a Q2"
  "(\<And>r. Q3 r (a @ [Looked])) \<Longrightarrow> wpl (on_san (ListLUNs (traced_san cl) s)) a Q3"
  "(\<And>r. Q4 r (a @ [LUNDeleted i])) \<Longrightarrow> wpl (on_san (DeleteLUN (traced_san cl) s i)) a Q4"
  "(\<And>r. Q4 r (a @ [LUNUnmapped i t])) \<Longrightarrow> wpl (on_san (UnmapLUN (traced_san cl) s i t)) a Q4"
  "(\<And>r. Q4 r (a @ [Looked])) \<Longrightarrow> wpl (on_san (WaitForLUNGone (traced_san cl) s i)) a Q4"
  "(\<And>r. Q4 r (a @ [LUNResized i])) \<Longrightarrow> wpl (on_san (ResizeLUN (traced_san cl) s i g)) a Q4"
  "(\<And>r. Q2 r (a @ [Looked])) \<Longrightarrow> wpl (on_san (WaitForResizeComplete (traced_san cl) s i n)) a Q2"
  "(\<And>r. Q1 r (a @ [MadeTarget r])) \<Longrightarrow> wpl (on_san (CreateTarget (traced_san cl) s ct)) a Q1"
  "(\<And>r. Q5 r (a @ [GotTarget i r])) \<Longrightarrow> wpl (on_san (GetTarget (traced_san cl) s i)) a Q5"
  "(\<And>r. Q6 r (a @ [Looked])) \<Longrightarrow> wpl (on_san (ListTargets (traced_san cl) s)) a Q6"
  "(\<And>r. Q4 r (a @ [TargetDeleted i])) \<Longrightarrow> wpl (on_san (DeleteTarget (traced_san cl) s i)) a Q4"
  "(\<And>r. Q1 r (a @ [Looked])) \<Longrightarrow> wpl (on_san (GetPool (traced_san cl) s i)) a Q1"
  "(\<And>r. Q7 r (a @ [LUNSnapped i])) \<Longrightarrow> wpl (on_san (SanCreateSnapshot (traced_san cl) s i nm)) a Q7"
  "(\<And>r. Q8 r (a @ [ListedSnaps i r])) \<Longrightarrow> wpl (on_san (SanListSnapshots (traced_san cl) s i)) a Q8"
  "(\<And>r. Q4 r (a @ [SnapDeleted i])) \<Longrightarrow> wpl (on_san (SanDeleteSnapshot (traced_san cl) s i)) a Q4"
  "(\<And>r. Q4 r (a @ [Looked])) \<Longrightarrow> wpl (on_san (WaitForSnapshotGone (traced_san cl) s i n)) a Q4"
  "(\<And>r. Q1 r (a @ [MadeLUN r])) \<Longrightarrow> wpl (on_san (CreateLUNFromSnapshot (traced_san cl) s cp)) a Q1"
  "(\<And>r. Q1 r (a @ [MadeLUN r])) \<Longrightarrow> wpl (on_san (CloneLUN (traced_san cl) s cp)) a Q1"
  by (simp_all add: traced_san_def wpl_on_san)

section \<open>Sessions\<close>

abbreviation traced_sm :: "'w sessionManager \<Rightarrow> (san_call list \<times> 'w) sessionManager" where
  "traced_sm sm \<equiv> \<lparr>smClient = traced_san (smClient sm), smUser = smUser sm, smPass = smPass sm\<rparr>"

lemma wpl_sm_get: "(\<And>s. Q (Ok s) a) \<Longrightarrow> (\<And>r. Q r (a @ [LoggedIn])) \<Longrightarrow> wpl (sm_get (traced_sm sm)) a Q"
  by (rule wplI) (auto simp: sm_get_def traced_san_def san_log_def calls_def split: prod.splits res.splits if_splits)

text \<open>A closure under the session manager: an invariant of the log that a login keeps, and that the closure
  keeps while it establishes \<open>Q\<close>, holds at the end, together with \<open>Q\<close>.\<close>

lemma wpl_sm_do:
  assumes "I a" "\<And>b. I b \<Longrightarrow> I (b @ [LoggedIn])"
    and fn: "\<And>s b. I b \<Longrightarrow> wpl (fn s) b (\<lambda>r c. I c \<and> Q r c)"
    and "\<And>e b. I b \<Longrightarrow> Q (Fail e) b" "\<And>p b. I b \<Longrightarrow> Q (Panic p) b"
  shows "wpl (sm_do (traced_sm sm) fn) a (\<lambda>r c. I c \<and> Q r c)"
proof -
  let ?Q = "\<lambda>r c. I c \<and> Q r c"
  have again: "wpl (bindIO (sm_reset (traced_sm sm)) (\<lambda>_. bindIO (sm_get (traced_sm sm)) fn)) b ?Q" if "I b" for b
  proof (rule wpl_bindIO, rule wpl_cache, simp only: andthen_simps, rule wpl_bindIO, rule wpl_sm_get)
    show "andthen fn ?Q (Ok s) b" for s using fn that by simp
    show "andthen fn ?Q r (b @ [LoggedIn])" for r using fn assms that by (cases r) auto
  qed
  have first: "wpl (tryIO (fn s) (\<lambda>r. case r of Inl e \<Rightarrow> if isAuthError e then bindIO (sm_reset (traced_sm sm)) (\<lambda>_. bindIO (sm_get (traced_sm sm)) fn)
      else fail e | Inr x \<Rightarrow> ret x)) b ?Q" if "I b" for s b
  proof (rule wpl_tryIO, rule wpl_mono [OF fn [OF that, of s]])
    fix r c assume c: "I c \<and> Q r c"
    then show "orelse (\<lambda>r. case r of Inl e \<Rightarrow> if isAuthError e then bindIO (sm_reset (traced_sm sm)) (\<lambda>_. bindIO (sm_get (traced_sm sm)) fn)
      else fail e | Inr x \<Rightarrow> ret x) ?Q r c"
      using again by (cases r) (auto intro!: wpl_ret wpl_fail)
  qed
  show ?thesis unfolding sm_do_def
  proof (rule wpl_bindIO, rule wpl_sm_get)
    show "andthen (\<lambda>s. tryIO (fn s) (\<lambda>r. case r of Inl e \<Rightarrow> if isAuthError e then bindIO (sm_reset (traced_sm sm)) (\<lambda>_. bindIO (sm_get (traced_sm sm)) fn)
      else fail e | Inr x \<Rightarrow> ret x)) ?Q (Ok s) a" for s using first assms(1) by simp
    show "andthen (\<lambda>s. tryIO (fn s) (\<lambda>r. case r of Inl e \<Rightarrow> if isAuthError e then bindIO (sm_reset (traced_sm sm)) (\<lambda>_. bindIO (sm_get (traced_sm sm)) fn)
      else fail e | Inr x \<Rightarrow> ret x)) ?Q r (a @ [LoggedIn])" for r using first assms by (cases r) auto
  qed
qed

text \<open>Without a special postcondition.\<close>

lemma wpl_sm_do_inv:
  assumes "I a" "\<And>b. I b \<Longrightarrow> I (b @ [LoggedIn])" "\<And>s b. I b \<Longrightarrow> wpl (fn s) b (\<lambda>_. I)"
  shows "wpl (sm_do (traced_sm sm) fn) a (\<lambda>_. I)"
  using wpl_sm_do [of I a fn "\<lambda>_ _. True" sm] assms by simp

definition traced_clock :: "'w clock \<Rightarrow> (san_call list \<times> 'w) clock" where
  "traced_clock ck = \<lparr>Now = (\<lambda>(l, w). case Now ck w of (t, w') \<Rightarrow> (t, (l, w'))),
     Pause = (\<lambda>d (l, w). case Pause ck d w of (r, w') \<Rightarrow> (r, (l, w')))\<rparr>"

definition traced_ctl :: "'w qController \<Rightarrow> (san_call list \<times> 'w) qController" where
  "traced_ctl c = \<lparr>qkSM = traced_sm (qkSM c), qkCfg = qkCfg c, qkClock = traced_clock (qkClock c)\<rparr>"

lemma traced_ctl_simps [simp]: "qkSM (traced_ctl c) = traced_sm (qkSM c)" "qkCfg (traced_ctl c) = qkCfg c" "qkClock (traced_ctl c) = traced_clock (qkClock c)"
  by (simp_all add: traced_ctl_def)

lemma wpl_now [wpl_intros]: "(\<And>t. Q (Ok t) a) \<Longrightarrow> wpl (q_now (traced_clock ck)) a Q"
  by (rule wplI) (auto simp: q_now_def traced_clock_def calls_def split: prod.splits)

section \<open>What must precede a call\<close>

fun read_only :: "san_call \<Rightarrow> bool" where
  "read_only LoggedIn = True" | "read_only Looked = True" | "read_only (GotLUN _ _) = True" | "read_only (GotTarget _ _) = True"
| "read_only (ListedSnaps _ _) = True" | "read_only _ = False"

definition backed :: "(san_call list \<Rightarrow> san_call \<Rightarrow> bool) \<Rightarrow> san_call list \<Rightarrow> bool" where
  "backed ev l \<longleftrightarrow> (\<forall>a c b. l = a @ c # b \<longrightarrow> ev a c)"

lemma backed_Nil [simp]: "backed ev []"
  by (simp add: backed_def)

lemma backed_snoc [simp]: "backed ev (l @ [c]) \<longleftrightarrow> backed ev l \<and> ev l c"
proof
  assume b: "backed ev (l @ [c])"
  then have "ev a x" if "l = a @ x # b" for a x b using that by (auto simp: backed_def)
  then show "backed ev l \<and> ev l c" using b by (auto simp: backed_def)
next
  assume b: "backed ev l \<and> ev l c"
  show "backed ev (l @ [c])" unfolding backed_def
  proof (intro allI impI)
    fix a x y assume e: "l @ [c] = a @ x # y"
    show "ev a x"
    proof (cases y rule: rev_cases)
      case Nil then show ?thesis using e b by simp
    next
      case (snoc z w)
      then have "l @ [c] = (a @ x # z) @ [w]" using e by simp
      then have "l = a @ x # z" by simp
      then show ?thesis using b by (auto simp: backed_def)
    qed
  qed
qed

lemma backed_snocs [simp]:
  "backed ev (l @ [c, d]) \<longleftrightarrow> backed ev (l @ [c]) \<and> ev (l @ [c]) d"
  "backed ev (l @ [c, d, f]) \<longleftrightarrow> backed ev (l @ [c, d]) \<and> ev (l @ [c, d]) f"
  "backed ev (l @ [c, d, f, g]) \<longleftrightarrow> backed ev (l @ [c, d, f]) \<and> ev (l @ [c, d, f]) g"
  "backed ev (l @ [c, d, f, g, h]) \<longleftrightarrow> backed ev (l @ [c, d, f, g]) \<and> ev (l @ [c, d, f, g]) h"
  using backed_snoc [of ev "l @ [c]" d] backed_snoc [of ev "l @ [c, d]" f] backed_snoc [of ev "l @ [c, d, f]" g]
    backed_snoc [of ev "l @ [c, d, f, g]" h] by simp_all

text \<open>The LUN found under the index is the one the id was made for (an id without a name skips the check).\<close>

definition is_named :: "qnapExternalID \<Rightarrow> LUN \<Rightarrow> bool" where
  "is_named e lun \<longleftrightarrow> lnName lun \<noteq> [] \<and> (qeLUNName e \<noteq> [] \<longrightarrow> lnName lun = qeLUNName e)"

text \<open>Deletion: the LUN of the id is unmapped and deleted only right after its name was read and its snapshots
  were listed as none; its target only if owned, right after its alias was read.\<close>

fun delete_ok :: "qnapExternalID \<Rightarrow> san_call list \<Rightarrow> san_call \<Rightarrow> bool" where
  "delete_ok e a (LUNUnmapped i t) \<longleftrightarrow> i = qeLUNIndex e \<and> t = qeTargetIndex e \<and>
     (\<exists>x lun. a = x @ [GotLUN i (Ok lun)] @ [ListedSnaps i (Ok [])] \<and> is_named e lun)"
| "delete_ok e a (LUNDeleted i) \<longleftrightarrow> i = qeLUNIndex e \<and>
     (\<exists>x lun. a = x @ [GotLUN i (Ok lun)] @ [ListedSnaps i (Ok [])] @ [LUNUnmapped i (qeTargetIndex e)] \<and> is_named e lun)"
| "delete_ok e a (TargetDeleted t) \<longleftrightarrow> t = qeTargetIndex e \<and> qeOwnTarget e \<and> qeLUNName e \<noteq> [] \<and>
     (\<exists>x tg. a = x @ [GotTarget t (Ok tg)] \<and> tgAlias tg = qeLUNName e)"
| "delete_ok e a c \<longleftrightarrow> read_only c"

text \<open>Creation undoes and grows only what it made.\<close>

fun create_ok :: "san_call list \<Rightarrow> san_call \<Rightarrow> bool" where
  "create_ok a (MadeLUN _) = True"
| "create_ok a (MadeTarget _) = True"
| "create_ok a (TargetDeleted t) \<longleftrightarrow> MadeTarget (Ok t) \<in> set a"
| "create_ok a (LUNResized i) \<longleftrightarrow> MadeLUN (Ok i) \<in> set a"
| "create_ok a c \<longleftrightarrow> read_only c"

text \<open>Expansion and snapshots touch the LUN of the id, after its name was read, with only the same call,
  logins and reads in between.\<close>

definition name_checked :: "qnapExternalID \<Rightarrow> san_call list \<Rightarrow> bool" where
  "name_checked e a \<longleftrightarrow> qeLUNName e = [] \<or> (\<exists>x lun y. a = x @ GotLUN (qeLUNIndex e) (Ok lun) # y \<and> lnName lun = qeLUNName e \<and>
     set y \<subseteq> {LoggedIn, Looked, LUNResized (qeLUNIndex e), LUNSnapped (qeLUNIndex e)})"

fun modify_ok :: "qnapExternalID \<Rightarrow> san_call list \<Rightarrow> san_call \<Rightarrow> bool" where
  "modify_ok e a (LUNResized i) \<longleftrightarrow> i = qeLUNIndex e \<and> name_checked e a"
| "modify_ok e a (LUNSnapped i) \<longleftrightarrow> i = qeLUNIndex e \<and> name_checked e a"
| "modify_ok e a c \<longleftrightarrow> read_only c"

section \<open>Deletion\<close>

lemma delete_target_wpl: "backed (delete_ok e) a \<Longrightarrow> wpl (delete_target (traced_san cl) s e) a (\<lambda>_. backed (delete_ok e))"
  unfolding delete_target_def targetIsOurs_def by (intro wpl_intros) auto

lemma delete_lun_wpl: "backed (delete_ok e) a \<Longrightarrow> a = x @ [GotLUN (qeLUNIndex e) (Ok lun)] \<Longrightarrow> is_named e lun \<Longrightarrow>
  wpl (delete_lun (traced_san cl) s e) a (\<lambda>_. backed (delete_ok e))"
  unfolding delete_lun_def lunGone_def by (intro wpl_intros) auto

lemma delete_body_wpl: "backed (delete_ok e) a \<Longrightarrow> wpl (delete_body (traced_san cl) e s) a (\<lambda>_. backed (delete_ok e))"
  unfolding delete_body_def
  by (intro wpl_intros delete_target_wpl wpl_mono [OF delete_lun_wpl])
     (auto simp: is_named_def intro!: wpl_intros delete_target_wpl)

lemma delete_wpl: "qnapParseExternalID vid = Inr e \<Longrightarrow> wpl (qDeleteVolume (traced_ctl c) vid) [] (\<lambda>_. backed (delete_ok e))"
  unfolding qDeleteVolume_def
  by (intro wpl_intros wpl_deferIO) (auto simp: set_cache_def calls_def intro!: wpl_deferIO wpl_sm_do_inv delete_body_wpl)

section \<open>Operations that read\<close>

text \<open>A rule that lets every read pass: logs under it stay good over the reading parts of the operations, and
  keep what they contain.\<close>

definition good_log :: "(san_call list \<Rightarrow> san_call \<Rightarrow> bool) \<Rightarrow> san_call set \<Rightarrow> san_call list \<Rightarrow> bool" where
  "good_log ev K b \<longleftrightarrow> backed ev b \<and> K \<subseteq> set b"

locale reads_pass =
  fixes ev :: "san_call list \<Rightarrow> san_call \<Rightarrow> bool"
  assumes reads: "read_only c \<Longrightarrow> ev a c"
begin

lemma good_read: "good_log ev K b \<Longrightarrow> read_only c \<Longrightarrow> good_log ev K (b @ [c])"
  by (auto simp: good_log_def reads)

lemma good_snoc: "good_log ev K b \<Longrightarrow> ev b c \<Longrightarrow> good_log ev K (b @ [c])"
  by (auto simp: good_log_def)

lemma good_login: "good_log ev K b \<Longrightarrow> good_log ev K (b @ [LoggedIn])"
  by (simp add: good_read)

lemma get_lun_wpl: "good_log ev K a \<Longrightarrow> wpl (get_lun (traced_ctl c) i) a (\<lambda>r b. good_log ev K b \<and> (\<forall>lun. r = Ok lun \<longrightarrow> (\<exists>x. b = x @ [GotLUN i (Ok lun)])))"
  unfolding get_lun_def traced_ctl_simps by (rule wpl_sm_do) (auto intro!: wpl_intros good_read)

lemma cacheRefresh_wpl: "good_log ev K a \<Longrightarrow> wpl (cacheRefresh (traced_ctl c)) a (\<lambda>_. good_log ev K)"
  unfolding cacheRefresh_def traced_ctl_simps by (rule wpl_sm_do_inv) (auto intro!: wpl_intros good_read)

lemma ensureFresh_wpl:
  assumes "good_log ev K a"
  shows "wpl (ensureFresh (traced_clock (qkClock c)) (cacheRefresh (traced_ctl c))) a (\<lambda>_. good_log ev K)"
  unfolding ensureFresh_def cache_fresh_def traced_ctl_simps
  using assms by (auto intro!: wpl_intros wpl_mono [OF cacheRefresh_wpl])

lemma assembleVolume_wpl: "good_log ev K a \<Longrightarrow> wpl (assembleVolume (traced_ctl c) src vp i t own sz) a (\<lambda>_. good_log ev K)"
  unfolding assembleVolume_def traced_ctl_simps
  by (auto intro!: wpl_intros wpl_mono [OF wpl_sm_do_inv [where I = "good_log ev K"]] good_read)

lemma findExistingVolume_wpl: "good_log ev K a \<Longrightarrow> wpl (findExistingVolume (traced_ctl c) n sz vp) a (\<lambda>_. good_log ev K)"
  unfolding findExistingVolume_def
  by (auto intro!: wpl_intros wpl_mono [OF ensureFresh_wpl] wpl_mono [OF assembleVolume_wpl])

lemma snapshotsForLUN_wpl: "good_log ev K a \<Longrightarrow> wpl (snapshotsForLUN (traced_ctl c) i src) a (\<lambda>_. good_log ev K)"
  unfolding snapshotsForLUN_def traced_ctl_simps
  by (auto intro!: wpl_intros wpl_mono [OF wpl_sm_do_inv [where I = "good_log ev K"]] good_read)

lemma foldIO_wpl: "(\<And>s x a. good_log ev K a \<Longrightarrow> wpl (f s x) a (\<lambda>_. good_log ev K)) \<Longrightarrow> good_log ev K a \<Longrightarrow> wpl (foldIO f s xs) a (\<lambda>_. good_log ev K)"
proof (induction xs arbitrary: s a)
  case (Cons x xs)
  have "wpl (f s x) a (andthen (\<lambda>s'. foldIO f s' xs) (\<lambda>_. good_log ev K))"
    by (rule wpl_mono [OF Cons.prems(1) [OF Cons.prems(2)]]) (auto intro!: andthenI Cons.IH Cons.prems(1))
  then show ?case by (simp add: wpl_bindIO)
qed (simp add: wpl_ret)

lemma reading_ops_wpl:
  assumes "good_log ev K a"
  shows "wpl (qVolumeExists (traced_ctl c) vid) a (\<lambda>_. good_log ev K)" "wpl (qGetCapacity (traced_ctl c) ps) a (\<lambda>_. good_log ev K)"
    "wpl (qListVolumes (traced_ctl c)) a (\<lambda>_. good_log ev K)" "wpl (qListSnapshots (traced_ctl c) src) a (\<lambda>_. good_log ev K)"
proof -
  show "wpl (qVolumeExists (traced_ctl c) vid) a (\<lambda>_. good_log ev K)" using assms unfolding qVolumeExists_def
    by (auto intro!: wpl_intros wpl_mono [OF get_lun_wpl])
  show "wpl (qGetCapacity (traced_ctl c) ps) a (\<lambda>_. good_log ev K)" using assms unfolding qGetCapacity_def traced_ctl_simps
    by (auto intro!: wpl_intros wpl_mono [OF wpl_sm_do_inv [where I = "good_log ev K"]] good_read)
  show "wpl (qListVolumes (traced_ctl c)) a (\<lambda>_. good_log ev K)" using assms unfolding qListVolumes_def
    by (auto intro!: wpl_intros wpl_mono [OF ensureFresh_wpl])
  show "wpl (qListSnapshots (traced_ctl c) src) a (\<lambda>_. good_log ev K)" using assms unfolding qListSnapshots_def
    by (auto intro!: wpl_intros wpl_mono [OF ensureFresh_wpl] foldIO_wpl wpl_mono [OF snapshotsForLUN_wpl] snapshotsForLUN_wpl)
qed

end

interpretation reading: reads_pass "\<lambda>_. read_only"
  by unfold_locales

interpretation creating: reads_pass create_ok
proof
  fix c a show "read_only c \<Longrightarrow> create_ok a c" by (cases c) auto
qed

interpretation modifying: reads_pass "modify_ok e" for e
proof
  fix c a show "read_only c \<Longrightarrow> modify_ok e a c" by (cases c) auto
qed

section \<open>Creation\<close>

lemma good_members: "good_log ev (insert c K) b \<longleftrightarrow> good_log ev K b \<and> c \<in> set b"
  by (auto simp: good_log_def)

lemma resize_create_wpl: "good_log create_ok (insert (MadeLUN (Ok i)) K) a \<Longrightarrow>
  wpl (resize_and_wait (traced_ctl c) i sz want) a (\<lambda>_. good_log create_ok (insert (MadeLUN (Ok i)) K))"
  unfolding resize_and_wait_def traced_ctl_simps
  by (rule wpl_sm_do_inv) (auto intro!: wpl_intros creating.good_snoc simp: good_members)

lemma growToRequested_wpl: "good_log create_ok (insert (MadeLUN (Ok i)) K) a \<Longrightarrow>
  wpl (growToRequested (traced_ctl c) i sz) a (\<lambda>_. good_log create_ok K)"
  unfolding growToRequested_def
  by (intro wpl_intros wpl_mono [OF creating.get_lun_wpl [where K = "insert (MadeLUN (Ok i)) K"]])
     (auto intro!: wpl_intros wpl_mono [OF resize_create_wpl] simp: good_members)

text \<open>A call that makes a LUN leaves it in the log.\<close>

lemma made_wpl:
  assumes "good_log create_ok K a" "\<And>s b Q. (\<And>r. Q r (b @ [MadeLUN r])) \<Longrightarrow> wpl (fn s) b Q"
  shows "wpl (sm_do (traced_sm sm) fn) a (\<lambda>r b. good_log create_ok K b \<and> (\<forall>i. r = Ok i \<longrightarrow> MadeLUN (Ok i) \<in> set b))"
  using assms(1) by (rule wpl_sm_do) (auto intro!: assms(2) creating.good_snoc creating.good_login)

lemma provisionLUN_wpl: "good_log create_ok K a \<Longrightarrow> wpl (provisionLUN (traced_ctl c) src vp n sz t) a (\<lambda>_. good_log create_ok K)"
  unfolding provisionLUN_def create_fresh_def traced_ctl_simps
  by (auto intro!: wpl_intros wpl_mono [OF made_wpl [where K = K]] wpl_mono [OF growToRequested_wpl] split: option.splits simp: good_members)

lemma resolveTarget_wpl: "good_log create_ok K a \<Longrightarrow>
  wpl (resolveTarget (traced_ctl c) n vp) a (\<lambda>r b. good_log create_ok K b \<and> (\<forall>t. r = Ok (t, True) \<longrightarrow> MadeTarget (Ok t) \<in> set b))"
  unfolding resolveTarget_def traced_ctl_simps
  by (auto intro!: wpl_intros creating.good_snoc creating.good_login
      wpl_mono [OF wpl_sm_do [where I = "good_log create_ok K" and Q = "\<lambda>r b. \<forall>t. r = Ok t \<longrightarrow> MadeTarget (Ok t) \<in> set b"]])

lemma rollback_wpl: "good_log create_ok {MadeTarget (Ok t)} a \<Longrightarrow>
  wpl (bestEffortDeleteTarget (traced_ctl c) t) a (\<lambda>_. good_log create_ok {MadeTarget (Ok t)})"
  unfolding bestEffortDeleteTarget_def traced_ctl_simps
  by (auto intro!: wpl_intros wpl_mono [OF wpl_sm_do_inv [where I = "good_log create_ok {MadeTarget (Ok t)}"]] creating.good_snoc
      creating.good_login simp: good_members)

lemma create_on_target_wpl:
  assumes g: "good_log create_ok {} a" "own \<longrightarrow> MadeTarget (Ok t) \<in> set a"
  shows "wpl (create_on_target (traced_ctl c) src vp n sz t own) a (\<lambda>_. good_log create_ok {})"
proof -
  let ?K = "if own then {MadeTarget (Ok t)} else {}"
  have "good_log create_ok ?K a" using g by (simp add: good_log_def)
  then show ?thesis unfolding create_on_target_def
    by (auto intro!: wpl_intros wpl_mono [OF provisionLUN_wpl [where K = ?K]] wpl_mono [OF rollback_wpl] wpl_mono [OF creating.assembleVolume_wpl [where K = "{}"]] wpl_Pair
        simp: good_log_def split: if_splits)
qed

lemma create_wpl: "wpl (qCreateVolume (traced_ctl c) req) [] (\<lambda>_. backed create_ok)"
proof -
  have "good_log create_ok {} []" by (simp add: good_log_def)
  then have "wpl (qCreateVolume (traced_ctl c) req) [] (\<lambda>_. good_log create_ok {})"
    unfolding qCreateVolume_def traced_ctl_simps
    by (auto intro!: wpl_intros wpl_mono [OF creating.findExistingVolume_wpl [where K = "{}"]] wpl_mono [OF resolveTarget_wpl [where K = "{}"]] create_on_target_wpl)
  then show ?thesis by (rule wpl_mono) (simp add: good_log_def)
qed

section \<open>Expansion and snapshots\<close>

lemma name_checked_got: "lnName lun = qeLUNName e \<Longrightarrow> name_checked e (x @ [GotLUN (qeLUNIndex e) (Ok lun)])"
  unfolding name_checked_def by (intro disjI2 exI [of _ x] exI [of _ lun] exI [of _ "[]"]) simp

lemma name_checked_snoc:
  assumes "name_checked e a" "c \<in> {LoggedIn, Looked, LUNResized (qeLUNIndex e), LUNSnapped (qeLUNIndex e)}"
  shows "name_checked e (a @ [c])"
proof (cases "qeLUNName e = []")
  case False
  then obtain x lun y where "a = x @ GotLUN (qeLUNIndex e) (Ok lun) # y" "lnName lun = qeLUNName e"
      "set y \<subseteq> {LoggedIn, Looked, LUNResized (qeLUNIndex e), LUNSnapped (qeLUNIndex e)}"
    using assms(1) unfolding name_checked_def by blast
  then show ?thesis using assms(2) unfolding name_checked_def
    by (intro disjI2 exI [of _ x] exI [of _ lun] exI [of _ "y @ [c]"]) auto
qed (simp add: name_checked_def)

definition checked_log :: "qnapExternalID \<Rightarrow> san_call list \<Rightarrow> bool" where
  "checked_log e a \<longleftrightarrow> backed (modify_ok e) a \<and> name_checked e a"

lemma checked_snoc: "checked_log e a \<Longrightarrow> c \<in> {LoggedIn, Looked, LUNResized (qeLUNIndex e), LUNSnapped (qeLUNIndex e)} \<Longrightarrow> checked_log e (a @ [c])"
  using name_checked_snoc by (auto simp: checked_log_def)

lemma ensure_wpl: "wpl (ensureLUNIsOurs (traced_ctl c) e) [] (\<lambda>r b. backed (modify_ok e) b \<and> (r = Ok () \<longrightarrow> name_checked e b))"
  unfolding ensureLUNIsOurs_def
  by (intro wpl_intros wpl_mono [OF modifying.get_lun_wpl [where K = "{}"]])
     (auto intro!: wpl_intros name_checked_got simp: good_log_def, auto simp: name_checked_def)

lemma expand_wpl: "qnapParseExternalID vid = Inr e \<Longrightarrow> wpl (qExpandVolume (traced_ctl c) vid cr) [] (\<lambda>_. backed (modify_ok e))"
  unfolding qExpandVolume_def resize_and_wait_def traced_ctl_simps
  by (auto intro!: wpl_intros wpl_mono [OF ensure_wpl] wpl_mono [OF wpl_sm_do_inv [where I = "checked_log e"]] checked_snoc)
     (auto simp: checked_log_def)

lemma snapshot_wpl: "qnapParseExternalID (csSourceVolumeID req) = Inr e \<Longrightarrow> wpl (qCreateSnapshot (traced_ctl c) req) [] (\<lambda>_. backed (modify_ok e))"
  unfolding qCreateSnapshot_def traced_ctl_simps
  by (auto intro!: wpl_intros wpl_mono [OF ensure_wpl] wpl_mono [OF wpl_sm_do_inv [where I = "checked_log e"]] checked_snoc)
     (auto simp: checked_log_def)

lemma delete_snapshot_wpl: "qnapParseSnapshotID sid = Inr n \<Longrightarrow>
  wpl (qDeleteSnapshot (traced_ctl c) sid) [] (\<lambda>_. list_all (\<lambda>x. read_only x \<or> x = SnapDeleted (qsSnapshotID n)))"
  unfolding qDeleteSnapshot_def traced_ctl_simps
  by (auto intro!: wpl_intros wpl_mono [OF wpl_sm_do_inv [where I = "list_all (\<lambda>x. read_only x \<or> x = SnapDeleted (qsSnapshotID n))"]])

end
