(* ===== verification/Qnap_Spec.thy ===== *)
theory Qnap_Spec
  imports Qnap_Safety
begin

text \<open>
  What the SAN controller relies on of the appliance, as the locale \<open>appliance\<close>: an abstract state
  (\<open>san\<close>: LUNs with name and size, targets with their alias, snapshots) behind the world of a client, and
  for each call of the client its documented effect. A call may always fail, for any reason; a failed
  call leaves the state as it was. An index that holds no LUN is reported by an error or by a row without
  a name. New LUNs and targets get an index that is free. Nothing is assumed of the session. The lemmas
  are the contracts of the controller's operations, for all outcomes. \<open>fake_client\<close> is the in-memory
  appliance of \<^verbatim>\<open>fakeclient_test.go\<close>, with sessions that can expire, and satisfies the laws.
\<close>

section \<open>The appliance\<close>

record san =
  saLUNs :: "int \<rightharpoonup> string \<times> int"
  saTargets :: "int \<rightharpoonup> string"
  saSnaps :: "(int \<times> int) set"

fun no_panic :: "'a res \<Rightarrow> bool" where
  "no_panic (Panic _) = False" | "no_panic _ = True"

definition snapshots_on :: "san \<Rightarrow> int \<Rightarrow> int set" where
  "snapshots_on s i = {n. (i, n) \<in> saSnaps s}"

lemma isAuthError_driver [simp]: "\<not> isAuthError (DriverErr c m None)"
  by (simp add: isAuthError_def errors_As_step [of _ "DriverErr c m None"])

lemma mapQNAPError_driver: "\<exists>c m. mapQNAPError op e = DriverErr c m None"
  by (auto simp: mapQNAPError_def driver_err_defs split: option.splits err.splits)

lemma mapQNAPError_not_auth [simp]: "\<not> isAuthError (mapQNAPError op e)"
  using mapQNAPError_driver [of op e] by auto

lemma state_wp: "wp (sm_reset sm) Q (w, q) = Q (Ok ()) (w, q\<lparr>qSess := SessZero (smClient sm)\<rparr>)"
  "wp (set_cache f) Q (w, q) = Q (Ok ()) (w, q\<lparr>qCache := f (qCache q)\<rparr>)" "wp get_cache P (w, q) = P (Ok (qCache q)) (w, q)"
  by (simp_all add: wp_def sm_reset_def set_cache_def get_cache_def)

lemma deferIO_wp: "wp (deferIO (set_cache f) m) Q v = wp m (\<lambda>r (w, q). Q r (w, q\<lparr>qCache := f (qCache q)\<rparr>)) v"
  by (auto simp: wp_def deferIO_def set_cache_def split: prod.splits)

text \<open>The effect of a deletion: at most the LUN of the id, with its name and without snapshots, and at most the
  owned target with that alias.\<close>

definition deletes_only :: "qnapExternalID \<Rightarrow> san \<Rightarrow> san \<Rightarrow> bool" where
  "deletes_only e S S' \<longleftrightarrow> saSnaps S' = saSnaps S \<and>
     (saLUNs S' = saLUNs S \<or> saLUNs S' = (saLUNs S)(qeLUNIndex e := None) \<and> snapshots_on S (qeLUNIndex e) = {} \<and>
        (\<exists>n c. saLUNs S (qeLUNIndex e) = Some (n, c) \<and> n \<noteq> [] \<and> (qeLUNName e \<noteq> [] \<longrightarrow> n = qeLUNName e))) \<and>
     (saTargets S' = saTargets S \<or> saTargets S' = (saTargets S)(qeTargetIndex e := None) \<and> qeOwnTarget e \<and>
        qeLUNName e \<noteq> [] \<and> saTargets S (qeTargetIndex e) = Some (qeLUNName e))"

locale appliance =
  fixes cl :: "'w Client" and san :: "'w \<Rightarrow> san"
  assumes login_law: "SanLogin cl u p w = (r, w') \<Longrightarrow> san w' = san w \<and> no_panic r"
    and get_lun_law: "GetLUN cl s i w = (rl, w') \<Longrightarrow> san w' = san w \<and> no_panic rl \<and> (\<forall>l. rl = Ok l \<longrightarrow>
      (case saLUNs (san w) i of None \<Rightarrow> lnName l = [] | Some (n, c) \<Rightarrow> lnIndex l = i \<and> lnName l = n \<and> lnCapacityBytes l = c))"
    and get_target_law: "GetTarget cl s i w = (rt, w') \<Longrightarrow> san w' = san w \<and> no_panic rt \<and>
      (\<forall>t. rt = Ok t \<longrightarrow> tgIndex t = i \<and> saTargets (san w) i = Some (tgAlias t))"
    and list_snaps_law: "SanListSnapshots cl s i w = (rs, w') \<Longrightarrow> san w' = san w \<and> no_panic rs \<and>
      (\<forall>ss. rs = Ok ss \<longrightarrow> qnID ` set ss = snapshots_on (san w) i)"
    and list_luns_law: "ListLUNs cl s w = (rll, w') \<Longrightarrow> san w' = san w \<and> no_panic rll \<and>
      (\<forall>ls. rll = Ok ls \<longrightarrow> (\<forall>l \<in> set ls. saLUNs (san w) (lnIndex l) = Some (lnName l, lnCapacityBytes l)))"
    and list_targets_law: "ListTargets cl s w = (rtl, w') \<Longrightarrow> san w' = san w \<and> no_panic rtl \<and>
      (\<forall>ts. rtl = Ok ts \<longrightarrow> (\<forall>t \<in> set ts. saTargets (san w) (tgIndex t) = Some (tgAlias t)))"
    and delete_lun_law: "DeleteLUN cl s i w = (ru, w') \<Longrightarrow> no_panic ru \<and>
      san w' = (if ru = Ok () then (san w)\<lparr>saLUNs := (saLUNs (san w))(i := None)\<rparr> else san w)"
    and unmap_law: "UnmapLUN cl s i t w = (ru, w') \<Longrightarrow> san w' = san w \<and> no_panic ru"
    and wait_gone_law: "WaitForLUNGone cl s i w = (ru, w') \<Longrightarrow> san w' = san w \<and> no_panic ru"
    and delete_target_law: "DeleteTarget cl s i w = (ru, w') \<Longrightarrow> no_panic ru \<and>
      san w' = (if ru = Ok () then (san w)\<lparr>saTargets := (saTargets (san w))(i := None)\<rparr> else san w)"
    and create_target_law: "CreateTarget cl s rqt w = (ri, w') \<Longrightarrow> no_panic ri \<and> (case ri of
        Ok t \<Rightarrow> saTargets (san w) t = None \<and> san w' = (san w)\<lparr>saTargets := (saTargets (san w))(t \<mapsto> ctAlias rqt)\<rparr> | _ \<Rightarrow> san w' = san w)"
    and create_lun_law: "CreateBlockLUN cl s rqb w = (ri, w') \<Longrightarrow> no_panic ri \<and> (case ri of
        Ok i \<Rightarrow> saLUNs (san w) i = None \<and> san w' = (san w)\<lparr>saLUNs := (saLUNs (san w))(i \<mapsto> (cbName rqb, mul64 (cbSizeGB rqb) giB))\<rparr>
      | _ \<Rightarrow> san w' = san w)"
    and from_snap_law: "CreateLUNFromSnapshot cl s rqc w = (ri, w') \<Longrightarrow> no_panic ri \<and> (case ri of
        Ok i \<Rightarrow> saLUNs (san w) i = None \<and> (\<exists>n. san w' = (san w)\<lparr>saLUNs := (saLUNs (san w))(i \<mapsto> (cpName rqc, n))\<rparr>) | _ \<Rightarrow> san w' = san w)"
    and clone_law: "CloneLUN cl s rqc w = (ri, w') \<Longrightarrow> no_panic ri \<and> (case ri of
        Ok i \<Rightarrow> saLUNs (san w) i = None \<and> (\<exists>n. san w' = (san w)\<lparr>saLUNs := (saLUNs (san w))(i \<mapsto> (cpName rqc, n))\<rparr>) | _ \<Rightarrow> san w' = san w)"
    and resize_law: "ResizeLUN cl s i gb w = (ru, w') \<Longrightarrow> no_panic ru \<and>
      san w' = (if ru = Ok () then (san w)\<lparr>saLUNs := (saLUNs (san w))(i := map_option (\<lambda>(n, _). (n, mul64 gb giB)) (saLUNs (san w) i))\<rparr> else san w)"
    and wait_resize_law: "WaitForResizeComplete cl s i n w = (rl, w') \<Longrightarrow> san w' = san w \<and> no_panic rl"
    and create_snap_law: "SanCreateSnapshot cl s i nm w = (rn, w') \<Longrightarrow> no_panic rn \<and> (case rn of
        Ok sn \<Rightarrow> san w' = (san w)\<lparr>saSnaps := insert (i, qnID sn) (saSnaps (san w))\<rparr> | _ \<Rightarrow> san w' = san w)"
    and delete_snap_law: "SanDeleteSnapshot cl s n w = (ru, w') \<Longrightarrow> no_panic ru \<and>
      san w' = (if ru = Ok () then (san w)\<lparr>saSnaps := {p \<in> saSnaps (san w). snd p \<noteq> n}\<rparr> else san w)"
    and wait_snap_law: "WaitForSnapshotGone cl s i n w = (ru, w') \<Longrightarrow> san w' = san w \<and> no_panic ru"
    and get_pool_law: "GetPool cl s n w = (rp, w') \<Longrightarrow> san w' = san w \<and> no_panic rp"
begin

text \<open>The rules of the calls, for the weakest precondition of an operation.\<close>

lemma read_wp:
  assumes "\<And>r w'. m w = (r, w') \<Longrightarrow> san w' = san w \<and> no_panic r \<and> (\<forall>a. r = Ok a \<longrightarrow> P a)"
    and "\<And>a w'. san w' = san w \<Longrightarrow> P a \<Longrightarrow> Q (Ok a) (w', q)" "\<And>e w'. san w' = san w \<Longrightarrow> Q (Fail e) (w', q)"
  shows "wp (on_san m) Q (w, q)"
proof (rule wpI)
  fix r w' assume r: "on_san m (w, q) = (r, w')"
  then obtain v where v: "m w = (r, v)" "w' = (v, q)" by (auto simp: on_san_def split: prod.splits)
  then show "Q r w'" using assms(1) [OF v(1)] assms(2,3) by (cases r) auto
qed

lemma get_lun_wp:
  assumes "\<And>l w'. san w' = san w \<Longrightarrow> (case saLUNs (san w) i of None \<Rightarrow> lnName l = [] | Some (n, c) \<Rightarrow> lnIndex l = i \<and> lnName l = n \<and> lnCapacityBytes l = c) \<Longrightarrow> Q (Ok l) (w', q)"
    and "\<And>e w'. san w' = san w \<Longrightarrow> Q (Fail e) (w', q)"
  shows "wp (on_san (GetLUN cl s i)) Q (w, q)"
  by (rule read_wp [OF get_lun_law]) (auto intro: assms)

lemma get_target_wp:
  assumes "\<And>t w'. san w' = san w \<Longrightarrow> tgIndex t = i \<Longrightarrow> saTargets (san w) i = Some (tgAlias t) \<Longrightarrow> Q (Ok t) (w', q)"
    and "\<And>e w'. san w' = san w \<Longrightarrow> Q (Fail e) (w', q)"
  shows "wp (on_san (GetTarget cl s i)) Q (w, q)"
  by (rule read_wp [OF get_target_law]) (auto intro: assms)

lemma list_snaps_wp:
  assumes "\<And>ss w'. san w' = san w \<Longrightarrow> qnID ` set ss = snapshots_on (san w) i \<Longrightarrow> Q (Ok ss) (w', q)"
    and "\<And>e w'. san w' = san w \<Longrightarrow> Q (Fail e) (w', q)"
  shows "wp (on_san (SanListSnapshots cl s i)) Q (w, q)"
  by (rule read_wp [OF list_snaps_law]) (auto intro: assms)

lemma quiet_san_wp:
  assumes "\<And>r w'. san w' = san w \<Longrightarrow> no_panic r \<Longrightarrow> Q r (w', q)"
  shows "wp (on_san (UnmapLUN cl s i t)) Q (w, q)" "wp (on_san (WaitForLUNGone cl s i)) Q (w, q)"
  using unmap_law wait_gone_law assms by (auto intro!: read_wp [where P = "\<lambda>_. True"])

lemma delete_lun_wp:
  assumes "\<And>w'. san w' = (san w)\<lparr>saLUNs := (saLUNs (san w))(i := None)\<rparr> \<Longrightarrow> Q (Ok ()) (w', q)" "\<And>e w'. san w' = san w \<Longrightarrow> Q (Fail e) (w', q)"
  shows "wp (on_san (DeleteLUN cl s i)) Q (w, q)"
proof (rule wpI)
  fix r w' assume "on_san (DeleteLUN cl s i) (w, q) = (r, w')"
  then obtain v where v: "DeleteLUN cl s i w = (r, v)" "w' = (v, q)" by (auto simp: on_san_def split: prod.splits)
  then show "Q r w'" using delete_lun_law [OF v(1)] assms by (cases r) auto
qed

lemma delete_target_wp:
  assumes "\<And>w'. san w' = (san w)\<lparr>saTargets := (saTargets (san w))(i := None)\<rparr> \<Longrightarrow> Q (Ok ()) (w', q)" "\<And>e w'. san w' = san w \<Longrightarrow> Q (Fail e) (w', q)"
  shows "wp (on_san (DeleteTarget cl s i)) Q (w, q)"
proof (rule wpI)
  fix r w' assume "on_san (DeleteTarget cl s i) (w, q) = (r, w')"
  then obtain v where v: "DeleteTarget cl s i w = (r, v)" "w' = (v, q)" by (auto simp: on_san_def split: prod.splits)
  then show "Q r w'" using delete_target_law [OF v(1)] assms by (cases r) auto
qed

lemma sm_get_wp:
  assumes "smClient sm = cl"
    and "\<And>s w' q'. san w' = san w \<Longrightarrow> qCache q' = qCache q \<Longrightarrow> Q (Ok s) (w', q')"
    and "\<And>e w' q'. san w' = san w \<Longrightarrow> qCache q' = qCache q \<Longrightarrow> Q (Fail e) (w', q')"
  shows "wp (sm_get sm) Q (w, q)"
proof (cases "SessValid cl (qSess q)")
  case True
  then show ?thesis using assms by (simp add: wp_def sm_get_def)
next
  case False
  obtain r w' where r: "SanLogin cl (smUser sm) (smPass sm) w = (r, w')" by fastforce
  then show ?thesis using False assms login_law [OF r] by (cases r) (simp_all add: wp_def sm_get_def)
qed

text \<open>A closure under the session manager, run once or twice: \<open>J\<close> is what holds between the calls.\<close>

lemma sm_do_wp:
  assumes sm: "smClient sm = cl" and J: "J (san w) (qCache q)"
    and fn: "\<And>s w q. J (san w) (qCache q) \<Longrightarrow> wp (fn s) (\<lambda>r (w', q'). Q r (w', q') \<and> (\<forall>e. r = Fail e \<and> isAuthError e \<longrightarrow> J (san w') (qCache q'))) (w, q)"
    and fl: "\<And>e w q. J (san w) (qCache q) \<Longrightarrow> Q (Fail e) (w, q)"
  shows "wp (sm_do sm fn) Q (w, q)"
proof -
  have again: "wp (bindIO (sm_reset sm) (\<lambda>_. bindIO (sm_get sm) fn)) Q (w, q)" if "J (san w) (qCache q)" for w q
  proof -
    have "wp (sm_get sm) (after (\<lambda>a. wp (fn a) Q) Q) (w, q\<lparr>qSess := SessZero (smClient sm)\<rparr>)"
    proof (rule sm_get_wp [OF sm])
      fix s and w' :: 'w and q' :: qstate assume "san w' = san w" "qCache q' = qCache (q\<lparr>qSess := SessZero (smClient sm)\<rparr>)"
      then have "J (san w') (qCache q')" using that by simp
      then show "after (\<lambda>a. wp (fn a) Q) Q (Ok s) (w', q')" using wp_mono [OF fn] by (fastforce simp: after_def)
      show "after (\<lambda>a. wp (fn a) Q) Q (Fail e) (w', q')" for e using \<open>J (san w') (qCache q')\<close> fl by (simp add: after_def)
    qed
    then show ?thesis by (simp add: wp_bindIO state_wp)
  qed
  show ?thesis unfolding sm_do_def wp_bindIO
  proof (rule sm_get_wp [OF sm])
    fix s and w' :: 'w and q' :: qstate assume "san w' = san w" "qCache q' = qCache q"
    then have j: "J (san w') (qCache q')" using J by simp
    have "wp (tryIO (fn s) (\<lambda>r. case r of Inl e \<Rightarrow> if isAuthError e then bindIO (sm_reset sm) (\<lambda>_. bindIO (sm_get sm) fn) else fail e
      | Inr a \<Rightarrow> ret a)) Q (w', q')"
      unfolding wp_tryIO by (rule wp_mono [OF fn [OF j, of s]]) (auto simp: wp_ret wp_fail again split: res.splits)
    then show "after (\<lambda>a. wp (tryIO (fn a) (\<lambda>r. case r of Inl e \<Rightarrow> if isAuthError e then bindIO (sm_reset sm) (\<lambda>_. bindIO (sm_get sm) fn) else fail e
      | Inr a \<Rightarrow> ret a)) Q) Q (Ok s) (w', q')" by (simp add: after_def)
    show "after (\<lambda>a. wp (tryIO (fn a) (\<lambda>r. case r of Inl e \<Rightarrow> if isAuthError e then bindIO (sm_reset sm) (\<lambda>_. bindIO (sm_get sm) fn) else fail e
      | Inr a \<Rightarrow> ret a)) Q) Q (Fail e) (w', q')" for e using j fl by (simp add: after_def)
  qed
qed

lemma delete_target_spec:
  assumes "\<And>w'. san w' = san w \<or> san w' = (san w)\<lparr>saTargets := (saTargets (san w))(qeTargetIndex e := None)\<rparr> \<and> qeOwnTarget e \<and>
      qeLUNName e \<noteq> [] \<and> saTargets (san w) (qeTargetIndex e) = Some (qeLUNName e) \<Longrightarrow> Q (Ok ()) (w', q)"
  shows "wp (delete_target cl s e) Q (w, q)"
  unfolding delete_target_def targetIsOurs_def using assms
  by (auto simp: wp_simps intro!: get_target_wp delete_target_wp)

lemma delete_lun_spec:
  assumes "saLUNs (san w) (qeLUNIndex e) = Some (n, c)" "n \<noteq> []" "qeLUNName e \<noteq> [] \<longrightarrow> n = qeLUNName e"
    and "\<And>r w'. (san w' = san w \<or> san w' = (san w)\<lparr>saLUNs := (saLUNs (san w))(qeLUNIndex e := None)\<rparr> \<and> snapshots_on (san w) (qeLUNIndex e) = {}) \<Longrightarrow>
      no_panic r \<Longrightarrow> (\<forall>x. r = Fail x \<longrightarrow> (\<exists>k m. x = DriverErr k m None)) \<Longrightarrow> Q r (w', q)"
  shows "wp (delete_lun cl s e) Q (w, q)"
  unfolding delete_lun_def lunGone_def using mapQNAPError_driver
  by (auto simp: wp_simps driver_err_defs intro!: list_snaps_wp quiet_san_wp delete_lun_wp get_lun_wp assms(4) split: res.splits)

lemma delete_body_spec:
  "wp (delete_body cl e s) (\<lambda>r (w', q'). q' = q \<and> no_panic r \<and> deletes_only e (san w) (san w') \<and> (\<forall>x. r = Fail x \<longrightarrow> (\<exists>k m. x = DriverErr k m None))) (w, q)"
proof -
  let ?Q = "\<lambda>r (w', q'). q' = q \<and> no_panic r \<and> deletes_only e (san w) (san w') \<and> (\<forall>x. r = Fail x \<longrightarrow> (\<exists>k m. x = DriverErr k m None))"
  have tail: "wp (delete_target cl s e) ?Q (w', q)"
    if "san w' = san w \<or> san w' = (san w)\<lparr>saLUNs := (saLUNs (san w))(qeLUNIndex e := None)\<rparr> \<and> snapshots_on (san w) (qeLUNIndex e) = {} \<and>
        (\<exists>n c. saLUNs (san w) (qeLUNIndex e) = Some (n, c) \<and> n \<noteq> [] \<and> (qeLUNName e \<noteq> [] \<longrightarrow> n = qeLUNName e))" for w'
    by (rule delete_target_spec) (use that in \<open>auto simp: deletes_only_def\<close>)
  show ?thesis unfolding delete_body_def wp_tryIO
  proof (rule get_lun_wp)
    fix l w' assume s: "san w' = san w" and l: "case saLUNs (san w) (qeLUNIndex e) of None \<Rightarrow> lnName l = [] | Some (n, c) \<Rightarrow> lnIndex l = qeLUNIndex e \<and> lnName l = n \<and> lnCapacityBytes l = c"
    have "wp (delete_lun cl s e) (after (\<lambda>_. wp (delete_target cl s e) ?Q) ?Q) (w', q)"
      if n: "lnName l \<noteq> []" "\<not> (qeLUNName e \<noteq> [] \<and> lnName l \<noteq> qeLUNName e)"
    proof -
      obtain c where c: "saLUNs (san w') (qeLUNIndex e) = Some (lnName l, c)" using l n s by (auto split: option.splits)
      show ?thesis
      proof (rule delete_lun_spec [OF c])
        fix r w1 assume r: "san w1 = san w' \<or> san w1 = (san w')\<lparr>saLUNs := (saLUNs (san w'))(qeLUNIndex e := None)\<rparr> \<and> snapshots_on (san w') (qeLUNIndex e) = {}"
          "no_panic r" "\<forall>x. r = Fail x \<longrightarrow> (\<exists>k m. x = DriverErr k m None)"
        then show "after (\<lambda>_. wp (delete_target cl s e) ?Q) ?Q r (w1, q)"
          using tail [of w1] s c n by (cases r) (auto simp: deletes_only_def)
      qed (use n in auto)
    qed
    then show "case Ok l of Ok a \<Rightarrow> wp (bindIO (case Inr a of Inl _ \<Rightarrow> ret () | Inr lun \<Rightarrow> if lnName lun = [] then ret () else if qeLUNName e \<noteq> [] \<and> lnName lun \<noteq> qeLUNName e then ret () else delete_lun cl s e) (\<lambda>_. delete_target cl s e)) ?Q (w', q)
      | Fail ea \<Rightarrow> wp (bindIO (case Inl ea of Inl _ \<Rightarrow> ret () | Inr lun \<Rightarrow> if lnName lun = [] then ret () else if qeLUNName e \<noteq> [] \<and> lnName lun \<noteq> qeLUNName e then ret () else delete_lun cl s e) (\<lambda>_. delete_target cl s e)) ?Q (w', q)
      | Panic p \<Rightarrow> ?Q (Panic p) (w', q)"
      using tail [of w'] s by (auto simp: wp_simps)
  qed (use tail in \<open>auto simp: wp_simps\<close>)
qed

lemma delete_spec:
  assumes "smClient (qkSM c) = cl" "qnapParseExternalID vid = Inr e"
  shows "wp (qDeleteVolume c vid) (\<lambda>r (w', q'). no_panic r \<and> deletes_only e (san w) (san w') \<and> qCache q' = removeLUN (qeLUNIndex e) (qCache q)) (w, q)"
proof -
  let ?Q = "\<lambda>r (w', q'). no_panic r \<and> deletes_only e (san w) (san w') \<and> qCache q' = qCache q"
  have "wp (sm_do (qkSM c) (delete_body cl e)) ?Q (w, q)"
    by (rule sm_do_wp [OF assms(1), where J = "\<lambda>S ca. S = san w \<and> ca = qCache q"]) (auto intro!: wp_mono [OF delete_body_spec] simp: deletes_only_def)
  then show ?thesis unfolding qDeleteVolume_def using assms by (auto simp: wp_simps deferIO_wp elim!: wp_mono)
qed

end

section \<open>An appliance that answers\<close>

definition target_after :: "qnapExternalID \<Rightarrow> san \<Rightarrow> (int \<rightharpoonup> string)" where
  "target_after e S = (if qeOwnTarget e \<and> qeLUNName e \<noteq> [] \<and> saTargets S (qeTargetIndex e) = Some (qeLUNName e)
     then (saTargets S)(qeTargetIndex e := None) else saTargets S)"

text \<open>The appliance still holds the LUN that an id names, and its state once the volume is deleted.\<close>

definition holds_volume :: "qnapExternalID \<Rightarrow> san \<Rightarrow> bool" where
  "holds_volume e S \<longleftrightarrow> (\<exists>n c. saLUNs S (qeLUNIndex e) = Some (n, c) \<and> n \<noteq> [] \<and> (qeLUNName e \<noteq> [] \<longrightarrow> n = qeLUNName e))"

definition deleted :: "qnapExternalID \<Rightarrow> san \<Rightarrow> san" where
  "deleted e S = S\<lparr>saLUNs := (if holds_volume e S then (saLUNs S)(qeLUNIndex e := None) else saLUNs S), saTargets := target_after e S\<rparr>"

text \<open>What asking for the LUN tells of that.\<close>

definition sees :: "qnapExternalID \<Rightarrow> san \<Rightarrow> LUN res \<Rightarrow> bool" where
  "sees e S r \<longleftrightarrow> no_panic r \<and>
     (if holds_volume e S then \<exists>l. r = Ok l \<and> lnName l \<noteq> [] \<and> (qeLUNName e \<noteq> [] \<longrightarrow> lnName l = qeLUNName e)
      else \<forall>l. r = Ok l \<longrightarrow> lnName l = [] \<or> qeLUNName e \<noteq> [] \<and> lnName l \<noteq> qeLUNName e)"

text \<open>A session the appliance accepts stays accepted, and calls under it on objects that exist succeed.\<close>

locale responsive = appliance cl san for cl :: "'w Client" and san :: "'w \<Rightarrow> san" +
  fixes alive :: "'w \<Rightarrow> string \<Rightarrow> bool"
  assumes get_lun_up: "alive w s \<Longrightarrow> GetLUN cl s i w = (rl, w') \<Longrightarrow> alive w' = alive w \<and> (saLUNs (san w) i \<noteq> None \<longrightarrow> (\<exists>l. rl = Ok l))"
    and get_target_up: "alive w s \<Longrightarrow> GetTarget cl s i w = (rt, w') \<Longrightarrow> alive w' = alive w \<and> (saTargets (san w) i \<noteq> None \<longrightarrow> (\<exists>t. rt = Ok t))"
    and list_snaps_up: "alive w s \<Longrightarrow> SanListSnapshots cl s i w = (rs, w') \<Longrightarrow> alive w' = alive w \<and> (\<exists>ss. rs = Ok ss)"
    and unmap_up: "alive w s \<Longrightarrow> UnmapLUN cl s i t w = (ru, w') \<Longrightarrow> alive w' = alive w"
    and delete_lun_up: "alive w s \<Longrightarrow> DeleteLUN cl s i w = (ru, w') \<Longrightarrow> alive w' = alive w \<and> (saLUNs (san w) i \<noteq> None \<longrightarrow> ru = Ok ())"
    and wait_gone_up: "alive w s \<Longrightarrow> WaitForLUNGone cl s i w = (ru, w') \<Longrightarrow> alive w' = alive w \<and> (saLUNs (san w) i = None \<longrightarrow> ru = Ok ())"
    and delete_target_up: "alive w s \<Longrightarrow> DeleteTarget cl s i w = (ru, w') \<Longrightarrow> saTargets (san w) i \<noteq> None \<Longrightarrow> ru = Ok ()"
begin

lemma up_wp:
  assumes "\<And>r w'. m w = (r, w') \<Longrightarrow> Q r (w', q)"
  shows "wp (on_san m) Q (w, q)"
  using assms by (auto simp: wp_def on_san_def split: prod.splits)

lemma delete_target_up_spec:
  assumes "alive w s"
  shows "wp (delete_target cl s e) (\<lambda>r (w', q'). r = Ok () \<and> q' = q \<and> san w' = (san w)\<lparr>saTargets := target_after e (san w)\<rparr>) (w, q)"
proof -
  have g: "wp (on_san (GetTarget cl s (qeTargetIndex e))) (\<lambda>r (w', q'). q' = q \<and> san w' = san w \<and> alive w' s \<and> no_panic r \<and>
      (saTargets (san w) (qeTargetIndex e) \<noteq> None \<longrightarrow> (\<exists>t. r = Ok t)) \<and> (\<forall>t. r = Ok t \<longrightarrow> saTargets (san w) (qeTargetIndex e) = Some (tgAlias t))) (w, q)"
    using get_target_law get_target_up [OF assms] assms by (intro up_wp) fastforce
  have d: "wp (on_san (DeleteTarget cl s (qeTargetIndex e))) (\<lambda>r (w2, q'). q' = q \<and> no_panic r \<and>
      san w2 = (san w')\<lparr>saTargets := (saTargets (san w'))(qeTargetIndex e := None)\<rparr>) (w', q)"
    if "alive w' s" "saTargets (san w') (qeTargetIndex e) \<noteq> None" for w'
    using delete_target_law delete_target_up [OF that(1) _ that(2)] by (intro up_wp) fastforce
  show ?thesis unfolding delete_target_def targetIsOurs_def
    by (auto simp: wp_simps target_after_def intro!: wp_mono [OF g] wp_mono [OF d] split: res.splits)
qed

lemma delete_lun_up_spec:
  assumes "alive w s" "saLUNs (san w) (qeLUNIndex e) \<noteq> None"
  shows "wp (delete_lun cl s e) (\<lambda>r (w', q'). q' = q \<and> alive w' s \<and> (if snapshots_on (san w) (qeLUNIndex e) \<noteq> {}
    then san w' = san w \<and> r = Fail (FailedPrecondition ''volume %s still has %d snapshot(s); delete them first'')
    else r = Ok () \<and> san w' = (san w)\<lparr>saLUNs := (saLUNs (san w))(qeLUNIndex e := None)\<rparr>)) (w, q)"
proof -
  let ?i = "qeLUNIndex e"
  have l: "wp (on_san (SanListSnapshots cl s ?i)) (\<lambda>r (w', q'). q' = q \<and> san w' = san w \<and> alive w' s \<and>
      (\<exists>ss. r = Ok ss \<and> (ss = [] \<longleftrightarrow> snapshots_on (san w) ?i = {}))) (w, q)"
    using list_snaps_law list_snaps_up [OF assms(1)] assms(1) by (intro up_wp) fastforce
  have u: "wp (on_san (UnmapLUN cl s ?i t)) (\<lambda>r (w2, q'). q' = q \<and> san w2 = san w' \<and> alive w2 s \<and> no_panic r) (w', q)" if "alive w' s" for w' t
    using unmap_law unmap_up [OF that] that by (intro up_wp) fastforce
  have d: "wp (on_san (DeleteLUN cl s ?i)) (\<lambda>r (w2, q'). q' = q \<and> alive w2 s \<and> r = Ok () \<and> san w2 = (san w')\<lparr>saLUNs := (saLUNs (san w'))(?i := None)\<rparr>) (w', q)"
    if "alive w' s" "saLUNs (san w') ?i \<noteq> None" for w'
    using delete_lun_law delete_lun_up [OF that(1)] that by (intro up_wp) fastforce
  have g: "wp (on_san (WaitForLUNGone cl s ?i)) (\<lambda>r (w2, q'). q' = q \<and> alive w2 s \<and> r = Ok () \<and> san w2 = san w') (w', q)"
    if "alive w' s" "saLUNs (san w') ?i = None" for w'
    using wait_gone_law wait_gone_up [OF that(1)] that by (intro up_wp) fastforce
  show ?thesis unfolding delete_lun_def using assms
    by (auto simp: wp_simps intro!: wp_mono [OF l] wp_mono [OF u] wp_mono [OF d] wp_mono [OF g] split: res.splits)
qed

lemma get_lun_up_wp:
  assumes "alive w s"
  shows "wp (on_san (GetLUN cl s (qeLUNIndex e))) (\<lambda>r (w', q'). q' = q \<and> san w' = san w \<and> alive w' s \<and> sees e (san w) r) (w, q)"
proof (rule up_wp)
  fix r w' assume r: "GetLUN cl s (qeLUNIndex e) w = (r, w')"
  show "case (w', q) of (w', q') \<Rightarrow> q' = q \<and> san w' = san w \<and> alive w' s \<and> sees e (san w) r"
    using get_lun_law [OF r] get_lun_up [OF assms r] assms
    by (cases "saLUNs (san w) (qeLUNIndex e)") (auto simp: holds_volume_def sees_def)
qed

lemma delete_body_up_spec:
  assumes "alive w s"
  shows "wp (delete_body cl e s) (\<lambda>r (w', q'). q' = q \<and> (if holds_volume e (san w) \<and> snapshots_on (san w) (qeLUNIndex e) \<noteq> {}
    then san w' = san w \<and> r = Fail (FailedPrecondition ''volume %s still has %d snapshot(s); delete them first'')
    else r = Ok () \<and> san w' = deleted e (san w))) (w, q)" (is "wp _ ?Q _")
proof -
  have skip: "wp (delete_target cl s e) ?Q (w', q)" if "alive w' s" "san w' = san w" "\<not> holds_volume e (san w)" for w'
    by (rule wp_mono [OF delete_target_up_spec [OF that(1)]]) (use that in \<open>auto simp: deleted_def\<close>)
  have lun: "wp (delete_lun cl s e) (after (\<lambda>_. wp (delete_target cl s e) ?Q) ?Q) (w', q)" if a: "alive w' s" "san w' = san w" and h: "holds_volume e (san w)" for w'
  proof -
    have gone: "wp (delete_target cl s e) ?Q (w2, q)"
      if "alive w2 s" "san w2 = (san w)\<lparr>saLUNs := (saLUNs (san w))(qeLUNIndex e := None)\<rparr>" "snapshots_on (san w) (qeLUNIndex e) = {}" for w2
      by (rule wp_mono [OF delete_target_up_spec [OF that(1)]]) (use that h in \<open>auto simp: deleted_def target_after_def\<close>)
    have "saLUNs (san w') (qeLUNIndex e) \<noteq> None" using a h by (auto simp: holds_volume_def)
    then show ?thesis using a h gone by (auto intro!: wp_mono [OF delete_lun_up_spec [OF a(1)]] split: if_splits)
  qed
  show ?thesis unfolding delete_body_def wp_tryIO
  proof (rule wp_mono [OF get_lun_up_wp [OF assms]])
    fix r v assume v: "case v of (w', q') \<Rightarrow> q' = q \<and> san w' = san w \<and> alive w' s \<and> sees e (san w) r"
    obtain w' where w': "v = (w', q)" "san w' = san w" "alive w' s" using v by auto
    show "case r of Ok a \<Rightarrow> wp (bindIO (case Inr a of Inl _ \<Rightarrow> ret () | Inr lun \<Rightarrow> if lnName lun = [] then ret ()
        else if qeLUNName e \<noteq> [] \<and> lnName lun \<noteq> qeLUNName e then ret () else delete_lun cl s e) (\<lambda>_. delete_target cl s e)) ?Q v
      | Fail ea \<Rightarrow> wp (bindIO (case Inl ea of Inl _ \<Rightarrow> ret () | Inr lun \<Rightarrow> if lnName lun = [] then ret ()
        else if qeLUNName e \<noteq> [] \<and> lnName lun \<noteq> qeLUNName e then ret () else delete_lun cl s e) (\<lambda>_. delete_target cl s e)) ?Q v
      | Panic p \<Rightarrow> ?Q (Panic p) v"
      using v w' skip [of w'] lun [of w'] by (cases r; cases "holds_volume e (san w)") (auto simp: wp_simps sees_def)
  qed
qed

lemma delete_up_spec:
  assumes "smClient (qkSM c) = cl" "qnapParseExternalID vid = Inr e" "SessValid cl (qSess q)" "alive w (qSess q)"
  shows "wp (qDeleteVolume c vid) (\<lambda>r (w', q'). if holds_volume e (san w) \<and> snapshots_on (san w) (qeLUNIndex e) \<noteq> {}
    then san w' = san w \<and> r = Fail (FailedPrecondition ''volume %s still has %d snapshot(s); delete them first'')
    else r = Ok () \<and> san w' = deleted e (san w)) (w, q)"
proof -
  have get: "wp (sm_get (qkSM c)) P (w, q) = P (Ok (qSess q)) (w, q)" for P using assms by (simp add: wp_def sm_get_def)
  show ?thesis unfolding qDeleteVolume_def assms(1,2) liftE_def
    by (simp add: wp_simps deferIO_wp sm_do_def get)
      (rule wp_mono [OF delete_body_up_spec [OF assms(4), of e q]], auto simp: wp_simps driver_err_defs split: if_splits)
qed

end

end
