(* ===== verification/Qnap_Index.thy ===== *)
theory Qnap_Index
  imports Qnap_Spec
begin

text \<open>
  The index of the SAN controller against the appliance, and the contract of CreateVolume. \<open>index_ok\<close> says
  that every name of the index is the name of the LUN at the index the entry records; as long as nobody
  else changes the appliance, every operation of the controller keeps it, although the index may be a
  minute old. Under it a create gives an id that names a LUN of the requested name, and in any case no
  create changes a LUN, a target or a snapshot that existed before. Each operation is described by one
  relation between the appliance before, the outcome and the appliance after, for every behaviour the
  laws of \<open>appliance\<close> allow.
\<close>

section \<open>The invariant and the frame\<close>

lemma set_AList_delete: "set (AList.delete k xs) = {p \<in> set xs. fst p \<noteq> k}"
  by (auto simp: AList.delete_eq)

lemma set_AList_update: "distinct (map fst xs) \<Longrightarrow> set (AList.update k v xs) = insert (k, v) {p \<in> set xs. fst p \<noteq> k}"
  by (induction xs) (force simp: image_iff)+

definition index_ok :: "san \<Rightarrow> lunCache \<Rightarrow> bool" where
  "index_ok S ca \<longleftrightarrow> distinct (map fst (byName ca)) \<and>
     (\<forall>(n, l) \<in> set (byName ca). lnName l = n \<and> (\<exists>c. saLUNs S (lnIndex l) = Some (n, c)))"

definition extends :: "san \<Rightarrow> san \<Rightarrow> bool" where
  "extends S S' \<longleftrightarrow> saLUNs S \<subseteq>\<^sub>m saLUNs S' \<and> saTargets S \<subseteq>\<^sub>m saTargets S' \<and> saSnaps S' = saSnaps S"

lemma extends_refl [simp]: "extends S S"
  by (simp add: extends_def)

lemma extends_trans: "extends S T \<Longrightarrow> extends T U \<Longrightarrow> extends S U"
  by (auto simp: extends_def intro: map_le_trans)

lemma map_le_fresh: "m k = None \<Longrightarrow> m \<subseteq>\<^sub>m m(k := v)"
  by (auto simp: map_le_def)

lemma map_le_removed: "m k = None \<Longrightarrow> m \<subseteq>\<^sub>m m' \<Longrightarrow> m \<subseteq>\<^sub>m m'(k := None)"
  by (auto simp: map_le_def)

lemma index_ok_new [simp]: "index_ok S newLUNCache"
  by (simp add: index_ok_def newLUNCache_def)

text \<open>The index survives every change that keeps the names of its LUNs.\<close>

lemma index_ok_names:
  assumes "index_ok S ca" "\<And>i n c. saLUNs S i = Some (n, c) \<Longrightarrow> \<exists>c'. saLUNs S' i = Some (n, c')"
  shows "index_ok S' ca"
  using assms by (fastforce simp: index_ok_def)

lemma index_ok_extends: "index_ok S ca \<Longrightarrow> extends S S' \<Longrightarrow> index_ok S' ca"
  by (erule index_ok_names) (auto simp: extends_def map_le_def dom_def)

lemma index_ok_entry: "index_ok S ca \<Longrightarrow> (n, l) \<in> set (byName ca) \<Longrightarrow> lnName l = n \<and> (\<exists>c. saLUNs S (lnIndex l) = Some (n, c))"
  by (auto simp: index_ok_def)

lemma index_ok_lookup: "index_ok S ca \<Longrightarrow> lookupByName ca n = Some l \<Longrightarrow> lnName l = n \<and> (\<exists>c. saLUNs S (lnIndex l) = Some (n, c))"
  by (force simp: index_ok_def lookupByName_def dest: map_of_SomeD)

lemma index_ok_add:
  assumes "index_ok S ca" "saLUNs S (lnIndex l) = Some (lnName l, c)"
  shows "index_ok S (addLUN l t ca)"
  using assms by (auto simp: index_ok_def addLUN_def distinct_update set_AList_update dest!: bspec split: if_splits)

lemma index_luns_keys: "distinct (map fst (fold (\<lambda>l m. AList.update (lnName l) l m) ls m))" if "distinct (map fst m)"
  using that by (induction ls arbitrary: m) (auto simp: distinct_update)

lemma index_luns_entries: "(n, l) \<in> set (fold (\<lambda>l m. AList.update (lnName l) l m) ls m) \<Longrightarrow> distinct (map fst m) \<Longrightarrow>
  (n, l) \<in> set m \<or> l \<in> set ls \<and> n = lnName l"
proof (induction ls arbitrary: m)
  case (Cons a ls)
  then show ?case using Cons.IH [of "AList.update (lnName a) a m"] by (auto simp: distinct_update set_AList_update)
qed simp

lemma index_ok_fetched:
  assumes "\<forall>l \<in> set ls. saLUNs S (lnIndex l) = Some (lnName l, lnCapacityBytes l)"
  shows "index_ok S \<lparr>byName = index_luns ls, lunToTarget = tm, cacheLoaded = b, lastRefresh = t\<rparr>"
  using assms index_luns_entries [of _ _ ls "[]"] by (fastforce simp: index_ok_def index_luns_def index_luns_keys)

lemma index_ok_remove:
  assumes "index_ok S ca"
  shows "index_ok (S\<lparr>saLUNs := (saLUNs S)(i := None), saTargets := tm\<rparr>) (removeLUN i ca)" "index_ok S (removeLUN i ca)"
proof -
  let ?b = "byName (removeLUN i ca)"
  have sub: "set ?b \<subseteq> set (byName ca)" "distinct (map fst ?b)"
    using assms by (auto simp: removeLUN_def index_ok_def distinct_delete set_AList_delete split: option.splits)
  show "index_ok S (removeLUN i ca)" using assms sub by (auto simp: index_ok_def)
  have "lnIndex l \<noteq> i" if l: "(n, l) \<in> set ?b" for n l
  proof
    assume i: "lnIndex l = i"
    have m: "(n, l) \<in> set (byName ca)" using l sub by auto
    then obtain p where p: "List.find (\<lambda>(_, l). lnIndex l = i) (byName ca) = Some p"
      using i by (cases "List.find (\<lambda>(_, l). lnIndex l = i) (byName ca)") (auto simp: find_None_iff)
    then have "p \<in> set (byName ca)" "lnIndex (snd p) = i" by (auto simp: find_Some_iff dest: nth_mem)
    then have "fst p = n" using index_ok_entry [OF assms m] index_ok_entry [OF assms, of "fst p" "snd p"] i by auto
    then show False using p l by (cases p) (auto simp: removeLUN_def set_AList_delete)
  qed
  then show "index_ok (S\<lparr>saLUNs := (saLUNs S)(i := None), saTargets := tm\<rparr>) (removeLUN i ca)"
    using sub index_ok_entry [OF assms] unfolding index_ok_def by auto
qed

section \<open>Contracts of the calls\<close>

definition lun_at :: "san \<Rightarrow> int \<Rightarrow> LUN \<Rightarrow> bool" where
  "lun_at S i l \<longleftrightarrow> (case saLUNs S i of None \<Rightarrow> lnName l = [] | Some (n, c) \<Rightarrow> lnIndex l = i \<and> lnName l = n \<and> lnCapacityBytes l = c)"

text \<open>Only the LUN at \<open>i\<close> changes, and it keeps its name.\<close>

definition resized :: "int \<Rightarrow> san \<Rightarrow> san \<Rightarrow> bool" where
  "resized i S S' \<longleftrightarrow> (\<exists>v. S' = S\<lparr>saLUNs := (saLUNs S)(i := v)\<rparr> \<and> map_option fst v = map_option fst (saLUNs S i))"

lemma resized_refl [simp]: "resized i S S"
  by (auto simp: resized_def intro!: exI [of _ "saLUNs S i"])

lemma resized_step: "resized i S (S\<lparr>saLUNs := (saLUNs S)(i := map_option (\<lambda>(n, _). (n, c)) (saLUNs S i))\<rparr>)"
  by (auto simp: resized_def option.map_comp o_def split_def intro!: exI [of _ "map_option (\<lambda>x. (fst x, c)) (saLUNs S i)"])

lemma resized_trans: "resized i S T \<Longrightarrow> resized i T U \<Longrightarrow> resized i S U"
  by (auto simp: resized_def)

lemma resized_names: "resized i S S' \<Longrightarrow> saLUNs S j = Some (n, c) \<Longrightarrow> \<exists>c'. saLUNs S' j = Some (n, c')"
  by (auto simp: resized_def)

lemma resized_extends: "resized i T U \<Longrightarrow> extends S T \<Longrightarrow> saLUNs S i = None \<Longrightarrow> extends S U"
  by (auto simp: resized_def extends_def map_le_def dom_def)

text \<open>The id of a volume names a LUN of that name, and its capacity is that of the LUN.\<close>

definition names_lun :: "string \<Rightarrow> Volume \<Rightarrow> san \<Rightarrow> bool" where
  "names_lun n v S \<longleftrightarrow> (\<exists>e c. volumeID v = qnapExternalID_String e \<and> qeLUNName e = n \<and> saLUNs S (qeLUNIndex e) = Some (n, c) \<and>
     (c \<noteq> 0 \<longrightarrow> capacityBytes v = c))"

lemma names_lun_volume_of: "saLUNs S (lnIndex l) = Some (lnName l, lnCapacityBytes l) \<Longrightarrow>
    names_lun (lnName l) (volume_of cfg src vp l t (lnIndex l) ti own gb) S"
  unfolding names_lun_def
  by (rule exI [of _ "\<lparr>qeLUNIndex = lnIndex l, qeTargetIndex = ti, qeOwnTarget = own, qeLUNName = lnName l\<rparr>"]) (simp add: volume_of_def Let_def)

text \<open>A LUN that a call has just made: its index was free and holds the name now. Provisioning may resize it after.\<close>

definition made :: "string \<Rightarrow> san \<Rightarrow> int res \<Rightarrow> san \<Rightarrow> bool" where
  "made n S r S' \<longleftrightarrow> no_panic r \<and> (case r of Ok i \<Rightarrow> saLUNs S i = None \<and> (\<exists>c. S' = S\<lparr>saLUNs := (saLUNs S)(i \<mapsto> (n, c))\<rparr>) | _ \<Rightarrow> S' = S)"

definition provisioned :: "string \<Rightarrow> san \<Rightarrow> int res \<Rightarrow> san \<Rightarrow> bool" where
  "provisioned n S r S' \<longleftrightarrow> no_panic r \<and> extends S S' \<and> saTargets S' = saTargets S \<and> (\<forall>i. r = Ok i \<longrightarrow> (\<exists>c. saLUNs S' i = Some (n, c)))"

lemma made_is_provisioned: "made n S r S' \<Longrightarrow> provisioned n S r S'"
  by (cases r) (auto simp: made_def provisioned_def extends_def map_le_fresh)

lemma made_fail [simp]: "made n S (Fail e) S' \<longleftrightarrow> S' = S" "\<not> made n S (Panic p) S'"
  by (auto simp: made_def)

lemma provisioned_fail [simp]: "provisioned n S (Fail e) S"
  by (simp add: provisioned_def)

lemma made_provisioned: "made n S (Ok i) T \<Longrightarrow> resized i T U \<Longrightarrow> no_panic r \<Longrightarrow> (\<forall>j. r = Ok j \<longrightarrow> j = i) \<Longrightarrow> provisioned n S r U"
  by (auto simp: made_def resized_def provisioned_def extends_def map_le_def dom_def)

text \<open>What a create may do: nothing that existed changes, and a volume it returns names a LUN of the name.\<close>

definition created :: "string \<Rightarrow> san \<Rightarrow> Volume res \<Rightarrow> san \<Rightarrow> lunCache \<Rightarrow> bool" where
  "created n S r S' ca \<longleftrightarrow> no_panic r \<and> extends S S' \<and> index_ok S' ca \<and> (\<forall>v. r = Ok v \<longrightarrow> names_lun n v S')"

lemma created_fail [simp]: "created n S (Fail e) S ca \<longleftrightarrow> index_ok S ca" "created n S (Ok v) S ca \<longleftrightarrow> index_ok S ca \<and> names_lun n v S"
  by (auto simp: created_def)

lemma extends_target: "saTargets S t = None \<Longrightarrow> extends S (S\<lparr>saTargets := (saTargets S)(t \<mapsto> n)\<rparr>)"
  by (simp add: extends_def map_le_fresh)

context appliance
begin

lemma call_wp: "(\<And>r w'. m w = (r, w') \<Longrightarrow> Q r (w', q)) \<Longrightarrow> wp (on_san m) Q (w, q)"
  by (auto simp: wp_def on_san_def split: prod.splits)

text \<open>A closure that leaves the appliance alone when it fails, under the session manager.\<close>

lemma do_step:
  assumes "smClient sm = cl"
    and "\<And>s w q. wp (fn s) (\<lambda>r (w', q'). q' = q \<and> R (san w) r (san w') \<and> (\<forall>e. r = Fail e \<longrightarrow> san w' = san w)) (w, q)"
    and "\<And>S e. R S (Fail e) S"
  shows "wp (sm_do sm fn) (\<lambda>r (w', q'). qCache q' = qCache q \<and> R (san w) r (san w')) (w, q)"
  by (rule sm_do_wp [OF assms(1), where J = "\<lambda>S ca. S = san w \<and> ca = qCache q"])
    (use assms(3) in \<open>auto intro!: wp_mono [OF assms(2)]\<close>)

lemma do_call:
  assumes "smClient sm = cl"
    and "\<And>s w r w'. f s w = (r, w') \<Longrightarrow> R (san w) r (san w') \<and> (\<forall>e. r = Fail e \<longrightarrow> san w' = san w)" "\<And>S e. R S (Fail e) S"
  shows "wp (sm_do sm (\<lambda>s. on_san (f s))) (\<lambda>r (w', q'). qCache q' = qCache q \<and> R (san w) r (san w')) (w, q)"
  by (rule do_step [OF assms(1) call_wp, where R = R]) (use assms(2,3) in auto)

lemma get_lun_spec:
  assumes "smClient (qkSM c) = cl"
  shows "wp (get_lun c i) (\<lambda>r (w', q'). qCache q' = qCache q \<and> san w' = san w \<and> no_panic r \<and> (\<forall>l. r = Ok l \<longrightarrow> lun_at (san w) i l)) (w, q)"
  unfolding get_lun_def assms
  by (rule do_call [OF assms, where R = "\<lambda>S r S'. S' = S \<and> no_panic r \<and> (\<forall>l. r = Ok l \<longrightarrow> lun_at S i l)"])
    (use get_lun_law in \<open>auto simp: lun_at_def\<close>)

lemma resize_spec:
  assumes "smClient (qkSM c) = cl"
  shows "wp (resize_and_wait c i gb n) (\<lambda>r (w', q'). qCache q' = qCache q \<and> no_panic r \<and> resized i (san w) (san w')) (w, q)"
proof -
  have r: "wp (on_san (ResizeLUN cl s i gb)) (\<lambda>r (w', q'). q' = q \<and> no_panic r \<and> resized i (san w) (san w')) (w, q)" for s w and q :: qstate
  proof (rule call_wp)
    fix r w' assume "ResizeLUN cl s i gb w = (r, w')"
    from resize_law [OF this] show "case (w', q) of (w', q') \<Rightarrow> q' = q \<and> no_panic r \<and> resized i (san w) (san w')"
      by (cases r) (auto simp: resized_step)
  qed
  have t: "wp (on_san (WaitForResizeComplete cl s i n)) (\<lambda>r (w', q'). q' = q \<and> no_panic r \<and> san w' = san w) (w, q)" for s w and q :: qstate
    by (rule call_wp) (use wait_resize_law in auto)
  show ?thesis unfolding resize_and_wait_def assms
  proof (rule sm_do_wp [OF assms, where J = "\<lambda>S ca. resized i (san w) S \<and> ca = qCache q"], goal_cases)
    case (2 s v p)
    then have j: "resized i (san w) (san v)" "qCache p = qCache q" by auto
    show ?case using j(2) by (auto simp: wp_simps after_def intro!: wp_mono [OF r] wp_mono [OF t] resized_trans [OF j(1)] split: res.splits)
  qed auto
qed

lemma grow_spec:
  assumes "smClient (qkSM c) = cl"
  shows "wp (growToRequested c i gb) (\<lambda>r (w', q'). qCache q' = qCache q \<and> no_panic r \<and> resized i (san w) (san w')) (w, q)"
  unfolding growToRequested_def
  by (auto simp: wp_simps after_def Let_def intro!: wp_mono [OF get_lun_spec [OF assms]] wp_mono [OF resize_spec [OF assms]] split: res.splits)

text \<open>A LUN that a call has just made: the index was free and carries the name now.\<close>

lemma made_spec:
  assumes "smClient (qkSM c) = cl"
  shows "wp (create_fresh c vp n gb t) (\<lambda>r (w', q'). qCache q' = qCache q \<and> made n (san w) r (san w')) (w, q)"
    "wp (sm_do (qkSM c) (\<lambda>s. on_san (CreateLUNFromSnapshot cl s (copy_request src n vp t)))) (\<lambda>r (w', q'). qCache q' = qCache q \<and> made n (san w) r (san w')) (w, q)"
    "wp (sm_do (qkSM c) (\<lambda>s. on_san (CloneLUN cl s (copy_request src n vp t)))) (\<lambda>r (w', q'). qCache q' = qCache q \<and> made n (san w) r (san w')) (w, q)"
proof -
  note do = do_call [OF assms, where R = "made n"]
  have law: "CreateBlockLUN cl s rq w = (r, w') \<Longrightarrow> cbName rq = n \<Longrightarrow> made n (san w) r (san w') \<and> (\<forall>e. r = Fail e \<longrightarrow> san w' = san w)" for s rq w r w'
    using create_lun_law [of s rq w r w'] by (cases r) (auto simp: made_def)
  have "wp (sm_do (qkSM c) (\<lambda>s. on_san (CreateBlockLUN cl s \<lparr>cbName = n, cbPoolID = qpPoolID vp, cbSizeGB = gb, cbSectorSize = qpSectorSize vp,
      cbThin = qpThin vp, cbTargetIndex = t\<rparr>))) (\<lambda>r (w', q'). qCache q' = qCache q \<and> made n (san w) r (san w')) (w, q)"
    by (rule do) (use law in \<open>auto simp: made_def\<close>)
  then show "wp (create_fresh c vp n gb t) (\<lambda>r (w', q'). qCache q' = qCache q \<and> made n (san w) r (san w')) (w, q)"
    unfolding create_fresh_def assms wp_wrapIO by (auto elim!: wp_mono simp: made_def split: res.splits)
  have "CreateLUNFromSnapshot cl s rq w = (r, w') \<Longrightarrow> cpName rq = n \<Longrightarrow> made n (san w) r (san w') \<and> (\<forall>e. r = Fail e \<longrightarrow> san w' = san w)" for s rq w r w'
    using from_snap_law [of s rq w r w'] by (cases r) (auto simp: made_def)
  then show "wp (sm_do (qkSM c) (\<lambda>s. on_san (CreateLUNFromSnapshot cl s (copy_request src n vp t)))) (\<lambda>r (w', q'). qCache q' = qCache q \<and> made n (san w) r (san w')) (w, q)"
    by (intro do) (auto simp: made_def copy_request_def)
  have "CloneLUN cl s rq w = (r, w') \<Longrightarrow> cpName rq = n \<Longrightarrow> made n (san w) r (san w') \<and> (\<forall>e. r = Fail e \<longrightarrow> san w' = san w)" for s rq w r w'
    using clone_law [of s rq w r w'] by (cases r) (auto simp: made_def)
  then show "wp (sm_do (qkSM c) (\<lambda>s. on_san (CloneLUN cl s (copy_request src n vp t)))) (\<lambda>r (w', q'). qCache q' = qCache q \<and> made n (san w) r (san w')) (w, q)"
    by (intro do) (auto simp: made_def copy_request_def)
qed

text \<open>Afterwards there may be one more LUN, of the name, and it is the one returned.\<close>

lemma provision_spec:
  assumes "smClient (qkSM c) = cl"
  shows "wp (provisionLUN c src vp n gb t) (\<lambda>r (w', q'). qCache q' = qCache q \<and> provisioned n (san w) r (san w')) (w, q)"
proof -
  have grow: "wp (growToRequested c i gb) (after (\<lambda>_. wp (ret i) (\<lambda>r (w', q'). qCache q' = qCache q \<and> provisioned n (san w) r (san w')))
      (\<lambda>r (w', q'). qCache q' = qCache q \<and> provisioned n (san w) r (san w'))) (w1, q1)"
    if "qCache q1 = qCache q" "made n (san w) (Ok i) (san w1)" for i w1 q1
    by (rule wp_mono [OF grow_spec [OF assms]]) (use that in \<open>auto simp: wp_simps after_def split: res.splits elim: made_provisioned\<close>)
  show ?thesis unfolding provisionLUN_def assms
    by (auto simp: wp_simps after_def intro!: wp_mono [OF made_spec(1) [OF assms]] wp_mono [OF made_spec(2) [OF assms]] wp_mono [OF made_spec(3) [OF assms]] grow
      split: option.splits sum.splits res.splits dest: made_is_provisioned)
qed

lemma target_spec:
  assumes "smClient (qkSM c) = cl"
  shows "wp (resolveTarget c n vp) (\<lambda>r (w', q'). qCache q' = qCache q \<and> no_panic r \<and> (case r of
      Ok (t, own) \<Rightarrow> if own then saTargets (san w) t = None \<and> san w' = (san w)\<lparr>saTargets := (saTargets (san w))(t \<mapsto> n)\<rparr> else san w' = san w
    | _ \<Rightarrow> san w' = san w)) (w, q)"
proof -
  let ?R = "\<lambda>S r S'. no_panic r \<and> (case r of Ok t \<Rightarrow> saTargets S t = None \<and> S' = S\<lparr>saTargets := (saTargets S)(t \<mapsto> n)\<rparr> | _ \<Rightarrow> S' = S)"
  have law: "CreateTarget cl s rq w = (r, w') \<Longrightarrow> ctAlias rq = n \<Longrightarrow> ?R (san w) r (san w') \<and> (\<forall>e. r = Fail e \<longrightarrow> san w' = san w)" for s rq w r w'
    using create_target_law [of s rq w r w'] by (cases r) auto
  have "wp (sm_do (qkSM c) (\<lambda>s. on_san (CreateTarget cl s \<lparr>ctName = n, ctAlias = n, ctInterfaces = qcInterfaces (qkCfg c)\<rparr>)))
      (\<lambda>r (w', q'). qCache q' = qCache q \<and> ?R (san w) r (san w')) (w, q)"
    by (rule do_call [OF assms, where R = ?R]) (use law in auto)
  then show ?thesis unfolding resolveTarget_def assms
    by (auto simp: wp_simps after_def elim!: wp_mono split: option.splits res.splits)
qed

lemma drop_target_spec:
  assumes "smClient (qkSM c) = cl"
  shows "wp (bestEffortDeleteTarget c t) (\<lambda>r (w', q'). qCache q' = qCache q \<and> r = Ok () \<and>
    (san w' = san w \<or> san w' = (san w)\<lparr>saTargets := (saTargets (san w))(t := None)\<rparr>)) (w, q)"
proof -
  let ?R = "\<lambda>S r S'. no_panic r \<and> (S' = S \<or> S' = S\<lparr>saTargets := (saTargets S)(t := None)\<rparr>)"
  have law: "DeleteTarget cl s t w = (r, w') \<Longrightarrow> ?R (san w) r (san w') \<and> (\<forall>e. r = Fail e \<longrightarrow> san w' = san w)" for s w r w'
    using delete_target_law [of s t w r w'] by (cases r) auto
  have "wp (sm_do (qkSM c) (\<lambda>s. on_san (DeleteTarget cl s t))) (\<lambda>r (w', q'). qCache q' = qCache q \<and> ?R (san w) r (san w')) (w, q)"
    by (rule do_call [OF assms, where R = ?R]) (use law in auto)
  then show ?thesis unfolding bestEffortDeleteTarget_def assms
    by (auto simp: wp_simps elim!: wp_mono split: res.splits)
qed

lemma assemble_spec:
  assumes "smClient (qkSM c) = cl" "saLUNs (san w) i = Some (n, b)" "index_ok (san w) (qCache q)"
  shows "wp (assembleVolume c src vp i t own gb) (\<lambda>r (w', q'). no_panic r \<and> san w' = san w \<and> index_ok (san w) (qCache q') \<and>
    (\<forall>v. r = Ok v \<longrightarrow> names_lun n v (san w))) (w, q)"
proof -
  let ?R = "\<lambda>S r S'. S' = S \<and> no_panic r \<and> (\<forall>l t. r = Ok (l, t) \<longrightarrow> lun_at S i l)"
  have g: "wp (on_san (GetLUN cl s i)) (\<lambda>r (w', q'). q' = q \<and> san w' = san w \<and> no_panic r \<and> (\<forall>l. r = Ok l \<longrightarrow> lun_at (san w) i l)) (w, q)" for s w and q :: qstate
    by (rule call_wp) (use get_lun_law in \<open>auto simp: lun_at_def\<close>)
  have t: "wp (on_san (GetTarget cl s t)) (\<lambda>r (w', q'). q' = q \<and> san w' = san w \<and> no_panic r) (w, q)" for s w and q :: qstate
    by (rule call_wp) (use get_target_law in auto)
  have "wp (sm_do (qkSM c) (\<lambda>s. bindIO (on_san (GetLUN cl s i)) (\<lambda>lun. bindIO (on_san (GetTarget cl s t)) (\<lambda>tgt. ret (lun, tgt)))))
      (\<lambda>r (w', q'). qCache q' = qCache q \<and> ?R (san w) r (san w')) (w, q)"
    by (rule do_step [OF assms(1), where R = ?R]) (auto simp: wp_simps after_def intro!: wp_mono [OF g] wp_mono [OF t] split: res.splits)
  then show ?thesis unfolding assembleVolume_def assms(1) using assms(2,3)
    by (auto simp: wp_simps after_def state_wp lun_at_def names_lun_volume_of
      elim!: wp_mono intro!: index_ok_add [where c = b] split: res.splits)
qed

text \<open>Refreshing the index: it is left alone, or replaced by what the appliance reports.\<close>

lemma fresh_spec:
  assumes "smClient (qkSM c) = cl" "\<And>w. san (snd (Now ck w)) = san w" "index_ok (san w) (qCache q)"
  shows "wp (ensureFresh ck (cacheRefresh c)) (\<lambda>r (w', q'). no_panic r \<and> san w' = san w \<and> index_ok (san w) (qCache q')) (w, q)"
proof -
  let ?R = "\<lambda>S r S'. S' = S \<and> no_panic r \<and> (\<forall>ls ts. r = Ok (ls, ts) \<longrightarrow> (\<forall>l \<in> set ls. saLUNs S (lnIndex l) = Some (lnName l, lnCapacityBytes l)))"
  have now: "wp (q_now ck) Q (w, q)" if "\<And>t w'. san w' = san w \<Longrightarrow> Q (Ok t) (w', q)" for Q w q
    using that assms(2) [of w] by (auto simp: wp_def q_now_def split: prod.splits)
  have l: "wp (on_san (ListLUNs cl s)) (\<lambda>r (w', q'). q' = q \<and> san w' = san w \<and> no_panic r \<and>
      (\<forall>ls. r = Ok ls \<longrightarrow> (\<forall>l \<in> set ls. saLUNs (san w) (lnIndex l) = Some (lnName l, lnCapacityBytes l)))) (w, q)" for s w and q :: qstate
    by (rule call_wp) (use list_luns_law in auto)
  have t: "wp (on_san (ListTargets cl s)) (\<lambda>r (w', q'). q' = q \<and> san w' = san w \<and> no_panic r) (w, q)" for s w and q :: qstate
    by (rule call_wp) (use list_targets_law in auto)
  have fetch: "wp (cacheRefresh c) (\<lambda>r (w', q'). qCache q' = qCache q \<and> ?R (san w) r (san w')) (w, q)" for w q
    unfolding cacheRefresh_def assms(1)
    by (rule do_step [OF assms(1), where R = ?R]) (auto simp: wp_simps after_def intro!: wp_mono [OF l] wp_mono [OF t] split: res.splits)
  have refresh: "wp (cacheRefresh c) (\<lambda>r (w', q'). case r of Ok (luns, targets) \<Rightarrow> san w' = san w \<and> (\<forall>l \<in> set luns. saLUNs (san w) (lnIndex l) = Some (lnName l, lnCapacityBytes l))
      | Fail e \<Rightarrow> san w' = san w \<and> index_ok (san w) (qCache q') | Panic _ \<Rightarrow> False) (v, q)" if "san v = san w" for v
    by (rule wp_mono [OF fetch]) (use that assms(3) in \<open>auto split: res.splits\<close>)
  show ?thesis unfolding ensureFresh_def cache_fresh_def using assms(3)
    by (auto simp: wp_simps after_def state_wp intro!: now wp_mono [OF refresh] index_ok_fetched split: res.splits)
qed

lemma find_spec:
  assumes "smClient (qkSM c) = cl" "\<And>w. san (snd (Now (qkClock c) w)) = san w" "index_ok (san w) (qCache q)"
  shows "wp (findExistingVolume c n want vp) (\<lambda>r (w', q'). no_panic r \<and> san w' = san w \<and> index_ok (san w) (qCache q') \<and>
    (\<forall>v. r = Ok (Some v) \<longrightarrow> names_lun n v (san w))) (w, q)"
proof -
  have found: "wp (assembleVolume c None vp (lnIndex l) t own gb) (\<lambda>r (w', q'). no_panic r \<and> san w' = san w \<and> index_ok (san w) (qCache q') \<and>
      (\<forall>v. r = Ok v \<longrightarrow> names_lun n v (san w))) (v, p)"
    if v: "san v = san w" "index_ok (san w) (qCache p)" "lookupByName (qCache p) n = Some l" for v p l t own gb
  proof -
    obtain b where "saLUNs (san v) (lnIndex l) = Some (n, b)" using index_ok_lookup [OF v(2,3)] v(1) by auto
    from assemble_spec [OF assms(1) this, of p None vp t own gb] v show ?thesis by (auto elim: wp_mono)
  qed
  show ?thesis unfolding findExistingVolume_def
    by (auto simp: wp_simps after_def state_wp driver_err_defs intro!: wp_mono [OF fresh_spec [OF assms]] wp_mono [OF found] split: res.splits option.splits)
qed

lemma create_on_target_spec:
  assumes "smClient (qkSM c) = cl" "extends S (san w)" "index_ok S (qCache q)" "own \<longrightarrow> saTargets S t = None"
  shows "wp (create_on_target c src vp n gb t own) (\<lambda>r (w', q'). created n S r (san w') (qCache q')) (w, q)" (is "wp _ ?Q _")
proof -
  have asm: "wp (assembleVolume c src vp i t own gb) ?Q (w2, q2)"
    if x: "extends S (san w2)" "index_ok S (qCache q2)" "saLUNs (san w2) i = Some (n, b)" for i b w2 q2
    by (rule wp_mono [OF assemble_spec [OF assms(1) x(3) index_ok_extends [OF x(2,1)]]]) (use x(1) in \<open>auto simp: created_def\<close>)
  have drop: "wp (bestEffortDeleteTarget c t) (after (\<lambda>_. wp (fail e) ?Q) ?Q) (w2, q2)"
    if x: "extends S (san w2)" "index_ok S (qCache q2)" "saTargets S t = None" for e w2 q2
  proof -
    have "extends S ((san w2)\<lparr>saTargets := (saTargets (san w2))(t := None)\<rparr>)" using x by (auto simp: extends_def map_le_removed)
    then show ?thesis using x
      by (auto simp: wp_simps after_def created_def intro!: wp_mono [OF drop_target_spec [OF assms(1)]] intro: index_ok_extends)
  qed
  show ?thesis unfolding create_on_target_def wp_tryIO
  proof (rule wp_mono [OF provision_spec [OF assms(1), of src vp n gb t q w]])
    fix r and v :: "'w \<times> qstate" assume v: "case v of (w', q') \<Rightarrow> qCache q' = qCache q \<and> provisioned n (san w) r (san w')"
    obtain w2 q2 where v2: "v = (w2, q2)" by (cases v)
    have x: "extends S (san w2)" "index_ok S (qCache q2)" using v v2 assms(2,3) by (auto simp: provisioned_def intro: extends_trans)
    show "case r of Ok i \<Rightarrow> wp (case Inr i of Inl e \<Rightarrow> bindIO (if own then bestEffortDeleteTarget c t else ret ()) (\<lambda>_. fail e)
        | Inr lunIdx \<Rightarrow> assembleVolume c src vp lunIdx t own gb) ?Q v
      | Fail e \<Rightarrow> wp (case Inl e of Inl e \<Rightarrow> bindIO (if own then bestEffortDeleteTarget c t else ret ()) (\<lambda>_. fail e)
        | Inr lunIdx \<Rightarrow> assembleVolume c src vp lunIdx t own gb) ?Q v
      | Panic p \<Rightarrow> ?Q (Panic p) v"
      using v v2 x asm [OF x] drop [OF x] assms(4)
      by (cases r) (auto simp: wp_simps provisioned_def created_def intro: index_ok_extends)
  qed
qed

lemma create_spec:
  assumes "smClient (qkSM c) = cl" "\<And>w. san (snd (Now (qkClock c) w)) = san w" "index_ok (san w) (qCache q)"
  shows "wp (qCreateVolume c req) (\<lambda>r (w', q'). created (sanitizeLUNName (crName req)) (san w) r (san w') (qCache q')) (w, q)" (is "wp _ ?Q _")
proof -
  let ?n = "sanitizeLUNName (crName req)"
  have tgt: "wp (resolveTarget c ?n vp) (after (\<lambda>p. wp (case p of (t, own) \<Rightarrow> create_on_target c (crContentSource req) vp ?n gb t own) ?Q) ?Q) (w1, q1)"
    if x: "san w1 = san w" "index_ok (san w) (qCache q1)" for vp gb w1 q1
    by (rule wp_mono [OF target_spec [OF assms(1)]])
      (use x in \<open>auto simp: after_def extends_target intro!: create_on_target_spec [OF assms(1)] split: res.splits if_splits\<close>)
  show ?thesis unfolding qCreateVolume_def
    by (auto simp: wp_simps after_def Let_def assms(3) intro!: wp_mono [OF find_spec [OF assms]] tgt split: res.splits sum.splits option.splits)
qed

text \<open>The other operations keep the index, too.\<close>

lemma delete_index:
  assumes "smClient (qkSM c) = cl" "index_ok (san w) (qCache q)"
  shows "wp (qDeleteVolume c vid) (\<lambda>r (w', q'). no_panic r \<and> index_ok (san w') (qCache q')) (w, q)"
proof (cases "qnapParseExternalID vid")
  case (Inl x)
  then show ?thesis using assms by (simp add: qDeleteVolume_def wp_simps)
next
  case (Inr e)
  have "index_ok S' (removeLUN (qeLUNIndex e) (qCache q))" if "deletes_only e (san w) S'" for S'
    using that index_ok_remove [OF assms(2), where i = "qeLUNIndex e"]
    by (auto simp: deletes_only_def index_ok_def)
  then show ?thesis by (auto intro!: wp_mono [OF delete_spec [OF assms(1) Inr]])
qed

lemma ours_spec:
  assumes "smClient (qkSM c) = cl"
  shows "wp (ensureLUNIsOurs c e) (\<lambda>r (w', q'). qCache q' = qCache q \<and> san w' = san w \<and> no_panic r) (w, q)"
  unfolding ensureLUNIsOurs_def
  by (auto simp: wp_simps after_def driver_err_defs intro!: wp_mono [OF get_lun_spec [OF assms]] split: res.splits)

lemma expand_index:
  assumes "smClient (qkSM c) = cl" "index_ok (san w) (qCache q)"
  shows "wp (qExpandVolume c vid cr) (\<lambda>r (w', q'). no_panic r \<and> index_ok (san w') (qCache q')) (w, q)"
proof -
  have "index_ok S' (qCache q)" if "resized i (san w) S'" for i S'
    by (rule index_ok_names [OF assms(2)]) (rule resized_names [OF that])
  then show ?thesis unfolding qExpandVolume_def using assms(2)
    by (auto simp: wp_simps after_def Let_def intro!: wp_mono [OF ours_spec [OF assms(1)]] wp_mono [OF resize_spec [OF assms(1)]] split: res.splits sum.splits)
qed

lemma snapshot_calls:
  assumes "smClient (qkSM c) = cl"
  shows "wp (sm_do (qkSM c) (\<lambda>s. on_san (SanCreateSnapshot cl s i n))) (\<lambda>r (w', q'). qCache q' = qCache q \<and> no_panic r \<and> saLUNs (san w') = saLUNs (san w)) (w, q)"
    "wp (sm_do (qkSM c) (\<lambda>s. on_san (SanListSnapshots cl s i))) (\<lambda>r (w', q'). qCache q' = qCache q \<and> no_panic r \<and> san w' = san w) (w, q)"
    "wp (sm_do (qkSM c) (\<lambda>s. on_san (GetPool cl s p))) (\<lambda>r (w', q'). qCache q' = qCache q \<and> no_panic r \<and> san w' = san w) (w, q)"
proof -
  have "SanCreateSnapshot cl s i n w = (r, w') \<Longrightarrow> (no_panic r \<and> saLUNs (san w') = saLUNs (san w)) \<and> (\<forall>e. r = Fail e \<longrightarrow> san w' = san w)" for s w r w'
    using create_snap_law [of s i n w r w'] by (cases r) auto
  then show "wp (sm_do (qkSM c) (\<lambda>s. on_san (SanCreateSnapshot cl s i n))) (\<lambda>r (w', q'). qCache q' = qCache q \<and> no_panic r \<and> saLUNs (san w') = saLUNs (san w)) (w, q)"
    by (intro do_call [OF assms, where R = "\<lambda>S r S'. no_panic r \<and> saLUNs S' = saLUNs S"]) auto
  show "wp (sm_do (qkSM c) (\<lambda>s. on_san (SanListSnapshots cl s i))) (\<lambda>r (w', q'). qCache q' = qCache q \<and> no_panic r \<and> san w' = san w) (w, q)"
    by (intro do_call [OF assms, where R = "\<lambda>S r S'. no_panic r \<and> S' = S"]) (use list_snaps_law in auto)
  show "wp (sm_do (qkSM c) (\<lambda>s. on_san (GetPool cl s p))) (\<lambda>r (w', q'). qCache q' = qCache q \<and> no_panic r \<and> san w' = san w) (w, q)"
    by (intro do_call [OF assms, where R = "\<lambda>S r S'. no_panic r \<and> S' = S"]) (use get_pool_law in auto)
qed

lemma delete_snapshot_spec:
  assumes "smClient (qkSM c) = cl"
  shows "wp (qDeleteSnapshot c i) (\<lambda>r (w', q'). qCache q' = qCache q \<and> no_panic r \<and> saLUNs (san w') = saLUNs (san w)) (w, q)"
proof -
  have d: "wp (on_san (SanDeleteSnapshot cl s n)) (\<lambda>r (w', q'). q' = q \<and> no_panic r \<and> saLUNs (san w') = saLUNs (san w)) (w, q)" for s n w and q :: qstate
    by (rule call_wp) (use delete_snap_law in \<open>auto split: if_splits\<close>)
  have t: "wp (on_san (WaitForSnapshotGone cl s i n)) (\<lambda>r (w', q'). q' = q \<and> no_panic r \<and> san w' = san w) (w, q)" for s i n w and q :: qstate
    by (rule call_wp) (use wait_snap_law in auto)
  have "wp (sm_do (qkSM c) (\<lambda>s. bindIO (wrapIO (mapQNAPError ''DeleteSnapshot'') (on_san (SanDeleteSnapshot cl s n)))
      (\<lambda>_. wrapIO (mapQNAPError ''WaitForSnapshotGone'') (on_san (WaitForSnapshotGone cl s j n)))))
      (\<lambda>r (w', q'). qCache q' = qCache q \<and> no_panic r \<and> saLUNs (san w') = saLUNs (san w)) (w, q)" for j n
    by (rule sm_do_wp [OF assms, where J = "\<lambda>S ca. saLUNs S = saLUNs (san w) \<and> ca = qCache q"])
      (auto simp: wp_simps after_def intro!: wp_mono [OF d] wp_mono [OF t] split: res.splits)
  then show ?thesis unfolding qDeleteSnapshot_def assms by (auto simp: wp_simps split: sum.splits)
qed

lemma snapshot_index:
  assumes "smClient (qkSM c) = cl" "index_ok (san w) (qCache q)"
  shows "wp (qCreateSnapshot c sreq) (\<lambda>r (w', q'). no_panic r \<and> index_ok (san w') (qCache q')) (w, q)"
    "wp (qDeleteSnapshot c i) (\<lambda>r (w', q'). no_panic r \<and> index_ok (san w') (qCache q')) (w, q)"
proof -
  have k: "index_ok S' (qCache q)" if "saLUNs S' = saLUNs (san w)" for S' using assms(2) that by (simp add: index_ok_def)
  then show "wp (qDeleteSnapshot c i) (\<lambda>r (w', q'). no_panic r \<and> index_ok (san w') (qCache q')) (w, q)"
    by (auto intro!: wp_mono [OF delete_snapshot_spec [OF assms(1)]])
  show "wp (qCreateSnapshot c sreq) (\<lambda>r (w', q'). no_panic r \<and> index_ok (san w') (qCache q')) (w, q)"
    unfolding qCreateSnapshot_def assms(1) using assms(2) k
    by (auto simp: wp_simps after_def intro!: wp_mono [OF ours_spec [OF assms(1)]] wp_mono [OF snapshot_calls(1) [OF assms(1)]] split: res.splits sum.splits)
qed

lemma snapshots_for_spec:
  assumes "smClient (qkSM c) = cl"
  shows "wp (snapshotsForLUN c i src) (\<lambda>r (w', q'). qCache q' = qCache q \<and> no_panic r \<and> san w' = san w) (w, q)"
  unfolding snapshotsForLUN_def assms
  by (auto simp: wp_simps after_def intro!: wp_mono [OF snapshot_calls(2) [OF assms(1)]] split: res.splits)

lemma reads_index:
  assumes "smClient (qkSM c) = cl" "\<And>w. san (snd (Now (qkClock c) w)) = san w" "index_ok (san w) (qCache q)"
  shows "wp (qVolumeExists c vid) (\<lambda>r (w', q'). no_panic r \<and> san w' = san w \<and> index_ok (san w) (qCache q')) (w, q)"
    "wp (qGetCapacity c params) (\<lambda>r (w', q'). no_panic r \<and> san w' = san w \<and> index_ok (san w) (qCache q')) (w, q)"
    "wp (qListVolumes c) (\<lambda>r (w', q'). no_panic r \<and> san w' = san w \<and> index_ok (san w) (qCache q')) (w, q)"
    "wp (qListSnapshots c src) (\<lambda>r (w', q'). no_panic r \<and> san w' = san w \<and> index_ok (san w) (qCache q')) (w, q)"
proof -
  show "wp (qVolumeExists c vid) (\<lambda>r (w', q'). no_panic r \<and> san w' = san w \<and> index_ok (san w) (qCache q')) (w, q)"
    unfolding qVolumeExists_def using assms(3)
    by (auto simp: wp_simps after_def driver_err_defs intro!: wp_mono [OF get_lun_spec [OF assms(1)]] split: res.splits sum.splits)
  show "wp (qGetCapacity c params) (\<lambda>r (w', q'). no_panic r \<and> san w' = san w \<and> index_ok (san w) (qCache q')) (w, q)"
    unfolding qGetCapacity_def assms(1) using assms(3)
    by (auto simp: wp_simps after_def driver_err_defs intro!: wp_mono [OF snapshot_calls(3) [OF assms(1)]] split: res.splits sum.splits)
  show "wp (qListVolumes c) (\<lambda>r (w', q'). no_panic r \<and> san w' = san w \<and> index_ok (san w) (qCache q')) (w, q)"
    unfolding qListVolumes_def
    by (auto simp: wp_simps after_def state_wp intro!: wp_mono [OF fresh_spec [OF assms]] split: res.splits)
  have fold: "wp (foldIO (\<lambda>out lun. case cached_id ca lun of None \<Rightarrow> ret out
      | Some i \<Rightarrow> bindIO (snapshotsForLUN c (lnIndex lun) i) (\<lambda>infos. ret (out @ infos))) out ls)
      (\<lambda>r (w', q'). no_panic r \<and> san w' = san w \<and> index_ok (san w) (qCache q')) (v, p)"
    if "san v = san w" "index_ok (san w) (qCache p)" for ca out ls v p
    using that
  proof (induction ls arbitrary: out v p)
    case (Cons l ls)
    then show ?case
      by (auto simp: wp_simps after_def intro!: wp_mono [OF snapshots_for_spec [OF assms(1)]] split: res.splits option.splits)
  qed (simp add: wp_simps)
  show "wp (qListSnapshots c src) (\<lambda>r (w', q'). no_panic r \<and> san w' = san w \<and> index_ok (san w) (qCache q')) (w, q)"
    unfolding qListSnapshots_def using assms(3)
    by (auto simp: wp_simps after_def state_wp intro!: wp_mono [OF fresh_spec [OF assms]] wp_mono [OF snapshots_for_spec [OF assms(1)]] wp_mono [OF fold] split: res.splits sum.splits)
qed

end

end
