(* ===== verification/Qnap_Fake.thy ===== *)
theory Qnap_Fake
  imports Qnap_Index
begin

text \<open>
  An appliance in memory, after \<^verbatim>\<open>internal/driver/qnap/fakeclient_test.go\<close>: LUNs, targets and snapshots
  are kept in association lists. Two things are added to the fake of the tests: the session the
  appliance accepts may differ from the one the driver holds (\<open>fkToken\<close>), and the index of a new
  object is one above the highest in use, so that the index of a deleted object is used again, as
  the comments of the driver say the appliance does. It satisfies the laws of \<open>appliance\<close> and \<open>responsive\<close>,
  and is what the examples about the SAN controller run on.
\<close>

record fake_san =
  fkLUNs :: "(int \<times> string \<times> int) list"
  fkTargets :: "(int \<times> string \<times> string \<times> int list) list"   \<comment> \<open>alias, IQN, LUNs mapped\<close>
  fkSnaps :: "(int \<times> int \<times> int) list"   \<comment> \<open>LUN, id, size\<close>
  fkToken :: string
  fkNow :: int

definition fresh :: "int list \<Rightarrow> int" where
  "fresh ks = foldr max ks (-1) + 1"

lemma fresh_above: "k \<in> set ks \<Longrightarrow> k < fresh ks"
  unfolding fresh_def by (induction ks) auto

lemma clearjunk_entry: "(k, v) \<in> set (AList.clearjunk xs) \<Longrightarrow> map_of xs k = Some v"
  by (metis distinct_clearjunk map_of_clearjunk map_of_is_SomeI)

lemma fresh_free: "map_of xs (fresh (map fst xs)) = None"
  using fresh_above [of "fresh (map fst xs)" "map fst xs"] by (auto simp: map_of_eq_None_iff)

text \<open>A call is refused under any other session than the current one.\<close>

definition authd :: "string \<Rightarrow> (fake_san, 'a) io \<Rightarrow> (fake_san, 'a) io" where
  "authd s f = (\<lambda>w. if s = fkToken w then f w else (Fail SessionInvalid, w))"

definition not_found :: err where "not_found = ApiErr 0 (-22) ''not found''"

definition map_lun :: "int \<Rightarrow> int \<Rightarrow> fake_san \<Rightarrow> fake_san" where
  "map_lun i t w = (case map_of (fkTargets w) t of None \<Rightarrow> w
     | Some (a, iqn, ls) \<Rightarrow> w\<lparr>fkTargets := AList.update t (a, iqn, ls @ [i]) (fkTargets w)\<rparr>)"

definition fake_add_lun :: "string \<Rightarrow> int \<Rightarrow> int \<Rightarrow> (fake_san, int) io" where
  "fake_add_lun n sz t = (\<lambda>w. let i = fresh (map fst (fkLUNs w)) in
     (Ok i, map_lun i t (w\<lparr>fkLUNs := AList.update i (n, sz) (fkLUNs w)\<rparr>)))"

definition fake_get_lun :: "int \<Rightarrow> (fake_san, LUN) io" where
  "fake_get_lun i = (\<lambda>w. (case map_of (fkLUNs w) i of None \<Rightarrow> Fail not_found
     | Some (n, c) \<Rightarrow> Ok \<lparr>lnIndex = i, lnName = n, lnCapacityBytes = c\<rparr>, w))"

definition fake_target :: "int \<Rightarrow> string \<times> string \<times> int list \<Rightarrow> Target" where
  "fake_target i t = \<lparr>tgIndex = i, tgIQN = fst (snd t), tgAlias = fst t, tgLUNs = snd (snd t)\<rparr>"

definition fake_snapshot :: "int \<times> int \<times> int \<Rightarrow> qSnapshot" where
  "fake_snapshot s = \<lparr>qnID = fst (snd s), qnSizeBytes = snd (snd s), qnCreatedAt = ''Fri May 29 10:13:33 2026'', qnReady = True\<rparr>"

definition fake_client :: "fake_san Client" where
  "fake_client = \<lparr>
     SessValid = (\<lambda>s. s \<noteq> []), SessZero = [],
     SanLogin = (\<lambda>u p w. (Ok (fkToken w), w)),
     CreateBlockLUN = (\<lambda>s r. authd s (fake_add_lun (cbName r) (mul64 (cbSizeGB r) giB) (cbTargetIndex r))),
     GetLUN = (\<lambda>s i. authd s (fake_get_lun i)),
     ListLUNs = (\<lambda>s. authd s (\<lambda>w. (Ok (map (\<lambda>(i, n, c). \<lparr>lnIndex = i, lnName = n, lnCapacityBytes = c\<rparr>) (AList.clearjunk (fkLUNs w))), w))),
     DeleteLUN = (\<lambda>s i. authd s (\<lambda>w. if map_of (fkLUNs w) i = None then (Fail not_found, w) else (Ok (), w\<lparr>fkLUNs := AList.delete i (fkLUNs w)\<rparr>))),
     UnmapLUN = (\<lambda>s i t. authd s (\<lambda>w. case map_of (fkTargets w) t of None \<Rightarrow> (Ok (), w)
       | Some (a, iqn, ls) \<Rightarrow> (Ok (), w\<lparr>fkTargets := AList.update t (a, iqn, removeAll i ls) (fkTargets w)\<rparr>))),
     WaitForLUNGone = (\<lambda>s i. authd s (ret ())),
     ResizeLUN = (\<lambda>s i gb. authd s (\<lambda>w. case map_of (fkLUNs w) i of None \<Rightarrow> (Fail not_found, w)
       | Some (n, _) \<Rightarrow> (Ok (), w\<lparr>fkLUNs := AList.update i (n, mul64 gb giB) (fkLUNs w)\<rparr>))),
     WaitForResizeComplete = (\<lambda>s i n. authd s (fake_get_lun i)),
     CreateTarget = (\<lambda>s r. authd s (\<lambda>w. let i = fresh (map fst (fkTargets w)) in
       (Ok i, w\<lparr>fkTargets := AList.update i (ctAlias r, ''iqn.2004-04.com.qnap:'' @ ctName r, []) (fkTargets w)\<rparr>))),
     GetTarget = (\<lambda>s i. authd s (\<lambda>w. (case map_of (fkTargets w) i of None \<Rightarrow> Fail not_found | Some t \<Rightarrow> Ok (fake_target i t), w))),
     ListTargets = (\<lambda>s. authd s (\<lambda>w. (Ok (map (\<lambda>(i, t). fake_target i t) (AList.clearjunk (fkTargets w))), w))),
     DeleteTarget = (\<lambda>s i. authd s (\<lambda>w. (Ok (), w\<lparr>fkTargets := AList.delete i (fkTargets w)\<rparr>))),
     GetPool = (\<lambda>s i. authd s (if i = 1 then ret (2 ^ 42) else fail not_found)),
     SanCreateSnapshot = (\<lambda>s i n. authd s (\<lambda>w. let sn = (i, fresh (999 # map (fst \<circ> snd) (fkSnaps w)), case map_of (fkLUNs w) i of Some (_, c) \<Rightarrow> c | None \<Rightarrow> 0)
       in (Ok (fake_snapshot sn), w\<lparr>fkSnaps := sn # fkSnaps w\<rparr>))),
     SanListSnapshots = (\<lambda>s i. authd s (\<lambda>w. (Ok (map fake_snapshot (filter (\<lambda>sn. fst sn = i) (fkSnaps w))), w))),
     SanDeleteSnapshot = (\<lambda>s n. authd s (\<lambda>w. (Ok (), w\<lparr>fkSnaps := filter (\<lambda>sn. fst (snd sn) \<noteq> n) (fkSnaps w)\<rparr>))),
     WaitForSnapshotGone = (\<lambda>s i n. authd s (ret ())),
     CreateLUNFromSnapshot = (\<lambda>s r. authd s (\<lambda>w. fake_add_lun (cpName r)
       (case List.find (\<lambda>sn. fst (snd sn) = cpSource r) (fkSnaps w) of Some (_, _, c) \<Rightarrow> if 0 < c then c else giB | None \<Rightarrow> giB) (cpTargetIndex r) w)),
     CloneLUN = (\<lambda>s r. authd s (\<lambda>w. fake_add_lun (cpName r) (case map_of (fkLUNs w) (cpSource r) of Some (_, c) \<Rightarrow> c | None \<Rightarrow> giB) (cpTargetIndex r) w))\<rparr>"

definition fake_abs :: "fake_san \<Rightarrow> san" where
  "fake_abs w = \<lparr>saLUNs = map_of (fkLUNs w), saTargets = map_option fst \<circ> map_of (fkTargets w), saSnaps = (\<lambda>(l, i, _). (l, i)) ` set (fkSnaps w)\<rparr>"

definition fake_clock :: "fake_san clock" where
  "fake_clock = \<lparr>Now = (\<lambda>w. (fkNow w, w)), Pause = (\<lambda>d w. (None, w\<lparr>fkNow := fkNow w + d\<rparr>))\<rparr>"

lemma fake_abs_simps: "saLUNs (fake_abs w) = map_of (fkLUNs w)" "saTargets (fake_abs w) = map_option fst \<circ> map_of (fkTargets w)"
    "saSnaps (fake_abs w) = (\<lambda>(l, i, _). (l, i)) ` set (fkSnaps w)"
    "fake_abs (w\<lparr>fkLUNs := ls\<rparr>) = (fake_abs w)\<lparr>saLUNs := map_of ls\<rparr>"
    "fake_abs (w\<lparr>fkTargets := ts\<rparr>) = (fake_abs w)\<lparr>saTargets := map_option fst \<circ> map_of ts\<rparr>"
    "fake_abs (w\<lparr>fkSnaps := ss\<rparr>) = (fake_abs w)\<lparr>saSnaps := (\<lambda>(l, i, _). (l, i)) ` set ss\<rparr>"
  by (simp_all add: fake_abs_def)

lemma targets_conv: "map_option fst \<circ> map_of (AList.update i t ts) = (map_option fst \<circ> map_of ts)(i \<mapsto> fst t)"
    "map_option fst \<circ> map_of (AList.delete i ts) = (map_option fst \<circ> map_of ts)(i := None)"
  by (auto simp: update_conv' delete_conv')

lemma snaps_conv: "(\<lambda>(l, i, _). (l, i)) ` {s \<in> A. fst (snd s) \<noteq> n} = {p \<in> (\<lambda>(l, i, _). (l, i)) ` A. snd p \<noteq> n}"
  by force

lemma same_alias: "map_of (fkTargets w) t = Some (a, x) \<Longrightarrow> fake_abs (w\<lparr>fkTargets := AList.update t (a, y) (fkTargets w)\<rparr>) = fake_abs w"
  by (simp add: fake_abs_def targets_conv fun_upd_idem)

lemma map_lun_abs [simp]: "fake_abs (map_lun i t w) = fake_abs w"
  by (auto simp: map_lun_def same_alias split: option.splits)

interpretation fake: appliance fake_client fake_abs
proof (unfold_locales, goal_cases)
  case (1 u p w r w') then show ?case by (auto simp: fake_client_def)
next
  case (2 s i w r w') then show ?case by (auto simp: fake_client_def authd_def fake_get_lun_def fake_abs_def split: if_splits option.splits)
next
  case (3 s i w r w') then show ?case by (auto simp: fake_client_def authd_def fake_abs_def fake_target_def split: if_splits option.splits)
next
  case (4 s i w r w') then show ?case
    by (auto simp: fake_client_def authd_def fake_abs_def fake_snapshot_def snapshots_on_def image_iff split: if_splits) force+
next
  case (5 s w r w') then show ?case
    by (auto simp: fake_client_def authd_def fake_abs_def dest!: clearjunk_entry split: if_splits)
next
  case (6 s w r w') then show ?case
    by (auto simp: fake_client_def authd_def fake_abs_def fake_target_def dest!: clearjunk_entry split: if_splits)
next
  case (7 s i w r w') then show ?case by (auto simp: fake_client_def authd_def fake_abs_simps delete_conv' split: if_splits)
next
  case (8 s i t w r w') then show ?case
    by (auto simp: fake_client_def authd_def same_alias split: if_splits option.splits)
next
  case (9 s i w r w') then show ?case by (auto simp: fake_client_def authd_def ret_def split: if_splits)
next
  case (10 s i w r w') then show ?case by (auto simp: fake_client_def authd_def fake_abs_simps targets_conv split: if_splits)
next
  case (11 s rq w r w') then show ?case
    by (auto simp: fake_client_def authd_def fake_abs_simps Let_def targets_conv fresh_free split: if_splits)
next
  case (12 s rq w r w') then show ?case
    by (auto simp: fake_client_def authd_def fake_add_lun_def Let_def fake_abs_simps update_conv' fresh_free split: if_splits)
next
  case (13 s rq w r w') then show ?case
    by (auto simp: fake_client_def authd_def fake_add_lun_def Let_def fake_abs_simps update_conv' fresh_free split: if_splits)
next
  case (14 s rq w r w') then show ?case
    by (auto simp: fake_client_def authd_def fake_add_lun_def Let_def fake_abs_simps update_conv' fresh_free split: if_splits)
next
  case (15 s i gb w r w') then show ?case
    by (auto simp: fake_client_def authd_def fake_abs_simps update_conv' split: if_splits option.splits)
next
  case (16 s i n w r w') then show ?case by (auto simp: fake_client_def authd_def fake_get_lun_def split: if_splits option.splits)
next
  case (17 s i n w r w') then show ?case by (auto simp: fake_client_def authd_def fake_abs_simps fake_snapshot_def Let_def split: if_splits)
next
  case (18 s n w r w') then show ?case by (auto simp: fake_client_def authd_def fake_abs_simps snaps_conv split: if_splits)
next
  case (19 s i n w r w') then show ?case by (auto simp: fake_client_def authd_def ret_def split: if_splits)
next
  case (20 s n w r w') then show ?case by (auto simp: fake_client_def authd_def ret_def fail_def split: if_splits)
qed

interpretation fake_up: responsive fake_client fake_abs "\<lambda>w s. s = fkToken w"
proof (unfold_locales, goal_cases)
  case (4 w s i t r w') then show ?case by (auto simp: fake_client_def authd_def split: if_splits option.splits)
qed (auto simp: fake_client_def authd_def fake_get_lun_def fake_abs_def ret_def split: if_splits option.splits)

end
