(* ===== verification/Qnap_Props.thy ===== *)
theory Qnap_Props
  imports Qnap_Fake Iscsi
begin

text \<open>
  The properties of the SAN controller. What it does to the appliance is stated twice: for every
  client, as what precedes each call that changes something, and for every client that keeps the laws of
  \<open>appliance\<close>, as the state of the appliance afterwards. The examples run on \<open>fake_client\<close>.
\<close>

section \<open>A controller over the appliance in memory\<close>

definition fake_cfg :: QNAPConfig where
  "fake_cfg = \<lparr>qcBaseURL = ''https://nas'', qcUsername = ''u'', qcPassword = ''p'', qcPortal = ''10.0.0.1'', qcPortals = [],
     qcDefaultPoolID = 1, qcInterfaces = [], qcDefaultSectorSize = 0, qcDisableMultipath = False, qcReconcileEnabled = None\<rparr>"

definition fake_ctl :: "fake_san qController" where
  "fake_ctl = \<lparr>qkSM = \<lparr>smClient = fake_client, smUser = ''u'', smPass = ''p''\<rparr>, qkCfg = fake_cfg, qkClock = fake_clock\<rparr>"

definition fake_disk :: "(int \<times> string \<times> int) list \<Rightarrow> fake_san" where
  "fake_disk ls = \<lparr>fkLUNs = ls, fkTargets = map (\<lambda>(i, n, _). (i, n, ''iqn'', [i])) ls, fkSnaps = [], fkToken = ''sid'', fkNow = 0\<rparr>"

definition fake_start :: "string \<Rightarrow> qstate" where
  "fake_start s = \<lparr>qSess = s, qCache = newLUNCache\<rparr>"

text \<open>One GiB on the LUN ''a'' at index 0, and the id of the volume.\<close>

definition disk_a :: fake_san where "disk_a = fake_disk [(0, ''a'', giB)]"
definition id_a :: qnapExternalID where "id_a = \<lparr>qeLUNIndex = 0, qeTargetIndex = 0, qeOwnTarget = True, qeLUNName = ''a''\<rparr>"
definition vid_a :: string where "vid_a = ''qnap/v1/0/0/t/a''"

definition make :: "string \<Rightarrow> ContentSource option \<Rightarrow> CreateVolumeRequest" where
  "make n src = \<lparr>crName = n, crCapacityRange = \<lparr>requiredBytes = giB, limitBytes = 0\<rparr>, crCapabilities = [], crParameters = Map.empty,
     crSecrets = Map.empty, crContentSource = src, crTopologyRequirement = []\<rparr>"

abbreviation make_b :: CreateVolumeRequest where "make_b \<equiv> make ''b'' None"


definition example_target :: target_entry where
  "example_target = \<lparr>teIQN = ''iqn.2004-04.com.qnap:a'', tePortals = [\<lparr>peAddr = ''10.0.0.1:3260'', peTPGT = ''1'', peOther = [''iSCSI Session State: LOGGED_IN''],
     peLUNs = [\<lparr>leLUN = 0, leDisk = Some ''sdb''\<rparr>]\<rparr>]\<rparr>"

lemma vid_a_parses: "qnapParseExternalID vid_a = Inr id_a"
  unfolding vid_a_def id_a_def by code_simp

lemma fake_ctl_simps [simp]: "qkCl fake_ctl = fake_client" "qkClock fake_ctl = fake_clock" "san (snd (Now fake_clock w)) = san w"
  by (simp_all add: fake_ctl_def fake_clock_def)

section \<open>The calls\<close>

text \<open>C3. For every client, in every state and whatever its calls return: a delete unmaps and deletes only the LUN of
  the id, each time right after reading a LUN of the recorded name there and an empty list of snapshots, and
  deletes the target of the id only if it is owned, right after reading the recorded name as its alias; a
  create deletes only a target and resizes only a LUN it made itself; expanding and snapshotting touch the LUN of
  the id only after its name was read; deleting a snapshot deletes just that id; the other operations
  only read.\<close>

theorem qnap_calls_guarded:
  assumes "qnapParseExternalID vid = Inr e" "qnapParseSnapshotID sid = Inr n"
  shows "wpl (qDeleteVolume (traced_ctl c) vid) [] (\<lambda>_. backed (delete_ok e))
    \<and> wpl (qCreateVolume (traced_ctl c) req) [] (\<lambda>_. backed create_ok)
    \<and> wpl (qExpandVolume (traced_ctl c) vid cr) [] (\<lambda>_. backed (modify_ok e))
    \<and> wpl (qCreateSnapshot (traced_ctl c) \<lparr>csSourceVolumeID = vid, csName = nm, csParameters = ps, csSecrets = ss\<rparr>) [] (\<lambda>_. backed (modify_ok e))
    \<and> wpl (qDeleteSnapshot (traced_ctl c) sid) [] (\<lambda>_. list_all (\<lambda>x. read_only x \<or> x = SnapDeleted (qsSnapshotID n)))
    \<and> wpl (qVolumeExists (traced_ctl c) v) [] (\<lambda>_. backed (\<lambda>_. read_only))
    \<and> wpl (qGetCapacity (traced_ctl c) ps) [] (\<lambda>_. backed (\<lambda>_. read_only))
    \<and> wpl (qListVolumes (traced_ctl c)) [] (\<lambda>_. backed (\<lambda>_. read_only))
    \<and> wpl (qListSnapshots (traced_ctl c) v) [] (\<lambda>_. backed (\<lambda>_. read_only))"
proof -
  have "good_log (\<lambda>_. read_only) {} []" by (simp add: good_log_def)
  note reads = reading.reading_ops_wpl [OF this]
  show ?thesis
    by (intro conjI delete_wpl create_wpl expand_wpl snapshot_wpl delete_snapshot_wpl
        wpl_mono [OF reads(1)] wpl_mono [OF reads(2)] wpl_mono [OF reads(3)] wpl_mono [OF reads(4)])
      (simp_all add: assms good_log_def)
qed

theorem qnap_calls_guarded_witness:
  "qnapParseExternalID vid_a = Inr id_a \<and> qnapParseSnapshotID ''qnaps/v1/0/1000'' = Inr \<lparr>qsLUNIndex = 0, qsSnapshotID = 1000\<rparr> \<and>
   wpl (qDeleteVolume (traced_ctl fake_ctl) vid_a) [] (\<lambda>_. backed (delete_ok id_a)) \<and>
   calls (snd (qDeleteVolume (traced_ctl fake_ctl) vid_a (([], disk_a), fake_start ''sid''))) =
     [GotLUN 0 (Ok \<lparr>lnIndex = 0, lnName = ''a'', lnCapacityBytes = giB\<rparr>), ListedSnaps 0 (Ok []), LUNUnmapped 0 0, LUNDeleted 0, Looked,
      GotTarget 0 (Ok \<lparr>tgIndex = 0, tgIQN = ''iqn'', tgAlias = ''a'', tgLUNs = []\<rparr>), TargetDeleted 0]"
proof -
  have s: "qnapParseSnapshotID ''qnaps/v1/0/1000'' = Inr \<lparr>qsLUNIndex = 0, qsSnapshotID = 1000\<rparr>" by code_simp
  have "calls (snd (qDeleteVolume (traced_ctl fake_ctl) vid_a (([], disk_a), fake_start ''sid''))) =
     [GotLUN 0 (Ok \<lparr>lnIndex = 0, lnName = ''a'', lnCapacityBytes = giB\<rparr>), ListedSnaps 0 (Ok []), LUNUnmapped 0 0, LUNDeleted 0, Looked,
      GotTarget 0 (Ok \<lparr>tgIndex = 0, tgIQN = ''iqn'', tgAlias = ''a'', tgLUNs = []\<rparr>), TargetDeleted 0]" by code_simp
  with qnap_calls_guarded [OF vid_a_parses s, of fake_ctl] vid_a_parses s show ?thesis by simp
qed

section \<open>Deletion\<close>



text \<open>With a session the appliance accepts, and an appliance that answers calls on objects it has, a delete has one
  outcome: if the LUN of the id is there under its name and has snapshots, FailedPrecondition and nothing
  changes; otherwise success, the LUN is gone if it was there under its name, the owned target is gone if it
  still carried the name, and nothing else changes. Deleting once more then succeeds and changes nothing.\<close>

theorem qnap_delete_exact:
  assumes "responsive cl san alive" "smClient (qkSM c) = cl" "qnapParseExternalID vid = Inr e"
    and "SessValid cl (qSess q)" "alive w (qSess q)" "qDeleteVolume c vid (w, q) = (r, w', q')"
  shows "(if holds_volume e (san w) \<and> snapshots_on (san w) (qeLUNIndex e) \<noteq> {}
      then san w' = san w \<and> r = Fail (FailedPrecondition ''volume %s still has %d snapshot(s); delete them first'')
      else r = Ok () \<and> san w' = deleted e (san w)) \<and> deleted e (deleted e (san w)) = deleted e (san w)"
proof -
  have "wp (qDeleteVolume c vid) (\<lambda>r (w', q'). if holds_volume e (san w) \<and> snapshots_on (san w) (qeLUNIndex e) \<noteq> {}
      then san w' = san w \<and> r = Fail (FailedPrecondition ''volume %s still has %d snapshot(s); delete them first'')
      else r = Ok () \<and> san w' = deleted e (san w)) (w, q)"
    by (rule responsive.delete_up_spec [OF assms(1-5)])
  then show ?thesis using assms(6) by (auto simp: wp_def deleted_def holds_volume_def target_after_def)
qed

theorem qnap_delete_exact_witness:
  "responsive fake_client fake_abs (\<lambda>w s. s = fkToken w) \<and> SessValid fake_client (qSess (fake_start ''sid'')) \<and> fkToken disk_a = qSess (fake_start ''sid'') \<and>
   (\<exists>w' q'. qDeleteVolume fake_ctl vid_a (disk_a, fake_start ''sid'') = (Ok (), w', q') \<and> fake_abs w' = deleted id_a (fake_abs disk_a) \<and>
     saLUNs (fake_abs disk_a) 0 = Some (''a'', giB) \<and> saLUNs (fake_abs w') 0 = None)"
proof -
  obtain r w' q' where r: "qDeleteVolume fake_ctl vid_a (disk_a, fake_start ''sid'') = (r, w', q')" by (metis prod_cases3)
  have s: "SessValid fake_client (qSess (fake_start ''sid''))" "fkToken disk_a = qSess (fake_start ''sid'')"
    by (simp_all add: fake_client_def fake_start_def disk_a_def fake_disk_def)
  have a: "fake_abs disk_a = \<lparr>saLUNs = [0 \<mapsto> (''a'', giB)], saTargets = [0 \<mapsto> ''a''], saSnaps = {}\<rparr>"
    by (auto simp: fake_abs_def disk_a_def fake_disk_def)
  have "r = Ok () \<and> fake_abs w' = deleted id_a (fake_abs disk_a)"
    using qnap_delete_exact [OF fake_up.responsive_axioms _ vid_a_parses s(1) s(2) [symmetric] r] by (simp add: a snapshots_on_def)
  then show ?thesis using fake_up.responsive_axioms s r by (auto simp: a deleted_def holds_volume_def id_a_def)
qed

section \<open>Creation and the index\<close>

text \<open>C10. The index of the controller, for every appliance that keeps the laws and that nobody else changes: the empty
  index is right, and every operation keeps it right (each name it holds is the name of the LUN at the
  recorded index), without a panic, although the index may be a minute old. With a right index a create never
  changes a LUN, target or snapshot that existed, and a volume it returns has an id that names a LUN of the
  sanitized name, with the capacity of that LUN.\<close>

theorem qnap_index:
  assumes "appliance cl san" "smClient (qkSM c) = cl" "\<forall>w. san (snd (Now (qkClock c) w)) = san w" "index_ok (san w) (qCache q)"
  shows "index_ok (san w) newLUNCache
    \<and> wp (qCreateVolume c req) (\<lambda>r (w', q'). created (sanitizeLUNName (crName req)) (san w) r (san w') (qCache q')) (w, q)
    \<and> wp (qDeleteVolume c vid) (\<lambda>r (w', q'). no_panic r \<and> index_ok (san w') (qCache q')) (w, q)
    \<and> wp (qExpandVolume c vid cr) (\<lambda>r (w', q'). no_panic r \<and> index_ok (san w') (qCache q')) (w, q)
    \<and> wp (qCreateSnapshot c sreq) (\<lambda>r (w', q'). no_panic r \<and> index_ok (san w') (qCache q')) (w, q)
    \<and> wp (qDeleteSnapshot c sid) (\<lambda>r (w', q'). no_panic r \<and> index_ok (san w') (qCache q')) (w, q)
    \<and> wp (qVolumeExists c vid) (\<lambda>r (w', q'). no_panic r \<and> san w' = san w \<and> index_ok (san w) (qCache q')) (w, q)
    \<and> wp (qGetCapacity c ps) (\<lambda>r (w', q'). no_panic r \<and> san w' = san w \<and> index_ok (san w) (qCache q')) (w, q)
    \<and> wp (qListVolumes c) (\<lambda>r (w', q'). no_panic r \<and> san w' = san w \<and> index_ok (san w) (qCache q')) (w, q)
    \<and> wp (qListSnapshots c src) (\<lambda>r (w', q'). no_panic r \<and> san w' = san w \<and> index_ok (san w) (qCache q')) (w, q)"
proof -
  have clock: "\<And>w. san (snd (Now (qkClock c) w)) = san w" using assms(3) by blast
  note a = assms(1,2)
  show ?thesis
    by (intro conjI index_ok_new appliance.create_spec [OF a clock assms(4)] appliance.delete_index [OF a assms(4)] appliance.expand_index [OF a assms(4)]
        appliance.snapshot_index [OF a assms(4)] appliance.reads_index [OF a clock assms(4)])
qed

theorem qnap_index_witness:
  "appliance fake_client fake_abs \<and> (\<forall>w. fake_abs (snd (Now (qkClock fake_ctl) w)) = fake_abs w) \<and> index_ok (fake_abs disk_a) (qCache (fake_start [])) \<and>
   (\<exists>v w' q'. qCreateVolume fake_ctl make_b (disk_a, fake_start []) = (Ok v, w', q') \<and> volumeID v = ''qnap/v1/1/1/t/b'' \<and>
     created (sanitizeLUNName ''b'') (fake_abs disk_a) (Ok v) (fake_abs w') (qCache q'))"
proof -
  have i: "index_ok (fake_abs disk_a) (qCache (fake_start []))" by (simp add: fake_start_def)
  have k: "\<forall>w. fake_abs (snd (Now (qkClock fake_ctl) w)) = fake_abs w" by simp
  obtain r w' q' where r: "qCreateVolume fake_ctl make_b (disk_a, fake_start []) = (r, w', q')" by (metis prod_cases3)
  have "(case qCreateVolume fake_ctl make_b (disk_a, fake_start []) of (Ok v, _) \<Rightarrow> volumeID v = ''qnap/v1/1/1/t/b'' | _ \<Rightarrow> False)" by code_simp
  then obtain v where v: "r = Ok v" "volumeID v = ''qnap/v1/1/1/t/b''" using r by (cases r) auto
  have "wp (qCreateVolume fake_ctl make_b) (\<lambda>r (w', q'). created (sanitizeLUNName (crName make_b)) (fake_abs disk_a) r (fake_abs w') (qCache q')) (disk_a, fake_start [])"
    using qnap_index [OF fake.appliance_axioms _ k i] by simp
  then show ?thesis using fake.appliance_axioms i k r v by (auto simp: wp_def make_def)
qed

section \<open>Where a guard is missing\<close>

text \<open>C29. A delete takes any error of the first read for absence. With an expired session it returns success although the
  volume is still there and unchanged, for every state of the appliance and every id, and does not log in
  again; in the same state the operation that asks whether the volume exists logs in again and finds it.\<close>

theorem qnap_delete_expired:
  assumes "qnapParseExternalID vid = Inr e" "qSess q \<noteq> []" "fkToken w \<noteq> qSess q" "map_of (fkLUNs w) (qeLUNIndex e) = Some (n, b)" "n \<noteq> []" "n = qeLUNName e"
  shows "(\<exists>q'. qDeleteVolume fake_ctl vid (w, q) = (Ok (), w, q') \<and> qSess q' = qSess q) \<and> (\<exists>q'. qVolumeExists fake_ctl vid (w, q) = (Ok True, w, q'))"
proof -
  have body: "delete_body fake_client e (qSess q) (w, q) = (Ok (), w, q)"
    using assms(3) by (simp add: delete_body_def delete_target_def targetIsOurs_def io_simps on_san_def fake_client_def authd_def)
  have get: "sm_get (qkSM fake_ctl) (w, q) = (Ok (qSess q), w, q)" using assms(2) by (simp add: sm_get_def fake_client_def)
  have auth: "isAuthError SessionInvalid" by (simp add: isAuthError_def)
  have again: "get_lun fake_ctl (qeLUNIndex e) (w, q) = (Ok \<lparr>lnIndex = qeLUNIndex e, lnName = n, lnCapacityBytes = b\<rparr>, w, q\<lparr>qSess := fkToken w\<rparr>)"
    using assms(3,4) by (simp add: get_lun_def sm_do_def bindIO_def tryIO_def get on_san_def authd_def fake_client_def fake_get_lun_def auth
        sm_reset_def sm_get_def fake_ctl_def)
  have "qDeleteVolume fake_ctl vid (w, q) = (Ok (), w, q\<lparr>qCache := removeLUN (qeLUNIndex e) (qCache q)\<rparr>)"
    by (simp add: qDeleteVolume_def assms(1) deferIO_def sm_do_def get body io_simps set_cache_def)
  moreover have "qVolumeExists fake_ctl vid (w, q) = (Ok True, w, q\<lparr>qSess := fkToken w\<rparr>)"
    using assms(5,6) by (simp add: qVolumeExists_def assms(1) bindIO_def tryIO_def liftE_def ret_def again)
  ultimately show ?thesis by simp
qed

theorem qnap_delete_expired_witness:
  "fkToken disk_a \<noteq> ''old'' \<and> (\<exists>q'. qDeleteVolume fake_ctl vid_a (disk_a, fake_start ''old'') = (Ok (), disk_a, q'))"
proof -
  have "map_of (fkLUNs disk_a) (qeLUNIndex id_a) = Some (''a'', giB)" by (simp add: disk_a_def fake_disk_def id_a_def)
  moreover have "fkToken disk_a \<noteq> ''old''" by (simp add: disk_a_def fake_disk_def)
  ultimately show ?thesis using qnap_delete_expired [OF vid_a_parses, of "fake_start ''old''" disk_a] by (auto simp: fake_start_def id_a_def)
qed


section \<open>Round trips\<close>

text \<open>C31. Volume and snapshot ids of the SAN parse back to what was printed, for 64-bit indices and names without a
  slash; a sanitized LUN name has at most 64 letters, digits, '-' or '_', is stable, and so always gives an id
  that parses. The session listing of iscsiadm parses to exactly the sessions it shows.\<close>

theorem qnap_round_trips:
  "(qid_wf e \<longrightarrow> qnapParseExternalID (qnapExternalID_String e) = Inr e)
   \<and> (in64 (qsLUNIndex s) \<longrightarrow> in64 (qsSnapshotID s) \<longrightarrow> qnapParseSnapshotID (qnapSnapshotID_String s) = Inr s)
   \<and> (list_all lun_char (sanitizeLUNName n) \<and> length (sanitizeLUNName n) \<le> 64 \<and> sanitizeLUNName (sanitizeLUNName n) = sanitizeLUNName n)
   \<and> (in64 i \<longrightarrow> in64 t \<longrightarrow> qid_wf \<lparr>qeLUNIndex = i, qeTargetIndex = t, qeOwnTarget = own, qeLUNName = sanitizeLUNName n\<rparr>)
   \<and> (list_all target_ok ts \<longrightarrow> parseSessions (session_listing ts) = concat (map sessions_of ts))"
  using qnapParseExternalID_String qnapParseSnapshotID_String sanitizeLUNName_chars sanitizeLUNName_length sanitizeLUNName_idem
    sanitizeLUNName_no_slash parseSessions_listing by (simp add: qid_wf_def)

theorem qnap_round_trips_witness:
  "qnapParseExternalID (qnapExternalID_String id_a) = Inr id_a \<and> qnapExternalID_String id_a = vid_a \<and>
   qnapParseSnapshotID (qnapSnapshotID_String \<lparr>qsLUNIndex = 0, qsSnapshotID = 1000\<rparr>) = Inr \<lparr>qsLUNIndex = 0, qsSnapshotID = 1000\<rparr> \<and>
   qid_wf \<lparr>qeLUNIndex = 0, qeTargetIndex = 0, qeOwnTarget = True, qeLUNName = sanitizeLUNName ''a/b''\<rparr> \<and> sanitizeLUNName ''a/b'' = ''a-b'' \<and>
   parseSessions (session_listing [example_target]) = sessions_of example_target"
proof -
  have "qid_wf id_a" "in64 0" "in64 1000" "list_all target_ok [example_target]" "qnapExternalID_String id_a = vid_a" "sanitizeLUNName ''a/b'' = ''a-b''"
    by code_simp+
  then show ?thesis
    using qnap_round_trips [of id_a "\<lparr>qsLUNIndex = 0, qsSnapshotID = 1000\<rparr>" "''a/b''" 0 0 True "[example_target]"] by simp
qed

end
