(* ===== verification/Stats_Walk.thy ===== *)
theory Stats_Walk
  imports Go_Clock "HOL-Library.Word"
begin

unbundle bit_operations_syntax

text \<open>
  \<^verbatim>\<open>internal/stats/walk.go\<close>: counting the files of a volume with a pool of workers that all volumes share. The pool
  is a transition system: each worker, each caller of \<^verbatim>\<open>walk\<close> and the contexts make steps in any order. A worker
  is where its loop stands; the steps are the critical sections and atomic operations of the code. What
  reading a directory gives is the argument \<open>rd\<close>. The lemmas show that the counter a caller waits for is the
  number of directories outstanding, that nothing deadlocks, that every walk ends, and that its
  counts are those of a recursive count of the tree (\<open>tally\<close>).
\<close>

section \<open>Entries\<close>

text \<open>\<^verbatim>\<open>fs.FileMode\<close>.\<close>

type_synonym FileMode = "32 word"

definition ModeDir :: FileMode where "ModeDir = push_bit 31 1"

definition ModeSymlink :: FileMode where "ModeSymlink = push_bit 27 1"

text \<open>Directories, symbolic links, pipes, sockets, devices, character devices and irregular files.\<close>

definition ModeType :: FileMode where
  "ModeType = ModeDir OR ModeSymlink OR push_bit 25 1 OR push_bit 24 1 OR push_bit 26 1 OR push_bit 21 1 OR push_bit 19 1"

definition IsDir :: "FileMode \<Rightarrow> bool" where "IsDir m \<longleftrightarrow> m AND ModeDir \<noteq> 0"

definition IsRegular :: "FileMode \<Rightarrow> bool" where "IsRegular m \<longleftrightarrow> m AND ModeType = 0"

definition unknownDirentType :: FileMode where "unknownDirentType = NOT 0"

text \<open>An entry: its name, the type that the directory gives, and what a stat of it gives.\<close>

record DirEntry =
  deName :: string
  deType :: FileMode
  deInfo :: "err + FileMode"

datatype kind = kindOther | kindFile | kindDir

definition kind_of_mode :: "FileMode \<Rightarrow> kind" where
  "kind_of_mode m = (if IsDir m then kindDir else if IsRegular m then kindFile else kindOther)"

definition walk_classify :: "DirEntry \<Rightarrow> kind" where
  "walk_classify de = (if deType de = unknownDirentType
     then (case deInfo de of Inl _ \<Rightarrow> kindOther | Inr m \<Rightarrow> kind_of_mode m)
     else kind_of_mode (deType de))"

section \<open>Errors of a walk\<close>

record errAgg =
  eaErrs :: "err list"
  eaTotal :: "64 word"

definition maxRetainedWalkErrors :: nat where "maxRetainedWalkErrors = 16"

definition errAgg_add :: "err \<Rightarrow> errAgg \<Rightarrow> errAgg" where
  "errAgg_add e a = \<lparr>eaErrs = (if length (eaErrs a) < maxRetainedWalkErrors then eaErrs a @ [e] else eaErrs a), eaTotal = eaTotal a + 1\<rparr>"

definition errAgg_err :: "errAgg \<Rightarrow> err option" where
  "errAgg_err a = (if eaTotal a = 0 then None else if eaTotal a = 1 then Some (eaErrs a ! 0) else Some (PlainErr ''%d walk errors: %s%s''))"

section \<open>The pool\<close>

record walkResult =
  wrFiles :: "64 word"
  wrDirs :: "64 word"
  wrOther :: "64 word"
  wrErr :: "err option"

text \<open>Where the goroutine that called \<^verbatim>\<open>walk\<close> is: before its submit, at the wait, or done.\<close>

datatype caller = Submitting | Blocked | Returned walkResult

text \<open>A job: the context (its error once it is done) and the root that \<^verbatim>\<open>walk\<close> was called with, the counters, the wait group.\<close>

record walkJob =
  wjDone :: "err option"
  wjRoot :: string
  wjFiles :: "64 word"
  wjDirs :: "64 word"
  wjOther :: "64 word"
  wjWg :: int
  wjErrs :: errAgg
  wjCaller :: caller

type_synonym walkItem = "string \<times> nat"

text \<open>A worker: waiting for an item, about to read a directory, at the entries of one, between counting a
  directory and handing it over, releasing the items of a closed pool, gone.\<close>

datatype pool_worker = Idle | Begin walkItem | Entries walkItem "DirEntry list" | Handing walkItem string "DirEntry list"
  | Draining "walkItem list" | Exited

record walkPool =
  wpQueue :: "walkItem list"
  wpClosed :: bool
  wpJobs :: "walkJob list"
  wpWorkers :: "pool_worker list"
  wpBase :: "err option"   \<comment> \<open>the error of the backend's context\<close>

definition DefaultWalkWorkers :: nat where "DefaultWalkWorkers = 4"

definition newWalkPool :: "int \<Rightarrow> walkPool" where
  "newWalkPool workers = \<lparr>wpQueue = [], wpClosed = False, wpJobs = [],
     wpWorkers = replicate (if workers \<le> 0 then DefaultWalkWorkers else nat workers) Idle, wpBase = None\<rparr>"

definition on_job :: "nat \<Rightarrow> (walkJob \<Rightarrow> walkJob) \<Rightarrow> walkPool \<Rightarrow> walkPool" where
  "on_job j f p = p\<lparr>wpJobs := (wpJobs p)[j := f (wpJobs p ! j)]\<rparr>"

definition wg_add :: "int \<Rightarrow> walkJob \<Rightarrow> walkJob" where
  "wg_add n j = j\<lparr>wjWg := wjWg j + n\<rparr>"

definition set_worker :: "nat \<Rightarrow> pool_worker \<Rightarrow> walkPool \<Rightarrow> walkPool" where
  "set_worker i x p = p\<lparr>wpWorkers := (wpWorkers p)[i := x]\<rparr>"

definition submit :: "walkItem \<Rightarrow> walkPool \<Rightarrow> walkPool" where
  "submit it p = (if wpClosed p then on_job (snd it) (wg_add (-1)) p else p\<lparr>wpQueue := wpQueue p @ [it]\<rparr>)"

text \<open>The end of \<^verbatim>\<open>process\<close>: the deferred \<^verbatim>\<open>wg.Done\<close>, and back to the loop of \<^verbatim>\<open>run\<close>.\<close>

definition finish :: "nat \<Rightarrow> nat \<Rightarrow> walkPool \<Rightarrow> walkPool" where
  "finish i j p = set_worker i Idle (on_job j (wg_add (-1)) p)"

definition child :: "string \<Rightarrow> DirEntry \<Rightarrow> string" where
  "child d e = path_Join [d, deName e]"

text \<open>\<^verbatim>\<open>process\<close>: the check of the context and the read, then one entry at a time.\<close>

definition process_begin :: "(string \<Rightarrow> err + DirEntry list) \<Rightarrow> nat \<Rightarrow> walkItem \<Rightarrow> walkPool \<Rightarrow> walkPool" where
  "process_begin rd i it p = (case it of (d, j) \<Rightarrow>
     if wjDone (wpJobs p ! j) \<noteq> None then finish i j p
     else case rd d of
       Inl e \<Rightarrow> finish i j (on_job j (\<lambda>b. b\<lparr>wjErrs := errAgg_add e (wjErrs b)\<rparr>) p)
     | Inr es \<Rightarrow> set_worker i (Entries it es) p)"

definition process_entry :: "nat \<Rightarrow> walkItem \<Rightarrow> DirEntry \<Rightarrow> DirEntry list \<Rightarrow> walkPool \<Rightarrow> walkPool" where
  "process_entry i it e es p = (case it of (d, j) \<Rightarrow>
     if wjDone (wpJobs p ! j) \<noteq> None then finish i j p
     else case walk_classify e of
       kindDir \<Rightarrow> set_worker i (Handing it (child d e) es) (on_job j (\<lambda>b. wg_add 1 (b\<lparr>wjDirs := wjDirs b + 1\<rparr>)) p)
     | kindFile \<Rightarrow> set_worker i (Entries it es) (on_job j (\<lambda>b. b\<lparr>wjFiles := wjFiles b + 1\<rparr>) p)
     | kindOther \<Rightarrow> set_worker i (Entries it es) (on_job j (\<lambda>b. b\<lparr>wjOther := wjOther b + 1\<rparr>) p))"

text \<open>\<^verbatim>\<open>run\<close>: the next step of a worker; \<^term>\<open>None\<close> when it waits or is gone.\<close>

definition worker_step :: "(string \<Rightarrow> err + DirEntry list) \<Rightarrow> nat \<Rightarrow> walkPool \<Rightarrow> walkPool option" where
  "worker_step rd i p = (case wpWorkers p ! i of
     Idle \<Rightarrow> if wpClosed p then Some (set_worker i (Draining (wpQueue p)) (p\<lparr>wpQueue := []\<rparr>))
       else (case wpQueue p of [] \<Rightarrow> None | it # rest \<Rightarrow> Some (set_worker i (Begin it) (p\<lparr>wpQueue := rest\<rparr>)))
   | Begin it \<Rightarrow> Some (process_begin rd i it p)
   | Entries it [] \<Rightarrow> Some (finish i (snd it) p)
   | Entries it (e # es) \<Rightarrow> Some (process_entry i it e es p)
   | Handing it c es \<Rightarrow> Some (set_worker i (Entries it es) (submit (c, snd it) p))
   | Draining [] \<Rightarrow> Some (set_worker i Exited p)
   | Draining (it # r) \<Rightarrow> Some (set_worker i (Draining r) (on_job (snd it) (wg_add (-1)) p))
   | Exited \<Rightarrow> None)"

text \<open>\<^verbatim>\<open>walk\<close>: a new job, its submit, the wait and the result.\<close>

definition walk_start :: "string \<Rightarrow> walkPool \<Rightarrow> walkPool" where
  "walk_start root p = p\<lparr>wpJobs := wpJobs p @ [\<lparr>wjDone = wpBase p, wjRoot = root, wjFiles = 0, wjDirs = 0, wjOther = 0,
     wjWg = 1, wjErrs = \<lparr>eaErrs = [], eaTotal = 0\<rparr>, wjCaller = Submitting\<rparr>]\<rparr>"

definition result_of :: "walkJob \<Rightarrow> walkResult" where
  "result_of b = \<lparr>wrFiles = wjFiles b, wrDirs = wjDirs b, wrOther = wjOther b,
     wrErr = (case wjDone b of Some e \<Rightarrow> Some e | None \<Rightarrow> errAgg_err (wjErrs b))\<rparr>"

definition caller_step :: "nat \<Rightarrow> walkPool \<Rightarrow> walkPool option" where
  "caller_step j p = (case wjCaller (wpJobs p ! j) of
     Submitting \<Rightarrow> Some (on_job j (\<lambda>b. b\<lparr>wjCaller := Blocked\<rparr>) (submit (wjRoot (wpJobs p ! j), j) p))
   | Blocked \<Rightarrow> if wjWg (wpJobs p ! j) = 0 then Some (on_job j (\<lambda>b. b\<lparr>wjCaller := Returned (result_of b)\<rparr>) p) else None
   | Returned _ \<Rightarrow> None)"

text \<open>The contexts: one job's deadline or cancellation, the end of the backend's context (from which every job's is
  derived), and the goroutine that then closes the pool.\<close>

definition expire :: "err \<Rightarrow> walkJob \<Rightarrow> walkJob" where
  "expire e b = b\<lparr>wjDone := (case wjDone b of None \<Rightarrow> Some e | Some x \<Rightarrow> Some x)\<rparr>"

definition shutdown :: "err \<Rightarrow> walkPool \<Rightarrow> walkPool" where
  "shutdown e p = p\<lparr>wpBase := Some e, wpJobs := map (expire e) (wpJobs p)\<rparr>"

inductive pool_step :: "(string \<Rightarrow> err + DirEntry list) \<Rightarrow> walkPool \<Rightarrow> walkPool \<Rightarrow> bool" for rd where
  worker: "i < length (wpWorkers p) \<Longrightarrow> worker_step rd i p = Some q \<Longrightarrow> pool_step rd p q"
| caller: "j < length (wpJobs p) \<Longrightarrow> caller_step j p = Some q \<Longrightarrow> pool_step rd p q"

inductive env_step :: "(string \<Rightarrow> bool) \<Rightarrow> walkPool \<Rightarrow> walkPool \<Rightarrow> bool" for ok where
  start: "ok root \<Longrightarrow> env_step ok p (walk_start root p)"
| cancel: "j < length (wpJobs p) \<Longrightarrow> env_step ok p (on_job j (expire e) p)"
| shut: "wpBase p = None \<Longrightarrow> env_step ok p (shutdown e p)"
| close: "wpBase p \<noteq> None \<Longrightarrow> env_step ok p (p\<lparr>wpClosed := True\<rparr>)"

text \<open>The states of a pool of some workers, the walks being of roots that satisfy \<open>ok\<close>; each step may find another file system in \<open>R\<close>.\<close>

inductive pool_reach :: "(string \<Rightarrow> err + DirEntry list) set \<Rightarrow> (string \<Rightarrow> bool) \<Rightarrow> int \<Rightarrow> walkPool \<Rightarrow> bool" for R ok n where
  init: "pool_reach R ok n (newWalkPool n)"
| step: "pool_reach R ok n p \<Longrightarrow> rd \<in> R \<Longrightarrow> pool_step rd p q \<Longrightarrow> pool_reach R ok n q"
| env: "pool_reach R ok n p \<Longrightarrow> env_step ok p q \<Longrightarrow> pool_reach R ok n q"

section \<open>Sums over the work outstanding\<close>

text \<open>\<open>W\<close> weighs an item, \<open>E\<close> the entries of an item that are still to be handled.\<close>

fun worker_work :: "(walkItem \<Rightarrow> 'a) \<Rightarrow> (walkItem \<Rightarrow> DirEntry list \<Rightarrow> 'a) \<Rightarrow> pool_worker \<Rightarrow> 'a::comm_monoid_add" where
  "worker_work W E Idle = 0"
| "worker_work W E (Begin it) = W it"
| "worker_work W E (Entries it es) = E it es"
| "worker_work W E (Handing it c es) = W (c, snd it) + E it es"
| "worker_work W E (Draining r) = sum_list (map W r)"
| "worker_work W E Exited = 0"

definition work :: "(walkItem \<Rightarrow> 'a) \<Rightarrow> (walkItem \<Rightarrow> DirEntry list \<Rightarrow> 'a) \<Rightarrow> walkPool \<Rightarrow> 'a::comm_monoid_add" where
  "work W E p = sum_list (map W (wpQueue p)) + sum_list (map (worker_work W E) (wpWorkers p))"

lemma sum_list_swap: "i < length xs \<Longrightarrow> sum_list (map f (xs[i := x])) + f (xs ! i) = sum_list (map f xs) + (f x :: 'a::comm_monoid_add)"
proof (induction xs arbitrary: i)
  case (Cons y ys)
  show ?case
  proof (cases i)
    case (Suc k)
    then show ?thesis using Cons.IH [of k] Cons.prems by (simp add: add.assoc)
  qed (simp add: ac_simps)
qed simp

lemma sum_list_upd: "i < length xs \<Longrightarrow> sum_list (map f (xs[i := x])) = sum_list (map f xs) - f (xs ! i) + (f x :: 'a::ab_group_add)"
  using sum_list_swap [of i xs f x] by (simp add: algebra_simps)

lemma work_set_worker: "i < length (wpWorkers p) \<Longrightarrow>
  work W E (set_worker i x p) = work W E p - worker_work W E (wpWorkers p ! i) + (worker_work W E x :: 'a::ab_group_add)"
  by (simp add: work_def set_worker_def sum_list_upd algebra_simps)

lemma work_on_job [simp]: "work W E (on_job j f p) = work W E p"
  by (simp add: work_def on_job_def)

lemma work_submit: "work W E (submit it p) = work W E p + (if wpClosed p then 0 else W it)"
  by (simp add: work_def submit_def on_job_def ac_simps)

lemma work_jobs [simp]: "work W E (p\<lparr>wpJobs := js\<rparr>) = work W E p" "work W E (p\<lparr>wpClosed := b\<rparr>) = work W E p" "work W E (p\<lparr>wpBase := x\<rparr>) = work W E p"
  by (simp_all add: work_def)

lemma pool_fields [simp]:
  "wpWorkers (on_job j f p) = wpWorkers p" "wpQueue (on_job j f p) = wpQueue p" "wpClosed (on_job j f p) = wpClosed p" "wpBase (on_job j f p) = wpBase p"
  "wpJobs (set_worker i x p) = wpJobs p" "wpQueue (set_worker i x p) = wpQueue p" "wpClosed (set_worker i x p) = wpClosed p" "wpBase (set_worker i x p) = wpBase p"
  "wpWorkers (set_worker i x p) = (wpWorkers p)[i := x]" "wpWorkers (submit it p) = wpWorkers p" "wpClosed (submit it p) = wpClosed p" "wpBase (submit it p) = wpBase p"
  "length (wpJobs (on_job j f p)) = length (wpJobs p)" "length (wpJobs (submit it p)) = length (wpJobs p)"
  by (simp_all add: on_job_def set_worker_def submit_def)

lemma job_on_job: "j < length (wpJobs p) \<Longrightarrow> wpJobs (on_job i f p) ! j = (if i = j then f (wpJobs p ! j) else wpJobs p ! j)"
  by (simp add: on_job_def nth_list_update)

lemma job_submit: "j < length (wpJobs p) \<Longrightarrow>
  wpJobs (submit it p) ! j = (if wpClosed p \<and> snd it = j then wg_add (-1) (wpJobs p ! j) else wpJobs p ! j)"
  by (auto simp: submit_def job_on_job)

lemma wg_add_fields [simp]: "wjWg (wg_add n b) = wjWg b + n" "wjCaller (wg_add n b) = wjCaller b" "wjDone (wg_add n b) = wjDone b" "wjRoot (wg_add n b) = wjRoot b"
  "wjFiles (wg_add n b) = wjFiles b" "wjDirs (wg_add n b) = wjDirs b" "wjOther (wg_add n b) = wjOther b" "wjErrs (wg_add n b) = wjErrs b"
  by (simp_all add: wg_add_def)

lemmas step_defs = worker_step_def process_begin_def process_entry_def finish_def
lemmas step_jobs = job_on_job job_submit

section \<open>The wait group counts what is outstanding\<close>

definition outstanding :: "nat \<Rightarrow> walkPool \<Rightarrow> int" where
  "outstanding j = work (\<lambda>it. of_bool (snd it = j)) (\<lambda>it es. of_bool (snd it = j))"

definition accounted :: "walkPool \<Rightarrow> bool" where
  "accounted p \<longleftrightarrow> (\<forall>j < length (wpJobs p). wjWg (wpJobs p ! j) = outstanding j p + of_bool (wjCaller (wpJobs p ! j) = Submitting))"

lemma sum_nonneg: "(\<And>x. x \<in> set xs \<Longrightarrow> 0 \<le> f x) \<Longrightarrow> 0 \<le> sum_list (map f xs :: int list)"
  by (induction xs) auto

lemma worker_out_nonneg: "(0::int) \<le> worker_work (\<lambda>it. of_bool (snd it = j)) (\<lambda>it es. of_bool (snd it = j)) w"
  by (cases w) (auto intro!: sum_nonneg)

lemma outstanding_nonneg: "0 \<le> outstanding j p"
  unfolding outstanding_def work_def by (intro add_nonneg_nonneg sum_nonneg worker_out_nonneg) simp

lemma worker_accounted:
  assumes "i < length (wpWorkers p)" "worker_step rd i p = Some q" "j < length (wpJobs p)"
  shows "length (wpJobs q) = length (wpJobs p) \<and> wjCaller (wpJobs q ! j) = wjCaller (wpJobs p ! j)
    \<and> wjWg (wpJobs q ! j) - wjWg (wpJobs p ! j) = outstanding j q - outstanding j p"
  using assms unfolding outstanding_def
  by (auto simp: step_defs work_set_worker work_submit step_jobs split: pool_worker.splits list.splits if_splits prod.splits sum.splits kind.splits)
     (auto simp: work_def step_jobs set_worker_def sum_list_upd)

lemma caller_accounted:
  assumes "k < length (wpJobs p)" "caller_step k p = Some q" "j < length (wpJobs p)"
  shows "length (wpJobs q) = length (wpJobs p)
    \<and> wjWg (wpJobs q ! j) - wjWg (wpJobs p ! j) = outstanding j q - outstanding j p + of_bool (wjCaller (wpJobs q ! j) = Submitting) - of_bool (wjCaller (wpJobs p ! j) = Submitting)"
  using assms unfolding outstanding_def
  by (auto simp: caller_step_def work_submit step_jobs split: caller.splits if_splits)

text \<open>What else holds of the flags: the pool closes only after the backend's context is done, and then every job's
  is; a worker leaves only a closed pool, and leaves no item behind.\<close>

definition leaving :: "pool_worker \<Rightarrow> bool" where
  "leaving w \<longleftrightarrow> w = Exited \<or> (\<exists>r. w = Draining r)"

definition closing :: "walkPool \<Rightarrow> bool" where
  "closing p \<longleftrightarrow> (wpClosed p \<longrightarrow> wpBase p \<noteq> None) \<and> (wpBase p \<noteq> None \<longrightarrow> (\<forall>b \<in> set (wpJobs p). wjDone b \<noteq> None))
     \<and> (list_ex leaving (wpWorkers p) \<longrightarrow> wpClosed p \<and> wpQueue p = []) \<and> wpWorkers p \<noteq> []"

lemma on_job_map: "(\<And>b. g (f b) = g b) \<Longrightarrow> map g (wpJobs (on_job j f p)) = map g (wpJobs p)"
  by (cases "j < length (wpJobs p)") (auto simp: on_job_def nth_list_update intro!: nth_equalityI)

lemma submit_map: "(\<And>b. g (wg_add (-1) b) = g b) \<Longrightarrow> map g (wpJobs (submit it p)) = map g (wpJobs p)"
  by (simp add: submit_def on_job_map)

lemma worker_done: "worker_step rd i p = Some q \<Longrightarrow> map wjDone (wpJobs q) = map wjDone (wpJobs p) \<and> map wjRoot (wpJobs q) = map wjRoot (wpJobs p)
    \<and> map wjCaller (wpJobs q) = map wjCaller (wpJobs p) \<and> wpClosed q = wpClosed p \<and> wpBase q = wpBase p"
  by (auto simp: step_defs on_job_map submit_map split: pool_worker.splits list.splits if_splits prod.splits sum.splits kind.splits)

lemma all_done: "map wjDone (wpJobs q) = map wjDone (wpJobs p) \<Longrightarrow> (\<forall>b \<in> set (wpJobs q). wjDone b \<noteq> None) = (\<forall>b \<in> set (wpJobs p). wjDone b \<noteq> None)"
  by (metis (mono_tags, lifting) image_iff list.set_map)

lemma worker_leaving: "i < length (wpWorkers p) \<Longrightarrow> worker_step rd i p = Some q \<Longrightarrow> closing p \<Longrightarrow>
  (list_ex leaving (wpWorkers q) \<longrightarrow> wpClosed q \<and> wpQueue q = []) \<and> wpWorkers q \<noteq> []"
proof -
  assume i: "i < length (wpWorkers p)" and s: "worker_step rd i p = Some q" and c: "closing p"
  have w: "list_ex leaving ((wpWorkers p)[i := x]) \<Longrightarrow> leaving x \<or> list_ex leaving (wpWorkers p)" for x
    by (auto simp: list_ex_iff dest: set_update_subset_insert [THEN subsetD])
  have old: "leaving (wpWorkers p ! i) \<Longrightarrow> list_ex leaving (wpWorkers p)" using i by (auto simp: list_ex_iff)
  show ?thesis using s c i old
    by (auto simp: closing_def step_defs submit_def leaving_def [of Idle] leaving_def [of "Begin x" for x] leaving_def [of "Entries a b" for a b] leaving_def [of "Handing a b c" for a b c]
        split: pool_worker.splits list.splits if_splits prod.splits sum.splits kind.splits dest!: w) (auto simp: leaving_def)
qed

lemma worker_closing: "i < length (wpWorkers p) \<Longrightarrow> worker_step rd i p = Some q \<Longrightarrow> closing p \<Longrightarrow> closing q"
  using worker_leaving [of i p rd q] worker_done [of rd i p q] all_done [of q p] by (simp add: closing_def)

lemma caller_done: "caller_step j p = Some q \<Longrightarrow> map wjDone (wpJobs q) = map wjDone (wpJobs p) \<and> map wjRoot (wpJobs q) = map wjRoot (wpJobs p)
    \<and> wpClosed q = wpClosed p \<and> wpBase q = wpBase p \<and> wpWorkers q = wpWorkers p \<and> (wpClosed p \<longrightarrow> wpQueue q = wpQueue p)"
  by (auto simp: caller_step_def on_job_map submit_map submit_def split: caller.splits if_splits)

lemma caller_closing: "caller_step j p = Some q \<Longrightarrow> closing p \<Longrightarrow> closing q"
  using caller_done [of j p q] all_done [of q p] by (auto simp: closing_def)

lemma env_closing: "env_step ok p q \<Longrightarrow> closing p \<Longrightarrow> closing q"
proof (induction rule: env_step.induct)
  case (cancel j p e)
  have "\<forall>b \<in> set (wpJobs (on_job j (expire e) p)). wjDone b \<noteq> None" if "\<forall>b \<in> set (wpJobs p). wjDone b \<noteq> None"
    using that by (auto simp: on_job_def expire_def split: option.splits dest!: set_update_subset_insert [THEN subsetD])
  then show ?case using cancel.prems by (simp add: closing_def)
next
  case (shut p e)
  then show ?case by (auto simp: closing_def shutdown_def expire_def split: option.splits)
qed (auto simp: closing_def walk_start_def)

text \<open>\<open>each I p\<close>: every item in the pool satisfies \<open>I\<close>, and so do the directories among the entries that a worker still holds.\<close>

definition entries_each :: "(walkItem \<Rightarrow> bool) \<Rightarrow> walkItem \<Rightarrow> DirEntry list \<Rightarrow> bool" where
  "entries_each I it es \<longleftrightarrow> (\<forall>e \<in> set es. walk_classify e = kindDir \<longrightarrow> I (child (fst it) e, snd it))"

fun worker_each :: "(walkItem \<Rightarrow> bool) \<Rightarrow> pool_worker \<Rightarrow> bool" where
  "worker_each I Idle = True"
| "worker_each I (Begin it) = I it"
| "worker_each I (Entries it es) = (I it \<and> entries_each I it es)"
| "worker_each I (Handing it c es) = (I it \<and> I (c, snd it) \<and> entries_each I it es)"
| "worker_each I (Draining r) = list_all I r"
| "worker_each I Exited = True"

definition each :: "(walkItem \<Rightarrow> bool) \<Rightarrow> walkPool \<Rightarrow> bool" where
  "each I p \<longleftrightarrow> list_all I (wpQueue p) \<and> list_all (worker_each I) (wpWorkers p)"

lemma list_all_update: "list_all P xs \<Longrightarrow> P x \<Longrightarrow> list_all P (xs[i := x])"
  by (auto simp: list_all_iff dest!: set_update_subset_insert [THEN subsetD])

lemma each_worker:
  assumes "i < length (wpWorkers p)" "worker_step rd i p = Some q" "each I p"
    and "\<And>it es. I it \<Longrightarrow> rd (fst it) = Inr es \<Longrightarrow> entries_each I it es"
  shows "each I q"
proof -
  have w: "worker_each I (wpWorkers p ! i)" using assms(1,3) by (simp add: each_def list_all_length)
  show ?thesis using assms w
    by (auto simp: step_defs each_def submit_def finish_def entries_each_def split: pool_worker.splits list.splits if_splits prod.splits sum.splits kind.splits
        intro!: list_all_update)
qed

lemma each_caller: "caller_step j p = Some q \<Longrightarrow> each I p \<Longrightarrow> (wjCaller (wpJobs p ! j) = Submitting \<Longrightarrow> I (wjRoot (wpJobs p ! j), j)) \<Longrightarrow> each I q"
  by (auto simp: caller_step_def each_def submit_def split: caller.splits if_splits)

lemma each_env: "env_step ok p q \<Longrightarrow> each I p \<Longrightarrow> each I q"
  by (induction rule: env_step.induct) (auto simp: each_def walk_start_def shutdown_def)

lemma each_mono: "each I p \<Longrightarrow> (\<And>it. I it \<Longrightarrow> J it) \<Longrightarrow> each J p"
proof -
  assume p: "each I p" and m: "\<And>it. I it \<Longrightarrow> J it"
  have "worker_each I w \<Longrightarrow> worker_each J w" for w using m by (cases w) (auto simp: entries_each_def list_all_iff)
  then show ?thesis using p m by (auto simp: each_def list_all_iff)
qed

abbreviation placed :: "walkPool \<Rightarrow> bool" where
  "placed p \<equiv> each (\<lambda>it. snd it < length (wpJobs p)) p"

lemma sum_list_zero: "\<forall>x \<in> set xs. f x = 0 \<Longrightarrow> sum_list (map f xs) = (0 :: 'a::comm_monoid_add)"
  by (induction xs) auto

lemma work_zero:
  assumes "each (\<lambda>it. W it = 0 \<and> (\<forall>es. E it es = 0)) p"
  shows "work W E p = 0"
proof -
  have "worker_each (\<lambda>it. W it = 0 \<and> (\<forall>es. E it es = 0)) w \<Longrightarrow> worker_work W E w = 0" for w
    by (cases w) (auto simp: list_all_iff intro!: sum_list_zero)
  then show ?thesis using assms sum_list_zero [of "wpQueue p" W] sum_list_zero [of "wpWorkers p" "worker_work W E"] unfolding each_def work_def by (simp add: list_all_iff)
qed

lemma env_accounted:
  assumes "env_step ok p q" "accounted p" "placed p"
  shows "accounted q"
  using assms
proof (induction rule: env_step.induct)
  case (start root p)
  have "outstanding (length (wpJobs p)) p = 0"
    unfolding outstanding_def by (rule work_zero, rule each_mono [OF start.prems(2)]) auto
  then show ?case using start.prems(1) by (auto simp: accounted_def outstanding_def walk_start_def nth_append less_Suc_eq)
next
  case (cancel j p e)
  then show ?case by (auto simp: accounted_def outstanding_def job_on_job expire_def)
qed (auto simp: accounted_def outstanding_def shutdown_def expire_def)

lemma env_jobs: "env_step ok p q \<Longrightarrow> length (wpJobs p) \<le> length (wpJobs q)"
  by (induction rule: env_step.induct) (auto simp: walk_start_def shutdown_def)

text \<open>The invariant of every pool.\<close>

theorem pool_sound: "pool_reach R ok n p \<Longrightarrow> accounted p \<and> closing p \<and> placed p"
proof (induction rule: pool_reach.induct)
  case init
  have w: "0 < (if n \<le> 0 then DefaultWalkWorkers else nat n)" by (auto simp: DefaultWalkWorkers_def)
  then show ?case by (auto simp: newWalkPool_def accounted_def closing_def each_def list_all_iff list_ex_iff leaving_def)
next
  case (step p rd q)
  show ?case using step.hyps(3)
  proof cases
    case (worker i)
    have l: "length (wpJobs q) = length (wpJobs p)" using worker_done [OF worker(2)] by (metis length_map)
    have "each (\<lambda>it. snd it < length (wpJobs p)) q"
      by (rule each_worker [OF worker conjunct2 [OF conjunct2 [OF step.IH]]]) (auto simp: entries_each_def)
    then show ?thesis using worker_closing [OF worker] worker_accounted [OF worker] step.IH l by (fastforce simp: accounted_def)
  next
    case (caller j)
    have l: "length (wpJobs q) = length (wpJobs p)" using caller_done [OF caller(2)] by (metis length_map)
    have "each (\<lambda>it. snd it < length (wpJobs p)) q"
      by (rule each_caller [OF caller(2)]) (use step.IH caller(1) in auto)
    then show ?thesis using caller_closing [OF caller(2)] caller_accounted [OF caller] step.IH l by (fastforce simp: accounted_def)
  qed
next
  case (env p q)
  have "each (\<lambda>it. snd it < length (wpJobs p)) q" using each_env [OF env.hyps(2)] env.IH by blast
  then have "placed q" by (rule each_mono) (use env_jobs [OF env.hyps(2)] in auto)
  then show ?case using env_accounted [OF env.hyps(2)] env_closing [OF env.hyps(2)] env.IH by blast
qed

section \<open>No deadlock\<close>

text \<open>A worker that holds an item can move; so a caller that waits in vain finds an item, and somebody to take it.\<close>

lemma busy_moves: "wpWorkers p ! i \<notin> {Idle, Exited} \<Longrightarrow> worker_step rd i p \<noteq> None"
  by (auto simp: worker_step_def split: pool_worker.splits list.splits)

lemma worker_out_busy: "worker_work W E w \<noteq> 0 \<Longrightarrow> w \<notin> {Idle, Exited}"
  by (cases w) auto

lemma stuck_empty:
  assumes "\<And>i. i < length (wpWorkers p) \<Longrightarrow> worker_step rd i p = None" "closing p"
  shows "work W E p = 0"
proof -
  have w: "w \<in> {Idle, Exited}" if "w \<in> set (wpWorkers p)" for w
    using assms(1) busy_moves that by (metis in_set_conv_nth)
  have q: "wpQueue p = []"
  proof (cases "Exited \<in> set (wpWorkers p)")
    case True
    then show ?thesis using assms(2) by (auto simp: closing_def list_ex_iff leaving_def)
  next
    case False
    obtain i where "i < length (wpWorkers p)" "wpWorkers p ! i = Idle"
      using assms(2) w False by (metis closing_def in_set_conv_nth insertE list.set_intros(1) neq_Nil_conv singletonD)
    then show ?thesis using assms(1) [of i] by (auto simp: worker_step_def split: if_splits list.splits)
  qed
  have "\<forall>x \<in> set (wpWorkers p). worker_work W E x = 0" using w by fastforce
  then show ?thesis using q by (simp add: work_def sum_list_zero)
qed

lemma no_deadlock:
  assumes "pool_reach R ok n p" "\<And>q. \<not> pool_step rd p q" "b \<in> set (wpJobs p)"
  shows "\<exists>res. wjCaller b = Returned res"
proof -
  have inv: "accounted p" "closing p" using pool_sound [OF assms(1)] by auto
  obtain j where j: "j < length (wpJobs p)" "b = wpJobs p ! j" using assms(3) by (metis in_set_conv_nth)
  have stuck: "worker_step rd i p = None" if "i < length (wpWorkers p)" for i
    using assms(2) pool_step.worker [OF that] by (cases "worker_step rd i p") auto
  have c: "caller_step j p = None" using assms(2) pool_step.caller [OF j(1)] by (cases "caller_step j p") auto
  have "outstanding j p = 0" unfolding outstanding_def by (rule stuck_empty [OF stuck inv(2)])
  then have "wjWg b = of_bool (wjCaller b = Submitting)" using inv(1) j by (simp add: accounted_def)
  then show ?thesis using c j by (cases "wjCaller b") (auto simp: caller_step_def split: if_splits)
qed

section \<open>The tree\<close>

text \<open>The recursive count: \<open>base\<close> for every directory visited, \<open>g\<close> for every entry by its kind, \<open>ge\<close> for a directory that cannot be
  read. The first argument bounds the depth; \<open>deep k d\<close> says that the tree below \<open>d\<close> is not deeper.\<close>

definition entries_sum :: "(kind \<Rightarrow> 'a) \<Rightarrow> (string \<Rightarrow> 'a) \<Rightarrow> string \<Rightarrow> DirEntry list \<Rightarrow> 'a::comm_monoid_add" where
  "entries_sum g T d es = sum_list (map (\<lambda>e. g (walk_classify e) + (if walk_classify e = kindDir then T (child d e) else 0)) es)"

primrec tally :: "nat \<Rightarrow> (string \<Rightarrow> err + DirEntry list) \<Rightarrow> 'a \<Rightarrow> (kind \<Rightarrow> 'a) \<Rightarrow> 'a \<Rightarrow> string \<Rightarrow> 'a::comm_monoid_add" where
  "tally 0 rd base g ge d = 0"
| "tally (Suc k) rd base g ge d = base + (case rd d of Inl _ \<Rightarrow> ge
     | Inr es \<Rightarrow> entries_sum g (tally k rd base g ge) d es)"

primrec deep :: "nat \<Rightarrow> (string \<Rightarrow> err + DirEntry list) \<Rightarrow> string \<Rightarrow> bool" where
  "deep 0 rd d = False"
| "deep (Suc k) rd d = (case rd d of Inl _ \<Rightarrow> True | Inr es \<Rightarrow> list_all (\<lambda>e. walk_classify e = kindDir \<longrightarrow> deep k rd (child d e)) es)"

lemma entries_sum_cong: "(\<And>e. e \<in> set es \<Longrightarrow> walk_classify e = kindDir \<Longrightarrow> T (child d e) = T' (child d e)) \<Longrightarrow> entries_sum g T d es = entries_sum g T' d es"
  unfolding entries_sum_def by (intro arg_cong [where f = sum_list] map_cong) auto

lemma entries_sum_simps [simp]: "entries_sum g T d [] = 0"
  "entries_sum g T d (e # es) = g (walk_classify e) + (if walk_classify e = kindDir then T (child d e) else 0) + entries_sum g T d es"
  by (simp_all add: entries_sum_def add.assoc)

lemma deep_tally: "deep k rd d \<Longrightarrow> k \<le> m \<Longrightarrow> tally m rd base g ge d = tally k rd base g ge d"
proof (induction k arbitrary: d m)
  case (Suc k)
  then obtain m' where m: "m = Suc m'" "k \<le> m'" by (cases m) auto
  show ?case
  proof (cases "rd d")
    case (Inr es)
    then have "entries_sum g (tally m' rd base g ge) d es = entries_sum g (tally k rd base g ge) d es"
      using Suc.prems(1) Suc.IH [OF _ m(2)] by (intro entries_sum_cong) (auto simp: list_all_iff)
    then show ?thesis using Inr by (simp add: m(1))
  qed (simp add: m(1))
qed simp

lemma deep_mono: "deep k rd d \<Longrightarrow> k \<le> m \<Longrightarrow> deep m rd d"
proof (induction k arbitrary: d m)
  case (Suc k)
  then obtain m' where "m = Suc m'" "k \<le> m'" by (cases m) auto
  then show ?case using Suc by (auto simp: list_all_iff split: sum.splits)
qed simp

lemma deep_below: "deep (Suc k) rd d \<Longrightarrow> rd d = Inr es \<Longrightarrow> e \<in> set es \<Longrightarrow> walk_classify e = kindDir \<Longrightarrow> deep k rd (child d e)"
  by (simp add: list_all_iff)

lemma deep_child: "deep k rd d \<Longrightarrow> rd d = Inr es \<Longrightarrow> e \<in> set es \<Longrightarrow> walk_classify e = kindDir \<Longrightarrow> deep k rd (child d e)"
  by (metis deep.simps(1) deep_below deep_mono le_SucI order_refl not0_implies_Suc)

lemma tally_unfold: "deep k rd d \<Longrightarrow> tally k rd base g ge d = base + (case rd d of Inl _ \<Rightarrow> ge | Inr es \<Rightarrow> entries_sum g (tally k rd base g ge) d es)"
proof (cases k)
  case (Suc m)
  assume d: "deep k rd d"
  have "entries_sum g (tally m rd base g ge) d es = entries_sum g (tally k rd base g ge) d es" if "rd d = Inr es" for es
    by (rule entries_sum_cong [symmetric], rule deep_tally [OF deep_below [OF d [unfolded Suc] that]]) (simp_all add: Suc)
  then show ?thesis using Suc by (auto split: sum.splits)
qed simp

text \<open>What the items outstanding still add to a count.\<close>

definition still :: "nat \<Rightarrow> (string \<Rightarrow> err + DirEntry list) \<Rightarrow> (kind \<Rightarrow> 'a) \<Rightarrow> 'a \<Rightarrow> nat \<Rightarrow> walkPool \<Rightarrow> 'a::comm_monoid_add" where
  "still k rd g ge j = work (\<lambda>it. if snd it = j then tally k rd 0 g ge (fst it) else 0) (\<lambda>it es. if snd it = j then entries_sum g (tally k rd 0 g ge) (fst it) es else 0)"

definition score :: "(kind \<Rightarrow> 64 word) \<Rightarrow> 64 word \<Rightarrow> walkJob \<Rightarrow> 64 word" where
  "score g ge b = g kindFile * wjFiles b + g kindDir * wjDirs b + g kindOther * wjOther b + ge * eaTotal (wjErrs b)"

lemma score_wg [simp]: "score g ge (wg_add n b) = score g ge b"
  by (simp add: score_def)

lemma open_pool: "closing p \<Longrightarrow> j < length (wpJobs p) \<Longrightarrow> wjDone (wpJobs p ! j) = None \<Longrightarrow> \<not> wpClosed p \<and> \<not> list_ex leaving (wpWorkers p)"
  unfolding closing_def by (metis nth_mem)

lemma still_fields [simp]: "still k rd g ge j (p\<lparr>wpJobs := js\<rparr>) = still k rd g ge j p" "still k rd g ge j (p\<lparr>wpClosed := b\<rparr>) = still k rd g ge j p"
    "still k rd g ge j (p\<lparr>wpBase := x\<rparr>) = still k rd g ge j p" "still k rd g ge j (on_job i f p) = still k rd g ge j p"
  by (simp_all add: still_def)

lemma worker_conserves:
  assumes "i < length (wpWorkers p)" "worker_step rd i p = Some q" "j < length (wpJobs p)" "wjDone (wpJobs p ! j) = None" "closing p"
    and "each (\<lambda>it. deep k rd (fst it)) p"
  shows "score g ge (wpJobs q ! j) + still k rd g ge j q = score g ge (wpJobs p ! j) + still k rd g ge j p"
proof -
  have w: "worker_each (\<lambda>it. deep k rd (fst it)) (wpWorkers p ! i)" using assms(1,6) by (simp add: each_def list_all_length)
  have c: "\<not> wpClosed p" "\<not> leaving (wpWorkers p ! i)"
    using open_pool [OF assms(5,3,4)] assms(1) by (auto simp: list_ex_iff)
  have t: "deep k rd d \<Longrightarrow> tally k rd 0 g ge d = (case rd d of Inl _ \<Rightarrow> ge | Inr es \<Rightarrow> entries_sum g (tally k rd 0 g ge) d es)" for d
    by (subst tally_unfold) simp_all
  show ?thesis using assms(1-4) w c unfolding still_def
    by (auto simp: step_defs work_set_worker work_submit step_jobs t score_def errAgg_add_def leaving_def algebra_simps
        split: pool_worker.splits list.splits if_splits prod.splits sum.splits kind.splits)
       (auto simp: work_def step_jobs set_worker_def sum_list_upd algebra_simps)
qed

definition due :: "nat \<Rightarrow> (string \<Rightarrow> err + DirEntry list) \<Rightarrow> (kind \<Rightarrow> 64 word) \<Rightarrow> 64 word \<Rightarrow> nat \<Rightarrow> walkPool \<Rightarrow> 64 word" where
  "due k rd g ge j p = score g ge (wpJobs p ! j) + still k rd g ge j p
     + (if wjCaller (wpJobs p ! j) = Submitting then tally k rd 0 g ge (wjRoot (wpJobs p ! j)) else 0)"

definition conserved :: "nat \<Rightarrow> (string \<Rightarrow> err + DirEntry list) \<Rightarrow> walkPool \<Rightarrow> bool" where
  "conserved k rd p \<longleftrightarrow> (\<forall>j < length (wpJobs p). wjDone (wpJobs p ! j) = None \<longrightarrow> (\<forall>g ge. due k rd g ge j p = tally k rd 0 g ge (wjRoot (wpJobs p ! j))))"

lemma map_job: "map f (wpJobs q) = map f (wpJobs p) \<Longrightarrow> j < length (wpJobs p) \<Longrightarrow> f (wpJobs q ! j) = f (wpJobs p ! j)"
  by (metis length_map nth_map)

lemma caller_due:
  assumes "i < length (wpJobs p)" "caller_step i p = Some q" "j < length (wpJobs p)" "\<not> wpClosed p"
  shows "due k rd g ge j q = due k rd g ge j p"
  using assms unfolding due_def still_def
  by (auto simp: caller_step_def work_submit step_jobs score_def split: caller.splits if_splits)

lemma conserved_step:
  assumes "pool_step rd p q" "conserved k rd p" "closing p" "each (\<lambda>it. deep k rd (fst it)) p"
  shows "conserved k rd q"
  unfolding conserved_def
proof (intro allI impI)
  fix j g ge assume j: "j < length (wpJobs q)" "wjDone (wpJobs q ! j) = None"
  show "due k rd g ge j q = tally k rd 0 g ge (wjRoot (wpJobs q ! j))"
    using assms(1)
  proof cases
    case (worker i)
    note d = worker_done [OF worker(2)]
    then have l: "length (wpJobs q) = length (wpJobs p)" by (metis length_map)
    then have f: "wjDone (wpJobs p ! j) = None" "wjRoot (wpJobs q ! j) = wjRoot (wpJobs p ! j)" "wjCaller (wpJobs q ! j) = wjCaller (wpJobs p ! j)"
      using d j map_job [of _ q p j] by metis+
    then have "due k rd g ge j q = due k rd g ge j p"
      using worker_conserves [OF worker j(1) [unfolded l] f(1) assms(3,4), of g ge] by (simp add: due_def)
    then show ?thesis using assms(2) f l j by (simp add: conserved_def)
  next
    case (caller i)
    note d = caller_done [OF caller(2)]
    then have l: "length (wpJobs q) = length (wpJobs p)" by (metis length_map)
    then have f: "wjDone (wpJobs p ! j) = None" "wjRoot (wpJobs q ! j) = wjRoot (wpJobs p ! j)"
      using d j map_job [of _ q p j] by metis+
    then have "\<not> wpClosed p" using open_pool [OF assms(3)] j l by simp
    then show ?thesis using caller_due [OF caller] assms(2) f l j by (simp add: conserved_def)
  qed
qed

lemma still_new: "placed p \<Longrightarrow> still k rd g ge (length (wpJobs p)) p = 0"
  unfolding still_def by (rule work_zero, erule each_mono) auto

lemma conserved_env: "env_step ok p q \<Longrightarrow> conserved k rd p \<Longrightarrow> placed p \<Longrightarrow> conserved k rd q"
proof (induction rule: env_step.induct)
  case (start root p)
  have "score g ge \<lparr>wjDone = x, wjRoot = root, wjFiles = 0, wjDirs = 0, wjOther = 0, wjWg = 1, wjErrs = \<lparr>eaErrs = [], eaTotal = 0\<rparr>, wjCaller = Submitting\<rparr> = 0" for g ge x
    by (simp add: score_def)
  then show ?case using start.prems(1) still_new [OF start.prems(2)]
    by (auto simp: conserved_def due_def walk_start_def nth_append less_Suc_eq split: if_splits)
next
  case (cancel j p e)
  then show ?case by (auto simp: conserved_def due_def job_on_job expire_def score_def split: option.splits if_splits)
next
  case (shut p e)
  then show ?case by (auto simp: conserved_def shutdown_def expire_def split: option.splits)
qed (auto simp: conserved_def due_def)

text \<open>When nothing of a job is outstanding, nothing is still to be counted.\<close>

lemma sum_list_zeroD: "(\<And>x. x \<in> set xs \<Longrightarrow> (0::int) \<le> f x) \<Longrightarrow> sum_list (map f xs) = 0 \<Longrightarrow> x \<in> set xs \<Longrightarrow> f x = 0"
proof (induction xs)
  case (Cons y ys)
  have "0 \<le> f y" "0 \<le> sum_list (map f ys)" using Cons.prems(1) by (auto intro!: sum_nonneg)
  then have "f y = 0" "sum_list (map f ys) = 0" using Cons.prems(2) by auto
  then show ?case using Cons by auto
qed simp

lemma outstanding_none: "outstanding j p = 0 \<Longrightarrow> each (\<lambda>it. snd it \<noteq> j) p"
proof -
  assume o: "outstanding j p = 0"
  let ?W = "\<lambda>it. of_bool (snd it = j) :: int" and ?E = "\<lambda>it es. of_bool (snd it = j) :: int"
  have n: "0 \<le> sum_list (map ?W (wpQueue p))" "0 \<le> sum_list (map (worker_work ?W ?E) (wpWorkers p))"
    by (auto intro!: sum_nonneg worker_out_nonneg)
  then have z: "sum_list (map ?W (wpQueue p)) = 0" "sum_list (map (worker_work ?W ?E) (wpWorkers p)) = 0"
    using o by (auto simp: outstanding_def work_def)
  have q: "snd it \<noteq> j" if "it \<in> set (wpQueue p)" for it using sum_list_zeroD [OF _ z(1) that] by auto
  have "worker_each (\<lambda>it. snd it \<noteq> j) w" if "w \<in> set (wpWorkers p)" for w
  proof -
    have "worker_work ?W ?E w = 0" using sum_list_zeroD [OF _ z(2) that] worker_out_nonneg by blast
    then show ?thesis by (cases w) (auto simp: entries_each_def list_all_iff dest: sum_list_zeroD [rotated])
  qed
  then show ?thesis using q by (auto simp: each_def list_all_iff)
qed

lemma still_none: "outstanding j p = 0 \<Longrightarrow> still k rd g ge j p = 0"
  unfolding still_def by (rule work_zero, rule each_mono [OF outstanding_none]) auto

text \<open>What a result says about the tree below the root.\<close>

definition kinds :: "nat \<Rightarrow> (string \<Rightarrow> err + DirEntry list) \<Rightarrow> kind \<Rightarrow> string \<Rightarrow> nat" where
  "kinds k rd x d = tally k rd 0 (\<lambda>y. of_bool (y = x)) 0 d"

definition unreadable :: "nat \<Rightarrow> (string \<Rightarrow> err + DirEntry list) \<Rightarrow> string \<Rightarrow> nat" where
  "unreadable k rd d = tally k rd 0 (\<lambda>_. 0) 1 d"

definition counted :: "nat \<Rightarrow> (string \<Rightarrow> err + DirEntry list) \<Rightarrow> string \<Rightarrow> walkResult \<Rightarrow> bool" where
  "counted k rd d res \<longleftrightarrow> wrFiles res = of_nat (kinds k rd kindFile d) \<and> wrDirs res = of_nat (kinds k rd kindDir d) \<and> wrOther res = of_nat (kinds k rd kindOther d)"

definition truthful :: "nat \<Rightarrow> (string \<Rightarrow> err + DirEntry list) \<Rightarrow> walkJob \<Rightarrow> bool" where
  "truthful k rd b \<longleftrightarrow> (\<forall>res. wjCaller b = Returned res \<longrightarrow>
     (case wrErr res of
        None \<Rightarrow> counted k rd (wjRoot b) res \<and> of_nat (unreadable k rd (wjRoot b)) = (0 :: 64 word)
      | Some e \<Rightarrow> wjDone b = Some e \<or> counted k rd (wjRoot b) res \<and> of_nat (unreadable k rd (wjRoot b)) \<noteq> (0 :: 64 word)))"

lemma of_nat_sum: "of_nat (sum_list (map f xs)) = sum_list (map (\<lambda>x. of_nat (f x) :: 'a::semiring_1) xs)"
  by (induction xs) auto

lemma of_nat_tally: "of_nat (tally k rd b g ge d) = (tally k rd (of_nat b) (\<lambda>x. of_nat (g x)) (of_nat ge) d :: 'a::semiring_1)"
proof (induction k arbitrary: d)
  case (Suc k)
  then show ?case by (auto simp: entries_sum_def of_nat_sum if_distrib [of of_nat] split: sum.splits cong: if_cong)
qed simp

lemma returns_counted:
  assumes "\<forall>g ge. score g ge b = tally k rd 0 g ge (wjRoot b)"
  shows "wjFiles b = of_nat (kinds k rd kindFile (wjRoot b)) \<and> wjDirs b = of_nat (kinds k rd kindDir (wjRoot b)) \<and> wjOther b = of_nat (kinds k rd kindOther (wjRoot b))
    \<and> eaTotal (wjErrs b) = of_nat (unreadable k rd (wjRoot b))"
proof -
  have "score (\<lambda>y. of_bool (y = x)) 0 b = of_nat (kinds k rd x (wjRoot b))" for x
    using assms by (simp add: kinds_def of_nat_tally)
  from this [of kindFile] this [of kindDir] this [of kindOther] assms [rule_format, of "\<lambda>_. 0" 1]
  show ?thesis by (simp add: score_def unreadable_def of_nat_tally)
qed

lemma truthful_step:
  assumes "pool_step rd p q" "\<forall>b \<in> set (wpJobs p). truthful k rd b" "conserved k rd p" "accounted p"
  shows "\<forall>b \<in> set (wpJobs q). truthful k rd b"
proof -
  have kept: "truthful k rd b' = truthful k rd b" if "wjCaller b' = wjCaller b" "wjDone b' = wjDone b" "wjRoot b' = wjRoot b" for b b'
    unfolding truthful_def that by (rule refl)
  have "truthful k rd (wpJobs q ! j)" if j: "j < length (wpJobs q)" for j
    using assms(1)
  proof cases
    case (worker i)
    note d = worker_done [OF worker(2)]
    then have l: "length (wpJobs q) = length (wpJobs p)" by (metis length_map)
    then show ?thesis using kept [of "wpJobs q ! j" "wpJobs p ! j"] d j map_job [of _ q p j] assms(2) by (metis nth_mem)
  next
    case (caller i)
    then have l: "length (wpJobs q) = length (wpJobs p)" using caller_done by (metis length_map)
    show ?thesis
    proof (cases "i = j \<and> wjCaller (wpJobs p ! j) = Blocked \<and> wjWg (wpJobs p ! j) = 0")
      case True
      let ?b = "wpJobs p ! j"
      have q: "wpJobs q ! j = ?b\<lparr>wjCaller := Returned (result_of ?b)\<rparr>"
        using caller(2) True l j by (auto simp: caller_step_def job_on_job split: if_splits)
      have "wjWg ?b = outstanding j p" using assms(4) True l j by (auto simp: accounted_def)
      then have o: "outstanding j p = 0" using True by simp
      have "score g ge ?b = tally k rd 0 g ge (wjRoot ?b)" if "wjDone ?b = None" for g ge
      proof -
        have "due k rd g ge j p = tally k rd 0 g ge (wjRoot ?b)" using assms(3) that l j by (simp add: conserved_def)
        then show ?thesis using True still_none [OF o, of k rd g ge] by (simp add: due_def)
      qed
      then show ?thesis using returns_counted [of ?b k rd] unfolding q
        by (auto simp: truthful_def result_of_def counted_def errAgg_err_def split: option.splits if_splits)
    next
      case False
      have "wjCaller (wpJobs q ! j) = wjCaller (wpJobs p ! j) \<or> wjCaller (wpJobs q ! j) = Blocked"
        using caller False l j by (auto simp: caller_step_def step_jobs split: caller.splits if_splits)
      moreover have "truthful k rd b" if "wjCaller b = Blocked" for b using that by (simp add: truthful_def)
      ultimately show ?thesis
        using kept [of "wpJobs q ! j" "wpJobs p ! j"] caller_done [OF caller(2)] j l map_job [of _ q p j] assms(2) by (metis nth_mem)
    qed
  qed
  then show ?thesis by (metis in_set_conv_nth)
qed

lemma truthful_expire: "truthful k rd b \<Longrightarrow> truthful k rd (expire e b)"
  by (auto simp: truthful_def expire_def split: option.splits)

lemma truthful_env: "env_step ok p q \<Longrightarrow> \<forall>b \<in> set (wpJobs p). truthful k rd b \<Longrightarrow> \<forall>b \<in> set (wpJobs q). truthful k rd b"
proof (induction rule: env_step.induct)
  case (cancel j p e)
  then have "truthful k rd (expire e (wpJobs p ! j))" by (auto intro: truthful_expire)
  then show ?case using cancel.prems by (auto simp: on_job_def dest!: set_update_subset_insert [THEN subsetD])
next
  case (shut p e)
  then show ?case by (auto simp: shutdown_def intro: truthful_expire)
qed (auto simp: walk_start_def truthful_def)

lemma roots_step:
  assumes "pool_step rd p q" "\<forall>b \<in> set (wpJobs p). P (wjRoot b)"
  shows "\<forall>b \<in> set (wpJobs q). P (wjRoot b)"
proof -
  have "map wjRoot (wpJobs q) = map wjRoot (wpJobs p)" using assms(1) by cases (use worker_done caller_done in blast)+
  then have "wjRoot ` set (wpJobs q) = wjRoot ` set (wpJobs p)" by (metis list.set_map)
  then show ?thesis using assms(2) by (metis image_eqI imageE)
qed

lemma tree_sound: "pool_reach {rd} (deep k rd) n p \<Longrightarrow>
  conserved k rd p \<and> each (\<lambda>it. deep k rd (fst it)) p \<and> (\<forall>b \<in> set (wpJobs p). deep k rd (wjRoot b)) \<and> (\<forall>b \<in> set (wpJobs p). truthful k rd b)"
proof (induction rule: pool_reach.induct)
  case init
  show ?case by (auto simp: newWalkPool_def conserved_def each_def list_all_iff)
next
  case (step p rd' q)
  note inv = pool_sound [OF step.hyps(1)]
  have s: "pool_step rd p q" using step.hyps by simp
  have "each (\<lambda>it. deep k rd (fst it)) q" using s
  proof cases
    case (worker i)
    then show ?thesis by (rule each_worker) (use step.IH deep_child in \<open>auto simp: entries_each_def\<close>)
  next
    case (caller j)
    then show ?thesis using each_caller [OF caller(2)] step.IH by auto
  qed
  then show ?case using conserved_step [OF s] truthful_step [OF s] roots_step [OF s, of "deep k rd"] step.IH inv by blast
next
  case (env p q)
  have "\<forall>b \<in> set (wpJobs q). deep k rd (wjRoot b)"
    using env.hyps(2) env.IH by (induction rule: env_step.induct)
      (auto simp: walk_start_def shutdown_def expire_def on_job_def dest!: set_update_subset_insert [THEN subsetD])
  then show ?case using conserved_env [OF env.hyps(2)] each_env [OF env.hyps(2)] truthful_env [OF env.hyps(2)] env.IH pool_sound [OF env.hyps(1)] by blast
qed

section \<open>Every walk ends\<close>

text \<open>The steps that are left: an item in the queue costs its removal, the read and the end of \<^verbatim>\<open>process\<close>, an entry one
  step, a directory one more for the handing over; a worker can still drain and leave; a caller can
  still submit and return.\<close>

abbreviation item_steps :: "nat \<Rightarrow> (string \<Rightarrow> err + DirEntry list) \<Rightarrow> string \<Rightarrow> nat" where
  "item_steps k rd \<equiv> tally k rd 3 (\<lambda>x. if x = kindDir then 2 else 1) 0"

abbreviation entry_steps :: "nat \<Rightarrow> (string \<Rightarrow> err + DirEntry list) \<Rightarrow> string \<Rightarrow> DirEntry list \<Rightarrow> nat" where
  "entry_steps k rd \<equiv> entries_sum (\<lambda>x. if x = kindDir then 2 else 1) (item_steps k rd)"

fun worker_steps :: "nat \<Rightarrow> (string \<Rightarrow> err + DirEntry list) \<Rightarrow> pool_worker \<Rightarrow> nat" where
  "worker_steps k rd Idle = 2"
| "worker_steps k rd (Begin it) = 1 + item_steps k rd (fst it)"
| "worker_steps k rd (Entries it es) = 3 + entry_steps k rd (fst it) es"
| "worker_steps k rd (Handing it c es) = 4 + item_steps k rd c + entry_steps k rd (fst it) es"
| "worker_steps k rd (Draining r) = 1 + length r"
| "worker_steps k rd Exited = 0"

fun caller_steps :: "nat \<Rightarrow> (string \<Rightarrow> err + DirEntry list) \<Rightarrow> walkJob \<Rightarrow> nat" where
  "caller_steps k rd b = (case wjCaller b of Submitting \<Rightarrow> 2 + item_steps k rd (wjRoot b) | Blocked \<Rightarrow> 1 | Returned _ \<Rightarrow> 0)"

definition steps_left :: "nat \<Rightarrow> (string \<Rightarrow> err + DirEntry list) \<Rightarrow> walkPool \<Rightarrow> nat" where
  "steps_left k rd p = sum_list (map (item_steps k rd \<circ> fst) (wpQueue p)) + sum_list (map (worker_steps k rd) (wpWorkers p)) + sum_list (map (caller_steps k rd) (wpJobs p))"

lemma item_steps_unfold: "deep k rd d \<Longrightarrow> item_steps k rd d = 3 + (case rd d of Inl _ \<Rightarrow> 0 | Inr es \<Rightarrow> entry_steps k rd d es)"
  by (rule tally_unfold)

lemma drain_steps: "list_all (\<lambda>it. deep k rd (fst it)) r \<Longrightarrow> length r \<le> sum_list (map (item_steps k rd \<circ> fst) r)"
proof (induction r)
  case (Cons it r)
  then show ?case using item_steps_unfold [of k rd "fst it"] by simp
qed simp

lemma sum_list_less: "i < length xs \<Longrightarrow> f x + c < f (xs ! i) + d \<Longrightarrow> sum_list (map f (xs[i := x])) + c < sum_list (map f xs) + (d :: nat)"
  using sum_list_swap [of i xs f x] by linarith

lemma callers_on_job: "(\<And>b. wjCaller (f b) = wjCaller b \<and> wjRoot (f b) = wjRoot b) \<Longrightarrow>
  sum_list (map (caller_steps k rd) (wpJobs (on_job j f p))) = sum_list (map (caller_steps k rd) (wpJobs p))"
  by (subst on_job_map) (auto split: caller.split)

lemma worker_descends:
  assumes "i < length (wpWorkers p)" "worker_step rd i p = Some q" "each (\<lambda>it. deep k rd (fst it)) p"
  shows "steps_left k rd q < steps_left k rd p"
proof -
  let ?s = "\<lambda>x y. sum_list (map (worker_steps k rd) ((wpWorkers p)[i := x])) + worker_steps k rd y = sum_list (map (worker_steps k rd) (wpWorkers p)) + worker_steps k rd x"
  have sw: "?s x (wpWorkers p ! i)" for x using sum_list_swap [OF assms(1)] .
  have w: "worker_each (\<lambda>it. deep k rd (fst it)) (wpWorkers p ! i)" "list_all (\<lambda>it. deep k rd (fst it)) (wpQueue p)"
    using assms(1,3) by (simp_all add: each_def list_all_length)
  show ?thesis
  proof (cases "wpWorkers p ! i")
    case Idle
    then show ?thesis using assms(2) w(2) sw [of "Draining (wpQueue p)"] drain_steps [OF w(2)] sw [of "Begin (hd (wpQueue p))"]
      by (auto simp: step_defs steps_left_def set_worker_def split: if_splits list.splits)
  next
    case (Begin it)
    then show ?thesis using assms(2) w(1) sw [of Idle] sw [of "Entries it (projr (rd (fst it)))"] item_steps_unfold [of k rd "fst it"]
      by (auto simp: step_defs steps_left_def callers_on_job split: if_splits sum.splits prod.splits)
  next
    case (Entries it es)
    then show ?thesis using assms(2) sw [of Idle] sw [of "Entries it (tl es)"] sw [of "Handing it (child (fst it) (hd es)) (tl es)"]
      by (auto simp: step_defs steps_left_def callers_on_job split: if_splits list.splits prod.splits kind.splits)
  next
    case (Handing it c es)
    then show ?thesis using assms(2) w(1) sw [of "Entries it es"] item_steps_unfold [of k rd c]
      by (auto simp: step_defs steps_left_def callers_on_job submit_def split: if_splits)
  next
    case (Draining r)
    then show ?thesis using assms(2) sw [of Exited] sw [of "Draining (tl r)"]
      by (auto simp: step_defs steps_left_def callers_on_job split: list.splits)
  next
    case Exited
    then show ?thesis using assms(2) by (simp add: worker_step_def)
  qed
qed

lemma caller_descends:
  assumes "j < length (wpJobs p)" "caller_step j p = Some q"
  shows "steps_left k rd q < steps_left k rd p"
proof -
  let ?b = "wpJobs p ! j"
  have sw: "sum_list (map (caller_steps k rd) ((wpJobs p)[j := b])) + caller_steps k rd ?b = sum_list (map (caller_steps k rd) (wpJobs p)) + caller_steps k rd b" for b
    using sum_list_swap [OF assms(1)] .
  show ?thesis
  proof (cases "wjCaller ?b")
    case Submitting
    then show ?thesis using assms sw [of "?b\<lparr>wjCaller := Blocked\<rparr>"] sw [of "(wg_add (-1) ?b)\<lparr>wjCaller := Blocked\<rparr>"]
      by (auto simp: caller_step_def submit_def steps_left_def on_job_def)
  next
    case Blocked
    then show ?thesis using assms sw [of "?b\<lparr>wjCaller := Returned (result_of ?b)\<rparr>"]
      by (auto simp: caller_step_def steps_left_def on_job_def split: if_splits)
  qed (use assms in \<open>simp add: caller_step_def\<close>)
qed

lemma step_descends: "pool_step rd p q \<Longrightarrow> each (\<lambda>it. deep k rd (fst it)) p \<Longrightarrow> steps_left k rd q < steps_left k rd p"
  by (erule pool_step.cases) (auto intro: worker_descends caller_descends)


lemma run_exists: "pool_reach {rd} (deep k rd) n p \<Longrightarrow> \<exists>q. (pool_step rd)\<^sup>*\<^sup>* p q \<and> (\<forall>r. \<not> pool_step rd q r)"
proof (induction "steps_left k rd p" arbitrary: p rule: less_induct)
  case less
  show ?case
  proof (cases "\<exists>r. pool_step rd p r")
    case True
    then obtain r where r: "pool_step rd p r" by blast
    have "steps_left k rd r < steps_left k rd p" using step_descends [OF r] tree_sound [OF less.prems] by blast
    then obtain q where "(pool_step rd)\<^sup>*\<^sup>* r q" "\<forall>x. \<not> pool_step rd q x" using less.hyps pool_reach.step [OF less.prems _ r] by blast
    then show ?thesis using r by (meson converse_rtranclp_into_rtranclp)
  qed blast
qed

lemma reach_steps: "(pool_step rd)\<^sup>*\<^sup>* p q \<Longrightarrow> pool_reach {rd} ok n p \<Longrightarrow> pool_reach {rd} ok n q \<and> map wjDone (wpJobs q) = map wjDone (wpJobs p) \<and> map wjRoot (wpJobs q) = map wjRoot (wpJobs p)"
proof (induction rule: rtranclp_induct)
  case (step q r)
  have "map wjDone (wpJobs r) = map wjDone (wpJobs q) \<and> map wjRoot (wpJobs r) = map wjRoot (wpJobs q)"
    using step.hyps(2) by cases (use worker_done caller_done in blast)+
  then show ?case using step pool_reach.step [of "{rd}" ok n q rd r] by auto
qed simp

text \<open>The items of a job in the pool, as a number.\<close>

fun items_of :: "pool_worker \<Rightarrow> walkItem list" where
  "items_of (Begin it) = [it]"
| "items_of (Entries it es) = [it]"
| "items_of (Handing it c es) = [it, (c, snd it)]"
| "items_of (Draining r) = r"
| "items_of _ = []"

definition held :: "nat \<Rightarrow> walkPool \<Rightarrow> nat" where
  "held j p = length (filter (\<lambda>it. snd it = j) (wpQueue p @ concat (map items_of (wpWorkers p))))"

lemma sum_of_bool: "sum_list (map (\<lambda>x. of_bool (P x) :: int) xs) = int (length (filter P xs))"
  by (induction xs) auto

lemma outstanding_held: "outstanding j p = int (held j p)"
proof -
  have "worker_work (\<lambda>it. of_bool (snd it = j)) (\<lambda>it es. of_bool (snd it = j)) w = int (length (filter (\<lambda>it. snd it = j) (items_of w)))" for w
    by (cases w) (auto simp: sum_of_bool)
  then have "sum_list (map (worker_work (\<lambda>it. of_bool (snd it = j)) (\<lambda>it es. of_bool (snd it = j))) ws) = int (length (filter (\<lambda>it. snd it = j) (concat (map items_of ws))))" for ws
    by (induction ws) auto
  then show ?thesis by (simp add: outstanding_def work_def held_def sum_of_bool)
qed

lemma none_out: "each (\<lambda>it. snd it \<noteq> j) p \<Longrightarrow> outstanding j p = 0"
  unfolding outstanding_def by (rule work_zero, erule each_mono) auto

lemma returned_clean: "pool_reach R ok n p \<Longrightarrow> \<forall>j < length (wpJobs p). \<forall>res. wjCaller (wpJobs p ! j) = Returned res \<longrightarrow> outstanding j p = 0"
proof (induction rule: pool_reach.induct)
  case (step p rd q)
  show ?case
  proof (intro allI impI)
    fix j res assume j: "j < length (wpJobs q)" "wjCaller (wpJobs q ! j) = Returned res"
    show "outstanding j q = 0" using step.hyps(3)
    proof cases
      case (worker i)
      have l: "length (wpJobs q) = length (wpJobs p)" using worker_done [OF worker(2)] by (metis length_map)
      have "wjCaller (wpJobs p ! j) = Returned res" using worker_done [OF worker(2)] map_job [of wjCaller q p j] j l by simp
      then have "each (\<lambda>it. snd it \<noteq> j) p" using step.IH j(1) l outstanding_none by simp
      then have "each (\<lambda>it. snd it \<noteq> j) q" by (rule each_worker [OF worker]) (auto simp: entries_each_def)
      then show ?thesis by (rule none_out)
    next
      case (caller i)
      have l: "length (wpJobs q) = length (wpJobs p)" using caller_done [OF caller(2)] by (metis length_map)
      show ?thesis
      proof (cases "wjCaller (wpJobs p ! j)")
        case (Returned res')
        then have o: "each (\<lambda>it. snd it \<noteq> j) p" using step.IH j(1) l outstanding_none by simp
        then have "each (\<lambda>it. snd it \<noteq> j) q" by (rule each_caller [OF caller(2)]) (use Returned in auto)
        then show ?thesis by (rule none_out)
      next
        case Blocked
        then have "wjWg (wpJobs p ! j) = 0 \<and> outstanding j q = outstanding j p"
          using caller j l by (cases "i = j") (auto simp: caller_step_def step_jobs outstanding_def split: caller.splits if_splits)
        then show ?thesis using pool_sound [OF step.hyps(1)] j(1) l Blocked by (auto simp: accounted_def)
      next
        case Submitting
        then show ?thesis using caller j l by (cases "i = j") (auto simp: caller_step_def step_jobs split: caller.splits if_splits)
      qed
    qed
  qed
next
  case (env p q)
  show ?case using env.hyps(2) env.IH
    by (cases rule: env_step.cases) (auto simp: walk_start_def shutdown_def expire_def outstanding_def nth_append less_Suc_eq job_on_job)
qed (simp add: newWalkPool_def)

section \<open>Properties\<close>

text \<open>The wait group of a walk is exact under every interleaving of workers, callers and cancellations, whatever
  the file system gives at every read: its counter is the number of the walk's directories in the
  queue or in the hands of a worker, plus one until the root is submitted. So it is never negative (which would
  panic), a walk cannot return while one of its directories is still to be read, and after a walk has
  returned no worker holds a directory of it.\<close>

theorem wait_group_exact:
  assumes "pool_reach R ok n p" "j < length (wpJobs p)"
  shows "wjWg (wpJobs p ! j) = int (held j p) + of_bool (wjCaller (wpJobs p ! j) = Submitting)
    \<and> 0 \<le> wjWg (wpJobs p ! j) \<and> (\<forall>res. wjCaller (wpJobs p ! j) = Returned res \<longrightarrow> wjWg (wpJobs p ! j) = 0 \<and> held j p = 0)"
proof -
  have a: "wjWg (wpJobs p ! j) = int (held j p) + of_bool (wjCaller (wpJobs p ! j) = Submitting)"
    using pool_sound [OF assms(1)] assms(2) by (simp add: accounted_def outstanding_held)
  moreover have "held j p = 0" if "wjCaller (wpJobs p ! j) = Returned res" for res
    using returned_clean [OF assms(1)] assms(2) that by (auto simp: outstanding_held)
  ultimately show ?thesis by auto
qed

text \<open>A file system for the examples: a directory with a file, an empty directory, a link and a directory whose type is unknown, which
  has a file of unknown type.\<close>

definition demo_rd :: "string \<Rightarrow> err + DirEntry list" where
  "demo_rd d = (if d = ''/v'' then Inr [\<lparr>deName = ''a'', deType = 0, deInfo = Inr 0\<rparr>, \<lparr>deName = ''b'', deType = ModeDir, deInfo = Inr ModeDir\<rparr>,
       \<lparr>deName = ''c'', deType = ModeSymlink, deInfo = Inr ModeSymlink\<rparr>, \<lparr>deName = ''d'', deType = unknownDirentType, deInfo = Inr ModeDir\<rparr>]
     else if d = ''/v/d'' then Inr [\<lparr>deName = ''e'', deType = unknownDirentType, deInfo = Inr 0\<rparr>] else Inr [])"

lemma mode_bits [simp]: "IsDir ModeDir" "\<not> IsDir 0" "IsRegular 0" "\<not> IsDir ModeSymlink" "\<not> IsRegular ModeSymlink"
    "unknownDirentType \<noteq> 0" "unknownDirentType \<noteq> ModeDir" "unknownDirentType \<noteq> ModeSymlink"
proof -
  have b: "bit ModeDir 31" "bit ModeSymlink 27" "\<not> bit ModeDir 0" "\<not> bit ModeSymlink 0" "bit unknownDirentType 0" "bit ModeType 27"
    by (simp_all add: ModeDir_def ModeSymlink_def ModeType_def unknownDirentType_def bit_simps)
  show "IsDir ModeDir" using b(1) by (auto simp: IsDir_def)
  show "\<not> IsDir 0" "IsRegular 0" by (simp_all add: IsDir_def IsRegular_def)
  have "ModeSymlink AND ModeDir = 0" by (rule bit_word_eqI) (auto simp: ModeDir_def ModeSymlink_def bit_simps)
  then show "\<not> IsDir ModeSymlink" by (simp add: IsDir_def)
  have "bit (ModeSymlink AND ModeType) 27" using b(2,6) by (simp add: bit_and_iff)
  then show "\<not> IsRegular ModeSymlink" by (auto simp: IsRegular_def)
  show "unknownDirentType \<noteq> 0" "unknownDirentType \<noteq> ModeDir" "unknownDirentType \<noteq> ModeSymlink" using b(3-5) by auto
qed

declare mode_bits(6-8) [symmetric, simp]

lemma demo_paths: "deName e = ''b'' \<Longrightarrow> child ''/v'' e = ''/v/b''" "deName e = ''d'' \<Longrightarrow> child ''/v'' e = ''/v/d''"
proof -
  have "path_Join [''/v'', ''b''] = ''/v/b''" "path_Join [''/v'', ''d''] = ''/v/d''" by code_simp+
  then show "deName e = ''b'' \<Longrightarrow> child ''/v'' e = ''/v/b''" "deName e = ''d'' \<Longrightarrow> child ''/v'' e = ''/v/d''" by (simp_all add: child_def)
qed

lemma wait_group_exact_witness: "wjWg (wpJobs (walk_start ''/v'' (newWalkPool 2)) ! 0) = 1 \<and> held 0 (walk_start ''/v'' (newWalkPool 2)) = 0"
proof -
  have "pool_reach UNIV (\<lambda>_. True) 2 (walk_start ''/v'' (newWalkPool 2))"
    by (rule pool_reach.env [OF pool_reach.init env_step.start]) simp
  moreover have "length (wpJobs (walk_start ''/v'' (newWalkPool 2))) = 1" "wjWg (wpJobs (walk_start ''/v'' (newWalkPool 2)) ! 0) = 1"
      "wjCaller (wpJobs (walk_start ''/v'' (newWalkPool 2)) ! 0) = Submitting"
    by (simp_all add: walk_start_def newWalkPool_def)
  ultimately show ?thesis using wait_group_exact [of UNIV "\<lambda>_. True" 2 "walk_start ''/v'' (newWalkPool 2)" 0] by simp
qed

text \<open>C15. A walk that reports no error has counted its tree exactly. On a tree of finite depth, with any number of workers and of
  walks that share them, in every interleaving and with cancellations and a shutdown at any moment: if a
  walk returns without an error, its counts are those of the recursive count of the tree (modulo 2 to the 64), and
  every directory could be read. If it returns an error, either its context was done, with that
  error, or the counts are still exact for what could be read, and some directory could not be.\<close>

theorem walk_exact:
  assumes "pool_reach {rd} (deep k rd) n p" "b \<in> set (wpJobs p)" "wjCaller b = Returned res"
  shows "case wrErr res of
      None \<Rightarrow> counted k rd (wjRoot b) res \<and> of_nat (unreadable k rd (wjRoot b)) = (0 :: 64 word)
    | Some e \<Rightarrow> wjDone b = Some e \<or> counted k rd (wjRoot b) res \<and> of_nat (unreadable k rd (wjRoot b)) \<noteq> (0 :: 64 word)"
proof -
  have "truthful k rd b" using tree_sound [OF assms(1)] assms(2) by blast
  then show ?thesis using assms(3) by (simp add: truthful_def)
qed

lemma demo_reach: "pool_reach {demo_rd} (deep 3 demo_rd) 2 (walk_start ''/v'' (newWalkPool 2))"
proof -
  have "deep 3 demo_rd ''/v''" by (simp add: numeral_3_eq_3 demo_rd_def walk_classify_def kind_of_mode_def demo_paths)
  then show ?thesis by (intro pool_reach.env [OF pool_reach.init] env_step.start)
qed

lemma walk_exact_witness: "\<exists>p b res. pool_reach {demo_rd} (deep 3 demo_rd) 2 p \<and> b \<in> set (wpJobs p) \<and> wjCaller b = Returned res \<and> wrErr res = None
  \<and> wrFiles res = 2 \<and> wrDirs res = 2 \<and> wrOther res = 1"
proof -
  let ?p = "walk_start ''/v'' (newWalkPool 2)"
  obtain q where q: "(pool_step demo_rd)\<^sup>*\<^sup>* ?p q" "\<forall>r. \<not> pool_step demo_rd q r" using run_exists [OF demo_reach] by blast
  have r: "pool_reach {demo_rd} (deep 3 demo_rd) 2 q" "map wjDone (wpJobs q) = [None]" "map wjRoot (wpJobs q) = [''/v'']"
    using reach_steps [OF q(1) demo_reach] by (simp_all add: walk_start_def newWalkPool_def)
  then obtain b where b: "wpJobs q = [b]" "wjDone b = None" "wjRoot b = ''/v''" by (cases "wpJobs q") auto
  obtain res where res: "wjCaller b = Returned res" using no_deadlock [OF r(1), of demo_rd b] q(2) b by auto
  have t: "unreadable 3 demo_rd ''/v'' = 0" "kinds 3 demo_rd kindFile ''/v'' = 2" "kinds 3 demo_rd kindDir ''/v'' = 2" "kinds 3 demo_rd kindOther ''/v'' = 1"
    by (simp_all add: unreadable_def kinds_def numeral_3_eq_3 demo_rd_def walk_classify_def kind_of_mode_def demo_paths)
  show ?thesis using walk_exact [OF r(1) _ res] b res r(1) t by (auto simp: counted_def split: option.splits intro!: exI [of _ q] exI [of _ b] exI [of _ res])
qed



end
