(* ===== verification/Go_Duration.thy ===== *)
theory Go_Duration
  imports Go_Prelude "HOL-Library.Log_Nat"
begin

text \<open>
  \<^verbatim>\<open>time.ParseDuration\<close> of the Go library, which reads every duration of the configuration. Lengths are unsigned 64-bit numbers that
  the code checks against 2 to the 63; a fraction is scaled in 64-bit floating point, here rounding
  of rationals to 53 binary digits (an exponent out of range only occurs for fractions that
  contribute less than a nanosecond). An error is \<^term>\<open>None\<close>.
\<close>

section \<open>Floating point\<close>

definition exp2 :: "int \<Rightarrow> rat" where
  "exp2 k = (if 0 \<le> k then 2 ^ nat k else 1 / 2 ^ nat (- k))"

definition ilog2 :: "rat \<Rightarrow> int" where
  "ilog2 x = (case quotient_of x of (n, d) \<Rightarrow>
     let k = int (floorlog 2 (nat n)) - int (floorlog 2 (nat d)) in if exp2 k \<le> x then k else k - 1)"

definition round_even :: "rat \<Rightarrow> int" where
  "round_even x = (let f = \<lfloor>x\<rfloor>; r = x - of_int f in
     if r < 1 / 2 \<or> r = 1 / 2 \<and> even f then f else f + 1)"

definition flt :: "rat \<Rightarrow> rat" where
  "flt x = (if x = 0 then 0 else let e = ilog2 x - 52 in of_int (round_even (x / exp2 e)) * exp2 e)"

section \<open>The parser\<close>

fun leadingInt :: "nat \<Rightarrow> string \<Rightarrow> (nat \<times> string) option" where
  "leadingInt x [] = Some (x, [])"
| "leadingInt x (c # s) = (if \<not> is_digit c then Some (x, c # s)
     else if x > 2 ^ 63 div 10 then None
     else let y = x * 10 + digit_val c in if y > 2 ^ 63 then None else leadingInt y s)"

text \<open>The digits, the scale (a float) and the rest; further digits are dropped after an overflow.\<close>

fun leadingFraction :: "nat \<Rightarrow> rat \<Rightarrow> bool \<Rightarrow> string \<Rightarrow> nat \<times> rat \<times> string" where
  "leadingFraction x scale over [] = (x, scale, [])"
| "leadingFraction x scale over (c # s) = (if \<not> is_digit c then (x, scale, c # s)
     else if over \<or> x > (2 ^ 63 - 1) div 10 then leadingFraction x scale True s
     else let y = x * 10 + digit_val c in
       if y > 2 ^ 63 then leadingFraction x scale True s else leadingFraction y (flt (scale * 10)) False s)"

definition unitMap :: "(string \<times> nat) list" where
  "unitMap = [(''ns'', 1), (''us'', 1000), ([CHR 0xC2, CHR 0xB5, CHR ''s''], 1000), ([CHR 0xCE, CHR 0xBC, CHR ''s''], 1000),
     (''ms'', 1000000), (''s'', 1000000000), (''m'', 60000000000), (''h'', 3600000000000)]"

definition unit_char :: "char \<Rightarrow> bool" where
  "unit_char c \<longleftrightarrow> c \<noteq> CHR ''.'' \<and> \<not> is_digit c"

text \<open>The fraction after the integer part; whether it has digits.\<close>

definition fraction_part :: "string \<Rightarrow> (nat \<times> rat \<times> bool) \<times> string" where
  "fraction_part s = (case s of CHR ''.'' # s1 \<Rightarrow> (case leadingFraction 0 1 False s1 of (f, scale, s2) \<Rightarrow>
     ((f, scale, length s1 \<noteq> length s2), s2)) | _ \<Rightarrow> ((0, 1, False), s))"

text \<open>The value of an integer part and a fraction in a unit.\<close>

definition part_value :: "nat \<Rightarrow> nat \<Rightarrow> rat \<Rightarrow> nat \<Rightarrow> nat option" where
  "part_value v f scale unit = (if v > 2 ^ 63 div unit then None
     else let w = v * unit in
       if 0 < f then (let w' = w + nat \<lfloor>flt (flt (of_nat f) * flt (of_nat unit / scale))\<rfloor> in if w' > 2 ^ 63 then None else Some w')
       else Some w)"

text \<open>One round of the loop: a number with its unit, and the rest.\<close>

definition duration_part :: "string \<Rightarrow> (nat \<times> string) option" where
  "duration_part s = (if s = [] \<or> \<not> (hd s = CHR ''.'' \<or> is_digit (hd s)) then None
     else case leadingInt 0 s of None \<Rightarrow> None
     | Some (v, s1) \<Rightarrow> (case fraction_part s1 of ((f, scale, post), s2) \<Rightarrow>
         if length s = length s1 \<and> \<not> post then None
         else let u = takeWhile unit_char s2 in
           if u = [] then None
           else case map_of unitMap u of None \<Rightarrow> None
           | Some unit \<Rightarrow> map_option (\<lambda>w. (w, drop (length u) s2)) (part_value v f scale unit)))"

lemma leadingInt_shorter: "leadingInt x s = Some (v, r) \<Longrightarrow> length r \<le> length s"
  by (induction x s rule: leadingInt.induct) (auto split: if_splits simp: Let_def)

lemma leadingFraction_shorter: "leadingFraction x sc b s = (f, sc', r) \<Longrightarrow> length r \<le> length s"
  by (induction x sc b s rule: leadingFraction.induct) (auto split: if_splits simp: Let_def)

lemma fraction_part_shorter: "fraction_part s = (p, r) \<Longrightarrow> length r \<le> length s"
  by (auto simp: fraction_part_def split: list.splits char.splits bool.splits prod.splits dest!: leadingFraction_shorter)

lemma duration_part_shorter: "duration_part s = Some (v, r) \<Longrightarrow> length r < length s"
proof -
  assume d: "duration_part s = Some (v, r)"
  then obtain x s1 p s2 where h: "leadingInt 0 s = Some (x, s1)" "fraction_part s1 = (p, s2)" "takeWhile unit_char s2 \<noteq> []"
      "r = drop (length (takeWhile unit_char s2)) s2"
    by (auto simp: duration_part_def Let_def split: if_splits option.splits prod.splits)
  have "length r < length s2" using h(3,4) by (cases s2) auto
  then show ?thesis using leadingInt_shorter [OF h(1)] fraction_part_shorter [OF h(2)] by simp
qed

function duration_parts :: "nat \<Rightarrow> string \<Rightarrow> nat option" where
  "duration_parts d s = (if s = [] then Some d
     else case duration_part s of None \<Rightarrow> None
     | Some (v, r) \<Rightarrow> let d' = (d + v) mod 2 ^ 64 in if d' > 2 ^ 63 then None else duration_parts d' r)"
  by pat_completeness auto

termination by (relation "measure (length \<circ> snd)") (auto dest: duration_part_shorter)

declare duration_parts.simps [simp del]

definition ParseDuration :: "string \<Rightarrow> int option" where
  "ParseDuration s0 =
     (let neg = (s0 \<noteq> [] \<and> hd s0 = CHR ''-''); s = (if s0 \<noteq> [] \<and> (hd s0 = CHR ''-'' \<or> hd s0 = CHR ''+'') then tl s0 else s0) in
      if s = ''0'' then Some 0
      else if s = [] then None
      else case duration_parts 0 s of None \<Rightarrow> None
      | Some d \<Rightarrow> if neg then Some (wrap64 (- wrap64 (int d))) else if d > 2 ^ 63 - 1 then None else Some (int d))"

section \<open>Facts\<close>

lemma ParseDuration_in64: "ParseDuration s = Some d \<Longrightarrow> in64 d"
  by (auto simp: ParseDuration_def Let_def in64_wrap64 split: if_splits option.splits) (auto simp: in64_def MinInt64_def MaxInt64_def)

text \<open>A printed number with a unit reads back as that many units.\<close>

lemma digits_val_ge: "acc \<le> digits_val acc s"
proof (induction acc s rule: digits_val.induct)
  case (2 acc c cs)
  then show ?case by simp
qed simp

lemma leadingInt_digits:
  assumes "list_all is_digit ds" "digits_val x ds \<le> 2 ^ 63" "s = [] \<or> \<not> is_digit (hd s)"
  shows "leadingInt x (ds @ s) = Some (digits_val x ds, s)"
  using assms
proof (induction ds arbitrary: x)
  case Nil
  then show ?case by (cases s) auto
next
  case (Cons c ds)
  have "10 * x + digit_val c \<le> 2 ^ 63" using digits_val_ge [of "10 * x + digit_val c" ds] Cons.prems(2) by simp
  then show ?case using Cons by (simp add: mult.commute [of x])
qed

definition unit_name :: "string \<Rightarrow> bool" where
  "unit_name u \<longleftrightarrow> u \<in> fst ` set unitMap"

lemma unit_name_chars: "unit_name u \<Longrightarrow> u \<noteq> [] \<and> list_all unit_char u"
proof -
  have "list_all (\<lambda>(u, _). u \<noteq> [] \<and> list_all unit_char u) unitMap" by code_simp
  then show "unit_name u \<Longrightarrow> u \<noteq> [] \<and> list_all unit_char u" by (auto simp: unit_name_def list_all_iff)
qed

lemma takeWhile_all_list: "list_all p u \<Longrightarrow> takeWhile p u = u"
  by (induction u) auto

lemma duration_part_show:
  assumes "map_of unitMap u = Some unit" "n * unit \<le> 2 ^ 63" "n \<le> 2 ^ 63"
  shows "duration_part (show_nat n @ u) = Some (n * unit, [])"
proof -
  have pos: "list_all (\<lambda>(u, k). 0 < k) unitMap" by code_simp
  have un: "unit_name u" using assms(1) by (auto simp: unit_name_def dest!: map_of_SomeD intro: rev_image_eqI)
  note u = unit_name_chars [OF un]
  then obtain c cs where c: "u = c # cs" "unit_char c" by (cases u) auto
  have "0 < unit" using pos map_of_SomeD [OF assms(1)] by (auto simp: list_all_iff)
  then have v: "\<not> n > 2 ^ 63 div unit" using assms(2) by (simp add: less_eq_div_iff_mult_less_eq linorder_not_less)
  have l: "leadingInt 0 (show_nat n @ u) = Some (n, u)"
    using leadingInt_digits [OF show_nat_digits, of 0 n u] assms(3) c by (simp add: digits_val_show_nat unit_char_def)
  have f: "fraction_part u = ((0, 1, False), u)" using c by (auto simp: fraction_part_def unit_char_def split: char.splits bool.splits)
  obtain d ds where d: "show_nat n = d # ds" by (cases "show_nat n") auto
  have t: "takeWhile unit_char u = u" using u takeWhile_all_list by blast
  have "hd (show_nat n @ u) = d" "is_digit d" "length (show_nat n @ u) \<noteq> length u" using show_nat_head [OF d] by (simp_all add: d)
  then show ?thesis using u l v f assms(1) unfolding duration_part_def by (simp add: part_value_def Let_def t)
qed

lemma ParseDuration_show:
  assumes "map_of unitMap u = Some unit" "n * unit < 2 ^ 63" "n \<le> 2 ^ 63"
  shows "ParseDuration (show_nat n @ u) = Some (int (n * unit))"
proof -
  obtain d ds where d: "show_nat n = d # ds" by (cases "show_nat n") auto
  have h: "d \<noteq> CHR ''-''" "d \<noteq> CHR ''+''" using is_digit_not_sign [OF show_nat_head [OF d]] by auto
  have "u \<noteq> []" using assms(1) by (auto simp: unitMap_def split: if_splits)
  moreover have "duration_parts 0 (show_nat n @ u) = Some (n * unit)"
    using duration_part_show [OF assms(1) _ assms(3)] assms(2) by (subst duration_parts.simps) (simp add: duration_parts.simps [of _ "[]"] Let_def)
  ultimately show ?thesis using h assms(2) by (simp add: ParseDuration_def d Let_def)
qed

end
