(* ===== verification/Cluster_Nomad.thy ===== *)
theory Cluster_Nomad
  imports Local_Controller Go_Clock
begin

text \<open>
  \<^verbatim>\<open>internal/cluster/nomad_http.go\<close>, \<^verbatim>\<open>nomad_resolver.go\<close> and \<^verbatim>\<open>nomad_volumes.go\<close>: what the plugin asks Nomad's
  task API, the roster of peers and the two-way map between Nomad's volume ids and external ids. Both are
  caches that live beside the world of the API (a pair): a call that finds the cache fresh asks nothing, a call that finds it old or
  without the wanted entry asks once more, and a failed refresh falls back to what is there.
  Reading the token file, the environment and one authenticated GET are the fields of \<open>taskAPI\<close>.
  The URLs are constant up to an escaped operand, so building a request does not fail.
\<close>

section \<open>nomad\_http.go\<close>

text \<open>\<^verbatim>\<open>url.QueryEscape\<close>.\<close>

definition unreserved :: "char \<Rightarrow> bool" where
  "unreserved c \<longleftrightarrow> (let n = of_char c :: nat in 48 \<le> n \<and> n \<le> 57 \<or> 65 \<le> n \<and> n \<le> 90 \<or> 97 \<le> n \<and> n \<le> 122)
     \<or> c \<in> set ''-_.~''"

definition hex_digit :: "nat \<Rightarrow> char" where
  "hex_digit n = ''0123456789ABCDEF'' ! n"

definition QueryEscape :: "string \<Rightarrow> string" where
  "QueryEscape s = concat (map (\<lambda>c. if unreserved c then [c] else if c = CHR '' '' then ''+''
     else [CHR ''%'', hex_digit (of_char c div 16), hex_digit (of_char c mod 16)]) s)"

record 'w taskAPI =
  ReadTokenFile :: "string \<Rightarrow> ('w, string) io"
  EnvToken :: "'w \<Rightarrow> string"
  ApiGet :: "string \<Rightarrow> string \<Rightarrow> ('w, http_response) io"   \<comment> \<open>bearer token, path\<close>

record nomadHTTP =
  nhSocketPath :: string
  nhTokenPath :: string
  nhTokenLit :: string

definition file_token :: "'w taskAPI \<Rightarrow> string \<Rightarrow> ('w, string) io" where
  "file_token api p = (if p = [] then ret []
     else tryIO (ReadTokenFile api p) (\<lambda>r. case r of Inl _ \<Rightarrow> ret [] | Inr b \<Rightarrow> ret (TrimSpace b)))"

definition nomad_token :: "'w taskAPI \<Rightarrow> nomadHTTP \<Rightarrow> ('w, string) io" where
  "nomad_token api h = bindIO (file_token api (nhTokenPath h)) (\<lambda>tok.
     if tok \<noteq> [] then ret tok
     else if nhTokenLit h \<noteq> [] then ret (nhTokenLit h)
     else (\<lambda>w. let t = TrimSpace (EnvToken api w) in
       if t \<noteq> [] then (Ok t, w) else (Fail (PlainErr ''no token in file %q, literal, or $NOMAD_TOKEN''), w)))"

definition newNomadHTTP :: "'w taskAPI \<Rightarrow> string \<Rightarrow> string \<Rightarrow> string \<Rightarrow> ('w, nomadHTTP) io" where
  "newNomadHTTP api socketPath tokenPath tokenLit =
     (let h = \<lparr>nhSocketPath = socketPath, nhTokenPath = tokenPath, nhTokenLit = tokenLit\<rparr> in
      if socketPath = [] then fail (PlainErr ''cluster: nomad api needs the task API socket'')
      else bindIO (wrapIO (WrapErr ''cluster: nomad api has no usable token: %w'') (nomad_token api h)) (\<lambda>_. ret h))"

definition getJSON :: "'w taskAPI \<Rightarrow> nomadHTTP \<Rightarrow> string \<Rightarrow> (json \<Rightarrow> 'a option) \<Rightarrow> ('w, 'a) io" where
  "getJSON api h path dec =
     bindIO (nomad_token api h) (\<lambda>tok.
     bindIO (wrapIO (WrapErr ''cluster: querying nomad api.sock: %w'') (ApiGet api tok path)) (\<lambda>resp.
     if rsStatus resp \<noteq> 200 then fail (PlainErr ''cluster: nomad %s returned %s'')
     else case rsBody resp of None \<Rightarrow> fail json_err
       | Some j \<Rightarrow> (case dec j of None \<Rightarrow> fail json_err | Some x \<Rightarrow> ret x)))"

text \<open>A top-level slice of structs; null leaves it empty.\<close>

definition dec_slice :: "((string \<times> json) list \<Rightarrow> err + 'a) \<Rightarrow> json \<Rightarrow> 'a list option" where
  "dec_slice d j = (if j = JNull then Some [] else dec_list d j)"

section \<open>nomad\_resolver.go\<close>

record NomadOptions =
  noSelf :: string
  noSocketPath :: string
  noTokenPath :: string
  noToken :: string
  noDatacenter :: string
  noNodeFilter :: string
  noForwardPort :: int
  noCacheTTL :: int

definition defaultCacheTTL :: int where "defaultCacheTTL = 5 * Minute"

record nodeStub =
  nbName :: string
  nbAddress :: string
  nbStatus :: string
  nbDatacenter :: string

definition dec_nodeStub :: "(string \<times> json) list \<Rightarrow> err + nodeStub" where
  "dec_nodeStub ps =
     bindE (field dec_string ''ID'' [] ps) (\<lambda>_. bindE (field dec_string ''Name'' [] ps) (\<lambda>n.
     bindE (field dec_string ''Address'' [] ps) (\<lambda>a. bindE (field dec_string ''Status'' [] ps) (\<lambda>s.
     bindE (field dec_string ''Datacenter'' [] ps) (\<lambda>d.
     Inr \<lparr>nbName = n, nbAddress = a, nbStatus = s, nbDatacenter = d\<rparr>)))))"

record NomadResolver =
  nrSelf :: string
  nrDatacenter :: string
  nrNodeFilter :: string
  nrForwardPort :: int
  nrTtl :: int
  nrHTTP :: nomadHTTP

text \<open>The two fields under its mutex.\<close>

record roster =
  rtCache :: "NodeInfoPeer list option"
  rtFetchedAt :: time

type_synonym ('w, 'a) rio = "('w \<times> roster, 'a) io"

definition NewNomadResolver :: "'w taskAPI \<Rightarrow> NomadOptions \<Rightarrow> ('w, NomadResolver) io" where
  "NewNomadResolver api opts =
     bindIO (newNomadHTTP api (noSocketPath opts) (noTokenPath opts) (noToken opts)) (\<lambda>h.
     ret \<lparr>nrSelf = noSelf opts, nrDatacenter = noDatacenter opts, nrNodeFilter = noNodeFilter opts,
       nrForwardPort = noForwardPort opts, nrTtl = pos_or (noCacheTTL opts) defaultCacheTTL, nrHTTP = h\<rparr>)"

definition usable_stub :: "NomadResolver \<Rightarrow> nodeStub \<Rightarrow> bool" where
  "usable_stub r s \<longleftrightarrow> (nrDatacenter r = [] \<or> nbDatacenter s = nrDatacenter r) \<and> nbStatus s = ''ready'' \<and> nbAddress s \<noteq> []"

definition roster_of :: "NomadResolver \<Rightarrow> nodeStub list \<Rightarrow> NodeInfoPeer list" where
  "roster_of r stubs = map (\<lambda>s. \<lparr>pnNode = nbName s, pnAddr = JoinHostPort (nbAddress s) (FormatInt (nrForwardPort r))\<rparr>)
     (filter (usable_stub r) stubs)"

definition nodes_path :: "NomadResolver \<Rightarrow> string" where
  "nodes_path r = ''/v1/nodes'' @ (if nrNodeFilter r \<noteq> [] then ''?filter='' @ QueryEscape (nrNodeFilter r) else [])"

definition fetch_nodes :: "'w taskAPI \<Rightarrow> NomadResolver \<Rightarrow> ('w, nodeStub list) io" where
  "fetch_nodes api r = getJSON api (nrHTTP r) (nodes_path r) (dec_slice dec_nodeStub)"

definition nr_refresh :: "'w taskAPI \<Rightarrow> 'w clock \<Rightarrow> NomadResolver \<Rightarrow> ('w, NodeInfoPeer list) rio" where
  "nr_refresh api ck r = (\<lambda>(w, c). case fetch_nodes api r w of
     (Ok stubs, w1) \<Rightarrow> (case Now ck w1 of (t, w2) \<Rightarrow>
       (Ok (roster_of r stubs), (w2, \<lparr>rtCache = Some (roster_of r stubs), rtFetchedAt = t\<rparr>)))
   | (Fail e, w1) \<Rightarrow> (Fail e, (w1, c))
   | (Panic m, w1) \<Rightarrow> (Panic m, (w1, c)))"

text \<open>The cached roster while it is fresh.\<close>

definition fresh_roster :: "'w clock \<Rightarrow> NomadResolver \<Rightarrow> ('w, NodeInfoPeer list option) rio" where
  "fresh_roster ck r = (\<lambda>(w, c). case rtCache c of
     None \<Rightarrow> (Ok None, (w, c))
   | Some ps \<Rightarrow> (case Now ck w of (t, w1) \<Rightarrow> (Ok (if t - rtFetchedAt c < nrTtl r then Some ps else None), (w1, c))))"

definition nr_List :: "'w taskAPI \<Rightarrow> 'w clock \<Rightarrow> NomadResolver \<Rightarrow> ('w, NodeInfoPeer list) rio" where
  "nr_List api ck r = (\<lambda>(w, c). bindIO (fresh_roster ck r) (\<lambda>fresh. case fresh of
     Some ps \<Rightarrow> ret ps
   | None \<Rightarrow> tryIO (nr_refresh api ck r) (\<lambda>res. case res of
       Inl e \<Rightarrow> (case rtCache c of Some ps \<Rightarrow> ret ps | None \<Rightarrow> fail e)
     | Inr nodes \<Rightarrow> ret nodes)) (w, c))"

definition findPeer :: "NodeInfoPeer list \<Rightarrow> string \<Rightarrow> string option" where
  "findPeer peers node = map_option pnAddr (List.find (\<lambda>p. pnNode p = node) peers)"

definition nr_Resolve :: "'w taskAPI \<Rightarrow> 'w clock \<Rightarrow> NomadResolver \<Rightarrow> string \<Rightarrow> ('w, string) rio" where
  "nr_Resolve api ck r node =
     bindIO (nr_List api ck r) (\<lambda>peers. case findPeer peers node of
       Some addr \<Rightarrow> ret addr
     | None \<Rightarrow> bindIO (nr_refresh api ck r) (\<lambda>peers. case findPeer peers node of
         Some addr \<Rightarrow> ret addr
       | None \<Rightarrow> fail (PlainErr ''cluster: node %q not in datacenter %q roster'')))"

definition nomad_Resolver :: "'w taskAPI \<Rightarrow> 'w clock \<Rightarrow> NomadResolver \<Rightarrow> ('w \<times> roster) Resolver" where
  "nomad_Resolver api ck r = \<lparr>resLocalNode = nrSelf r, resList = nr_List api ck r, resResolve = nr_Resolve api ck r\<rparr>"

section \<open>nomad\_volumes.go\<close>

record volStub =
  vbID :: string
  vbExternalID :: string

definition dec_volStub :: "(string \<times> json) list \<Rightarrow> err + volStub" where
  "dec_volStub ps =
     bindE (field dec_string ''ID'' [] ps) (\<lambda>i. bindE (field dec_string ''Namespace'' [] ps) (\<lambda>_.
     bindE (field dec_string ''ExternalID'' [] ps) (\<lambda>x. Inr \<lparr>vbID = i, vbExternalID = x\<rparr>)))"

record NomadVolumes =
  nvTtl :: int
  nvHTTP :: nomadHTTP

record nsVolCache =
  ncFetchedAt :: time
  ncFwd :: smap
  ncRev :: smap

type_synonym volume_maps = "string \<rightharpoonup> nsVolCache"

type_synonym ('w, 'a) vio = "('w \<times> volume_maps, 'a) io"

definition NewNomadVolumes :: "'w taskAPI \<Rightarrow> NomadOptions \<Rightarrow> ('w, NomadVolumes) io" where
  "NewNomadVolumes api opts =
     bindIO (newNomadHTTP api (noSocketPath opts) (noTokenPath opts) (noToken opts)) (\<lambda>h.
     ret \<lparr>nvTtl = pos_or (noCacheTTL opts) defaultCacheTTL, nvHTTP = h\<rparr>)"

definition volumes_path :: "string \<Rightarrow> string" where
  "volumes_path namespace = ''/v1/volumes?type=csi'' @ (if namespace \<noteq> [] then ''&namespace='' @ QueryEscape namespace else [])"

definition named_stubs :: "volStub list \<Rightarrow> volStub list" where
  "named_stubs stubs = filter (\<lambda>s. vbID s \<noteq> [] \<and> vbExternalID s \<noteq> []) stubs"

definition maps_of :: "time \<Rightarrow> volStub list \<Rightarrow> nsVolCache" where
  "maps_of t stubs = \<lparr>ncFetchedAt = t,
     ncFwd = foldl (\<lambda>m s. m(vbID s \<mapsto> vbExternalID s)) Map.empty (named_stubs stubs),
     ncRev = foldl (\<lambda>m s. m(vbExternalID s \<mapsto> vbID s)) Map.empty (named_stubs stubs)\<rparr>"

definition fetch_volumes :: "'w taskAPI \<Rightarrow> NomadVolumes \<Rightarrow> string \<Rightarrow> ('w, volStub list) io" where
  "fetch_volumes api v namespace = getJSON api (nvHTTP v) (volumes_path namespace) (dec_slice dec_volStub)"

definition nv_refresh :: "'w taskAPI \<Rightarrow> 'w clock \<Rightarrow> NomadVolumes \<Rightarrow> string \<Rightarrow> ('w, nsVolCache) vio" where
  "nv_refresh api ck v namespace = (\<lambda>(w, m). case fetch_volumes api v namespace w of
     (Ok stubs, w1) \<Rightarrow> (case Now ck w1 of (t, w2) \<Rightarrow> (Ok (maps_of t stubs), (w2, m(namespace \<mapsto> maps_of t stubs))))
   | (Fail e, w1) \<Rightarrow> (Fail e, (w1, m))
   | (Panic p, w1) \<Rightarrow> (Panic p, (w1, m)))"

definition fresh_maps :: "'w clock \<Rightarrow> NomadVolumes \<Rightarrow> string \<Rightarrow> bool \<Rightarrow> ('w, nsVolCache option) vio" where
  "fresh_maps ck v namespace force = (\<lambda>(w, m). case m namespace of
     None \<Rightarrow> (Ok None, (w, m))
   | Some c \<Rightarrow> if force then (Ok None, (w, m))
       else (case Now ck w of (t, w1) \<Rightarrow> (Ok (if t - ncFetchedAt c < nvTtl v then Some c else None), (w1, m))))"

definition nv_get :: "'w taskAPI \<Rightarrow> 'w clock \<Rightarrow> NomadVolumes \<Rightarrow> string \<Rightarrow> bool \<Rightarrow> ('w, nsVolCache) vio" where
  "nv_get api ck v namespace force = (\<lambda>(w, m). bindIO (fresh_maps ck v namespace force) (\<lambda>fresh. case fresh of
     Some c \<Rightarrow> ret c
   | None \<Rightarrow> tryIO (nv_refresh api ck v namespace) (\<lambda>res. case res of
       Inl e \<Rightarrow> (case m namespace of Some c \<Rightarrow> ret c | None \<Rightarrow> fail e)
     | Inr c \<Rightarrow> ret c)) (w, m))"

definition nv_ExternalID :: "'w taskAPI \<Rightarrow> 'w clock \<Rightarrow> NomadVolumes \<Rightarrow> string \<Rightarrow> string \<Rightarrow> ('w, string \<times> bool) vio" where
  "nv_ExternalID api ck v namespace nomadID =
     bindIO (nv_get api ck v namespace False) (\<lambda>c. case ncFwd c nomadID of
       Some ext \<Rightarrow> ret (ext, True)
     | None \<Rightarrow> bindIO (nv_get api ck v namespace True) (\<lambda>c. case ncFwd c nomadID of
         Some ext \<Rightarrow> ret (ext, True) | None \<Rightarrow> ret ([], False)))"

definition nv_Reverse :: "'w taskAPI \<Rightarrow> 'w clock \<Rightarrow> NomadVolumes \<Rightarrow> string \<Rightarrow> ('w, smap) vio" where
  "nv_Reverse api ck v namespace = bindIO (nv_get api ck v namespace False) (\<lambda>c. ret (ncRev c))"

definition nomad_Mapper :: "'w taskAPI \<Rightarrow> 'w clock \<Rightarrow> NomadVolumes \<Rightarrow> ('w \<times> volume_maps) Mapper" where
  "nomad_Mapper api ck v = \<lparr>mpExternalID = nv_ExternalID api ck v, mpReverse = nv_Reverse api ck v\<rparr>"

section \<open>Rosters\<close>

lemma findPeer_Cons [simp]: "findPeer (p # ps) node = (if pnNode p = node then Some (pnAddr p) else findPeer ps node)"
  by (simp add: findPeer_def)

lemma findPeer_Nil [simp]: "findPeer [] node = None"
  by (simp add: findPeer_def)

text \<open>A peer that is found is a node that Nomad lists as ready, in the datacenter, at this address.\<close>

lemma findPeer_roster: "findPeer (roster_of r stubs) node = Some a \<Longrightarrow>
  \<exists>s \<in> set stubs. nbName s = node \<and> usable_stub r s \<and> a = JoinHostPort (nbAddress s) (FormatInt (nrForwardPort r))"
  by (induction stubs) (auto simp: roster_of_def split: if_splits)

lemma findPeer_listed: "s \<in> set stubs \<Longrightarrow> usable_stub r s \<Longrightarrow> findPeer (roster_of r stubs) (nbName s) \<noteq> None"
  by (induction stubs) (auto simp: roster_of_def)

text \<open>A read of the roster: what it returns, and what it leaves cached.\<close>

definition listed :: "'w taskAPI \<Rightarrow> NomadResolver \<Rightarrow> NodeInfoPeer list \<Rightarrow> bool" where
  "listed api r ps \<longleftrightarrow> (\<exists>v stubs v'. fetch_nodes api r v = (Ok stubs, v') \<and> ps = roster_of r stubs)"

lemma nr_refresh_cases:
  assumes "nr_refresh api ck r (w, c) = (x, (w', c'))"
  shows "case x of Ok ps \<Rightarrow> listed api r ps \<and> rtCache c' = Some ps | _ \<Rightarrow> c' = c"
  using assms by (auto simp: nr_refresh_def listed_def split: prod.splits res.splits)

lemma fresh_roster_cases:
  assumes "fresh_roster ck r (w, c) = (x, (w', c'))"
  shows "c' = c \<and> (x = Ok None \<or> (\<exists>ps. x = Ok (Some ps) \<and> rtCache c = Some ps))"
  using assms by (auto simp: fresh_roster_def split: prod.splits option.splits)

lemma nr_List_cases:
  assumes "nr_List api ck r (w, c) = (Ok ps, (w', c'))"
  shows "rtCache c = Some ps \<and> c' = c \<or> listed api r ps \<and> rtCache c' = Some ps"
proof -
  obtain x w1 c1 where f: "fresh_roster ck r (w, c) = (x, (w1, c1))" by (metis prod.exhaust)
  note fresh_roster_cases [OF f]
  then show ?thesis
  proof (elim conjE disjE exE)
    assume x: "x = Ok None" and c1: "c1 = c"
    obtain y w2 c2 where y: "nr_refresh api ck r (w1, c) = (y, (w2, c2))" by (metis prod.exhaust)
    show ?thesis using assms f x c1 y nr_refresh_cases [OF y]
      by (auto simp: nr_List_def bindIO_def tryIO_def ret_def fail_def split: res.splits option.splits)
  qed (use assms f in \<open>auto simp: nr_List_def bindIO_def ret_def\<close>)
qed

lemma nr_List_up:
  assumes "\<And>v. \<exists>stubs v'. fetch_nodes api r v = (Ok stubs, v')"
  shows "\<exists>ps s'. nr_List api ck r (w, c) = (Ok ps, s')"
proof -
  obtain x w1 c1 where f: "fresh_roster ck r (w, c) = (x, (w1, c1))" by (metis prod.exhaust)
  obtain stubs v' where v: "fetch_nodes api r w1 = (Ok stubs, v')" using assms by blast
  show ?thesis using fresh_roster_cases [OF f] f v
    by (auto simp: nr_List_def bindIO_def tryIO_def ret_def nr_refresh_def split: prod.splits)
qed

lemma nr_refresh_down:
  assumes "\<And>v. \<exists>e v'. fetch_nodes api r v = (Fail e, v')"
  shows "\<exists>e w'. nr_refresh api ck r (w, c) = (Fail e, (w', c))"
  using assms [of w] by (auto simp: nr_refresh_def)

lemma nr_List_down:
  assumes "\<And>v. \<exists>e v'. fetch_nodes api r v = (Fail e, v')"
  shows "\<exists>w'. case rtCache c of Some ps \<Rightarrow> nr_List api ck r (w, c) = (Ok ps, (w', c))
    | None \<Rightarrow> (\<exists>e. nr_List api ck r (w, c) = (Fail e, (w', c)))"
proof -
  obtain x w1 c1 where f: "fresh_roster ck r (w, c) = (x, (w1, c1))" by (metis prod.exhaust)
  obtain e w2 where d: "nr_refresh api ck r (w1, c) = (Fail e, (w2, c))" using nr_refresh_down [OF assms] by blast
  show ?thesis using fresh_roster_cases [OF f] f d
    by (auto simp: nr_List_def bindIO_def tryIO_def ret_def fail_def split: option.splits)
qed

text \<open>C35. How a node name becomes an address. Whatever the cache holds and however Nomad behaves, an address that is
  returned is that of the cached roster or of a node that Nomad has just listed under this name as ready,
  in the datacenter, with the forwarding port joined to its address, and then this roster is what the cache holds. A node that Nomad lists so
  is always found, also when it joined after the cache was filled. While Nomad cannot be asked,
  the last roster is served, however old, and is never lost.\<close>

theorem peers_resolved:
  "(nr_Resolve api ck r node (w, c) = (Ok a, (w', c')) \<longrightarrow>
      (\<exists>ps. rtCache c = Some ps \<and> findPeer ps node = Some a)
      \<or> (\<exists>v stubs v' s. fetch_nodes api r v = (Ok stubs, v') \<and> rtCache c' = Some (roster_of r stubs) \<and> s \<in> set stubs
          \<and> nbName s = node \<and> usable_stub r s \<and> a = JoinHostPort (nbAddress s) (FormatInt (nrForwardPort r))))
   \<and> ((\<forall>v. \<exists>stubs v' s. fetch_nodes api r v = (Ok stubs, v') \<and> s \<in> set stubs \<and> nbName s = node \<and> usable_stub r s) \<longrightarrow>
      (\<exists>a s'. nr_Resolve api ck r node (w, c) = (Ok a, s')))
   \<and> ((\<forall>v. \<exists>e v'. fetch_nodes api r v = (Fail e, v')) \<longrightarrow>
      (\<exists>w'. case Option.bind (rtCache c) (\<lambda>ps. findPeer ps node) of
          Some a \<Rightarrow> nr_Resolve api ck r node (w, c) = (Ok a, (w', c))
        | None \<Rightarrow> (\<exists>e. nr_Resolve api ck r node (w, c) = (Fail e, (w', c)))))"
proof (intro conjI impI)
  assume ok: "nr_Resolve api ck r node (w, c) = (Ok a, (w', c'))"
  obtain x w1 c1 where l: "nr_List api ck r (w, c) = (x, (w1, c1))" by (metis prod.exhaust)
  obtain ps where x: "x = Ok ps" using ok l by (cases x) (auto simp: nr_Resolve_def bindIO_def)
  obtain y w2 c2 where f: "nr_refresh api ck r (w1, c1) = (y, (w2, c2))" by (metis prod.exhaust)
  have "rtCache c = Some ps \<and> findPeer ps node = Some a \<or> (\<exists>qs. listed api r qs \<and> rtCache c' = Some qs \<and> findPeer qs node = Some a)"
    using ok l x f nr_List_cases [OF l [unfolded x]] nr_refresh_cases [OF f]
    by (auto simp: nr_Resolve_def bindIO_def ret_def fail_def split: option.splits res.splits)
  then show "(\<exists>ps. rtCache c = Some ps \<and> findPeer ps node = Some a)
      \<or> (\<exists>v stubs v' s. fetch_nodes api r v = (Ok stubs, v') \<and> rtCache c' = Some (roster_of r stubs) \<and> s \<in> set stubs
          \<and> nbName s = node \<and> usable_stub r s \<and> a = JoinHostPort (nbAddress s) (FormatInt (nrForwardPort r)))"
    by (fastforce simp: listed_def dest: findPeer_roster)
next
  assume up: "\<forall>v. \<exists>stubs v' s. fetch_nodes api r v = (Ok stubs, v') \<and> s \<in> set stubs \<and> nbName s = node \<and> usable_stub r s"
  then obtain ps w1 c1 where l: "nr_List api ck r (w, c) = (Ok ps, (w1, c1))" using nr_List_up [of api r ck w c] by (metis prod.exhaust)
  obtain stubs v' s where f: "fetch_nodes api r w1 = (Ok stubs, v')" "s \<in> set stubs" "nbName s = node" "usable_stub r s" using up by blast
  show "\<exists>a s'. nr_Resolve api ck r node (w, c) = (Ok a, s')"
    using l f findPeer_listed [OF f(2,4)] by (auto simp: nr_Resolve_def bindIO_def ret_def nr_refresh_def split: option.splits prod.splits)
next
  assume down: "\<forall>v. \<exists>e v'. fetch_nodes api r v = (Fail e, v')"
  note d = nr_refresh_down [where ck = ck, OF spec [OF down]] nr_List_down [where ck = ck and c = c and w = w, OF spec [OF down]]
  show "\<exists>w'. case Option.bind (rtCache c) (\<lambda>ps. findPeer ps node) of
          Some a \<Rightarrow> nr_Resolve api ck r node (w, c) = (Ok a, (w', c))
        | None \<Rightarrow> (\<exists>e. nr_Resolve api ck r node (w, c) = (Fail e, (w', c)))"
  proof (cases "rtCache c")
    case None
    then show ?thesis using d(2) by (auto simp: nr_Resolve_def bindIO_def)
  next
    case (Some ps)
    then obtain w1 where "nr_List api ck r (w, c) = (Ok ps, (w1, c))" using d(2) by auto
    then show ?thesis using Some d(1) [where w = w1 and c = c] by (cases "findPeer ps node") (auto simp: nr_Resolve_def bindIO_def ret_def)
  qed
qed

text \<open>A task API that always lists the same, as JSON, or is down.\<close>

definition demo_api :: "body \<Rightarrow> unit taskAPI" where
  "demo_api b = \<lparr>ReadTokenFile = (\<lambda>_ w. (Ok ''s.token'', w)), EnvToken = (\<lambda>_. []),
     ApiGet = (\<lambda>_ _ w. case b of None \<Rightarrow> (Fail (NetErr ''connection refused''), w) | Some _ \<Rightarrow> (Ok \<lparr>rsStatus = 200, rsBody = b\<rparr>, w))\<rparr>"

definition demo_http :: nomadHTTP where
  "demo_http = \<lparr>nhSocketPath = ''/api.sock'', nhTokenPath = ''/token'', nhTokenLit = []\<rparr>"

definition demo_resolver :: NomadResolver where
  "demo_resolver = \<lparr>nrSelf = ''n1'', nrDatacenter = ''dc1'', nrNodeFilter = [], nrForwardPort = 9602, nrTtl = defaultCacheTTL, nrHTTP = demo_http\<rparr>"

definition demo_clock :: "'w clock" where
  "demo_clock = \<lparr>Now = (\<lambda>w. (0, w)), Pause = (\<lambda>_ w. (None, w))\<rparr>"

definition demo_nodes :: json where
  "demo_nodes = JArr [JObj [(''Name'', JStr ''n2''), (''Address'', JStr ''10.0.0.2''), (''Status'', JStr ''ready''), (''Datacenter'', JStr ''dc1'')]]"

lemma demo_token: "nomad_token (demo_api b) demo_http w = (Ok ''s.token'', w)"
proof -
  have "TrimSpace ''s.token'' = ''s.token''" by code_simp
  then show ?thesis by (simp add: nomad_token_def demo_http_def file_token_def demo_api_def bindIO_def tryIO_def ret_def)
qed

lemma demo_get: "ApiGet (demo_api None) tok p w = (Fail (NetErr ''connection refused''), w)"
  "ApiGet (demo_api (Some j)) tok p w = (Ok \<lparr>rsStatus = 200, rsBody = Some j\<rparr>, w)"
  by (simp_all add: demo_api_def)

lemma demo_fetch: "fetch_nodes (demo_api None) demo_resolver w = (Fail (WrapErr ''cluster: querying nomad api.sock: %w'' (NetErr ''connection refused'')), w)"
  "fetch_nodes (demo_api (Some demo_nodes)) demo_resolver w
     = (Ok [\<lparr>nbName = ''n2'', nbAddress = ''10.0.0.2'', nbStatus = ''ready'', nbDatacenter = ''dc1''\<rparr>], w)"
proof -
  have d: "dec_slice dec_nodeStub demo_nodes = Some [\<lparr>nbName = ''n2'', nbAddress = ''10.0.0.2'', nbStatus = ''ready'', nbDatacenter = ''dc1''\<rparr>]"
    by code_simp
  have h: "nrHTTP demo_resolver = demo_http" by (simp add: demo_resolver_def)
  show "fetch_nodes (demo_api None) demo_resolver w = (Fail (WrapErr ''cluster: querying nomad api.sock: %w'' (NetErr ''connection refused'')), w)"
    by (simp add: fetch_nodes_def getJSON_def h bindIO_def demo_token wrapIO_def demo_get)
  show "fetch_nodes (demo_api (Some demo_nodes)) demo_resolver w
     = (Ok [\<lparr>nbName = ''n2'', nbAddress = ''10.0.0.2'', nbStatus = ''ready'', nbDatacenter = ''dc1''\<rparr>], w)"
    by (simp add: fetch_nodes_def getJSON_def h bindIO_def demo_token wrapIO_def ret_def demo_get d)
qed

lemma peers_resolved_witness:
  "(\<exists>a s'. nr_Resolve (demo_api (Some demo_nodes)) demo_clock demo_resolver ''n2'' ((), \<lparr>rtCache = Some [], rtFetchedAt = 0\<rparr>) = (Ok a, s'))
   \<and> (\<exists>w'. nr_Resolve (demo_api None) demo_clock demo_resolver ''n2'' ((), \<lparr>rtCache = Some [\<lparr>pnNode = ''n2'', pnAddr = ''b''\<rparr>], rtFetchedAt = 0\<rparr>)
       = (Ok ''b'', (w', \<lparr>rtCache = Some [\<lparr>pnNode = ''n2'', pnAddr = ''b''\<rparr>], rtFetchedAt = 0\<rparr>)))"
proof -
  have u: "usable_stub demo_resolver \<lparr>nbName = ''n2'', nbAddress = ''10.0.0.2'', nbStatus = ''ready'', nbDatacenter = ''dc1''\<rparr>"
    by (simp add: usable_stub_def demo_resolver_def)
  have "\<forall>v. \<exists>stubs v' s. fetch_nodes (demo_api (Some demo_nodes)) demo_resolver v = (Ok stubs, v') \<and> s \<in> set stubs \<and> nbName s = ''n2'' \<and> usable_stub demo_resolver s"
    using u by (auto simp: demo_fetch(2))
  moreover have "\<forall>v. \<exists>e v'. fetch_nodes (demo_api None) demo_resolver v = (Fail e, v')" by (simp add: demo_fetch(1))
  ultimately show ?thesis
    using peers_resolved [THEN conjunct2, THEN conjunct1, rule_format, of "demo_api (Some demo_nodes)" demo_resolver "''n2''" demo_clock "()" "\<lparr>rtCache = Some [], rtFetchedAt = 0\<rparr>"]
      peers_resolved [THEN conjunct2, THEN conjunct2, rule_format, of "demo_api None" demo_resolver demo_clock "''n2''" "()" "\<lparr>rtCache = Some [\<lparr>pnNode = ''n2'', pnAddr = ''b''\<rparr>], rtFetchedAt = 0\<rparr>"]
    by simp
qed

section \<open>Volume maps\<close>

lemma fold_upd: "foldl (\<lambda>m s. m(f s \<mapsto> g s)) m0 xs = m0 ++ map_of (rev (map (\<lambda>s. (f s, g s)) xs))"
proof (induction xs arbitrary: m0)
  case (Cons a xs)
  show ?case unfolding foldl.simps Cons.IH by (rule ext) (simp add: map_add_def split: option.splits)
qed simp

lemma fold_upd_Some:
  assumes "distinct (map f xs)"
  shows "foldl (\<lambda>m s. m(f s \<mapsto> g s)) Map.empty xs k = Some v \<longleftrightarrow> (\<exists>s \<in> set xs. f s = k \<and> g s = v)"
proof -
  have "distinct (map fst (rev (map (\<lambda>s. (f s, g s)) xs)))" using assms by (simp add: rev_map [symmetric] comp_def)
  from map_of_eq_Some_iff [OF this, of k v] show ?thesis unfolding fold_upd by auto
qed

text \<open>When Nomad lists no id and no external id twice, the two maps are inverse to each other and hold exactly the
  listed pairs.\<close>

definition unambiguous :: "volStub list \<Rightarrow> bool" where
  "unambiguous stubs \<longleftrightarrow> distinct (map vbID (named_stubs stubs)) \<and> distinct (map vbExternalID (named_stubs stubs))"

lemma maps_of_exact:
  assumes "unambiguous stubs"
  shows "ncFwd (maps_of t stubs) i = Some x \<longleftrightarrow> i \<noteq> [] \<and> x \<noteq> [] \<and> \<lparr>vbID = i, vbExternalID = x\<rparr> \<in> set stubs"
    and "ncRev (maps_of t stubs) x = Some i \<longleftrightarrow> ncFwd (maps_of t stubs) i = Some x"
proof -
  have d: "distinct (map vbID (named_stubs stubs))" "distinct (map vbExternalID (named_stubs stubs))"
    using assms by (simp_all add: unambiguous_def)
  have s: "(\<exists>s \<in> set (named_stubs stubs). vbID s = i \<and> vbExternalID s = x) \<longleftrightarrow> i \<noteq> [] \<and> x \<noteq> [] \<and> \<lparr>vbID = i, vbExternalID = x\<rparr> \<in> set stubs"
  proof
    assume "\<exists>s \<in> set (named_stubs stubs). vbID s = i \<and> vbExternalID s = x"
    then obtain s where "s \<in> set stubs" "i \<noteq> []" "x \<noteq> []" "vbID s = i" "vbExternalID s = x" by (auto simp: named_stubs_def)
    moreover have "s = \<lparr>vbID = i, vbExternalID = x\<rparr>" using calculation(4,5) by (intro volStub.equality) simp_all
    ultimately show "i \<noteq> [] \<and> x \<noteq> [] \<and> \<lparr>vbID = i, vbExternalID = x\<rparr> \<in> set stubs" by simp
  qed (auto simp: named_stubs_def intro: bexI [of _ "\<lparr>vbID = i, vbExternalID = x\<rparr>"])
  have f: "ncFwd (maps_of t stubs) i = Some x \<longleftrightarrow> (\<exists>s \<in> set (named_stubs stubs). vbID s = i \<and> vbExternalID s = x)"
    using fold_upd_Some [OF d(1)] by (simp add: maps_of_def)
  have g: "ncRev (maps_of t stubs) x = Some i \<longleftrightarrow> (\<exists>s \<in> set (named_stubs stubs). vbExternalID s = x \<and> vbID s = i)"
    using fold_upd_Some [OF d(2)] by (simp add: maps_of_def)
  show "ncFwd (maps_of t stubs) i = Some x \<longleftrightarrow> i \<noteq> [] \<and> x \<noteq> [] \<and> \<lparr>vbID = i, vbExternalID = x\<rparr> \<in> set stubs" using f s by simp
  show "ncRev (maps_of t stubs) x = Some i \<longleftrightarrow> ncFwd (maps_of t stubs) i = Some x" using f g by auto
qed

text \<open>What one reading of the maps gives: those of the cache, or what Nomad has just listed.\<close>

definition mapped :: "'w taskAPI \<Rightarrow> NomadVolumes \<Rightarrow> string \<Rightarrow> nsVolCache \<Rightarrow> bool" where
  "mapped api v ns c \<longleftrightarrow> (\<exists>u stubs u' t. fetch_volumes api v ns u = (Ok stubs, u') \<and> c = maps_of t stubs)"

lemma nv_refresh_cases:
  assumes "nv_refresh api ck v ns (w, m) = (x, (w', m'))"
  shows "case x of Ok c \<Rightarrow> mapped api v ns c \<and> m' = m(ns \<mapsto> c) | _ \<Rightarrow> m' = m"
  using assms by (auto simp: nv_refresh_def mapped_def split: prod.splits res.splits)

lemma fresh_maps_cases:
  assumes "fresh_maps ck v ns force (w, m) = (x, (w', m'))"
  shows "m' = m \<and> (x = Ok None \<or> (\<exists>c. x = Ok (Some c) \<and> m ns = Some c \<and> \<not> force))"
  using assms by (auto simp: fresh_maps_def split: prod.splits option.splits if_splits)

lemma nv_get_cases:
  assumes "nv_get api ck v ns force (w, m) = (Ok c, (w', m'))"
  shows "m ns = Some c \<and> m' = m \<or> mapped api v ns c \<and> m' = m(ns \<mapsto> c)"
proof -
  obtain x w1 m1 where f: "fresh_maps ck v ns force (w, m) = (x, (w1, m1))" by (metis prod.exhaust)
  obtain y w2 m2 where y: "nv_refresh api ck v ns (w1, m) = (y, (w2, m2))" by (metis prod.exhaust)
  show ?thesis using fresh_maps_cases [OF f] nv_refresh_cases [OF y] f y assms
    by (auto simp: nv_get_def bindIO_def tryIO_def ret_def fail_def split: res.splits option.splits)
qed

text \<open>Nomad that answers, and Nomad that does not.\<close>

lemma nv_get_up:
  assumes "\<And>u. \<exists>u'. fetch_volumes api v ns u = (Ok stubs, u')"
  shows "\<exists>c s'. nv_get api ck v ns force (w, m) = (Ok c, s') \<and> (force \<or> m ns = None \<longrightarrow> (\<exists>t. c = maps_of t stubs))"
proof -
  obtain x w1 m1 where f: "fresh_maps ck v ns force (w, m) = (x, (w1, m1))" by (metis prod.exhaust)
  obtain u' where u: "fetch_volumes api v ns w1 = (Ok stubs, u')" using assms by blast
  show ?thesis using fresh_maps_cases [OF f] f u
    by (auto simp: nv_get_def bindIO_def tryIO_def ret_def nv_refresh_def split: prod.splits)
qed

lemma nv_get_down:
  assumes "\<And>u. \<exists>e u'. fetch_volumes api v ns u = (Fail e, u')"
  shows "\<exists>w'. case m ns of Some c \<Rightarrow> nv_get api ck v ns force (w, m) = (Ok c, (w', m))
    | None \<Rightarrow> (\<exists>e. nv_get api ck v ns force (w, m) = (Fail e, (w', m)))"
proof -
  obtain x w1 m1 where f: "fresh_maps ck v ns force (w, m) = (x, (w1, m1))" by (metis prod.exhaust)
  obtain e u' where u: "fetch_volumes api v ns w1 = (Fail e, u')" using assms by blast
  show ?thesis using fresh_maps_cases [OF f] f u
    by (auto simp: nv_get_def bindIO_def tryIO_def ret_def fail_def nv_refresh_def split: option.splits)
qed

lemma nv_ExternalID_up:
  assumes "\<And>u. \<exists>u'. fetch_volumes api v ns u = (Ok stubs, u')" "unambiguous stubs" "m ns = None"
  shows "\<exists>s'. nv_ExternalID api ck v ns i (w, m) = (Ok (case ncFwd (maps_of 0 stubs) i of Some x \<Rightarrow> (x, True) | None \<Rightarrow> ([], False)), s')"
proof -
  obtain t w1 m1 where g: "nv_get api ck v ns False (w, m) = (Ok (maps_of t stubs), (w1, m1))"
    using nv_get_up [where ck = ck and force = False and w = w and m = m, OF assms(1)] assms(3) by (metis prod.exhaust)
  obtain t' s' where g': "nv_get api ck v ns True (w1, m1) = (Ok (maps_of t' stubs), s')"
    using nv_get_up [where ck = ck and force = True and w = w1 and m = m1, OF assms(1)] by blast
  show ?thesis by (auto simp: nv_ExternalID_def bindIO_def ret_def g g' maps_of_def split: option.splits)
qed

text \<open>While Nomad is down, an id that the cached map lacks is reported as unknown, not as an error.\<close>

lemma nv_ExternalID_down:
  assumes "\<And>u. \<exists>e u'. fetch_volumes api v ns u = (Fail e, u')" "m ns = Some c"
  shows "\<exists>w'. nv_ExternalID api ck v ns i (w, m) = (Ok (case ncFwd c i of Some x \<Rightarrow> (x, True) | None \<Rightarrow> ([], False)), (w', m))"
proof -
  obtain w1 where g: "nv_get api ck v ns False (w, m) = (Ok c, (w1, m))"
    using nv_get_down [where ck = ck and force = False and w = w and m = m, OF assms(1)] assms(2) by auto
  obtain w2 where g': "nv_get api ck v ns True (w1, m) = (Ok c, (w2, m))"
    using nv_get_down [where ck = ck and force = True and w = w1 and m = m, OF assms(1)] assms(2) by auto
  show ?thesis by (cases "ncFwd c i") (auto simp: nv_ExternalID_def bindIO_def ret_def g g')
qed

end
