(* ===== verification/Config.thy ===== *)
theory Config
  imports Go_Duration Cluster_Nomad Qnap_Reconcile
begin

text \<open>
  \<^verbatim>\<open>internal/config/config.go\<close> (the resolution of the decoded file into what the program uses) and the checks that the backends make of their
  blocks: \<^verbatim>\<open>nomadOptions\<close> of both backends, \<^verbatim>\<open>validateControllerConfig\<close>, \<^verbatim>\<open>validateNodeConfig\<close>, \<^verbatim>\<open>reconcileTimings\<close> of
  qnap/backend.go. Decoding HCL is a library: a decoded file is a record \<open>Config\<close>. The blocks of the two backends extend the
  records that their operations use.
\<close>

section \<open>The decoded file\<close>

record NomadConfig =
  nfSocketPath :: string
  nfTokenPath :: string
  nfToken :: string
  nfDatacenter :: string
  nfNodeFilter :: string
  nfCacheTTL :: string

record LocalBlock = LocalConfig +
  lbNomad :: "NomadConfig option"

record QNAPBlock = QNAPConfig +
  qbInsecure :: bool
  qbMultipathConfigDir :: string
  qbReconcileInterval :: string
  qbReconcileGrace :: string
  qbDebugHTTP :: bool
  qbForwardSecret :: string
  qbForwardAddr :: string
  qbNomad :: "NomadConfig option"

record MetricsConfig =
  mcEnabled :: bool
  mcAddress :: string
  mcPath :: string

record ReadinessConfig =
  rdTimeout :: string
  rdInterval :: string

record StatsConfig =
  sgEnabled :: "bool option"
  sgInterval :: string
  sgStatfsTimeout :: string
  sgWalkEnabled :: "bool option"
  sgWalkInterval :: string
  sgWalkWorkers :: int
  sgWalkBuffer :: int
  sgWalkTimeout :: string
  sgStaleAfter :: string
  sgMaxFailureBackoff :: string
  sgAggregateInterval :: string
  sgMetricsPerVolume :: "bool option"
  sgQueryAddr :: "string option"
  sgQueryToken :: string
  sgQueryTokenHeader :: string
  sgNamespace :: string

record Config =
  cfQNAP :: "QNAPBlock option"
  cfLocal :: "LocalBlock option"
  cfMetrics :: "MetricsConfig option"
  cfReadiness :: "ReadinessConfig option"
  cfStats :: "StatsConfig option"

definition empty_Config :: Config where
  "empty_Config = \<lparr>cfQNAP = None, cfLocal = None, cfMetrics = None, cfReadiness = None, cfStats = None\<rparr>"

text \<open>\<^verbatim>\<open>Load\<close>; \<open>decode\<close> is \<^verbatim>\<open>hclsimple.DecodeFile\<close>.\<close>

definition Load :: "(string \<Rightarrow> ('w, Config) io) \<Rightarrow> string \<Rightarrow> ('w, Config) io" where
  "Load decode path = (if path = [] then ret empty_Config else wrapIO (WrapErr ''config: decoding %s: %w'') (decode path))"

definition EffectiveAddress :: "MetricsConfig \<Rightarrow> string" where
  "EffectiveAddress m = (if mcAddress m \<noteq> [] then mcAddress m else ''0.0.0.0:9090'')"

definition EffectivePath :: "MetricsConfig \<Rightarrow> string" where
  "EffectivePath m = (if mcPath m \<noteq> [] then mcPath m else ''/metrics'')"

section \<open>Durations\<close>

definition time_ParseDuration :: "string \<Rightarrow> err + int" where
  "time_ParseDuration s = (case ParseDuration s of None \<Rightarrow> Inl (PlainErr ''time: invalid duration'') | Some d \<Rightarrow> Inr d)"

definition DefaultReadinessInterval :: int where "DefaultReadinessInterval = 5 * Second"

text \<open>A duration in a block that is optional.\<close>

definition optional_duration :: "string \<Rightarrow> string \<Rightarrow> int \<Rightarrow> err + int" where
  "optional_duration what v d = (let s = TrimSpace v in if s = [] then Inr d
     else case time_ParseDuration s of Inl e \<Rightarrow> Inl (WrapErr what e) | Inr x \<Rightarrow> Inr x)"

definition ResolveReadiness :: "Config \<Rightarrow> err + int \<times> int" where
  "ResolveReadiness c = (case cfReadiness c of None \<Rightarrow> Inr (0, DefaultReadinessInterval)
   | Some r \<Rightarrow> bindE (optional_duration ''config: readiness.timeout %q: %w'' (rdTimeout r) 0) (\<lambda>timeout.
       bindE (optional_duration ''config: readiness.interval %q: %w'' (rdInterval r) DefaultReadinessInterval) (\<lambda>interval.
       Inr (timeout, pos_or interval DefaultReadinessInterval))))"

definition default_stats :: statsConfig where
  "default_stats = \<lparr>scEnabled = True, scInterval = DefaultInterval, scStatfsTimeout = 30 * Second, scWalkEnabled = True,
     scWalkInterval = 5 * Minute, scWalkWorkers = 4, scWalkBuffer = 4096, scWalkTimeout = 10 * Minute, scStaleAfter = 5 * Minute,
     scMaxFailureBackoff = 30 * Minute, scAggregateInterval = 60 * Second, scMetricsPerVolume = True, scQueryAddr = '':9610'',
     scQueryToken = [], scQueryTokenHeader = ''X-NCD-Query-Token'', scNamespace = ''default''\<rparr>"

text \<open>The closure \<^verbatim>\<open>dur\<close>.\<close>

definition dur :: "string \<Rightarrow> int \<Rightarrow> err + int" where
  "dur v d = (let s = TrimSpace v in if s = [] then Inr d
     else case time_ParseDuration s of Inl e \<Rightarrow> Inl (WrapErr ''config: stats.%s %q: %w'' e)
       | Inr x \<Rightarrow> if x \<le> 0 then Inl (PlainErr ''config: stats.%s must be > 0, got %q'') else Inr x)"

definition stats_durations :: "StatsConfig \<Rightarrow> statsConfig \<Rightarrow> err + statsConfig" where
  "stats_durations s out =
     bindE (dur (sgInterval s) (scInterval out)) (\<lambda>a. bindE (dur (sgStatfsTimeout s) (scStatfsTimeout out)) (\<lambda>b.
     bindE (dur (sgWalkInterval s) (scWalkInterval out)) (\<lambda>c. bindE (dur (sgWalkTimeout s) (scWalkTimeout out)) (\<lambda>d.
     bindE (dur (sgStaleAfter s) (scStaleAfter out)) (\<lambda>e. bindE (dur (sgMaxFailureBackoff s) (scMaxFailureBackoff out)) (\<lambda>f.
     bindE (dur (sgAggregateInterval s) (scAggregateInterval out)) (\<lambda>g.
     Inr (out\<lparr>scInterval := a, scStatfsTimeout := b, scWalkInterval := c, scWalkTimeout := d, scStaleAfter := e,
       scMaxFailureBackoff := f, scAggregateInterval := g\<rparr>))))))))"

definition stats_switches :: "StatsConfig \<Rightarrow> statsConfig \<Rightarrow> statsConfig" where
  "stats_switches s out = out\<lparr>
     scEnabled := (case sgEnabled s of Some b \<Rightarrow> b | None \<Rightarrow> scEnabled out),
     scWalkEnabled := (case sgWalkEnabled s of Some b \<Rightarrow> b | None \<Rightarrow> scWalkEnabled out),
     scMetricsPerVolume := (case sgMetricsPerVolume s of Some b \<Rightarrow> b | None \<Rightarrow> scMetricsPerVolume out),
     scWalkWorkers := (if sgWalkWorkers s > 0 then sgWalkWorkers s else scWalkWorkers out),
     scWalkBuffer := (if sgWalkBuffer s > 0 then sgWalkBuffer s else scWalkBuffer out),
     scQueryAddr := (case sgQueryAddr s of Some a \<Rightarrow> a | None \<Rightarrow> scQueryAddr out),
     scQueryToken := sgQueryToken s,
     scNamespace := (if sgNamespace s \<noteq> [] then sgNamespace s else scNamespace out),
     scQueryTokenHeader := (if sgQueryTokenHeader s \<noteq> [] then sgQueryTokenHeader s else scQueryTokenHeader out)\<rparr>"

definition ResolveStats :: "Config \<Rightarrow> err + statsConfig" where
  "ResolveStats c = (case cfStats c of None \<Rightarrow> Inr default_stats
   | Some s \<Rightarrow> bindE (stats_durations s default_stats) (\<lambda>out. Inr (stats_switches s out)))"

section \<open>Discovery options\<close>

definition orDefault :: "string \<Rightarrow> string \<Rightarrow> string" where
  "orDefault v d = (if v \<noteq> [] then v else d)"

definition orDefaultPath :: "string \<Rightarrow> string \<Rightarrow> string \<Rightarrow> string" where
  "orDefaultPath override dir name = (if override \<noteq> [] then override else if dir = [] then [] else path_Join [dir, name])"

definition portOf :: "string \<Rightarrow> int" where
  "portOf addr = (case SplitHostPort addr of None \<Rightarrow> 0 | Some (_, p) \<Rightarrow> fst (ParseInt p))"

text \<open>\<open>env\<close> is \<^verbatim>\<open>os.Getenv\<close>. The two backends have the same function up to the text of the error.\<close>

definition nomadOptions :: "(string \<Rightarrow> string) \<Rightarrow> NomadConfig option \<Rightarrow> string \<Rightarrow> string \<Rightarrow> err + NomadOptions" where
  "nomadOptions env nomad nodeID addr =
     (let nc = (case nomad of Some n \<Rightarrow> n | None \<Rightarrow> \<lparr>nfSocketPath = [], nfTokenPath = [], nfToken = [], nfDatacenter = [], nfNodeFilter = [], nfCacheTTL = []\<rparr>);
          s = TrimSpace (nfCacheTTL nc); dir = env ''NOMAD_SECRETS_DIR'' in
      bindE (if s = [] then Inr 0 else case time_ParseDuration s of Inl _ \<Rightarrow> Inl (InvalidArgument ''nomad.cache_ttl %q: %v'') | Inr d \<Rightarrow> Inr d) (\<lambda>ttl.
      Inr \<lparr>noSelf = nodeID, noSocketPath = orDefaultPath (nfSocketPath nc) dir ''api.sock'',
        noTokenPath = orDefaultPath (nfTokenPath nc) dir ''nomad_token'', noToken = nfToken nc,
        noDatacenter = orDefault (nfDatacenter nc) (env ''NOMAD_DC''), noNodeFilter = nfNodeFilter nc,
        noForwardPort = portOf addr, noCacheTTL = ttl\<rparr>))"

section \<open>The qnap block\<close>

definition validateControllerConfig :: "QNAPBlock \<Rightarrow> err + unit" where
  "validateControllerConfig q =
     (if qcBaseURL q = [] then Inl (InvalidArgument ''qnap.base_url is required for controller mode'')
      else if qcUsername q = [] \<or> qcPassword q = [] then Inl (InvalidArgument ''qnap.username and qnap.password are required for controller mode'')
      else if qcInterfaces q = [] then Inl (InvalidArgument ''qnap.interfaces is required for controller mode'')
      else if PortalList (QNAPConfig.truncate q) = [] then Inl (InvalidArgument ''qnap.portal (or qnap.portals) is required for controller mode'')
      else Inr ())"

definition validateNodeConfig :: "QNAPBlock \<Rightarrow> err + unit" where
  "validateNodeConfig q =
     (if qcBaseURL q = [] then Inl (InvalidArgument ''qnap.base_url is required for node/monolith mode'')
      else if qcUsername q = [] \<or> qcPassword q = [] then Inl (InvalidArgument ''qnap.username and qnap.password are required for node/monolith mode'')
      else Inr ())"

definition reconcileEnabled :: "QNAPBlock \<Rightarrow> bool" where
  "reconcileEnabled q \<longleftrightarrow> qcReconcileEnabled q = Some True"

definition timing :: "string \<Rightarrow> int \<Rightarrow> int" where
  "timing v d = (if v = [] then d else case time_ParseDuration v of Inr x \<Rightarrow> x | Inl _ \<Rightarrow> d)"

definition reconcileTimings :: "QNAPBlock \<Rightarrow> int \<times> int" where
  "reconcileTimings q = (timing (qbReconcileInterval q) defaultReconcileInterval, timing (qbReconcileGrace q) defaultReconcileGrace)"

text \<open>\<^verbatim>\<open>time.NewTicker\<close> panics on a length that is not positive; the session reconciler calls it after its first sweep.\<close>

definition NewTicker :: "int \<Rightarrow> ('w, unit) io" where
  "NewTicker d = (if d \<le> 0 then panic ''non-positive interval for NewTicker'' else ret ())"

definition reconciler_Run :: "('w, unit) io \<Rightarrow> int \<Rightarrow> ('w, unit) io" where
  "reconciler_Run sweep interval = bindIO sweep (\<lambda>_. NewTicker interval)"

section \<open>What is resolved\<close>

definition stats_wf :: "statsConfig \<Rightarrow> bool" where
  "stats_wf c \<longleftrightarrow> list_all (\<lambda>d. 0 < d \<and> in64 d) [scInterval c, scStatfsTimeout c, scWalkInterval c, scWalkTimeout c, scStaleAfter c,
       scMaxFailureBackoff c, scAggregateInterval c]
     \<and> 0 < scWalkWorkers c \<and> 0 < scWalkBuffer c \<and> scQueryTokenHeader c \<noteq> [] \<and> scNamespace c \<noteq> []"

definition durations_of :: "StatsConfig \<Rightarrow> string list" where
  "durations_of s = [sgInterval s, sgStatfsTimeout s, sgWalkInterval s, sgWalkTimeout s, sgStaleAfter s, sgMaxFailureBackoff s, sgAggregateInterval s]"

definition bad_duration :: "string \<Rightarrow> bool" where
  "bad_duration v \<longleftrightarrow> TrimSpace v \<noteq> [] \<and> (case ParseDuration (TrimSpace v) of None \<Rightarrow> True | Some d \<Rightarrow> d \<le> 0)"

lemma dur_cases: "0 < d \<Longrightarrow> in64 d \<Longrightarrow> (case dur v d of Inl _ \<Rightarrow> bad_duration v | Inr x \<Rightarrow> \<not> bad_duration v \<and> 0 < x \<and> in64 x)"
  by (auto simp: dur_def bad_duration_def time_ParseDuration_def Let_def dest: ParseDuration_in64 split: option.splits)

lemma dur_ok: "dur v d = Inr x \<Longrightarrow> 0 < d \<Longrightarrow> in64 d \<Longrightarrow> 0 < x \<and> in64 x"
  using dur_cases [of d v] by simp

lemma isl_dur:
  assumes "0 < d" "in64 d" "\<And>x. isl (f x) = P"
  shows "isl (bindE (dur v d) f) = (bad_duration v \<or> P)"
  using dur_cases [OF assms(1,2), of v] assms(3) by (cases "dur v d") auto

lemma default_wf: "stats_wf default_stats"
  by (simp add: stats_wf_def default_stats_def DefaultInterval_def Second_def Minute_def in64_def MinInt64_def MaxInt64_def)

lemma stats_durations_cases:
  assumes "stats_wf out"
  shows "isl (stats_durations s out) \<longleftrightarrow> list_ex bad_duration (durations_of s)"
    and "stats_durations s out = Inr c \<Longrightarrow> stats_wf c"
proof -
  note w = assms [unfolded stats_wf_def, simplified]
  have "isl (stats_durations s out) = (bad_duration (sgInterval s) \<or> bad_duration (sgStatfsTimeout s) \<or> bad_duration (sgWalkInterval s)
      \<or> bad_duration (sgWalkTimeout s) \<or> bad_duration (sgStaleAfter s) \<or> bad_duration (sgMaxFailureBackoff s) \<or> bad_duration (sgAggregateInterval s) \<or> False)"
    unfolding stats_durations_def by (intro isl_dur) (use w in auto)
  then show "isl (stats_durations s out) \<longleftrightarrow> list_ex bad_duration (durations_of s)" by (simp add: durations_of_def)
  show "stats_durations s out = Inr c \<Longrightarrow> stats_wf c"
    using w by (auto simp: stats_durations_def bindE_def stats_wf_def split: sum.splits dest: dur_ok)
qed

lemma switches_wf: "stats_wf c \<Longrightarrow> stats_wf (stats_switches s c)"
  by (simp add: stats_wf_def stats_switches_def)

lemma wf_withDefaults: "stats_wf c \<Longrightarrow> withDefaults c = c"
  by (simp add: stats_wf_def withDefaults_def pos_or_def)

section \<open>Properties\<close>

text \<open>C37. The configuration of the usage statistics is checked once, at start-up. It is refused exactly when a duration that is given does not parse or is not positive;
  what is accepted has every interval, timeout and limit positive and within 64 bits, workers, a header name and a namespace, so that
  the registry's own defaults never apply to it and no ticker is ever made from a length that is not positive.\<close>

theorem stats_config_checked:
  "(isl (ResolveStats c) \<longleftrightarrow> (\<exists>s. cfStats c = Some s \<and> list_ex bad_duration (durations_of s)))
   \<and> (\<forall>out. ResolveStats c = Inr out \<longrightarrow> stats_wf out \<and> withDefaults out = out)"
proof (cases "cfStats c")
  case None
  then show ?thesis using default_wf wf_withDefaults by (simp add: ResolveStats_def)
next
  case (Some s)
  note d = stats_durations_cases [OF default_wf, of s]
  have "isl (ResolveStats c) = isl (stats_durations s default_stats)"
    using Some by (cases "stats_durations s default_stats") (simp_all add: ResolveStats_def)
  moreover have "stats_wf out" if "ResolveStats c = Inr out" for out
    using that Some d(2) switches_wf by (cases "stats_durations s default_stats") (auto simp: ResolveStats_def)
  ultimately show ?thesis using Some d(1) wf_withDefaults by auto
qed

definition demo_stats :: "string \<Rightarrow> StatsConfig" where
  "demo_stats iv = \<lparr>sgEnabled = None, sgInterval = iv, sgStatfsTimeout = [], sgWalkEnabled = Some False, sgWalkInterval = [], sgWalkWorkers = 0, sgWalkBuffer = 0,
     sgWalkTimeout = [], sgStaleAfter = [], sgMaxFailureBackoff = [], sgAggregateInterval = [], sgMetricsPerVolume = None, sgQueryAddr = Some [],
     sgQueryToken = [], sgQueryTokenHeader = [], sgNamespace = []\<rparr>"

lemma stats_config_checked_witness: "\<exists>out. ResolveStats (empty_Config\<lparr>cfStats := Some (demo_stats ''1m30s'')\<rparr>) = Inr out \<and> stats_wf out
    \<and> isl (ResolveStats (empty_Config\<lparr>cfStats := Some (demo_stats ''-1s'')\<rparr>))"
proof -
  have b: "bad_duration ''-1s''" "\<not> bad_duration ''1m30s''" "\<not> bad_duration []" by code_simp+
  have "\<not> isl (ResolveStats (empty_Config\<lparr>cfStats := Some (demo_stats ''1m30s'')\<rparr>))" "isl (ResolveStats (empty_Config\<lparr>cfStats := Some (demo_stats ''-1s'')\<rparr>))"
    using stats_config_checked [of "empty_Config\<lparr>cfStats := Some (demo_stats ''1m30s'')\<rparr>"] stats_config_checked [of "empty_Config\<lparr>cfStats := Some (demo_stats ''-1s'')\<rparr>"]
    by (simp_all add: durations_of_def demo_stats_def b)
  then show ?thesis using stats_config_checked [of "empty_Config\<lparr>cfStats := Some (demo_stats ''1m30s'')\<rparr>"]
    by (cases "ResolveStats (empty_Config\<lparr>cfStats := Some (demo_stats ''1m30s'')\<rparr>)") auto
qed

text \<open>The timings of the session reconciler are not checked like those of the statistics: a length that parses is taken as it is, also zero and
  below. With such an interval the reconciler panics after its first sweep, and with it the node process; with such a grace a
  target is logged out at the first sweep that finds it orphaned again, however soon.\<close>

theorem reconcile_timings_unchecked:
  assumes "qbReconcileInterval q \<noteq> []" "ParseDuration (qbReconcileInterval q) = Some i" "i \<le> 0"
    and "qbReconcileGrace q \<noteq> []" "ParseDuration (qbReconcileGrace q) = Some g" "g \<le> 0"
    and "\<not> tsLive t" "first \<le> now" "sweep w = (Ok (), w')"
  shows "reconcileTimings q = (i, g) \<and> judge_orphan g now t (Some first) = (None, True)
    \<and> reconciler_Run sweep i w = (Panic ''non-positive interval for NewTicker'', w')"
  using assms by (simp add: reconcileTimings_def timing_def time_ParseDuration_def judge_orphan_def reconciler_Run_def bindIO_def NewTicker_def panic_def)

definition demo_block :: QNAPBlock where
  "demo_block = \<lparr>qcBaseURL = ''https://san'', qcUsername = ''u'', qcPassword = ''p'', qcPortal = ''10.0.0.1'', qcPortals = [], qcDefaultPoolID = 1, qcInterfaces = [''eth0''],
     qcDefaultSectorSize = 512, qcDisableMultipath = False, qcReconcileEnabled = Some True, qbInsecure = False, qbMultipathConfigDir = [],
     qbReconcileInterval = ''0s'', qbReconcileGrace = ''-5m'', qbDebugHTTP = False, qbForwardSecret = ''s'', qbForwardAddr = [], qbNomad = None\<rparr>"

lemma reconcile_timings_unchecked_witness: "reconcileTimings demo_block = (0, -300000000000)
    \<and> reconciler_Run (ret ()) 0 () = (Panic ''non-positive interval for NewTicker'', ())"
proof -
  have p: "ParseDuration ''0s'' = Some 0" "ParseDuration ''-5m'' = Some (-300000000000)" by code_simp+
  have h: "qbReconcileInterval demo_block = ''0s''" "qbReconcileGrace demo_block = ''-5m''" by (simp_all add: demo_block_def)
  show ?thesis using reconcile_timings_unchecked [of demo_block 0 "-300000000000" "\<lparr>tsPortals = [], tsLive = False\<rparr>" 0 0 "ret ()" "()" "()"] h p by (simp add: ret_def)
qed

end
