(* ===== verification/Stats_Query.thy ===== *)
theory Stats_Query
  imports Cluster_Nomad Local_Cluster Stats_Inv
begin

text \<open>
  How a usage reading reaches who asks for it. \<^verbatim>\<open>internal/driver/qnap/stats_forward.go\<close>: what a SAN node serves;
  \<^verbatim>\<open>stats_source.go\<close>: the controller's aggregate, rebuilt from whatever nodes answer; \<^verbatim>\<open>internal/stats/query_http.go\<close> and
  \<^verbatim>\<open>source.go\<close>: the public query endpoint over such a source or over the local controller. The aggregate lives beside the
  world of its resolver, mapper and client (a pair). The nodes are asked in parallel and each adds its readings when its
  answer is there: an argument of \<open>collectOnce\<close> is the order in which they finish. Metrics and log lines are left
  out, as is the ticker that repeats the collection.
\<close>

section \<open>qnap: stats\_forward.go\<close>

definition qnap_dispatchForward :: "codec \<Rightarrow> ('w \<Rightarrow> Registry) \<Rightarrow> 'w handler" where
  "qnap_dispatchForward cd reg = (\<lambda>_ method b.
     if method = ''volstats'' then (case bindE (members b) dec_idArgs of
         Inl _ \<Rightarrow> fail (CodedErr (int_of_Code CodeInvalidArgument) ''decoding volstats args: %v'')
       | Inr i \<Rightarrow> (\<lambda>w. case Get i (reg w) of
           None \<Rightarrow> (Fail (CodedErr (int_of_Code CodeNotFound) ''volume %s not tracked on this node''), w)
         | Some cs \<Rightarrow> (Ok (Some (obj (enc_CSIVolumeStats cd) cs)), w)))
     else if method = ''volstatsdump'' then
       (\<lambda>w. (Ok (Some (JArr (map (obj (enc_CSIVolumeStats cd)) (Dump (reg w))))), w))
     else fail (CodedErr (int_of_Code CodeInvalidArgument) ''unknown forward method %s''))"

section \<open>source.go\<close>

definition ErrNotMounted :: err where "ErrNotMounted = PlainErr ''volume is not mounted on any node''"

record 'w Source =
  srStats :: "string \<Rightarrow> string \<Rightarrow> ('w, PublicVolumeStats option) io"
  srAll :: "string \<Rightarrow> ('w, PublicVolumeStats list) io"

definition local_Source :: "'w localController \<Rightarrow> 'w Source" where
  "local_Source c = \<lparr>srStats = Stats c background, srAll = All c\<rparr>"

section \<open>qnap: stats\_source.go\<close>

record 'w qnapSource =
  qoRes :: "'w Resolver"
  qoFwd :: "'w Client"
  qoMapper :: "'w Mapper"
  qoNamespace :: string
  qoInterval :: int
  qoCodec :: codec

type_synonym aggregate = "(string \<times> CSIVolumeStats) list"

definition newQNAPSource :: "'w Resolver \<Rightarrow> 'w Client \<Rightarrow> 'w Mapper \<Rightarrow> string \<Rightarrow> int \<Rightarrow> codec \<Rightarrow> 'w qnapSource" where
  "newQNAPSource res fwd mapper namespace interval cd = \<lparr>qoRes = res, qoFwd = fwd, qoMapper = mapper,
     qoNamespace = (if namespace = [] then ''default'' else namespace), qoInterval = pos_or interval (60 * Second), qoCodec = cd\<rparr>"

text \<open>One goroutine: what a node answers, \<^term>\<open>None\<close> when it is skipped.\<close>

definition dump_node :: "'w qnapSource \<Rightarrow> NodeInfoPeer \<Rightarrow> ('w, CSIVolumeStats list option) io" where
  "dump_node q n = tryIO (Call (qoCodec q) (qoFwd q) (pnAddr n) ''volstatsdump'' None) (\<lambda>r. case r of
     Inl _ \<Rightarrow> ret None
   | Inr b \<Rightarrow> ret (case b of None \<Rightarrow> None | Some j \<Rightarrow> dec_slice (dec_CSIVolumeStats (qoCodec q)) j))"

definition add_items :: "CSIVolumeStats list \<Rightarrow> aggregate \<Rightarrow> aggregate" where
  "add_items items agg = foldl (\<lambda>m it. AList.update (csVolumeID it) it m) agg items"

definition collect_nodes :: "'w qnapSource \<Rightarrow> NodeInfoPeer list \<Rightarrow> ('w, aggregate) io" where
  "collect_nodes q nodes = foldIO (\<lambda>agg n. bindIO (dump_node q n) (\<lambda>r.
     ret (case r of None \<Rightarrow> agg | Some items \<Rightarrow> add_items items agg))) [] nodes"

definition collectOnce :: "'w qnapSource \<Rightarrow> (NodeInfoPeer list \<Rightarrow> NodeInfoPeer list) \<Rightarrow> ('w \<times> aggregate, unit) io" where
  "collectOnce q order = (\<lambda>(w, cache). case resList (qoRes q) w of
     (Ok nodes, w1) \<Rightarrow> (case collect_nodes q (order nodes) w1 of
         (Ok agg, w2) \<Rightarrow> (Ok (), (w2, agg))
       | (Fail e, w2) \<Rightarrow> (Fail e, (w2, cache))
       | (Panic p, w2) \<Rightarrow> (Panic p, (w2, cache)))
   | (Fail _, w1) \<Rightarrow> (Ok (), (w1, cache))
   | (Panic p, w1) \<Rightarrow> (Panic p, (w1, cache)))"

text \<open>A call on the world beside the aggregate.\<close>

definition beside :: "('w, 'a) io \<Rightarrow> ('w \<times> 's, 'a) io" where
  "beside m = (\<lambda>(w, s). case m w of (r, w') \<Rightarrow> (r, (w', s)))"

definition qsource_Stats :: "'w qnapSource \<Rightarrow> string \<Rightarrow> string \<Rightarrow> ('w \<times> aggregate, PublicVolumeStats option) io" where
  "qsource_Stats q nomadID namespace =
     bindIO (beside (mpExternalID (qoMapper q) namespace nomadID)) (\<lambda>(extID, found).
     if \<not> found then ret None
     else (\<lambda>(w, cache). case map_of cache extID of
         None \<Rightarrow> (Fail NotMounted, (w, cache))
       | Some cs \<Rightarrow> (Ok (Some (ToPublic cs nomadID namespace)), (w, cache))))"

definition qsource_All :: "'w qnapSource \<Rightarrow> string \<Rightarrow> ('w \<times> aggregate, PublicVolumeStats list) io" where
  "qsource_All q namespace =
     bindIO (beside (mpReverse (qoMapper q) namespace)) (\<lambda>rev_ids (w, cache). (Ok (Relabel (map snd cache) rev_ids namespace), (w, cache)))"

definition qsource_metricsSnapshot :: "'w qnapSource \<Rightarrow> ('w \<times> aggregate, PublicVolumeStats list) io" where
  "qsource_metricsSnapshot q = tryIO (qsource_All q (qoNamespace q)) (\<lambda>r. case r of Inl _ \<Rightarrow> ret [] | Inr out \<Rightarrow> ret out)"

definition qnap_Source :: "'w qnapSource \<Rightarrow> ('w \<times> aggregate) Source" where
  "qnap_Source q = \<lparr>srStats = qsource_Stats q, srAll = qsource_All q\<rparr>"

section \<open>query\_http.go\<close>


datatype query_body = QText string | QOne PublicVolumeStats | QMany "PublicVolumeStats list"

record query_reply =
  qpStatus :: int
  qpBody :: query_body


record QueryServer =
  qsToken :: string
  qsHeader :: string

text \<open>Disabled without an address.\<close>

definition NewQueryServer :: "string \<Rightarrow> string \<Rightarrow> string \<Rightarrow> QueryServer option" where
  "NewQueryServer addr token header = (if addr = [] then None
     else Some \<lparr>qsToken = token, qsHeader = (if header = [] then ''X-NCD-Query-Token'' else header)\<rparr>)"


definition http_Error :: "string \<Rightarrow> int \<Rightarrow> query_reply" where
  "http_Error msg status = \<lparr>qpStatus = status, qpBody = QText msg\<rparr>"


definition handle_one :: "'w Source \<Rightarrow> string \<Rightarrow> string \<Rightarrow> ('w, query_reply) io" where
  "handle_one src i ns = tryIO (srStats src i ns) (\<lambda>r. ret (case r of
     Inl e \<Rightarrow> if ErrNotMounted \<in> set (err_chain e) then http_Error (err_text e) 412 else http_Error (err_text e) 502
   | Inr None \<Rightarrow> http_Error ''volume not found'' 404
   | Inr (Some cs) \<Rightarrow> \<lparr>qpStatus = (if sbStatfsAt cs = None then 503 else 200), qpBody = QOne cs\<rparr>))"



section \<open>The aggregate\<close>

lemma NotMounted_chain: "ErrNotMounted \<in> set (err_chain NotMounted)"
  by (simp add: NotMounted_def ErrNotMounted_def)

lemma map_of_add_items: "map_of (add_items items agg) v = (map_of agg ++ map_of (rev (map (\<lambda>it. (csVolumeID it, it)) items))) v"
proof (induction items arbitrary: agg)
  case (Cons it items)
  have "add_items (it # items) agg = add_items items (AList.update (csVolumeID it) it agg)" by (simp add: add_items_def)
  then show ?case using Cons.IH [of "AList.update (csVolumeID it) it agg"]
    by (simp add: update_conv map_add_def split: option.splits)
qed (simp add: add_items_def)

text \<open>What a node's dump adds: exactly the readings of its registry.\<close>

lemma add_Dump:
  assumes "reg_inv r"
  shows "map_of (add_items (Dump r) agg) v = (case Get v r of Some cs \<Rightarrow> Some cs | None \<Rightarrow> map_of agg v)"
proof -
  have e: "map (\<lambda>it. (csVolumeID it, it)) (Dump r) = rgCache r"
    unfolding Dump_def map_map using assms by (intro map_idI) (auto simp: reg_inv_def)
  have "distinct (map fst (rev (rgCache r)))" using assms by (simp add: reg_inv_def rev_map [symmetric])
  then have "map_of (rev (rgCache r)) = map_of (rgCache r)" by (intro map_of_inject_set [THEN iffD2]) (use assms in \<open>auto simp: reg_inv_def\<close>)
  then show ?thesis by (simp add: map_of_add_items e Get_def map_add_def)
qed

text \<open>A reading that survives its encoding, and SAN nodes that serve their registries: those that are \<open>up\<close> answer, the others fail
  to. A dump fits in the limit of the client, and a volume is staged on one node.\<close>

definition wire_safe :: "codec \<Rightarrow> CSIVolumeStats \<Rightarrow> bool" where
  "wire_safe cd s \<longleftrightarrow> timeParse cd (timeText cd (sbStatfsAt s)) = Some (sbStatfsAt s) \<and> timeParse cd (timeText cd (sbWalkAt s)) = Some (sbWalkAt s)
     \<and> list_all utf8_ok [csVolumeID s, sbNode s, sbAccessType s, sbLastError s]
     \<and> list_all in64 [sbTotalBytes s, sbUsedBytes s, sbAvailableBytes s, sbTotalInodes s, sbUsedInodes s, sbFreeInodes s,
       sbFileCount s, sbDirCount s, sbOtherCount s, sbWalkDuration s]"

definition dump_text :: "codec \<Rightarrow> Registry \<Rightarrow> json" where
  "dump_text cd r = JArr (map (obj (enc_CSIVolumeStats cd)) (Dump r))"

lemma dec_dump_text: "list_all (wire_safe cd) (Dump r) \<Longrightarrow> dec_slice (dec_CSIVolumeStats cd) (dump_text cd r) = Some (Dump r)"
  using dec_list_map [of "Dump r" "dec_CSIVolumeStats cd" "enc_CSIVolumeStats cd"]
  by (simp add: dec_slice_def dump_text_def obj_def [abs_def] list_all_iff wire_safe_def dec_enc_CSIVolumeStats)

locale san_nodes =
  fixes q :: "'w qnapSource" and nodes :: "NodeInfoPeer list" and reg :: "NodeInfoPeer \<Rightarrow> 'w \<Rightarrow> Registry" and up :: "NodeInfoPeer \<Rightarrow> bool"
  assumes lists: "resList (qoRes q) w = (Ok nodes, w)"
    and serves: "n \<in> set nodes \<Longrightarrow> up n \<Longrightarrow> Do (qoFwd q) (pnAddr n) r =
      http_recovered (ServeHTTP (qoCodec q) (clSecret (qoFwd q)) (qnap_dispatchForward (qoCodec q) (reg n)) r)"
    and silent: "n \<in> set nodes \<Longrightarrow> \<not> up n \<Longrightarrow> \<exists>e. Do (qoFwd q) (pnAddr n) r w = (Fail e, w)"
    and registry: "n \<in> set nodes \<Longrightarrow> reg_inv (reg n w) \<and> list_all (wire_safe (qoCodec q)) (Dump (reg n w))"
    and fits: "n \<in> set nodes \<Longrightarrow> encLen (qoCodec q) (dump_text (qoCodec q) (reg n w)) \<le> 2 ^ 20"
    and one_place: "m \<in> set nodes \<Longrightarrow> n \<in> set nodes \<Longrightarrow> m \<noteq> n \<Longrightarrow> Get v (reg m w) \<noteq> None \<Longrightarrow> Get v (reg n w) = None"
begin

lemma dump_node_up:
  assumes "n \<in> set nodes" "up n"
  shows "dump_node q n w = (Ok (Some (Dump (reg n w))), w)"
proof -
  have p: "methodFromPath (forwardPathPrefix @ ''volstatsdump'') = Some ''volstatsdump''" by (rule methodFromPath_prefix) simp
  have "Do (qoFwd q) (pnAddr n) (forward_request (qoFwd q) ''volstatsdump'' None) w = (Ok \<lparr>rsStatus = 200, rsBody = Some (dump_text (qoCodec q) (reg n w))\<rparr>, w)"
    unfolding serves [OF assms]
    by (simp add: http_recovered_def ServeHTTP_def forward_request_def p tryIO_def qnap_dispatchForward_def ret_def dump_text_def)
  then have "Call (qoCodec q) (qoFwd q) (pnAddr n) ''volstatsdump'' None w = (Ok (Some (dump_text (qoCodec q) (reg n w))), w)"
    by (simp add: Call_def bindIO_def wrapIO_def ret_def Let_def limited_fits [OF fits [OF assms(1)]])
  then show ?thesis using registry [OF assms(1)] by (simp add: dump_node_def tryIO_def ret_def dec_dump_text)
qed

lemma dump_node_down:
  assumes "n \<in> set nodes" "\<not> up n"
  shows "dump_node q n w = (Ok None, w)"
proof -
  obtain e where "Do (qoFwd q) (pnAddr n) (forward_request (qoFwd q) ''volstatsdump'' None) w = (Fail e, w)" using silent [OF assms] by blast
  then show ?thesis by (simp add: dump_node_def tryIO_def ret_def Call_def bindIO_def wrapIO_def)
qed

lemma collect_nodes_agg:
  assumes "set ns \<subseteq> set nodes"
  shows "collect_nodes q ns w = (Ok (foldl (\<lambda>agg n. if up n then add_items (Dump (reg n w)) agg else agg) [] ns), w)"
proof -
  have "foldIO (\<lambda>agg n. bindIO (dump_node q n) (\<lambda>r. ret (case r of None \<Rightarrow> agg | Some items \<Rightarrow> add_items items agg))) a ns w
     = (Ok (foldl (\<lambda>agg n. if up n then add_items (Dump (reg n w)) agg else agg) a ns), w)" for a
    using assms
  proof (induction ns arbitrary: a)
    case (Cons n ns)
    then show ?case by (cases "up n") (simp_all add: bindIO_def ret_def dump_node_up dump_node_down)
  qed (simp add: ret_def)
  then show ?thesis by (simp add: collect_nodes_def)
qed

lemma agg_exact:
  assumes "set ns \<subseteq> set nodes"
  shows "map_of (foldl (\<lambda>agg n. if up n then add_items (Dump (reg n w)) agg else agg) [] ns) v = Some cs
    \<longleftrightarrow> (\<exists>n \<in> set ns. up n \<and> Get v (reg n w) = Some cs)"
  using assms
proof (induction ns rule: rev_induct)
  case (snoc n ns)
  have i: "reg_inv (reg n w)" using registry snoc.prems by simp
  have o: "m \<in> set ns \<Longrightarrow> Get v (reg m w) = Some cs \<Longrightarrow> Get v (reg n w) = Some cs' \<Longrightarrow> cs' = cs" for m cs'
    using one_place [of m n v w] snoc.prems by (cases "m = n") auto
  show ?case using snoc o by (auto simp: add_Dump [OF i] split: option.splits)
qed simp

lemma collectOnce_exact:
  assumes "set (order nodes) = set nodes"
  shows "\<exists>agg. collectOnce q order (w, cache) = (Ok (), (w, agg))
    \<and> (\<forall>v cs. map_of agg v = Some cs \<longleftrightarrow> (\<exists>n \<in> set nodes. up n \<and> Get v (reg n w) = Some cs))"
  using agg_exact [of "order nodes" w] assms by (simp add: collectOnce_def lists collect_nodes_agg)

end

section \<open>Properties\<close>

text \<open>The reply to a query for one volume, given what Nomad says of the id and the reading found for it.\<close>

definition reply_for :: "string \<Rightarrow> string \<Rightarrow> (string \<times> bool) res \<Rightarrow> (string \<rightharpoonup> CSIVolumeStats) \<Rightarrow> query_reply" where
  "reply_for i ns ext readings = (case ext of
     Ok (v, True) \<Rightarrow> (case readings v of
         Some cs \<Rightarrow> \<lparr>qpStatus = (if sbStatfsAt cs = None then 503 else 200), qpBody = QOne (ToPublic cs i ns)\<rparr>
       | None \<Rightarrow> http_Error (err_text NotMounted) 412)
   | Ok (v, False) \<Rightarrow> http_Error ''volume not found'' 404
   | Fail e \<Rightarrow> http_Error (err_text e) (if ErrNotMounted \<in> set (err_chain e) then 412 else 502)
   | Panic p \<Rightarrow> http_Error p 500)"

lemma handle_one_san:
  assumes "mpExternalID (qoMapper q) ns i w = (ext, w')" "\<forall>p. ext \<noteq> Panic p"
  shows "handle_one (qnap_Source q) i ns (w, agg) = (Ok (reply_for i ns ext (map_of agg)), (w', agg))"
  using assms by (cases ext) (auto simp: handle_one_def qnap_Source_def qsource_Stats_def beside_def bindIO_def tryIO_def ret_def reply_for_def
      NotMounted_chain ToPublic_def split: option.splits)




text \<open>A node that does not answer takes its volumes out of the aggregate at once: whatever was collected before, after one collection a volume staged
  on a node that is down is answered as not mounted on any node, although its last reading was known.\<close>

theorem down_node_forgotten:
  assumes "san_nodes q nodes reg up" "set (order nodes) = set nodes"
    and "n \<in> set nodes" "\<not> up n" "Get v (reg n w) = Some cs" "mpExternalID (qoMapper q) ns i w = (Ok (v, True), w)"
  shows "\<exists>agg. collectOnce q order (w, cache) = (Ok (), (w, agg)) \<and> map_of agg v = None
    \<and> fst (handle_one (qnap_Source q) i ns (w, agg)) = Ok (http_Error (err_text NotMounted) 412)"
proof -
  obtain agg where a: "collectOnce q order (w, cache) = (Ok (), (w, agg))"
      "\<And>v cs. map_of agg v = Some cs \<longleftrightarrow> (\<exists>n \<in> set nodes. up n \<and> Get v (reg n w) = Some cs)"
    using san_nodes.collectOnce_exact [where order = order, OF assms(1,2)] by blast
  have "map_of agg v = None"
  proof (rule ccontr)
    assume "map_of agg v \<noteq> None"
    then obtain m c where m: "m \<in> set nodes" "up m" "Get v (reg m w) = Some c" using a(2) [of v] by auto
    then have "Get v (reg m w) = None" using san_nodes.one_place [OF assms(1,3), of m v w] assms(4,5) by auto
    then show False using m by simp
  qed
  then show ?thesis using a(1) handle_one_san [OF assms(6), of agg] by (simp add: reply_for_def)
qed

text \<open>Two nodes, each with a volume; the second is down when \<open>b\<close> is false.\<close>

definition demo_reading :: "string \<Rightarrow> CSIVolumeStats" where
  "demo_reading v = zero_stats\<lparr>csVolumeID := v, sbNode := ''n'', sbAccessType := AccessMount, sbTotalBytes := 10, sbStatfsAt := Some 7\<rparr>"

definition demo_reg :: "NodeInfoPeer \<Rightarrow> unit \<Rightarrow> Registry" where
  "demo_reg n w = (NewRegistry \<lparr>scEnabled = True, scInterval = 0, scStatfsTimeout = 0, scWalkEnabled = False, scWalkInterval = 0, scWalkWorkers = 0,
     scWalkBuffer = 0, scWalkTimeout = 0, scStaleAfter = 0, scMaxFailureBackoff = 0, scAggregateInterval = 0, scMetricsPerVolume = True,
     scQueryAddr = [], scQueryToken = [], scQueryTokenHeader = [], scNamespace = []\<rparr> ''n'')
     \<lparr>rgCache := [(''q/'' @ pnNode n, demo_reading (''q/'' @ pnNode n))]\<rparr>"

definition demo_peers :: "NodeInfoPeer list" where
  "demo_peers = peer_table [''n1'', ''n2'']"

definition demo_up :: "bool \<Rightarrow> NodeInfoPeer \<Rightarrow> bool" where
  "demo_up b n \<longleftrightarrow> pnNode n = ''n1'' \<or> b"

definition demo_source :: "bool \<Rightarrow> unit qnapSource" where
  "demo_source b = newQNAPSource (StaticResolver ''c'' demo_peers)
     \<lparr>clSecret = ''s'', Do = (\<lambda>ad r. case List.find (\<lambda>p. pnAddr p = ad \<and> demo_up b p) demo_peers of
        Some p \<Rightarrow> http_recovered (ServeHTTP plain_codec ''s'' (qnap_dispatchForward plain_codec (demo_reg p)) r)
      | None \<Rightarrow> fail (NetErr ''dial tcp''))\<rparr>
     \<lparr>mpExternalID = (\<lambda>_ i. ret (''q/'' @ i, True)), mpReverse = (\<lambda>_. ret Map.empty)\<rparr> [] 0 plain_codec"

lemma demo_peers_set: "n \<in> set demo_peers \<longleftrightarrow> n = \<lparr>pnNode = ''n1'', pnAddr = forward_addr ''n1''\<rparr> \<or> n = \<lparr>pnNode = ''n2'', pnAddr = forward_addr ''n2''\<rparr>"
  by (auto simp: demo_peers_def peer_table_def)

lemma demo_reg_facts: "n \<in> set demo_peers \<Longrightarrow> reg_inv (demo_reg n w) \<and> list_all (wire_safe plain_codec) (Dump (demo_reg n w))
    \<and> encLen plain_codec (dump_text plain_codec (demo_reg n w)) \<le> 2 ^ 20"
proof -
  assume "n \<in> set demo_peers"
  moreover have "list_all (wire_safe plain_codec) (Dump (demo_reg \<lparr>pnNode = ''n1'', pnAddr = a\<rparr> w))
      \<and> list_all (wire_safe plain_codec) (Dump (demo_reg \<lparr>pnNode = ''n2'', pnAddr = a\<rparr> w))" for a by code_simp
  moreover have "encLen plain_codec (dump_text plain_codec (demo_reg \<lparr>pnNode = ''n1'', pnAddr = a\<rparr> w)) \<le> 2 ^ 20
      \<and> encLen plain_codec (dump_text plain_codec (demo_reg \<lparr>pnNode = ''n2'', pnAddr = a\<rparr> w)) \<le> 2 ^ 20" for a by code_simp
  ultimately show ?thesis by (auto simp: demo_peers_set demo_reg_def reg_inv_def NewRegistry_def Let_def withDefaults_def demo_reading_def zero_stats_def)
qed

lemma demo_fields [simp]: "qoCodec (demo_source b) = plain_codec" "clSecret (qoFwd (demo_source b)) = ''s''"
    "resList (qoRes (demo_source b)) w = (Ok demo_peers, w)"
  by (simp_all add: demo_source_def newQNAPSource_def StaticResolver_def ret_def)

interpretation demo_san: san_nodes "demo_source b" demo_peers demo_reg "demo_up b" for b
proof unfold_locales
  fix n r w
  assume n: "n \<in> set demo_peers"
  show "demo_up b n \<Longrightarrow> Do (qoFwd (demo_source b)) (pnAddr n) r = http_recovered (ServeHTTP (qoCodec (demo_source b)) (clSecret (qoFwd (demo_source b)))
      (qnap_dispatchForward (qoCodec (demo_source b)) (demo_reg n)) r)"
    using n by (auto simp: demo_peers_set demo_source_def newQNAPSource_def demo_peers_def peer_table_def demo_up_def forward_addr_def)
  show "\<not> demo_up b n \<Longrightarrow> \<exists>e. Do (qoFwd (demo_source b)) (pnAddr n) r w = (Fail e, w)"
    using n by (auto simp: demo_peers_set demo_source_def newQNAPSource_def demo_peers_def peer_table_def demo_up_def forward_addr_def fail_def)
  show "reg_inv (demo_reg n w) \<and> list_all (wire_safe (qoCodec (demo_source b))) (Dump (demo_reg n w))"
    and "encLen (qoCodec (demo_source b)) (dump_text (qoCodec (demo_source b)) (demo_reg n w)) \<le> 2 ^ 20" using demo_reg_facts [OF n] by simp_all
next
  fix m n v w
  assume "m \<in> set demo_peers" "n \<in> set demo_peers" "m \<noteq> n" "Get v (demo_reg m w) \<noteq> None"
  then show "Get v (demo_reg n w) = None" by (auto simp: demo_peers_set Get_def demo_reg_def split: if_splits)
qed simp

lemma demo_mapper: "mpExternalID (qoMapper (demo_source b)) ns i w = (Ok (''q/'' @ i, True), w)"
  by (simp add: demo_source_def newQNAPSource_def ret_def)


lemma down_node_forgotten_witness: "\<exists>agg. collectOnce (demo_source False) id ((), [(''q/n2'', demo_reading ''q/n2'')]) = (Ok (), ((), agg)) \<and> map_of agg ''q/n2'' = None"
proof -
  let ?n = "\<lparr>pnNode = ''n2'', pnAddr = forward_addr ''n2''\<rparr>"
  have h: "?n \<in> set demo_peers" "\<not> demo_up False ?n" "Get ''q/n2'' (demo_reg ?n ()) = Some (demo_reading ''q/n2'')"
    "mpExternalID (qoMapper (demo_source False)) [] ''n2'' () = (Ok (''q/n2'', True), ())"
    by (simp_all add: demo_peers_set demo_up_def Get_def demo_reg_def demo_mapper)
  show ?thesis using down_node_forgotten [OF demo_san.san_nodes_axioms _ h, of id] by auto
qed

end
