(* ===== verification/Backends.thy ===== *)
theory Backends
  imports Config Stats_Query Local_Node Qnap_Controller
begin

text \<open>
  The constructors of the two backends, \<^verbatim>\<open>New\<close>, \<^verbatim>\<open>setupStats\<close>, \<^verbatim>\<open>Probe\<close> of \<^verbatim>\<open>internal/driver/local/backend.go\<close> and
  \<^verbatim>\<open>internal/driver/qnap/backend.go\<close>: from the decoded configuration to the parts that the other theories are about, or to the error that ends
  the process. What a constructor starts in the background (forwarding server, reconcilers, query server) is a field of its result that says whether and with what
  it was started. The environment, the task API, listening, the clock, the waits for devices, writing a file
  and building a client of the appliance are the fields of \<open>backend_env\<close>. Metrics and log lines are left out.
\<close>

record 'w Deps =
  dpMode :: string
  dpNodeID :: string
  dpParentDataset :: string
  dpConfig :: "Config option"
  dpRunner :: "'w host"

record 'w backend_env =
  evEnv :: "string \<Rightarrow> string"
  evAPI :: "'w taskAPI"
  evListen :: "string \<Rightarrow> ('w, unit) io"
  evClock :: "'w clock"
  evWait :: "string \<Rightarrow> ('w, string) io"
  evWaitMap :: "string \<Rightarrow> ('w, string) io"
  evWriteFile :: "string \<Rightarrow> string \<Rightarrow> ('w, unit) io"
  evDropin :: string
  evNewClient :: "QNAPBlock \<Rightarrow> err + 'w Qnap_Client.Client"

definition defaultForwardAddr :: string where "defaultForwardAddr = '':9602''"

text \<open>The query server: bound at its address, or none.\<close>

definition start_query :: "'w backend_env \<Rightarrow> statsConfig \<Rightarrow> ('w, QueryServer option) io" where
  "start_query e sc = (case NewQueryServer (scQueryAddr sc) (scQueryToken sc) (scQueryTokenHeader sc) of
     None \<Rightarrow> ret None
   | Some qs \<Rightarrow> bindIO (wrapIO (\<lambda>_. Internal ''starting stats query server: %v'') (evListen e (scQueryAddr sc))) (\<lambda>_. ret (Some qs)))"

section \<open>local/backend.go\<close>

definition local_caps :: Capabilities where
  "local_caps = \<lparr>CreateDelete = True, PublishUnpublish = False, Expand = True, SnapshotCap = True, Clone = True, GetCapacityCap = True,
     ListVolumesCap = True, ListSnapshotsCap = True, NodeStage = True, NodeExpand = True, NodeVolumeStats = True, ExpandOnline = True, TopologyCap = True\<rparr>"

record 'w local_backend =
  lkCaps :: Capabilities
  lkController :: "'w controller"
  lkNode :: "'w node"
  lkResolver :: NomadResolver
  lkMapper :: NomadVolumes
  lkForward :: "string \<times> string"   \<comment> \<open>address and secret of the forwarding server\<close>
  lkRegistry :: Registry
  lkReconcile :: "int option"   \<comment> \<open>interval of the reconciler, when it runs\<close>
  lkQuery :: "QueryServer option"

definition local_node :: "'w backend_env \<Rightarrow> 'w Deps \<Rightarrow> LocalConfig \<Rightarrow> string \<Rightarrow> 'w node" where
  "local_node e d lc pd = (let n = \<lparr>ndHost = dpRunner d, ndCfg = lc, ndHasZ = True, ndNodeID = dpNodeID d, ndParentDataset = pd,
     ndWaitForPath = evWait e, ndZvolDatasets = ret Map.empty\<rparr> in n\<lparr>ndZvolDatasets := osZvolDatasets n\<rparr>)"

definition local_build :: "'w backend_env \<Rightarrow> 'w Deps \<Rightarrow> Config \<Rightarrow> LocalBlock \<Rightarrow> ('w, 'w local_backend) io" where
  "local_build e d c lb =
     (let lc = LocalConfig.truncate lb; addr = orDefault (forwardAddr lb) defaultForwardAddr; pd = orDefault (dpParentDataset d) ''nomad-csi'' in
      bindIO (liftE (nomadOptions (evEnv e) (lbNomad lb) (dpNodeID d) addr)) (\<lambda>nopts.
      bindIO (NewNomadResolver (evAPI e) nopts) (\<lambda>res.
      bindIO (NewNomadVolumes (evAPI e) nopts) (\<lambda>mapper.
      bindIO (liftE (ResolveStats c)) (\<lambda>sc.
      bindIO (if scEnabled sc then start_query e sc else ret None) (\<lambda>qs.
      ret \<lparr>lkCaps = local_caps,
        lkController = \<lparr>cz = dpRunner d, cfg = lc, parentDataset = pd, LocalNode = nrSelf res\<rparr>,
        lkNode = local_node e d lc pd, lkResolver = res, lkMapper = mapper, lkForward = (addr, forwardSecret lb),
        lkRegistry = NewRegistry sc (dpNodeID d), lkReconcile = (if scEnabled sc then Some (scInterval sc) else None), lkQuery = qs\<rparr>))))))"

definition local_New :: "'w backend_env \<Rightarrow> 'w Deps \<Rightarrow> ('w, 'w local_backend) io" where
  "local_New e d = (case Option.bind (dpConfig d) cfLocal of
     None \<Rightarrow> fail (InvalidArgument ''local backend requires a 'local' config block'')
   | Some lb \<Rightarrow> bindIO (liftE (validatePools (LocalConfig.truncate lb))) (\<lambda>_.
       if forwardSecret lb = [] then fail (InvalidArgument ''local.forward_secret is required (shared secret for controller-to-controller forwarding)'')
       else if dpNodeID d = [] then fail (InvalidArgument ''node id is required for the local backend'')
       else local_build e d (the (dpConfig d)) lb))"

section \<open>qnap/backend.go\<close>

definition qnap_caps :: Capabilities where
  "qnap_caps = \<lparr>CreateDelete = True, PublishUnpublish = False, Expand = True, SnapshotCap = True, Clone = True, GetCapacityCap = True,
     ListVolumesCap = True, ListSnapshotsCap = True, NodeStage = True, NodeExpand = True, NodeVolumeStats = True, ExpandOnline = True, TopologyCap = False\<rparr>"

text \<open>The controller's aggregate: discovery, secret of its forwards, namespace and interval.\<close>

record san_source =
  ssResolver :: NomadResolver
  ssMapper :: NomadVolumes
  ssSecret :: string
  ssNamespace :: string
  ssInterval :: int

record 'w qnap_backend =
  qwCaps :: Capabilities
  qwCtrl :: "'w qController option"
  qwNode :: "'w qnode option"
  qwRegistry :: "Registry option"
  qwSessionRecon :: "(int \<times> int) option"   \<comment> \<open>interval and grace of the session reconciler, when it runs\<close>
  qwStatsRecon :: "int option"
  qwForward :: "(string \<times> string) option"   \<comment> \<open>address and secret of the node's forwarding server\<close>
  qwSource :: "san_source option"
  qwQuery :: "QueryServer option"

definition new_sessionManager :: "'w Qnap_Client.Client \<Rightarrow> QNAPBlock \<Rightarrow> 'w sessionManager" where
  "new_sessionManager cl q = \<lparr>smClient = cl, smUser = qcUsername q, smPass = qcPassword q\<rparr>"

definition build_ctrl :: "'w backend_env \<Rightarrow> QNAPBlock \<Rightarrow> ('w, 'w qController) io" where
  "build_ctrl e q = bindIO (liftE (validateControllerConfig q)) (\<lambda>_.
     case evNewClient e q of Inl _ \<Rightarrow> fail (Internal ''creating qnap client: %v'')
     | Inr cl \<Rightarrow> ret \<lparr>qkSM = new_sessionManager cl q, qkCfg = QNAPConfig.truncate q, qkClock = evClock e\<rparr>)"

definition newNodeSANCache :: "'w backend_env \<Rightarrow> QNAPBlock \<Rightarrow> 'w sessionManager option" where
  "newNodeSANCache e q = (if qcBaseURL q = [] \<or> qcUsername q = [] \<or> qcPassword q = [] then None
     else case evNewClient e q of Inl _ \<Rightarrow> None | Inr cl \<Rightarrow> Some (new_sessionManager cl q))"

definition installMultipathDropin :: "'w backend_env \<Rightarrow> 'w Manager \<Rightarrow> ('w, unit) io" where
  "installMultipathDropin e m = tryIO (WriteDropin (evWriteFile e) m (evDropin e)) (\<lambda>r. case r of
     Inl _ \<Rightarrow> ret () | Inr _ \<Rightarrow> tryIO (Reload m) (\<lambda>_. ret ()))"

definition build_node :: "'w backend_env \<Rightarrow> 'w Deps \<Rightarrow> QNAPBlock \<Rightarrow> ('w, 'w qnode) io" where
  "build_node e d q = bindIO (liftE (validateNodeConfig q)) (\<lambda>_.
     let mpath = multipath_New (dpRunner d) (qbMultipathConfigDir q); san = newNodeSANCache e q;
         n = \<lparr>qnCfg = QNAPConfig.truncate q, qnNodeID = dpNodeID d, qnHost = dpRunner d, qnMpath = mpath, qnUseMultipath = \<not> qcDisableMultipath q,
           qnSan = san, qnClock = evClock e, qnWaitForPath = evWait e, qnWaitForMap = evWaitMap e, qnHolders = Some (deviceHasHolders (dpRunner d))\<rparr> in
     if san = None then fail (Internal ''qnap node: read-only SAN client is required in node mode but could not be initialized'')
     else bindIO (if qnUseMultipath n then installMultipathDropin e mpath else ret ()) (\<lambda>_. ret n))"

definition build_source :: "'w backend_env \<Rightarrow> 'w Deps \<Rightarrow> QNAPBlock \<Rightarrow> statsConfig \<Rightarrow> string \<Rightarrow> ('w, san_source \<times> QueryServer option) io" where
  "build_source e d q sc addr =
     bindIO (liftE (nomadOptions (evEnv e) (qbNomad q) (dpNodeID d) addr)) (\<lambda>nopts.
     bindIO (NewNomadResolver (evAPI e) nopts) (\<lambda>res.
     bindIO (NewNomadVolumes (evAPI e) nopts) (\<lambda>mapper.
     bindIO (start_query e sc) (\<lambda>qs.
     ret (\<lparr>ssResolver = res, ssMapper = mapper, ssSecret = qbForwardSecret q,
       ssNamespace = orDefault (scNamespace sc) ''default'', ssInterval = pos_or (scAggregateInterval sc) (60 * Second)\<rparr>, qs)))))"

definition setupStats :: "'w backend_env \<Rightarrow> 'w Deps \<Rightarrow> QNAPBlock \<Rightarrow> statsConfig \<Rightarrow> 'w qnap_backend \<Rightarrow> ('w, 'w qnap_backend) io" where
  "setupStats e d q sc b =
     (if \<not> scEnabled sc then ret b
      else if qbForwardSecret q = [] then ret b
      else let addr = orDefault (qbForwardAddr q) defaultForwardAddr;
               b1 = (if qwNode b \<noteq> None then b\<lparr>qwForward := Some (addr, qbForwardSecret q)\<rparr> else b) in
        if HasController (dpMode d) then bindIO (build_source e d q sc addr) (\<lambda>(src, qs). ret (b1\<lparr>qwSource := Some src, qwQuery := qs\<rparr>))
        else ret b1)"

definition qnap_New :: "'w backend_env \<Rightarrow> 'w Deps \<Rightarrow> ('w, 'w qnap_backend) io" where
  "qnap_New e d = (case Option.bind (dpConfig d) cfQNAP of
     None \<Rightarrow> fail (InvalidArgument ''qnap backend requires a 'qnap' config block'')
   | Some q \<Rightarrow>
       bindIO (liftE (ResolveStats (the (dpConfig d)))) (\<lambda>sc.
       bindIO (if HasController (dpMode d) then bindIO (build_ctrl e q) (\<lambda>c. ret (Some c)) else ret None) (\<lambda>ctrl.
       bindIO (if HasNode (dpMode d) then bindIO (build_node e d q) (\<lambda>n. ret (Some n)) else ret None) (\<lambda>nd.
       setupStats e d q sc \<lparr>qwCaps = qnap_caps, qwCtrl = ctrl, qwNode = nd,
         qwRegistry = (if HasNode (dpMode d) then Some (NewRegistry sc (dpNodeID d)) else None),
         qwSessionRecon = (if HasNode (dpMode d) \<and> reconcileEnabled q then Some (reconcileTimings q) else None),
         qwStatsRecon = (if HasNode (dpMode d) \<and> scEnabled sc then Some (scInterval sc) else None),
         qwForward = None, qwSource = None, qwQuery = None\<rparr>))))"

definition qnap_Probe :: "'w qnap_backend \<Rightarrow> ('w \<times> qstate, unit) io" where
  "qnap_Probe b = (case qwCtrl b of None \<Rightarrow> ret ()
   | Some c \<Rightarrow> bindIO (wrapIO (mapQNAPError ''Probe'') (sm_get (qkSM c))) (\<lambda>_. ret ()))"

section \<open>What was built\<close>

lemma liftE_Ok: "liftE x w = (Ok a, w') \<longleftrightarrow> x = Inr a \<and> w' = w"
  by (auto simp: liftE_def fail_def ret_def split: sum.splits)

lemma ret_Ok: "ret a w = (Ok b, w') \<longleftrightarrow> b = a \<and> w' = w"
  by (auto simp: ret_def)

lemma fail_Ok: "\<not> fail e w = (Ok b, w')"
  by (simp add: fail_def)

lemmas built = bindIO_eq_Ok liftE_Ok ret_Ok fail_Ok wrapIO_eq_Ok

lemma rgCfg_NewRegistry: "rgCfg (NewRegistry sc n) = withDefaults sc"
  by (simp add: NewRegistry_def Let_def)

lemma NewNomadResolver_self: "NewNomadResolver api opts w = (Ok r, w') \<Longrightarrow> nrSelf r = noSelf opts"
  by (auto simp: NewNomadResolver_def built)

lemma nomadOptions_self: "nomadOptions env nc n addr = Inr o1 \<Longrightarrow> noSelf o1 = n"
  by (auto simp: nomadOptions_def Let_def bindE_def split: sum.splits)

lemma start_query_Ok: "start_query e sc w = (Ok qs, w') \<Longrightarrow> qs = NewQueryServer (scQueryAddr sc) (scQueryToken sc) (scQueryTokenHeader sc)"
  by (auto simp: start_query_def built split: option.splits)

lemma ResolveStats_wf: "ResolveStats c = Inr sc \<Longrightarrow> stats_wf sc \<and> withDefaults sc = sc"
proof (cases "cfStats c")
  case (Some s)
  assume "ResolveStats c = Inr sc"
  then show ?thesis using Some stats_durations_cases(2) [OF default_wf, of s] switches_wf wf_withDefaults
    by (cases "stats_durations s default_stats") (auto simp: ResolveStats_def)
qed (use default_wf wf_withDefaults in \<open>simp add: ResolveStats_def\<close>)

lemma local_build_Ok:
  assumes "local_build e d c lb w = (Ok b, w')"
  shows "\<exists>sc. ResolveStats c = Inr sc \<and> rgCfg (lkRegistry b) = sc \<and> lkCaps b = local_caps \<and> cfg (lkController b) = LocalConfig.truncate lb
    \<and> ndCfg (lkNode b) = LocalConfig.truncate lb \<and> LocalNode (lkController b) = dpNodeID d \<and> ndNodeID (lkNode b) = dpNodeID d
    \<and> parentDataset (lkController b) = ndParentDataset (lkNode b) \<and> snd (lkForward b) = forwardSecret lb
    \<and> nrSelf (lkResolver b) = dpNodeID d \<and> nrForwardPort (lkResolver b) = portOf (fst (lkForward b))"
proof -
  obtain nopts res mapper sc qs w1 w2 w3 where h: "nomadOptions (evEnv e) (lbNomad lb) (dpNodeID d) (orDefault (forwardAddr lb) defaultForwardAddr) = Inr nopts"
      "NewNomadResolver (evAPI e) nopts w = (Ok res, w1)" "ResolveStats c = Inr sc"
      "b = \<lparr>lkCaps = local_caps,
        lkController = \<lparr>cz = dpRunner d, cfg = LocalConfig.truncate lb, parentDataset = orDefault (dpParentDataset d) ''nomad-csi'', LocalNode = nrSelf res\<rparr>,
        lkNode = local_node e d (LocalConfig.truncate lb) (orDefault (dpParentDataset d) ''nomad-csi''), lkResolver = res, lkMapper = mapper,
        lkForward = (orDefault (forwardAddr lb) defaultForwardAddr, forwardSecret lb),
        lkRegistry = NewRegistry sc (dpNodeID d), lkReconcile = (if scEnabled sc then Some (scInterval sc) else None), lkQuery = qs\<rparr>"
    using assms unfolding local_build_def Let_def built by blast
  have "nrForwardPort res = noForwardPort nopts" using h(2) by (auto simp: NewNomadResolver_def built)
  moreover have "noForwardPort nopts = portOf (orDefault (forwardAddr lb) defaultForwardAddr)"
    using h(1) by (auto simp: nomadOptions_def Let_def bindE_def split: sum.splits)
  ultimately show ?thesis using h NewNomadResolver_self [OF h(2)] nomadOptions_self [OF h(1)] ResolveStats_wf [OF h(3)]
    by (simp add: rgCfg_NewRegistry local_node_def Let_def)
qed

lemma setupStats_Ok:
  assumes "setupStats e d q sc b w = (Ok b', w')"
  shows "qwCtrl b' = qwCtrl b \<and> qwNode b' = qwNode b \<and> qwRegistry b' = qwRegistry b \<and> qwSessionRecon b' = qwSessionRecon b \<and> qwStatsRecon b' = qwStatsRecon b \<and> qwCaps b' = qwCaps b
    \<and> (qwForward b' = qwForward b \<or> qwForward b' = Some (orDefault (qbForwardAddr q) defaultForwardAddr, qbForwardSecret q) \<and> qbForwardSecret q \<noteq> [] \<and> qwNode b \<noteq> None)
    \<and> (qwSource b' = qwSource b \<or> (\<exists>s. qwSource b' = Some s \<and> ssSecret s = qbForwardSecret q \<and> qbForwardSecret q \<noteq> [] \<and> 0 < ssInterval s \<and> ssNamespace s \<noteq> []))"
  using assms by (auto simp: setupStats_def build_source_def built Let_def pos_or_def Second_def orDefault_def split: if_splits sum.splits)

lemma build_ctrl_Ok: "build_ctrl e q w = (Ok c, w') \<Longrightarrow> validateControllerConfig q = Inr () \<and> qkCfg c = QNAPConfig.truncate q"
  by (auto simp: build_ctrl_def built split: sum.splits)

lemma build_node_Ok: "build_node e d q w = (Ok n, w') \<Longrightarrow> validateNodeConfig q = Inr () \<and> qnCfg n = QNAPConfig.truncate q \<and> qnNodeID n = dpNodeID d \<and> qnSan n \<noteq> None"
  by (auto simp: build_node_def built Let_def split: sum.splits if_splits)

lemma qnap_New_Ok:
  assumes "qnap_New e d w = (Ok b, w')"
  obtains q sc where "Option.bind (dpConfig d) cfQNAP = Some q" "ResolveStats (the (dpConfig d)) = Inr sc"
    "qwCaps b = qnap_caps"
    "case qwCtrl b of Some c \<Rightarrow> HasController (dpMode d) \<and> validateControllerConfig q = Inr () \<and> qkCfg c = QNAPConfig.truncate q | None \<Rightarrow> \<not> HasController (dpMode d)"
    "case qwNode b of Some n \<Rightarrow> HasNode (dpMode d) \<and> validateNodeConfig q = Inr () \<and> qnCfg n = QNAPConfig.truncate q \<and> qnNodeID n = dpNodeID d \<and> qnSan n \<noteq> None
       | None \<Rightarrow> \<not> HasNode (dpMode d)"
    "qwRegistry b = (if HasNode (dpMode d) then Some (NewRegistry sc (dpNodeID d)) else None)"
    "qwForward b \<noteq> None \<longrightarrow> qwForward b = Some (orDefault (qbForwardAddr q) defaultForwardAddr, qbForwardSecret q) \<and> qbForwardSecret q \<noteq> [] \<and> HasNode (dpMode d)"
    "\<forall>s. qwSource b = Some s \<longrightarrow> ssSecret s = qbForwardSecret q \<and> qbForwardSecret q \<noteq> [] \<and> 0 < ssInterval s \<and> ssNamespace s \<noteq> []"
proof -
  obtain q sc ctrl nd w1 w2 b0 where h: "Option.bind (dpConfig d) cfQNAP = Some q" "ResolveStats (the (dpConfig d)) = Inr sc"
      "(if HasController (dpMode d) then bindIO (build_ctrl e q) (\<lambda>c. ret (Some c)) else ret None) w = (Ok ctrl, w1)"
      "(if HasNode (dpMode d) then bindIO (build_node e d q) (\<lambda>n. ret (Some n)) else ret None) w1 = (Ok nd, w2)"
      "setupStats e d q sc b0 w2 = (Ok b, w')" "qwCtrl b0 = ctrl" "qwNode b0 = nd" "qwCaps b0 = qnap_caps"
      "qwRegistry b0 = (if HasNode (dpMode d) then Some (NewRegistry sc (dpNodeID d)) else None)" "qwForward b0 = None" "qwSource b0 = None"
  proof (cases "Option.bind (dpConfig d) cfQNAP")
    case (Some q)
    then obtain sc ctrl nd w1 w2 where k: "ResolveStats (the (dpConfig d)) = Inr sc"
        "(if HasController (dpMode d) then bindIO (build_ctrl e q) (\<lambda>c. ret (Some c)) else ret None) w = (Ok ctrl, w1)"
        "(if HasNode (dpMode d) then bindIO (build_node e d q) (\<lambda>n. ret (Some n)) else ret None) w1 = (Ok nd, w2)"
        "setupStats e d q sc \<lparr>qwCaps = qnap_caps, qwCtrl = ctrl, qwNode = nd,
         qwRegistry = (if HasNode (dpMode d) then Some (NewRegistry sc (dpNodeID d)) else None),
         qwSessionRecon = (if HasNode (dpMode d) \<and> reconcileEnabled q then Some (reconcileTimings q) else None),
         qwStatsRecon = (if HasNode (dpMode d) \<and> scEnabled sc then Some (scInterval sc) else None),
         qwForward = None, qwSource = None, qwQuery = None\<rparr> w2 = (Ok b, w')"
      using assms unfolding qnap_New_def Some option.case built by blast
    show ?thesis by (rule that [OF Some k]) (simp_all only: qnap_backend.simps)
  qed (use assms in \<open>simp add: qnap_New_def fail_Ok\<close>)
  note s = setupStats_Ok [OF h(5)]
  have c: "case ctrl of Some c \<Rightarrow> HasController (dpMode d) \<and> validateControllerConfig q = Inr () \<and> qkCfg c = QNAPConfig.truncate q | None \<Rightarrow> \<not> HasController (dpMode d)"
    using h(3) by (auto simp: built dest!: build_ctrl_Ok split: if_splits)
  have n: "case nd of Some n \<Rightarrow> HasNode (dpMode d) \<and> validateNodeConfig q = Inr () \<and> qnCfg n = QNAPConfig.truncate q \<and> qnNodeID n = dpNodeID d \<and> qnSan n \<noteq> None
       | None \<Rightarrow> \<not> HasNode (dpMode d)"
    using h(4) by (auto simp: built dest!: build_node_Ok split: if_splits)
  have "qwNode b0 \<noteq> None \<Longrightarrow> HasNode (dpMode d)" using n h(7) by (auto split: option.splits)
  then show thesis using s h(6-11) c n by (intro that [OF h(1,2)]) auto
qed

end
