(* ===== verification/Startup.thy ===== *)
theory Startup
  imports Backends
begin

text \<open>
  \<^verbatim>\<open>cmd/nomad-csi-driver/cmd/run.go\<close> and \<^verbatim>\<open>internal/csi/server.go\<close>: from the command line to a served socket and back to the end of
  the process. The readiness wait is a loop that may not return (a partial function, \<^term>\<open>None\<close>); the rest is a straight line of
  calls. What the process uses of the system is the record \<open>process\<close>, over any backend type; the trace of probes, listens, serving and
  shutdowns (\<open>startup_event\<close>) is kept by \<open>traced_process\<close>. Setting up logging, metrics and signal handling has no result here beyond its
  errors and its end.
\<close>

section \<open>csi/server.go\<close>

definition parseUnixEndpoint :: "string \<Rightarrow> err + string" where
  "parseUnixEndpoint endpoint =
     (if \<not> HasPrefix endpoint ''unix://'' then Inl (PlainErr ''endpoint %q must be a unix:// URI'')
      else let path = TrimPrefix endpoint ''unix://'' in
        if path = [] then Inl (PlainErr ''endpoint %q has empty socket path'') else Inr path)"

text \<open>\<^verbatim>\<open>filepath.Dir\<close>.\<close>

definition path_Dir :: "string \<Rightarrow> string" where
  "path_Dir p = path_Clean (take (nat (LastIndexByte p (CHR ''/'') + 1)) p)"

text \<open>A backend as the server sees it: its halves of any type, its probe and its optional shutdown.\<close>

record ('w, 'c, 'n) Backend =
  bkName :: string
  bkController :: "'c option"
  bkNode :: "'n option"
  bkProbe :: "('w, unit) io"
  bkShutdown :: "('w, unit) io option"

record 'w process =
  psMkdirAll :: "string \<Rightarrow> ('w, unit) io"
  psRemove :: "string \<Rightarrow> ('w, unit) io"
  psListen :: "string \<Rightarrow> ('w, unit) io"
  psServe :: "('w, unit) io"   \<comment> \<open>until a signal, or until serving ends with an error\<close>
  psDecode :: "string \<Rightarrow> ('w, Config) io"
  psLevelOK :: "string \<Rightarrow> bool"
  psClock :: "'w clock"

text \<open>What is registered on the server: Identity always, and the halves that the mode runs.\<close>

definition newGRPCServer :: "('w, 'c, 'n) Backend \<Rightarrow> string \<Rightarrow> err + 'c option \<times> 'n option" where
  "newGRPCServer b mode =
     (if HasController mode \<and> bkController b = None then Inl (PlainErr ''mode %q needs a controller but backend %q has none'')
      else if HasNode mode \<and> bkNode b = None then Inl (PlainErr ''mode %q needs a node but backend %q has none'')
      else Inr (if HasController mode then bkController b else None, if HasNode mode then bkNode b else None))"

definition remove_stale :: "'w process \<Rightarrow> string \<Rightarrow> ('w, unit) io" where
  "remove_stale ps path = tryIO (psRemove ps path) (\<lambda>r. case r of
     Inl (NotExistErr m) \<Rightarrow> ret () | Inl e \<Rightarrow> fail (WrapErr ''removing stale socket %s: %w'' e) | Inr _ \<Rightarrow> ret ())"

definition NewServer :: "'w process \<Rightarrow> ('w, 'c, 'n) Backend \<Rightarrow> string \<Rightarrow> string \<Rightarrow> ('w, string) io" where
  "NewServer ps b mode endpoint =
     bindIO (liftE (parseUnixEndpoint endpoint)) (\<lambda>path.
     bindIO (wrapIO (WrapErr ''creating socket directory for %s: %w'') (psMkdirAll ps (path_Dir path))) (\<lambda>_.
     bindIO (remove_stale ps path) (\<lambda>_.
     bindIO (liftE (newGRPCServer b mode)) (\<lambda>_.
     bindIO (wrapIO (WrapErr ''listening on %s: %w'') (psListen ps path)) (\<lambda>_. ret path)))))"

section \<open>run.go\<close>

record run_flags =
  rfMode :: string
  rfDriver :: string
  rfEndpoint :: string
  rfNodeID :: string
  rfPluginID :: string
  rfParentDataset :: string
  rfConfig :: string
  rfLogLevel :: string
  rfLogFormat :: string

definition envOr :: "(string \<Rightarrow> string) \<Rightarrow> string \<Rightarrow> string \<Rightarrow> string" where
  "envOr env key d = (if env key \<noteq> [] then env key else d)"

definition buildLogger :: "'w process \<Rightarrow> string \<Rightarrow> string \<Rightarrow> err + unit" where
  "buildLogger ps level format =
     (if \<not> psLevelOK ps level then Inl (PlainErr ''invalid --log-level %q: %w'')
      else if format = ''json'' \<or> format = ''console'' then Inr ()
      else Inl (PlainErr ''invalid --log-format %q (want json|console)''))"

text \<open>The checks of the command line, in order.\<close>

definition check_flags :: "run_flags \<Rightarrow> err + unit" where
  "check_flags f =
     (if rfDriver f = [] then Inl (PlainErr ''--driver is required (one of: %v)'')
      else if rfEndpoint f = [] then Inl (PlainErr ''--endpoint (or $CSI_ENDPOINT) is required'')
      else bindE (ValidateModeForDriver (rfDriver f) (rfMode f)) (\<lambda>_.
        if rfNodeID f = [] then Inl (PlainErr ''--node-id (or $CSI_NODE_ID) is required'')
        else if rfPluginID f = [] then Inl (PlainErr ''--plugin-id (or $CSI_PLUGIN_ID) is required'')
        else Inr ()))"

definition not_ready :: "err \<Rightarrow> err" where
  "not_ready e = WrapErr ''backend not ready after %d attempt(s) over %s: %w'' e"

partial_function (option) ready_loop :: "'w clock \<Rightarrow> ('w, unit) io \<Rightarrow> int \<Rightarrow> int \<Rightarrow> time \<Rightarrow> 'w \<Rightarrow> (unit res \<times> 'w) option" where
  "ready_loop ck probe timeout interval deadline w = (case probe w of
     (Ok _, w1) \<Rightarrow> Some (Ok (), w1)
   | (Panic p, w1) \<Rightarrow> Some (Panic p, w1)
   | (Fail e, w1) \<Rightarrow> if timeout \<le> 0 then Some (Fail (not_ready e), w1)
       else (case Now ck w1 of (now, w2) \<Rightarrow>
         if deadline \<le> now then Some (Fail (not_ready e), w2)
         else (case Pause ck interval w2 of
             (Some x, w3) \<Rightarrow> Some (Fail (WrapErr ''readiness wait cancelled: %w'' x), w3)
           | (None, w3) \<Rightarrow> ready_loop ck probe timeout interval deadline w3)))"

declare ready_loop.simps [code]

definition awaitBackendReady :: "'w clock \<Rightarrow> ('w, unit) io \<Rightarrow> Config \<Rightarrow> 'w \<Rightarrow> (unit res \<times> 'w) option" where
  "awaitBackendReady ck probe c w = (case ResolveReadiness c of
     Inl e \<Rightarrow> Some (Fail e, w)
   | Inr (timeout, interval) \<Rightarrow> (case Now ck w of (start, w1) \<Rightarrow> ready_loop ck probe timeout interval (start + timeout) w1))"

definition shutdownBackend :: "('w, 'c, 'n) Backend \<Rightarrow> ('w, unit) io" where
  "shutdownBackend b = (case bkShutdown b of None \<Rightarrow> ret () | Some sd \<Rightarrow> tryIO sd (\<lambda>_. ret ()))"

text \<open>After the backend is ready: the server, until it stops; its socket is removed.\<close>

definition serve :: "'w process \<Rightarrow> ('w, 'c, 'n) Backend \<Rightarrow> run_flags \<Rightarrow> ('w, unit) io" where
  "serve ps b f = tryIO (NewServer ps b (rfMode f) (rfEndpoint f)) (\<lambda>r. case r of
     Inl e \<Rightarrow> bindIO (shutdownBackend b) (\<lambda>_. fail e)
   | Inr path \<Rightarrow> tryIO (psServe ps) (\<lambda>_. tryIO (psRemove ps path) (\<lambda>_. shutdownBackend b)))"

definition run_backend :: "'w process \<Rightarrow> ('w, 'c, 'n) Backend \<Rightarrow> run_flags \<Rightarrow> Config \<Rightarrow> 'w \<Rightarrow> (unit res \<times> 'w) option" where
  "run_backend ps b f c w = (case awaitBackendReady (psClock ps) (bkProbe b) c w of
     None \<Rightarrow> None
   | Some (Ok _, w1) \<Rightarrow> Some (serve ps b f w1)
   | Some (Fail e, w1) \<Rightarrow> Some (bindIO (shutdownBackend b) (\<lambda>_. fail e) w1)
   | Some (Panic p, w1) \<Rightarrow> Some (Panic p, w1))"

text \<open>\<open>registry\<close> is the table of constructors.\<close>

definition runServer :: "'w process \<Rightarrow> (string \<rightharpoonup> 'w Deps \<Rightarrow> ('w, ('w, 'c, 'n) Backend) io) \<Rightarrow> 'w host \<Rightarrow> run_flags \<Rightarrow> 'w \<Rightarrow> (unit res \<times> 'w) option" where
  "runServer ps registry h f w = (case
     bindIO (liftE (check_flags f)) (\<lambda>_.
     bindIO (liftE (buildLogger ps (rfLogLevel f) (rfLogFormat f))) (\<lambda>_.
     bindIO (Load (psDecode ps) (rfConfig f)) (\<lambda>c.
     bindIO (wrapIO (WrapErr ''initializing %s backend: %w'') (New (rfDriver f) \<lparr>dpMode = rfMode f, dpNodeID = rfNodeID f,
       dpParentDataset = rfParentDataset f, dpConfig = Some c, dpRunner = h\<rparr> registry)) (\<lambda>b. ret (c, b))))) w of
     (Ok (c, b), w1) \<Rightarrow> run_backend ps b f c w1
   | (Fail e, w1) \<Rightarrow> Some (Fail e, w1)
   | (Panic p, w1) \<Rightarrow> Some (Panic p, w1))"

section \<open>The backends\<close>





section \<open>Traces\<close>

datatype startup_event = EvProbe bool | EvListen string | EvServe | EvShutdown

definition noted :: "('a res \<Rightarrow> startup_event) \<Rightarrow> ('w, 'a) io \<Rightarrow> (startup_event list \<times> 'w, 'a) io" where
  "noted ev m = (\<lambda>(l, w). case m w of (r, w') \<Rightarrow> (r, (l @ [ev r], w')))"

definition unnoted :: "('w, 'a) io \<Rightarrow> (startup_event list \<times> 'w, 'a) io" where
  "unnoted m = (\<lambda>(l, w). case m w of (r, w') \<Rightarrow> (r, (l, w')))"

definition traced_process :: "'w process \<Rightarrow> (startup_event list \<times> 'w) process" where
  "traced_process ps = \<lparr>psMkdirAll = (\<lambda>p. unnoted (psMkdirAll ps p)), psRemove = (\<lambda>p. unnoted (psRemove ps p)),
     psListen = (\<lambda>p. noted (\<lambda>_. EvListen p) (psListen ps p)), psServe = noted (\<lambda>_. EvServe) (psServe ps),
     psDecode = (\<lambda>p. unnoted (psDecode ps p)), psLevelOK = psLevelOK ps,
     psClock = \<lparr>Now = (\<lambda>(l, w). case Now (psClock ps) w of (t, w') \<Rightarrow> (t, (l, w'))),
       Pause = (\<lambda>d (l, w). case Pause (psClock ps) d w of (e, w') \<Rightarrow> (e, (l, w')))\<rparr>\<rparr>"

definition traced_backend :: "('w, 'c, 'n) Backend \<Rightarrow> (startup_event list \<times> 'w, 'c, 'n) Backend" where
  "traced_backend b = \<lparr>bkName = bkName b, bkController = bkController b, bkNode = bkNode b,
     bkProbe = noted (\<lambda>r. EvProbe (r = Ok ())) (bkProbe b), bkShutdown = map_option (noted (\<lambda>_. EvShutdown)) (bkShutdown b)\<rparr>"

lemma clock_traced: "Now (psClock (traced_process ps)) (l, w) = (case Now (psClock ps) w of (t, w') \<Rightarrow> (t, (l, w')))"
  "Pause (psClock (traced_process ps)) d (l, w) = (case Pause (psClock ps) d w of (e, w') \<Rightarrow> (e, (l, w')))"
  by (simp_all add: traced_process_def)

lemma probe_traced: "bkProbe (traced_backend b) (l, w) = (case bkProbe b w of (r, w') \<Rightarrow> (r, (l @ [EvProbe (r = Ok ())], w')))"
  by (simp add: traced_backend_def noted_def)

text \<open>What the wait leaves in the trace: failed probes, and a successful one exactly when it succeeds.\<close>

definition waited :: "unit res \<Rightarrow> startup_event list \<Rightarrow> bool" where
  "waited r evs \<longleftrightarrow> (\<exists>n. evs = replicate n (EvProbe False) @ (if r = Ok () then [EvProbe True] else []))"

lemma waited_step: "waited r evs \<Longrightarrow> waited r (EvProbe False # evs)"
  by (force simp: waited_def intro: exI [of _ "Suc _"])

lemma waited_one: "waited (Ok ()) [EvProbe True]" "r \<noteq> Ok () \<Longrightarrow> waited r [EvProbe False]" "r \<noteq> Ok () \<Longrightarrow> waited r []"
  by (auto simp: waited_def intro: exI [of _ "0::nat"] exI [of _ "Suc 0"])

lemma ready_loop_trace:
  assumes "ready_loop ck probe timeout interval deadline s = Some (r, s')"
    and "ck = psClock (traced_process ps)" "probe = bkProbe (traced_backend b)"
  shows "\<exists>evs. fst s' = fst s @ evs \<and> waited r evs"
  using assms
proof (induction ck probe timeout interval deadline s "(r, s')" rule: ready_loop.raw_induct [rotated, consumes 1, case_names step])
  case (step f ck probe timeout interval deadline s)
  obtain l w where s: "s = (l, w)" by (cases s)
  obtain p w1 where p: "bkProbe b w = (p, w1)" by fastforce
  obtain now w2 where n: "Now (psClock ps) w1 = (now, w2)" by fastforce
  obtain x w3 where x: "Pause (psClock ps) interval w2 = (x, w3)" by fastforce
  show ?case
  proof (cases "\<exists>e. p = Fail e \<and> \<not> timeout \<le> 0 \<and> \<not> deadline \<le> now \<and> x = None")
    case True
    then have "f ck probe timeout interval deadline (l @ [EvProbe False], w3) = Some (r, s')"
      using step(2-4) s p n x by (auto simp: probe_traced clock_traced)
    from step(1) [OF this step(3,4)] show ?thesis using s waited_step by (metis append.assoc append_Cons append_Nil fst_conv)
  next
    case False
    then show ?thesis using step(2-4) s p n x
      by (cases p; cases x) (auto simp: probe_traced clock_traced waited_one split: if_splits)
  qed
qed

lemma await_trace:
  assumes "awaitBackendReady (psClock (traced_process ps)) (bkProbe (traced_backend b)) c (l, w) = Some (r, (l', w'))"
  shows "\<exists>evs. l' = l @ evs \<and> waited r evs"
proof (cases "ResolveReadiness c")
  case (Inl e)
  then show ?thesis using assms waited_one(3) by (auto simp: awaitBackendReady_def)
next
  case (Inr ti)
  obtain start w1 where "Now (psClock ps) w = (start, w1)" by fastforce
  then have "ready_loop (psClock (traced_process ps)) (bkProbe (traced_backend b)) (fst ti) (snd ti) (start + fst ti) (l, w1) = Some (r, (l', w'))"
    using assms Inr by (simp add: awaitBackendReady_def clock_traced split: prod.splits)
  from ready_loop_trace [OF this refl refl] show ?thesis by simp
qed

text \<open>The trace of a call: what it appends, given its outcome.\<close>

definition traces :: "('a res \<Rightarrow> startup_event list \<Rightarrow> bool) \<Rightarrow> (startup_event list \<times> 'w, 'a) io \<Rightarrow> bool" where
  "traces S m \<longleftrightarrow> (\<forall>l w r l' w'. m (l, w) = (r, (l', w')) \<longrightarrow> (\<exists>evs. l' = l @ evs \<and> S r evs))"

lemma traces_noted: "(\<And>r. S r [ev r]) \<Longrightarrow> traces S (noted ev m)"
  by (auto simp: traces_def noted_def split: prod.splits)

lemma traces_unnoted: "(\<And>r. S r []) \<Longrightarrow> traces S (unnoted m)"
  by (auto simp: traces_def unnoted_def split: prod.splits)

lemma traces_ret: "S (Ok a) [] \<Longrightarrow> traces S (ret a)"
  by (auto simp: traces_def ret_def)

lemma traces_fail: "S (Fail e) [] \<Longrightarrow> traces S (fail e)"
  by (auto simp: traces_def fail_def)

lemma traces_wrapIO: "traces (\<lambda>r. S (case r of Ok a \<Rightarrow> Ok a | Fail e \<Rightarrow> Fail (g e) | Panic p \<Rightarrow> Panic p)) m \<Longrightarrow> traces S (wrapIO g m)"
proof (unfold traces_def, intro allI impI)
  fix l w r l' w'
  assume m: "\<forall>l w r l' w'. m (l, w) = (r, (l', w')) \<longrightarrow> (\<exists>evs. l' = l @ evs \<and> S (case r of Ok a \<Rightarrow> Ok a | Fail e \<Rightarrow> Fail (g e) | Panic p \<Rightarrow> Panic p) evs)"
    and w: "wrapIO g m (l, w) = (r, (l', w'))"
  obtain x where "m (l, w) = (x, (l', w'))" "r = (case x of Ok a \<Rightarrow> Ok a | Fail e \<Rightarrow> Fail (g e) | Panic p \<Rightarrow> Panic p)"
    using w by (auto simp: wrapIO_def split: prod.splits res.splits)
  then show "\<exists>evs. l' = l @ evs \<and> S r evs" using m by blast
qed

lemma traces_bindIO:
  assumes "traces T m" "\<And>a es. T (Ok a) es \<Longrightarrow> traces (\<lambda>r es'. S r (es @ es')) (f a)"
    and "\<And>e es. T (Fail e) es \<Longrightarrow> S (Fail e) es" "\<And>p es. T (Panic p) es \<Longrightarrow> S (Panic p) es"
  shows "traces S (bindIO m f)"
  unfolding traces_def
proof (intro allI impI)
  fix l w r l' w'
  assume b: "bindIO m f (l, w) = (r, (l', w'))"
  obtain x l1 w1 where m: "m (l, w) = (x, (l1, w1))" by (metis prod.exhaust)
  then obtain es where es: "l1 = l @ es" "T x es" using assms(1) unfolding traces_def by blast
  show "\<exists>evs. l' = l @ evs \<and> S r evs"
  proof (cases x)
    case (Ok a)
    then have "f a (l1, w1) = (r, (l', w'))" using b m by (simp add: bindIO_def)
    then show ?thesis using assms(2) [OF es(2) [unfolded Ok]] es(1) unfolding traces_def by (metis append.assoc)
  qed (use b m es assms(3,4) in \<open>auto simp: bindIO_def\<close>)
qed

lemma traces_tryIO:
  assumes "traces T m" "\<And>a es. T (Ok a) es \<Longrightarrow> traces (\<lambda>r es'. S r (es @ es')) (f (Inr a))"
    and "\<And>e es. T (Fail e) es \<Longrightarrow> traces (\<lambda>r es'. S r (es @ es')) (f (Inl e))" "\<And>p es. T (Panic p) es \<Longrightarrow> S (Panic p) es"
  shows "traces S (tryIO m f)"
  unfolding traces_def
proof (intro allI impI)
  fix l w r l' w'
  assume b: "tryIO m f (l, w) = (r, (l', w'))"
  obtain x l1 w1 where m: "m (l, w) = (x, (l1, w1))" by (metis prod.exhaust)
  then obtain es where es: "l1 = l @ es" "T x es" using assms(1) unfolding traces_def by blast
  show "\<exists>evs. l' = l @ evs \<and> S r evs"
  proof (cases x)
    case (Ok a)
    then have "f (Inr a) (l1, w1) = (r, (l', w'))" using b m by (simp add: tryIO_def)
    then show ?thesis using assms(2) [OF es(2) [unfolded Ok]] es(1) unfolding traces_def by (metis append.assoc)
  next
    case (Fail e)
    then have "f (Inl e) (l1, w1) = (r, (l', w'))" using b m by (simp add: tryIO_def)
    then show ?thesis using assms(3) [OF es(2) [unfolded Fail]] es(1) unfolding traces_def by (metis append.assoc)
  qed (use b m es assms(4) in \<open>auto simp: tryIO_def\<close>)
qed

lemma traces_quiet_bind:
  assumes "traces (\<lambda>_ es. es = []) m" "\<And>a. traces S (f a)" "\<And>e. S (Fail e) []" "\<And>p. S (Panic p) []"
  shows "traces S (bindIO m f)"
  by (rule traces_bindIO [OF assms(1)]) (use assms(2-) in auto)

lemma traces_liftE: "(\<And>a. x = Inr a \<Longrightarrow> traces S (f a)) \<Longrightarrow> (\<And>e. S (Fail e) []) \<Longrightarrow> traces S (bindIO (liftE x) f)"
  by (cases x) (auto simp: liftE_def bindIO_def ret_def fail_def traces_def)

text \<open>The server: nothing is traced before its listen, which happens at the path of the endpoint after all checks.\<close>

definition listened :: "('w, 'c, 'n) Backend \<Rightarrow> run_flags \<Rightarrow> string res \<Rightarrow> startup_event list \<Rightarrow> bool" where
  "listened b f r evs \<longleftrightarrow> (evs = [] \<and> (\<forall>p. r \<noteq> Ok p)) \<or> (\<exists>p. parseUnixEndpoint (rfEndpoint f) = Inr p \<and> \<not> isl (newGRPCServer b (rfMode f))
     \<and> evs = [EvListen p] \<and> (\<forall>q. r = Ok q \<longrightarrow> q = p))"

lemma traced_fields [simp]: "psMkdirAll (traced_process ps) p = unnoted (psMkdirAll ps p)" "psRemove (traced_process ps) p = unnoted (psRemove ps p)"
    "psListen (traced_process ps) p = noted (\<lambda>_. EvListen p) (psListen ps p)" "psServe (traced_process ps) = noted (\<lambda>_. EvServe) (psServe ps)"
  by (simp_all add: traced_process_def)

lemma traces_quiet: "traces (\<lambda>_ es. es = []) (unnoted m)"
  by (simp add: traces_unnoted)

lemma remove_traced: "traces (\<lambda>_ es. es = []) (remove_stale (traced_process ps) p)"
  unfolding remove_stale_def traced_fields
  by (rule traces_tryIO [OF traces_quiet]) (auto intro: traces_ret traces_fail split: err.splits)

lemma NewServer_traces: "traces (listened b f) (NewServer (traced_process ps) (traced_backend b) (rfMode f) (rfEndpoint f))"
proof -
  have g: "newGRPCServer (traced_backend b) m = newGRPCServer b m" for m by (simp add: newGRPCServer_def traced_backend_def)
  have q: "listened b f (Fail e) []" "listened b f (Panic p) []" for e p by (simp_all add: listened_def)
  have m: "traces (\<lambda>_ es. es = []) (wrapIO g (psMkdirAll (traced_process ps) d))" for g d
    by (rule traces_wrapIO) (simp add: traces_unnoted)
  have l: "traces (\<lambda>_ es. es = [EvListen p]) (wrapIO g (psListen (traced_process ps) p))" for g p
    by (rule traces_wrapIO) (simp add: traces_noted)
  show ?thesis unfolding NewServer_def g
    by (intro traces_liftE traces_quiet_bind [OF m] traces_quiet_bind [OF remove_traced] q traces_bindIO [OF l])
      (auto simp: listened_def intro: traces_ret)
qed

text \<open>The shutdown of a backend that has one is traced whatever its outcome.\<close>

lemma shutdown_traces: "traces (\<lambda>_ es. es = (if bkShutdown b = None then [] else [EvShutdown])) (shutdownBackend (traced_backend b))"
proof (cases "bkShutdown b")
  case (Some sd)
  have n: "traces (\<lambda>_ es. es = [EvShutdown]) (noted (\<lambda>_. EvShutdown) sd)" by (simp add: traces_noted)
  show ?thesis using Some unfolding shutdownBackend_def traced_backend_def
    by (simp, intro traces_tryIO [OF n]) (auto intro: traces_ret)
qed (simp add: shutdownBackend_def traced_backend_def traces_ret)

definition ending :: "('w, 'c, 'n) Backend \<Rightarrow> startup_event list" where
  "ending b = (if bkShutdown b = None then [] else [EvShutdown])"

text \<open>The rest of a run after the backend is ready, unless it panics: no listen, or a listen at the endpoint, then perhaps serving; then the shutdown.\<close>

definition served :: "('w, 'c, 'n) Backend \<Rightarrow> run_flags \<Rightarrow> unit res \<Rightarrow> startup_event list \<Rightarrow> bool" where
  "served b f r evs \<longleftrightarrow> (\<exists>pre post. evs = pre @ post \<and> (pre = [] \<or> (\<exists>p. parseUnixEndpoint (rfEndpoint f) = Inr p \<and> \<not> isl (newGRPCServer b (rfMode f))
     \<and> (pre = [EvListen p] \<or> pre = [EvListen p, EvServe]))) \<and> post \<in> {[], ending b} \<and> ((\<forall>p. r \<noteq> Panic p) \<longrightarrow> post = ending b)
     \<and> (r = Ok () \<longrightarrow> EvServe \<in> set pre))"

lemma serve_traces: "traces (served b f) (serve (traced_process ps) (traced_backend b) f)"
proof -
  note sd = shutdown_traces [of b, folded ending_def]
  have s: "traces (\<lambda>_ es. es = [EvServe]) (noted (\<lambda>_. EvServe) (psServe ps))" by (simp add: traces_noted)
  have e: "traces (\<lambda>r es'. served b f r (es @ es')) (bindIO (shutdownBackend (traced_backend b)) (\<lambda>_. fail x))" if "listened b f (Fail x) es" for x es
    using that by (intro traces_bindIO [OF sd] traces_fail) (auto simp: served_def listened_def)
  have o: "traces (\<lambda>r es'. served b f r (es @ es')) (tryIO (noted (\<lambda>_. EvServe) (psServe ps)) (\<lambda>_. tryIO (unnoted (psRemove ps p)) (\<lambda>_. shutdownBackend (traced_backend b))))"
    if "listened b f (Ok p) es" for p es
  proof -
    have p: "parseUnixEndpoint (rfEndpoint f) = Inr p" "\<not> isl (newGRPCServer b (rfMode f))" "es = [EvListen p]" using that by (auto simp: listened_def)
    have d: "traces (\<lambda>r es'. served b f r (es @ [EvServe] @ es')) (shutdownBackend (traced_backend b))"
    proof -
      have "served b f r (es @ [EvServe] @ ending b)" for r unfolding served_def using p by (intro exI [of _ "es @ [EvServe]"] exI [of _ "ending b"]) auto
      then show ?thesis using sd unfolding traces_def by blast
    qed
    have t: "traces (\<lambda>r es'. served b f r (es @ [EvServe] @ es')) (tryIO (unnoted (psRemove ps p)) (\<lambda>_. shutdownBackend (traced_backend b)))"
      by (rule traces_tryIO [OF traces_quiet]) (use d in \<open>auto simp: served_def p\<close>)
    show ?thesis by (rule traces_tryIO [OF s]) (use t in \<open>auto simp: served_def p\<close>)
  qed
  show ?thesis unfolding serve_def by (rule traces_tryIO [OF NewServer_traces]) (use e o in \<open>auto simp: served_def listened_def\<close>)
qed

section \<open>Properties\<close>

text \<open>C38. Nothing is served before the backend is ready. On every system, for every backend and command line, a run that ends has a trace of this form: some
  failed probes; then either a successful one, followed by at most one listen, at the path of the endpoint, and by serving only after
  that listen; or no further probe, no listen and no serving, and the run fails. The shutdown of the backend is the last thing in
  every run that does not panic. A run succeeds only if it has served.\<close>

theorem ready_before_serving:
  assumes "run_backend (traced_process ps) (traced_backend b) f c ([], w) = Some (r, (l, w'))"
  shows "\<exists>n evs. l = replicate n (EvProbe False) @ evs \<and>
    ((\<exists>rest. evs = EvProbe True # rest \<and> served b f r rest) \<or> evs \<in> {[], ending b} \<and> r \<noteq> Ok () \<and> ((\<forall>p. r \<noteq> Panic p) \<longrightarrow> evs = ending b))"
proof -
  obtain x l1 w1 where a: "awaitBackendReady (psClock (traced_process ps)) (bkProbe (traced_backend b)) c ([], w) = Some (x, (l1, w1))"
    using assms by (auto simp: run_backend_def split: option.splits)
  obtain n where l1: "l1 = replicate n (EvProbe False) @ (if x = Ok () then [EvProbe True] else [])"
    using await_trace [OF a] by (auto simp: waited_def)
  show ?thesis
  proof (cases x)
    case (Ok u)
    then have "serve (traced_process ps) (traced_backend b) f (l1, w1) = (r, (l, w'))" using assms a by (simp add: run_backend_def)
    then obtain evs where "l = l1 @ evs" "served b f r evs" using serve_traces [of b f ps] unfolding traces_def by blast
    then show ?thesis using l1 Ok by (intro exI [of _ n]) simp
  next
    case (Fail e)
    then have "bindIO (shutdownBackend (traced_backend b)) (\<lambda>_. fail e) (l1, w1) = (r, (l, w'))" using assms a by (simp add: run_backend_def)
    moreover have "traces (\<lambda>r es. es = ending b \<and> r \<noteq> Ok ()) (bindIO (shutdownBackend (traced_backend b)) (\<lambda>_. fail e))"
      using shutdown_traces [of b, folded ending_def] by (intro traces_bindIO [where T = "\<lambda>_ es. es = ending b"] traces_fail) auto
    ultimately have "l = l1 @ ending b" "r \<noteq> Ok ()" unfolding traces_def by blast+
    then show ?thesis using l1 Fail by (intro exI [of _ n] exI [of _ "ending b"]) simp
  next
    case (Panic p)
    then have "r = Panic p" "l = l1" using assms a by (simp_all add: run_backend_def)
    then show ?thesis using l1 Panic by (intro exI [of _ n] exI [of _ "[]"]) simp
  qed
qed

text \<open>A process where everything works and the second probe succeeds; the world counts the probes and the nanoseconds.\<close>

definition demo_process :: "int process" where
  "demo_process = \<lparr>psMkdirAll = (\<lambda>_. ret ()), psRemove = (\<lambda>_. fail (NotExistErr ''socket'')), psListen = (\<lambda>_. ret ()), psServe = ret (),
     psDecode = (\<lambda>_. ret empty_Config), psLevelOK = (\<lambda>_. True), psClock = counter_clock\<rparr>"

definition demo_backend :: "(int, unit, unit) Backend" where
  "demo_backend = \<lparr>bkName = ''demo'', bkController = Some (), bkNode = None, bkProbe = (\<lambda>t. if t < 1000 then (Fail (PlainErr ''not yet''), t) else (Ok (), t)), bkShutdown = Some (ret ())\<rparr>"

definition demo_flags :: run_flags where
  "demo_flags = \<lparr>rfMode = ''controller'', rfDriver = ''qnap'', rfEndpoint = ''unix:///csi/csi.sock'', rfNodeID = ''n'', rfPluginID = ''p'', rfParentDataset = [],
     rfConfig = [], rfLogLevel = ''info'', rfLogFormat = ''json''\<rparr>"

definition demo_ready :: Config where
  "demo_ready = empty_Config\<lparr>cfReadiness := Some \<lparr>rdTimeout = ''1m'', rdInterval = ''1s''\<rparr>\<rparr>"

definition demo_trace :: "startup_event list" where
  "demo_trace = [EvProbe False, EvProbe True, EvListen ''/csi/csi.sock'', EvServe, EvShutdown]"

lemma ready_before_serving_witness: "run_backend (traced_process demo_process) (traced_backend demo_backend) demo_flags demo_ready ([], 0)
      = Some (Ok (), (demo_trace, 1000000000))
    \<and> (\<exists>n evs. demo_trace = replicate n (EvProbe False) @ evs \<and> (\<exists>rest. evs = EvProbe True # rest \<and> served demo_backend demo_flags (Ok ()) rest))"
proof -
  have e: "run_backend (traced_process demo_process) (traced_backend demo_backend) demo_flags demo_ready ([], 0) = Some (Ok (), (demo_trace, 1000000000))" by code_simp
  show ?thesis using e ready_before_serving [OF e] by blast
qed

text \<open>How a wait can end.\<close>

definition wait_end :: "'w clock \<Rightarrow> ('w, unit) io \<Rightarrow> unit res \<Rightarrow> bool" where
  "wait_end ck probe r = (case r of Ok _ \<Rightarrow> \<exists>v. fst (probe v) = Ok ()
     | Fail x \<Rightarrow> (\<exists>v e. fst (probe v) = Fail e \<and> x = not_ready e)
         \<or> (\<exists>v e i. fst (Pause ck i v) = Some e \<and> x = WrapErr ''readiness wait cancelled: %w'' e)
     | Panic p \<Rightarrow> \<exists>v. fst (probe v) = Panic p)"

context ticking
begin

lemma ready_loop_ends:
  assumes forward: "\<And>v r v'. probe v = (r, v') \<Longrightarrow> time v \<le> time v'" and step: "0 < interval"
  shows "\<exists>r w'. ready_loop ck probe timeout interval deadline w = Some (r, w') \<and> wait_end ck probe r"
proof (induction "nat (deadline + interval - time w)" arbitrary: w rule: less_induct)
  case less
  obtain p w1 where p: "probe w = (p, w1)" by fastforce
  obtain now w2 where n: "Now ck w1 = (now, w2)" by fastforce
  obtain x w3 where x: "Pause ck interval w2 = (x, w3)" by fastforce
  note u = ready_loop.simps [of ck probe timeout interval deadline w]
  show ?case
  proof (cases "\<exists>e. p = Fail e \<and> \<not> timeout \<le> 0 \<and> \<not> deadline \<le> now \<and> x = None")
    case True
    have "time w \<le> time w1" "time w1 \<le> now" "now \<le> time w2" "time w2 + interval \<le> time w3"
      using forward [OF p] now_reads [OF n] pause_lasts [of interval w2 w3] x True by auto
    then have "nat (deadline + interval - time w3) < nat (deadline + interval - time w)" using step True by linarith
    from less [OF this] show ?thesis using True p n x u by auto
  next
    case False
    have f: "fst (probe w) = p" "fst (Pause ck interval w2) = x" using p x by simp_all
    show ?thesis
    proof (cases p)
      case (Fail e)
      have "wait_end ck probe (Fail (not_ready e))" using f(1) Fail by (auto simp: wait_end_def)
      moreover have "wait_end ck probe (Fail (WrapErr ''readiness wait cancelled: %w'' a))" if "x = Some a" for a using f(2) that by (auto simp: wait_end_def)
      ultimately show ?thesis using False u p n x Fail by (cases "timeout \<le> 0"; cases "deadline \<le> now"; cases x) auto
    qed (use u p f in \<open>auto simp: wait_end_def intro!: exI [of _ w]\<close>)
  qed
qed

end

lemma ResolveReadiness_pos: "ResolveReadiness c = Inr (t, i) \<Longrightarrow> 0 < i"
  by (auto simp: ResolveReadiness_def DefaultReadinessInterval_def Second_def pos_or_def bindE_def split: option.splits sum.splits if_splits)

text \<open>C39. The readiness wait ends. With a clock whose pauses last, for every probe and configuration it returns: with success only if a probe succeeded, and
  with the error of the last probe, of the cancelled wait or of the configuration otherwise. Without a readiness block, and with a timeout of zero, there is a
  single attempt.\<close>

theorem readiness_wait_ends:
  assumes "ticking ck time" "\<And>v r v'. probe v = (r, v') \<Longrightarrow> time v \<le> time v'"
  shows "(\<exists>r w'. awaitBackendReady ck probe c w = Some (r, w') \<and> (wait_end ck probe r \<or> (\<exists>e. ResolveReadiness c = Inl e \<and> r = Fail e)))
    \<and> (\<forall>i. ResolveReadiness c = Inr (0, i) \<longrightarrow> awaitBackendReady ck probe c w = Some (case probe (snd (Now ck w)) of (Fail e, v) \<Rightarrow> (Fail (not_ready e), v) | x \<Rightarrow> x))"
proof (rule conjI)
  obtain start w1 where n: "Now ck w = (start, w1)" by fastforce
  show "\<exists>r w'. awaitBackendReady ck probe c w = Some (r, w') \<and> (wait_end ck probe r \<or> (\<exists>e. ResolveReadiness c = Inl e \<and> r = Fail e))"
  proof (cases "ResolveReadiness c")
    case (Inr ti)
    then have "0 < snd ti" using ResolveReadiness_pos by (cases ti) auto
    from ticking.ready_loop_ends [OF assms(1) assms(2) this] show ?thesis using Inr n by (fastforce simp: awaitBackendReady_def split: prod.splits)
  qed (simp add: awaitBackendReady_def)
  show "\<forall>i. ResolveReadiness c = Inr (0, i) \<longrightarrow> awaitBackendReady ck probe c w = Some (case probe (snd (Now ck w)) of (Fail e, v) \<Rightarrow> (Fail (not_ready e), v) | x \<Rightarrow> x)"
    using n by (auto simp: awaitBackendReady_def ready_loop.simps [of ck probe] split: prod.splits res.splits)
qed

lemma readiness_wait_ends_witness: "(\<exists>r w'. awaitBackendReady counter_clock (bkProbe demo_backend) demo_ready 0 = Some (r, w')
    \<and> (wait_end counter_clock (bkProbe demo_backend) r \<or> (\<exists>e. ResolveReadiness demo_ready = Inl e \<and> r = Fail e)))"
proof -
  have "v \<le> v'" if "bkProbe demo_backend v = (r, v')" for v r v' using that by (auto simp: demo_backend_def split: if_splits)
  then show ?thesis using readiness_wait_ends [of counter_clock "\<lambda>t. t" "bkProbe demo_backend" demo_ready 0, OF counter.ticking_axioms] by blast
qed











end
