(* ===== verification/Spec2Isabelle.thy ===== *)
theory Spec2Isabelle
  imports Exec_Runner Csi_Dispatch Local_Props Local_Node_Props Local_Cluster_Props Qnap_Node_Props Stats_Walk Startup
begin

text \<open>
  A verification development for nomad-csi-driver: a CSI plugin for Nomad with two storage backends,
  one that carves ZFS volumes out of node-local pools (\<^verbatim>\<open>local\<close>) and one that provisions LUNs on a
  QNAP appliance and attaches them over iSCSI (\<^verbatim>\<open>qnap\<close>).

  \<^bold>\<open>The program and its model.\<close> A gRPC request enters \<^verbatim>\<open>internal/csi\<close>, is checked, converted and
  locked there, and is passed to a backend through the interfaces of \<^verbatim>\<open>internal/driver\<close>. The local
  backend runs zfs, zpool, mkfs, mount and findmnt on its own node, and forwards an operation on a
  volume of another node to that node's controller over HTTP (\<^verbatim>\<open>internal/cluster\<close>). The qnap
  controller talks to the appliance through the package go-qnap. The nodes measure the volumes they
  have staged (\<^verbatim>\<open>internal/stats\<close>); the controller answers queries for the readings. At start-up the configuration is
  resolved, the backend is constructed and probed until it is ready, and only then the socket is served (\<^verbatim>\<open>cmd/nomad-csi-driver/cmd/run.go\<close>).

  A Go function is a HOL function of the same name; one that has effects is a function from a world to
  an outcome (a value, an error value or a panic) and a world (type \<open>io\<close> of \<open>Go_Effects\<close>). The world is
  a type variable: the operating system (record \<open>host\<close>: running commands, reading directories, \<dots>), the
  clock, the network and the appliance are records of functions on it and arguments of every
  definition, so a statement holds for each of them. What a statement needs of them is a locale
  with the documented behaviour, interpreted on an executable simulator. Records have the fields of
  the Go structs; errors keep their type and their \<^verbatim>\<open>Unwrap\<close> chain; 64-bit arithmetic wraps; strings are
  byte strings; Go maps are Isabelle maps or association lists. Log lines and metrics have no
  result and are left out.

  \<^bold>\<open>Theories.\<close>
  \<^item> \<open>Go_Prelude\<close>, \<open>Go_Effects\<close>, \<open>Go_Clock\<close>, \<open>Go_Time\<close>, \<open>Go_Duration\<close>, \<open>Go_Json\<close>: what the sources use of Go and its library
    (integers, strconv, strings, UTF-8, errors, panics, polling loops, \<^verbatim>\<open>time.Parse\<close>, \<^verbatim>\<open>time.ParseDuration\<close>, encoding/json), with
    the shared lemmas and the rules for reasoning about calls.
  \<^item> \<open>Exec_Runner\<close> (internal/exec/runner.go): the command seam, and the log of commands a call issues.
  \<^item> \<open>Driver_Types\<close> (internal/driver): error codes, requests, capabilities, backend interfaces, registry.
  \<^item> \<open>Csi_Locks\<close>, \<open>Csi_Conv\<close>, \<open>Csi_Server\<close>, \<open>Csi_Dispatch\<close> (internal/csi): the keyed locks and the system of
    concurrent RPCs as a step relation, conversions, every RPC handler, the interceptor.
  \<^item> \<open>Zfs\<close>, \<open>Zfs_Spec\<close>, \<open>Zfs_Sim\<close> (internal/zfs): the wrapper, the contract of the zfs commands (locale
    \<open>zfs_host\<close>) and the simulator of \<^verbatim>\<open>zfssim_test.go\<close> that satisfies it.
  \<^item> \<open>Local_Ids\<close>, \<open>Local_Params\<close>, \<open>Local_Ops\<close>, \<open>Local_Safety\<close>, \<open>Local_Spec\<close>, \<open>Local_Props\<close>
    (internal/driver/local: externalid.go, params.go, localops.go): ids, parameters, the operations of
    a node on its pools, what commands they can issue, what they do to the pools.
  \<^item> \<open>Mountutil\<close> (internal/mountutil): format, mount, bind mount, unmount, the mount table.
  \<^item> \<open>Stats_Registry\<close>, \<open>Stats_Inv\<close>, \<open>Stats_System\<close>, \<open>Stats_Props\<close> (internal/stats): the registry of measured
    volumes and its workers, as a step relation over every interleaving.
  \<^item> \<open>Stats_Walk\<close> (internal/stats/walk.go): the pool that counts the files of the volumes, as a step relation;
    its accounting, that every walk returns, that the counts are those of the tree.
  \<^item> \<open>Local_Node\<close>, \<open>Local_Node_Props\<close> (node.go, reconcile.go): staging, publishing, expansion, recovery
    after a restart.
  \<^item> \<open>Cluster_Forward\<close>, \<open>Local_Forward\<close>, \<open>Local_Controller\<close>, \<open>Local_Cluster\<close>, \<open>Local_Cluster_Props\<close>
    (internal/cluster/forward.go, resolver.go; forwardapi.go, controller.go, stats_source.go): the
    forwarding server and client, the wire format, placement and routing, a cluster of controllers.
  \<^item> \<open>Iscsi\<close> (internal/iscsi, internal/multipath): sessions and multipath maps.
  \<^item> \<open>Qnap_Ids\<close>, \<open>Qnap_Client\<close>, \<open>Qnap_Controller\<close> (internal/driver/qnap: externalid.go, params.go, client.go,
    cache.go, controller.go): ids, session, index and every controller operation.
  \<^item> \<open>Qnap_Safety\<close>, \<open>Qnap_Spec\<close>, \<open>Qnap_Index\<close>, \<open>Qnap_Fake\<close>, \<open>Qnap_Props\<close>: the log of calls to the appliance and what
    must precede each; the contract of the appliance (locales \<open>appliance\<close> and \<open>responsive\<close>); deletion, creation
    and the index under it; the appliance in memory of \<^verbatim>\<open>fakeclient_test.go\<close> that satisfies it; the properties.
  \<^item> \<open>Qnap_Node\<close>, \<open>Qnap_Reconcile\<close> (node.go, meta.go, sancache.go, reconciler.go, stats_reconcile.go): every operation of the
    SAN node, the waits, the sweep that logs leaked targets out and the one that rebuilds the registry.
  \<^item> \<open>Qnap_Attach\<close>, \<open>Qnap_Node_Props\<close>: a calculus for the outcome of a call and the commands it runs, followed through attach
    and unstage; the properties of the node: what it logs in and out, what it rebuilds, that its waits end.
  \<^item> \<open>Cluster_Nomad\<close> (internal/cluster: nomad_http.go, nomad_resolver.go, nomad_volumes.go): peers and volume ids as Nomad lists them,
    the caches, and what is answered while Nomad cannot be asked.
  \<^item> \<open>Stats_Query\<close> (qnap/stats_forward.go, qnap/stats_source.go, stats/query_http.go): the fan-out to the nodes (locale \<open>san_nodes\<close>), the
    aggregate, the query endpoint; its answers are exactly those of the registries of the nodes.
  \<^item> \<open>Config\<close> (internal/config, the checks of qnap/backend.go): the records of the configuration, durations and defaults.
  \<^item> \<open>Backends\<close> (local/backend.go, qnap/backend.go): the constructors, from a configuration to the parts of a backend or an error.
  \<^item> \<open>Startup\<close> (csi/server.go, cmd/run.go): flags, readiness wait, server and shutdown, with the trace of a run; what a constructed backend is.

  \<^bold>\<open>Bounds and fuel.\<close> No definition uses fuel. The waiting loops are partial functions (\<open>Go_Clock.poll\<close> and \<open>ready_loop\<close>:
  \<^term>\<open>None\<close> is not returning) and are proved to return under the locale \<open>ticking\<close>; every other loop is
  structural or has a termination proof. Requests that cross the wire are bounded by the 1 MiB limit of
  the sources; the properties about forwarding state the lengths under which the limit is not reached.

  \<^bold>\<open>Not modelled.\<close> \<^verbatim>\<open>internal/metrics\<close>, the collectors and the hooks feed Prometheus; \<^verbatim>\<open>debughttp.go\<close> copies requests to the log;
  \<^verbatim>\<open>exec/fake.go\<close> is a test double; the commands of the command line, the logger and the decoding of HCL are libraries. Of the
  background loops the body is modelled and the ticker is not; listening, serving and closing of HTTP and gRPC servers are
  single calls of the environment. zfs, zpool, mkfs, mount, iscsiadm, multipathd and go-qnap are not part of the
  sources: they are parameters, with their documented behaviour as the laws of a locale.
\<close>

end
